(* ===== verification/SubX_Prelude.thy ===== *)
theory SubX_Prelude
  imports Main "HOL-Library.Word" "HOL-Library.Sublist"
begin

text \<open>
  The prelude: the Rust string and integer operations the components share, with the
  lemmas their proofs rest on.

  A Rust \<open>str\<close> is a sequence of UTF-8 bytes, and every index, length and slice of
  the source counts bytes.  A \<open>str\<close> is therefore a list of 8-bit characters, one
  for each byte; \<open>length\<close> is \<open>str::len\<close>.  Searching for an ASCII pattern, splitting at one
  and replacing one act on bytes exactly as they act on characters, because no byte of a
  multi-byte character is an ASCII byte.
\<close>

named_theorems text_simps \<open>rewrite rules of the text operations\<close>
named_theorems text_intros \<open>facts that side conditions on texts reduce to\<close>

type_synonym str = string
type_synonym u8 = "8 word"
type_synonym u32 = "32 word"
type_synonym u64 = "64 word"

abbreviation LF :: char where "LF \<equiv> CHR 0x0A"
abbreviation CR :: char where "CR \<equiv> CHR 0x0D"
abbreviation backslash :: char where "backslash \<equiv> CHR 0x5C"
abbreviation code :: "char \<Rightarrow> nat" where "code c \<equiv> of_char c"

section \<open>Characters\<close>

definition is_digit :: "char \<Rightarrow> bool" where
  "is_digit c \<longleftrightarrow> 48 \<le> code c \<and> code c \<le> 57"

definition digit_val :: "char \<Rightarrow> nat" where
  "digit_val c = code c - 48"

definition digit_char :: "nat \<Rightarrow> char" where
  "digit_char n = char_of (48 + n)"

definition is_ascii :: "str \<Rightarrow> bool" where
  "is_ascii s \<longleftrightarrow> list_all (\<lambda>c. code c < 128) s"

text \<open>\<open>char::to_ascii_lowercase\<close>; bytes outside \<open>A-Z\<close> are unchanged.\<close>

definition ascii_lower_char :: "char \<Rightarrow> char" where
  "ascii_lower_char c = (if 65 \<le> code c \<and> code c \<le> 90 then char_of (code c + 32) else c)"

definition ascii_lower :: "str \<Rightarrow> str" where
  "ascii_lower s = map ascii_lower_char s"

definition eq_ignore_ascii_case :: "str \<Rightarrow> str \<Rightarrow> bool" where
  "eq_ignore_ascii_case a b \<longleftrightarrow> ascii_lower a = ascii_lower b"

lemma code_digit_char [simp]: "n < 10 \<Longrightarrow> code (digit_char n) = 48 + n"
  by (simp add: digit_char_def of_char_of)

lemma is_digit_digit_char [simp]: "n < 10 \<Longrightarrow> is_digit (digit_char n)"
  by (simp add: is_digit_def)

lemma digit_val_digit_char [simp]: "n < 10 \<Longrightarrow> digit_val (digit_char n) = n"
  by (simp add: digit_val_def)

lemma eq_char_of_iff: "c = char_of n \<longleftrightarrow> code c = n mod 256"
  by (metis char_of_char char_of_mod_256 of_char_of)

lemma digit_val_less: "is_digit c \<Longrightarrow> digit_val c < 10"
  unfolding is_digit_def digit_val_def by linarith

lemma is_digit_code: "is_digit c \<Longrightarrow> code c < 128"
  by (simp add: is_digit_def)

lemma digit_neq:
  assumes "is_digit c" "\<not> is_digit d"
  shows "c \<noteq> d"
  using assms by auto

lemma not_digit_consts [simp]:
  "\<not> is_digit LF" "\<not> is_digit CR" "\<not> is_digit (CHR '':'')" "\<not> is_digit (CHR ''.'')"
  "\<not> is_digit (CHR '','')" "\<not> is_digit (CHR '' '')" "\<not> is_digit (CHR ''-'')"
  "\<not> is_digit (CHR ''+'')" "\<not> is_digit (CHR ''{'')" "\<not> is_digit (CHR ''}'')"
  "\<not> is_digit (CHR ''>'')" "\<not> is_digit (CHR ''<'')"
  by (simp_all add: is_digit_def)

section \<open>Prefixes, suffixes and occurrences\<close>

definition strip_prefix :: "str \<Rightarrow> str \<Rightarrow> str option" where
  "strip_prefix p s = (if prefix p s then Some (drop (length p) s) else None)"

definition strip_suffix :: "str \<Rightarrow> str \<Rightarrow> str option" where
  "strip_suffix p s = (if suffix p s then Some (take (length s - length p) s) else None)"

abbreviation contains_str :: "str \<Rightarrow> str \<Rightarrow> bool" where
  "contains_str s p \<equiv> sublist p s"

text \<open>\<open>str::find\<close> and \<open>str::rfind\<close> of an ASCII character: the byte offset.\<close>

fun find_char :: "char \<Rightarrow> str \<Rightarrow> nat option" where
  "find_char c [] = None"
| "find_char c (x # xs) = (if x = c then Some 0 else map_option Suc (find_char c xs))"

definition rfind_char :: "char \<Rightarrow> str \<Rightarrow> nat option" where
  "rfind_char c s = map_option (\<lambda>i. length s - 1 - i) (find_char c (rev s))"

lemma find_char_None: "find_char c s = None \<longleftrightarrow> c \<notin> set s"
  by (induction s) auto

lemma find_char_Some:
  "find_char c s = Some i \<longleftrightarrow> i < length s \<and> s ! i = c \<and> c \<notin> set (take i s)"
proof (induction s arbitrary: i)
  case (Cons x xs)
  then show ?case by (cases i) auto
qed simp

lemma find_char_append:
  "find_char c (a @ b) =
     (case find_char c a of Some i \<Rightarrow> Some i | None \<Rightarrow> map_option ((+) (length a)) (find_char c b))"
proof (induction a)
  case (Cons x xs)
  then show ?case
    by (cases "find_char c b") (auto split: option.splits)
qed (cases "find_char c b"; simp)

section \<open>Joining and splitting\<close>

text \<open>\<open>[&str]::join\<close>.\<close>

fun join :: "str \<Rightarrow> str list \<Rightarrow> str" where
  "join sep [] = []"
| "join sep [x] = x"
| "join sep (x # y # ys) = x @ sep @ join sep (y # ys)"

text \<open>
  \<open>str::split\<close> with a string pattern: the matches are taken from left to right and do not
  overlap.  The source never splits at the empty pattern.
\<close>

definition cons_head :: "'a \<Rightarrow> 'a list list \<Rightarrow> 'a list list" where
  "cons_head c bs = (case bs of [] \<Rightarrow> [[c]] | b # r \<Rightarrow> (c # b) # r)"

function split_str :: "str \<Rightarrow> str \<Rightarrow> str list" where
  "split_str sep s =
     (if s = [] \<or> sep = [] then [s]
      else if prefix sep s then [] # split_str sep (drop (length sep) s)
      else cons_head (hd s) (split_str sep (tl s)))"
  by pat_completeness auto
termination
  by (relation "measure (\<lambda>(sep, s). length s)") auto

declare split_str.simps [simp del]

lemma cons_head_Cons [simp]: "cons_head c (b # r) = (c # b) # r"
  by (simp add: cons_head_def)

lemma cons_head_not_Nil [simp]: "cons_head c bs \<noteq> []"
  by (simp add: cons_head_def split: list.splits)

lemma split_str_Nil [simp]: "split_str sep [] = [[]]"
  by (subst split_str.simps) simp

lemma split_str_sep: "sep \<noteq> [] \<Longrightarrow> split_str sep (sep @ s) = [] # split_str sep s"
  by (subst split_str.simps) simp

lemma split_str_step:
  "sep \<noteq> [] \<Longrightarrow> \<not> prefix sep (c # s) \<Longrightarrow> split_str sep (c # s) = cons_head c (split_str sep s)"
  by (subst split_str.simps) simp

lemma split_str_char [simp]:
  "split_str [c] (x # s) = (if x = c then [] # split_str [c] s else cons_head x (split_str [c] s))"
  using split_str_sep [of "[c]" s] split_str_step [of "[c]" x s] by auto

lemma split_str_not_Nil [simp]: "split_str sep s \<noteq> []"
  by (subst split_str.simps) simp

lemma join_cons_head: "bs \<noteq> [] \<Longrightarrow> join sep (cons_head c bs) = c # join sep bs"
  by (cases bs; cases "tl bs") (auto simp: cons_head_def)

text \<open>Joining the parts with the separator gives the text back.\<close>

lemma join_split_str: "sep \<noteq> [] \<Longrightarrow> join sep (split_str sep s) = s"
proof (induction sep s rule: split_str.induct)
  case (1 sep s)
  show ?case
  proof (cases "s = []")
    case True
    then show ?thesis by simp
  next
    case False
    then show ?thesis
    proof (cases "prefix sep s")
      case True
      then obtain r where r: "s = sep @ r" by (auto simp: prefix_def)
      with 1 False have "join sep (split_str sep r) = r" by auto
      moreover obtain b bs where "split_str sep r = b # bs"
        by (cases "split_str sep r") auto
      ultimately show ?thesis using r 1(3) by (simp add: split_str_sep)
    next
      case np: False
      from False obtain c r where c: "s = c # r" by (cases s) auto
      with 1 np have "join sep (split_str sep r) = r" by auto
      with c np 1(3) show ?thesis by (simp add: split_str_step join_cons_head)
    qed
  qed
qed

text \<open>\<open>str::replace\<close>, \<open>str::splitn\<close> with an ASCII character.\<close>

definition replace_str :: "str \<Rightarrow> str \<Rightarrow> str \<Rightarrow> str" where
  "replace_str from to s = join to (split_str from s)"

fun splitn_char :: "nat \<Rightarrow> char \<Rightarrow> str \<Rightarrow> str list" where
  "splitn_char 0 c s = []"
| "splitn_char (Suc 0) c s = [s]"
| "splitn_char (Suc (Suc n)) c s =
     (case find_char c s of
        None \<Rightarrow> [s]
      | Some i \<Rightarrow> take i s # splitn_char (Suc n) c (drop (Suc i) s))"

lemma replace_str_Nil [simp]: "replace_str p r [] = []"
  by (simp add: replace_str_def)

lemma replace_str_char [simp]:
  "replace_str [c] r (x # s) = (if x = c then r @ replace_str [c] r s else x # replace_str [c] r s)"
proof -
  obtain b bs where "split_str [c] s = b # bs"
    by (cases "split_str [c] s") auto
  then show ?thesis
    by (cases bs) (auto simp: replace_str_def)
qed

lemma replace_str_sep: "p \<noteq> [] \<Longrightarrow> replace_str p r (p @ s) = r @ replace_str p r s"
  by (cases "split_str p s"; cases "tl (split_str p s)")
    (auto simp: replace_str_def split_str_sep)

lemma replace_str_step:
  "p \<noteq> [] \<Longrightarrow> \<not> prefix p (c # s) \<Longrightarrow> replace_str p r (c # s) = c # replace_str p r s"
  by (simp add: replace_str_def split_str_step join_cons_head)

lemma replace_str_absent:
  assumes "p \<noteq> []" "\<not> sublist p s"
  shows "replace_str p r s = s"
  using assms(2)
proof (induction s)
  case (Cons c s)
  have "\<not> prefix p (c # s)" "\<not> sublist p s"
    using Cons.prems by (auto simp: sublist_Cons_right)
  with Cons.IH assms(1) show ?case by (simp add: replace_str_step)
qed simp

lemma replace_char_absent: "c \<notin> set s \<Longrightarrow> replace_str [c] r s = s"
  by (induction s) auto

lemma replace_char_append:
  "replace_str [c] r (a @ b) = replace_str [c] r a @ replace_str [c] r b"
  by (induction a) auto

lemma split_char_absent: "c \<notin> set s \<Longrightarrow> split_str [c] s = [s]"
  by (induction s) auto

lemma split_char_append:
  "c \<notin> set a \<Longrightarrow> split_str [c] (a @ c # b) = a # split_str [c] b"
  by (induction a) auto

text \<open>\<open>str::lines\<close>: a final line terminator opens no line, and a carriage return is stripped only
  where a line feed follows it.\<close>

definition strip_cr :: "str \<Rightarrow> str" where
  "strip_cr l = (if l \<noteq> [] \<and> last l = CR then butlast l else l)"

definition str_lines :: "str \<Rightarrow> str list" where
  "str_lines s =
     (let ps = split_str [LF] s
      in map strip_cr (butlast ps) @ (if last ps = [] then [] else [last ps]))"

lemma strip_cr_id: "CR \<notin> set l \<Longrightarrow> strip_cr l = l"
  using last_in_set by (fastforce simp: strip_cr_def)

lemma set_split_str_subset: "b \<in> set (split_str [c] s) \<Longrightarrow> set b \<subseteq> set s"
proof (induction s arbitrary: b)
  case (Cons x s)
  obtain h t where "split_str [c] s = h # t" by (cases "split_str [c] s") auto
  with Cons.IH [of h] Cons.IH [of b] Cons.prems show ?case by (auto split: if_splits)
qed simp

lemma str_lines_split:
  assumes "CR \<notin> set s" "s \<noteq> []" "last s \<noteq> LF"
  shows "str_lines s = split_str [LF] s"
proof -
  let ?ps = "split_str [LF] s"
  have "map strip_cr (butlast ?ps) = butlast ?ps"
    using assms(1) set_split_str_subset [of _ LF s]
    by (intro map_idI strip_cr_id) (auto dest!: in_set_butlastD)
  moreover have "last ?ps \<noteq> []"
    using assms(2,3)
  proof (induction s)
    case (Cons x s)
    show ?case
    proof (cases "s = []")
      case True
      with Cons.prems show ?thesis by (simp add: cons_head_def)
    next
      case False
      with Cons have "last (split_str [LF] s) \<noteq> []" by simp
      moreover obtain h t where "split_str [LF] s = h # t"
        by (cases "split_str [LF] s") auto
      ultimately show ?thesis by (auto split: if_splits)
    qed
  qed simp
  ultimately show ?thesis
    by (simp add: str_lines_def Let_def)
qed

lemma str_lines_Nil [simp]: "str_lines [] = []"
  by (simp add: str_lines_def)

lemma str_lines_line: "LF \<notin> set l \<Longrightarrow> str_lines (l @ LF # s) = strip_cr l # str_lines s"
  by (simp add: str_lines_def split_char_append Let_def)

lemma str_lines_concat:
  "\<forall>l \<in> set ls. LF \<notin> set l \<and> strip_cr l = l \<Longrightarrow> str_lines (concat (map (\<lambda>l. l @ [LF]) ls)) = ls"
  by (induction ls) (simp_all add: str_lines_line)

section \<open>Trimming\<close>

text \<open>
  The UTF-8 encodings of the characters with the Unicode property White_Space, which is what
  \<open>char::is_whitespace\<close> tests and \<open>str::trim\<close> removes from both ends.
\<close>

definition utf8_ws :: "str list" where
  "utf8_ws =
     [[CHR 0x20], [CHR 0x09], [CHR 0x0A], [CHR 0x0B], [CHR 0x0C], [CHR 0x0D],
      [CHR 0xC2, CHR 0x85], [CHR 0xC2, CHR 0xA0], [CHR 0xE1, CHR 0x9A, CHR 0x80],
      [CHR 0xE2, CHR 0x80, CHR 0x80], [CHR 0xE2, CHR 0x80, CHR 0x81],
      [CHR 0xE2, CHR 0x80, CHR 0x82], [CHR 0xE2, CHR 0x80, CHR 0x83],
      [CHR 0xE2, CHR 0x80, CHR 0x84], [CHR 0xE2, CHR 0x80, CHR 0x85],
      [CHR 0xE2, CHR 0x80, CHR 0x86], [CHR 0xE2, CHR 0x80, CHR 0x87],
      [CHR 0xE2, CHR 0x80, CHR 0x88], [CHR 0xE2, CHR 0x80, CHR 0x89],
      [CHR 0xE2, CHR 0x80, CHR 0x8A], [CHR 0xE2, CHR 0x80, CHR 0xA8],
      [CHR 0xE2, CHR 0x80, CHR 0xA9], [CHR 0xE2, CHR 0x80, CHR 0xAF],
      [CHR 0xE2, CHR 0x81, CHR 0x9F], [CHR 0xE3, CHR 0x80, CHR 0x80]]"

function trim_with :: "str list \<Rightarrow> str \<Rightarrow> str" where
  "trim_with ws s =
     (case List.find (\<lambda>e. e \<noteq> [] \<and> prefix e s) ws of
        None \<Rightarrow> s
      | Some e \<Rightarrow> trim_with ws (drop (length e) s))"
  by pat_completeness auto
termination
  by (relation "measure (\<lambda>(ws, s). length s)") (auto simp: find_Some_iff prefix_def)

declare trim_with.simps [simp del]

definition trim_start :: "str \<Rightarrow> str" where
  "trim_start s = trim_with utf8_ws s"

definition trim_end :: "str \<Rightarrow> str" where
  "trim_end s = rev (trim_with (map rev utf8_ws) (rev s))"

definition trim :: "str \<Rightarrow> str" where
  "trim s = trim_end (trim_start s)"

text \<open>A printable ASCII byte neither begins nor ends the encoding of a white space character.\<close>

definition is_graphic :: "char \<Rightarrow> bool" where
  "is_graphic c \<longleftrightarrow> 33 \<le> code c \<and> code c \<le> 126"

lemma is_graphic_digit: "is_digit c \<Longrightarrow> is_graphic c"
  by (simp add: is_digit_def is_graphic_def)

lemma trim_with_Nil [simp]: "trim_with ws [] = []"
  by (subst trim_with.simps) (auto split: option.split simp: find_Some_iff)

lemma trim_with_stop: "\<forall>e \<in> set ws. e = [] \<or> \<not> prefix e s \<Longrightarrow> trim_with ws s = s"
  by (subst trim_with.simps) (auto split: option.split simp: find_Some_iff)

lemma trim_with_suffix: "suffix (trim_with ws s) s"
proof (induction ws s rule: trim_with.induct)
  case (1 ws s)
  show ?case
  proof (cases "List.find (\<lambda>e. e \<noteq> [] \<and> prefix e s) ws")
    case None
    then show ?thesis by (subst trim_with.simps) simp
  next
    case (Some e)
    with 1 have "suffix (trim_with ws (drop (length e) s)) (drop (length e) s)" by simp
    moreover have "suffix (drop (length e) s) s" by (rule suffix_drop)
    ultimately show ?thesis
      using Some by (subst trim_with.simps) (auto intro: suffix_order.trans)
  qed
qed

lemma trim_with_none:
  "e \<in> set ws \<Longrightarrow> e \<noteq> [] \<Longrightarrow> \<not> prefix e (trim_with ws s)"
proof (induction ws s rule: trim_with.induct)
  case (1 ws s)
  show ?case
  proof (cases "List.find (\<lambda>e. e \<noteq> [] \<and> prefix e s) ws")
    case None
    then have "trim_with ws s = s" by (subst trim_with.simps) simp
    with None 1(2,3) show ?thesis by (auto simp: find_None_iff)
  next
    case (Some e)
    with 1 show ?thesis by (subst trim_with.simps) auto
  qed
qed

lemma trim_with_idem: "trim_with ws (trim_with ws s) = trim_with ws s"
  using trim_with_none by (intro trim_with_stop) auto

lemma utf8_ws_hd: "e \<in> set utf8_ws \<Longrightarrow> e \<noteq> [] \<and> \<not> is_graphic (hd e) \<and> \<not> is_graphic (last e)"
  by (auto simp: utf8_ws_def is_graphic_def)

lemma trim_start_graphic [simp]:
  assumes "is_graphic c" shows "trim_start (c # s) = c # s"
proof -
  have "\<not> prefix e (c # s)" if "e \<in> set utf8_ws" for e
    using utf8_ws_hd [OF that] assms by (cases e) auto
  then show ?thesis by (auto simp: trim_start_def intro!: trim_with_stop)
qed

lemma trim_end_graphic [simp]:
  assumes "is_graphic c" shows "trim_end (s @ [c]) = s @ [c]"
proof -
  have "\<not> prefix (rev e) (c # rev s)" if "e \<in> set utf8_ws" for e
    using utf8_ws_hd [OF that] assms by (cases e rule: rev_cases) auto
  then have "trim_with (map rev utf8_ws) (c # rev s) = c # rev s"
    by (intro trim_with_stop) auto
  then show ?thesis by (simp add: trim_end_def)
qed

lemma trim_end_Nil [simp]: "trim_end [] = []" and trim_start_Nil [simp]: "trim_start [] = []"
  and trim_Nil [simp]: "trim [] = []"
  by (simp_all add: trim_end_def trim_start_def trim_def)

lemma trim_graphic:
  assumes "s \<noteq> []" "is_graphic (hd s)" "is_graphic (last s)"
  shows "trim s = s"
proof -
  obtain c r where c: "s = c # r" using assms(1) by (cases s) auto
  obtain q d where d: "s = q @ [d]" using assms(1) by (cases s rule: rev_cases) auto
  have "trim_start s = s" using assms(2) c by simp
  moreover have "trim_end s = s" using assms(3) d by simp
  ultimately show ?thesis by (simp add: trim_def)
qed

lemma trim_all_graphic: "list_all is_graphic s \<Longrightarrow> trim s = s"
  by (cases "s = []") (auto intro!: trim_graphic simp: list_all_iff)

lemma trim_end_prefix: "prefix (trim_end s) s"
  using trim_with_suffix [of "map rev utf8_ws" "rev s"]
  by (simp add: trim_end_def suffix_to_prefix)

lemma set_trim_subset: "set (trim s) \<subseteq> set s"
proof -
  have "set (trim s) \<subseteq> set (trim_start s)"
    unfolding trim_def using trim_end_prefix by (rule set_mono_prefix)
  moreover have "set (trim_start s) \<subseteq> set s"
    unfolding trim_start_def using trim_with_suffix by (rule set_mono_suffix)
  ultimately show ?thesis by blast
qed

lemma utf8_ws_not_graphic: "e \<in> set utf8_ws \<Longrightarrow> c \<in> set e \<Longrightarrow> \<not> is_graphic c"
  by (auto simp: utf8_ws_def is_graphic_def)

lemma trim_with_keeps:
  assumes "\<And>e d. e \<in> set ws \<Longrightarrow> d \<in> set e \<Longrightarrow> d \<noteq> c"
  shows "c \<in> set s \<Longrightarrow> c \<in> set (trim_with ws s)"
  using assms
proof (induction ws s rule: trim_with.induct)
  case (1 ws s)
  show ?case
  proof (cases "List.find (\<lambda>e. e \<noteq> [] \<and> prefix e s) ws")
    case None
    then show ?thesis using 1(2) by (subst trim_with.simps) simp
  next
    case (Some e)
    then have e: "e \<in> set ws" "prefix e s" by (auto simp: find_Some_iff)
    then obtain r where r: "s = e @ r" by (auto simp: prefix_def)
    have "c \<in> set r" using 1(2,3) e(1) r by auto
    with 1 Some r have "c \<in> set (trim_with ws r)" by auto
    with Some r show ?thesis by (subst trim_with.simps) simp
  qed
qed

lemma trim_keeps_graphic: "is_graphic c \<Longrightarrow> c \<in> set s \<Longrightarrow> c \<in> set (trim s)"
  using utf8_ws_not_graphic
  by (auto simp: trim_def trim_end_def trim_start_def intro!: trim_with_keeps)

text \<open>A longer text ends in white space only if its non-empty last part does, when no encoding
  spans the joint.\<close>

lemma utf8_ws_multi: "e \<in> set utf8_ws \<Longrightarrow> c \<in> set e \<Longrightarrow> code c < 128 \<Longrightarrow> e = [c]"
  by (auto simp: utf8_ws_def)

lemma trim_end_append:
  assumes "trim_end t = t" "t \<noteq> []" "p \<noteq> []" "code (last p) < 128"
  shows "trim_end (p @ t) = p @ t"
proof -
  have "\<not> suffix e (p @ t)" if "e \<in> set utf8_ws" for e
  proof
    assume "suffix e (p @ t)"
    then have or: "suffix e t \<or> (\<exists>q. e = q @ t \<and> suffix q p)"
      by (simp add: suffix_append)
    show False
    proof (cases "suffix e t")
      case True
      have "\<not> prefix (rev e) (trim_with (map rev utf8_ws) (rev t))"
        using that utf8_ws_hd [OF that] by (intro trim_with_none) auto
      moreover have "trim_with (map rev utf8_ws) (rev t) = rev t"
        using assms(1) by (metis rev_rev_ident trim_end_def)
      ultimately show False using True by (simp add: suffix_to_prefix)
    next
      case False
      with or obtain q where q: "e = q @ t" "suffix q p" by blast
      with False have "q \<noteq> []" by auto
      with q(2) have "last p = last q" by (auto simp: suffix_def)
      with \<open>q \<noteq> []\<close> q(1) have "last p \<in> set e" by simp
      from utf8_ws_multi [OF that this assms(4)] q(1) \<open>q \<noteq> []\<close> assms(2) show False
        by (simp add: append_eq_Cons_conv)
    qed
  qed
  then have "trim_with (map rev utf8_ws) (rev (p @ t)) = rev (p @ t)"
    by (intro trim_with_stop) (auto simp: suffix_to_prefix)
  then show ?thesis by (metis rev_rev_ident trim_end_def)
qed

lemma trim_end_last:
  assumes "trim_end t = t" "t \<noteq> []" "[c] \<in> set utf8_ws"
  shows "last t \<noteq> c"
proof
  assume "last t = c"
  then have "prefix [c] (rev t)" using assms(2) by (cases t rule: rev_cases) auto
  moreover have "trim_with (map rev utf8_ws) (rev t) = rev t"
    using assms(1) by (metis rev_rev_ident trim_end_def)
  moreover have "[c] \<in> set (map rev utf8_ws)" using assms(3) by force
  ultimately show False
    using trim_with_none [of "[c]" "map rev utf8_ws" "rev t"] by simp
qed

lemma trim_start_space [simp]: "trim_start (CHR '' '' # s) = trim_start s"
  unfolding trim_start_def by (subst trim_with.simps) (simp add: utf8_ws_def)

lemma splitn_char_Cons:
  "c \<notin> set a \<Longrightarrow> splitn_char (Suc (Suc n)) c (a @ c # b) = a # splitn_char (Suc n) c b"
proof -
  assume "c \<notin> set a"
  then have "find_char c (a @ c # b) = Some (length a)"
    by (auto simp: find_char_Some)
  then show ?thesis by simp
qed

section \<open>Blank lines\<close>

definition no_blank :: "str \<Rightarrow> bool" where
  "no_blank s \<longleftrightarrow> \<not> sublist [LF, LF] s"

lemma no_blank_Nil [simp]: "no_blank []"
  by (simp add: no_blank_def)

lemma no_blank_Cons:
  "no_blank (c # s) \<longleftrightarrow> \<not> (c = LF \<and> s \<noteq> [] \<and> hd s = LF) \<and> no_blank s"
  by (cases s) (auto simp: no_blank_def sublist_Cons_right)

lemma no_blank_line:
  "LF \<notin> set a \<Longrightarrow> no_blank (a @ LF # b) \<longleftrightarrow> (b = [] \<or> hd b \<noteq> LF) \<and> no_blank b"
proof (induction a)
  case (Cons x a)
  then show ?case by (cases a) (auto simp: no_blank_Cons)
qed (auto simp: no_blank_Cons)

lemma split_blank_append:
  "no_blank b \<Longrightarrow> b = [] \<or> last b \<noteq> LF \<Longrightarrow>
   split_str [LF, LF] (b @ LF # LF # r) = b # split_str [LF, LF] r"
proof (induction b)
  case Nil
  show ?case using split_str_sep [of "[LF, LF]" r] by simp
next
  case (Cons c b)
  have "\<not> prefix [LF, LF] (c # b @ LF # LF # r)"
    using Cons.prems by (cases b) (auto simp: no_blank_Cons)
  with Cons show ?case by (auto simp: split_str_step no_blank_Cons split: if_splits)
qed

lemma split_blank_absent: "no_blank b \<Longrightarrow> split_str [LF, LF] b = [b]"
proof (induction b)
  case (Cons c b)
  have "\<not> prefix [LF, LF] (c # b)"
    using Cons.prems by (cases b) (auto simp: no_blank_Cons)
  with Cons show ?case by (auto simp: split_str_step no_blank_Cons)
qed simp

section \<open>Integers\<close>

text \<open>\<open>core::num::IntErrorKind\<close>, as far as unsigned parsing reaches it.\<close>

datatype int_error = IntEmpty | InvalidDigit | PosOverflow

definition int_error_msg :: "int_error \<Rightarrow> str" where
  "int_error_msg e =
     (case e of
        IntEmpty \<Rightarrow> ''cannot parse integer from empty string''
      | InvalidDigit \<Rightarrow> ''invalid digit found in string''
      | PosOverflow \<Rightarrow> ''number too large to fit in target type'')"

text \<open>\<open>digits_val b acc s\<close> reads decimal digits into an unsigned type of \<open>b\<close> values.\<close>

fun digits_val :: "nat \<Rightarrow> nat \<Rightarrow> str \<Rightarrow> int_error + nat" where
  "digits_val b acc [] = Inr acc"
| "digits_val b acc (c # s) =
     (if \<not> is_digit c then Inl InvalidDigit
      else if b \<le> acc * 10 + digit_val c then Inl PosOverflow
      else digits_val b (acc * 10 + digit_val c) s)"

definition parse_uint :: "nat \<Rightarrow> str \<Rightarrow> int_error + nat" where
  "parse_uint b s =
     (if s = [] then Inl IntEmpty
      else if s = ''+'' \<or> s = ''-'' then Inl InvalidDigit
      else if hd s = CHR ''+'' then digits_val b 0 (tl s)
      else digits_val b 0 s)"

fun show_nat :: "nat \<Rightarrow> str" where
  "show_nat n = (if n < 10 then [digit_char n] else show_nat (n div 10) @ [digit_char (n mod 10)])"

declare show_nat.simps [simp del]

text \<open>The format \<open>{:0w}\<close>: zeros on the left up to the width \<open>w\<close>.\<close>

definition pad0 :: "nat \<Rightarrow> str \<Rightarrow> str" where
  "pad0 w s = replicate (w - length s) (CHR ''0'') @ s"

fun dec_val :: "nat \<Rightarrow> str \<Rightarrow> nat" where
  "dec_val acc [] = acc"
| "dec_val acc (c # s) = dec_val (acc * 10 + digit_val c) s"

lemma dec_val_append: "dec_val acc (a @ b) = dec_val (dec_val acc a) b"
  by (induction a arbitrary: acc) auto

lemma dec_val_mono: "acc \<le> dec_val acc s"
proof (induction s arbitrary: acc)
  case (Cons c s)
  have "acc \<le> acc * 10 + digit_val c" by simp
  also have "\<dots> \<le> dec_val (acc * 10 + digit_val c) s" by (rule Cons.IH)
  finally show ?case by simp
qed simp

lemma digits_val_dec_val:
  "list_all is_digit s \<Longrightarrow> acc < b \<Longrightarrow>
   digits_val b acc s = (if dec_val acc s < b then Inr (dec_val acc s) else Inl PosOverflow)"
proof (induction s arbitrary: acc)
  case (Cons c s)
  show ?case
  proof (cases "b \<le> acc * 10 + digit_val c")
    case True
    then have "\<not> dec_val (acc * 10 + digit_val c) s < b"
      using dec_val_mono [of "acc * 10 + digit_val c" s] by linarith
    with Cons.prems True show ?thesis by simp
  next
    case False
    with Cons show ?thesis by simp
  qed
qed simp

lemma list_all_digit_show_nat [simp]: "list_all is_digit (show_nat n)"
  by (induction n rule: show_nat.induct) (subst show_nat.simps, auto)

lemma show_nat_not_Nil [simp]: "show_nat n \<noteq> []"
  by (subst show_nat.simps) simp

lemma dec_val_show_nat [simp]: "dec_val 0 (show_nat n) = n"
proof (induction n rule: show_nat.induct)
  case (1 n)
  then show ?case by (subst show_nat.simps) (auto simp: dec_val_append)
qed

lemma dec_val_zeros [simp]: "dec_val 0 (replicate k (CHR ''0'')) = 0"
  by (induction k) (auto simp: digit_val_def)

lemma dec_val_pad0 [simp]: "dec_val 0 (pad0 w (show_nat n)) = n"
  by (simp add: pad0_def dec_val_append)

lemma list_all_digit_pad0 [simp]: "list_all is_digit (pad0 w (show_nat n))"
  using list_all_digit_show_nat [of n] by (auto simp: pad0_def list_all_iff is_digit_def)

lemma pad0_not_Nil [simp]: "pad0 w (show_nat n) \<noteq> []"
  by (simp add: pad0_def)

lemma parse_uint_digits:
  assumes "list_all is_digit s" "s \<noteq> []" "dec_val 0 s < b"
  shows "parse_uint b s = Inr (dec_val 0 s)"
proof -
  have "is_digit (hd s)" using assms(1,2) by (cases s) auto
  then have "hd s \<noteq> CHR ''+''" "s \<noteq> ''+''" "s \<noteq> ''-''" by auto
  then show ?thesis
    using assms by (simp add: parse_uint_def digits_val_dec_val)
qed

lemma parse_uint_pad0 [simp]: "n < b \<Longrightarrow> parse_uint b (pad0 w (show_nat n)) = Inr n"
  by (simp add: parse_uint_digits)

lemma parse_uint_show_nat [simp]: "n < b \<Longrightarrow> parse_uint b (show_nat n) = Inr n"
  by (simp add: parse_uint_digits)

lemma parse_uint_bound: "parse_uint b s = Inr n \<Longrightarrow> n < b"
proof -
  have *: "digits_val b acc s = Inr n \<Longrightarrow> acc < b \<Longrightarrow> n < b" for acc s
    by (induction b acc s rule: digits_val.induct) (auto split: if_splits)
  have "0 < b \<or> s = [] \<or> digits_val b 0 s \<noteq> Inr n" by (cases s) auto
  assume "parse_uint b s = Inr n"
  then show ?thesis
    by (cases "tl s"; cases s) (auto simp: parse_uint_def dest!: * split: if_splits)
qed

lemma length_show_nat_le: "n < 10 ^ k \<Longrightarrow> 0 < k \<Longrightarrow> length (show_nat n) \<le> k"
proof (induction k arbitrary: n)
  case (Suc k)
  show ?case
  proof (cases "n < 10")
    case False
    with Suc.prems have "n div 10 < 10 ^ k" "0 < k" by (cases k; auto)+
    with Suc.IH False show ?thesis by (subst show_nat.simps) auto
  qed (subst show_nat.simps, simp)
qed simp

lemma length_pad0 [simp]: "length (pad0 w s) = max w (length s)"
  by (simp add: pad0_def)

lemma length_pad0_show_nat: "n < 10 ^ w \<Longrightarrow> 0 < w \<Longrightarrow> length (pad0 w (show_nat n)) = w"
  using length_show_nat_le [of n w] by simp

section \<open>Results and checked arithmetic\<close>

text \<open>\<open>Result::and_then\<close>, \<open>Result::map_err\<close> and the question mark operator.\<close>

definition bind_res :: "'e + 'a \<Rightarrow> ('a \<Rightarrow> 'e + 'b) \<Rightarrow> 'e + 'b" where
  "bind_res r f = (case r of Inl e \<Rightarrow> Inl e | Inr a \<Rightarrow> f a)"

definition map_err :: "('e \<Rightarrow> 'd) \<Rightarrow> 'e + 'a \<Rightarrow> 'd + 'a" where
  "map_err f r = (case r of Inl e \<Rightarrow> Inl (f e) | Inr a \<Rightarrow> Inr a)"

lemma bind_res_simps [simp]: "bind_res (Inl e) f = Inl e" "bind_res (Inr a) f = f a"
  by (simp_all add: bind_res_def)

lemma map_err_simps [simp]: "map_err g (Inl e) = Inl (g e)" "map_err g (Inr a) = Inr a"
  by (simp_all add: map_err_def)

lemma bind_res_Inr_iff: "bind_res r f = Inr b \<longleftrightarrow> (\<exists>a. r = Inr a \<and> f a = Inr b)"
  by (cases r) auto

lemma map_err_Inr_iff [simp]: "map_err g r = Inr b \<longleftrightarrow> r = Inr b"
  by (cases r) auto

definition checked_mul :: "u64 \<Rightarrow> u64 \<Rightarrow> u64 option" where
  "checked_mul a b = (if unat a * unat b < 2 ^ 64 then Some (a * b) else None)"

definition checked_add :: "u64 \<Rightarrow> u64 \<Rightarrow> u64 option" where
  "checked_add a b = (if unat a + unat b < 2 ^ 64 then Some (a + b) else None)"

lemma checked_mul_Some: "checked_mul a b = Some c \<Longrightarrow> unat c = unat a * unat b"
  by (auto simp: checked_mul_def unat_word_ariths split: if_splits)

lemma checked_add_Some: "checked_add a b = Some c \<Longrightarrow> unat c = unat a + unat b"
  by (auto simp: checked_add_def unat_word_ariths split: if_splits)

text \<open>What a call comes to: a value, or a panic of the thread.\<close>

datatype 'a run = Returns 'a | Panics str

text \<open>A \<open>for\<close> loop whose body may return an error.\<close>

fun fold_res :: "('s \<Rightarrow> 'a \<Rightarrow> 'e + 's) \<Rightarrow> 's \<Rightarrow> 'a list \<Rightarrow> 'e + 's" where
  "fold_res f s [] = Inr s"
| "fold_res f s (x # xs) = bind_res (f s x) (\<lambda>s'. fold_res f s' xs)"

lemma fold_res_append: "fold_res f s (xs @ ys) = bind_res (fold_res f s xs) (\<lambda>s'. fold_res f s' ys)"
proof (induction xs arbitrary: s)
  case (Cons x xs)
  then show ?case by (cases "f s x") simp_all
qed simp

text \<open>An invariant of the loop body is one of the loop.\<close>

lemma fold_res_inv:
  assumes "\<And>s x s'. x \<in> set xs \<Longrightarrow> I s \<Longrightarrow> f s x = Inr s' \<Longrightarrow> I s'"
  shows "I s \<Longrightarrow> fold_res f s xs = Inr s' \<Longrightarrow> I s'"
  using assms
proof (induction xs arbitrary: s)
  case (Cons x xs)
  from Cons.prems(2) obtain t where "f s x = Inr t" "fold_res f t xs = Inr s'"
    by (auto simp: bind_res_Inr_iff)
  with Cons show ?case by (metis list.set_intros(1,2))
qed simp

text \<open>The UTF-8 byte-order mark.\<close>

definition bom :: str where
  "bom = [CHR 0xEF, CHR 0xBB, CHR 0xBF]"

definition strip_bom :: "str \<Rightarrow> str" where
  "strip_bom s = (if prefix bom s then drop 3 s else s)"

lemma strip_bom_ascii [simp]: "code c < 128 \<Longrightarrow> strip_bom (c # s) = c # s"
  by (auto simp: strip_bom_def bom_def)

definition MAX_CUE_BYTES :: nat where
  "MAX_CUE_BYTES = 1024 * 1024"

lemma find_append: "c \<notin> set a \<Longrightarrow> find_char c (a @ c # b) = Some (length a)"
  using find_char_None [of c a] by (simp add: find_char_append)

lemma rfind_append: "c \<notin> set b \<Longrightarrow> rfind_char c (a @ c # b) = Some (length a)"
  using find_append [of c "rev b" "rev a"] by (simp add: rfind_char_def)

section \<open>Characters of a text\<close>

text \<open>The characters of UTF-8 are the runs of bytes that start with a byte outside 80 to BF.\<close>

definition is_continuation :: "char \<Rightarrow> bool" where
  "is_continuation c \<longleftrightarrow> 128 \<le> code c \<and> code c < 192"

function utf8_chars :: "str \<Rightarrow> str list" where
  "utf8_chars [] = []"
| "utf8_chars (c # s) = (c # takeWhile is_continuation s) # utf8_chars (dropWhile is_continuation s)"
  by pat_completeness auto
termination
  by (relation "measure length") (simp_all add: le_imp_less_Suc length_dropWhile_le)

end
