(* ===== verification/Std_Path.thy ===== *)
theory Std_Path
  imports SubX_Prelude
begin

text \<open>
  \<open>std::path\<close> as far as the program uses it.  A path is kept in the normal form that
  \<open>Path::components\<close> yields and that \<open>Path\<close> equality, prefix tests and hashing work on:
  whether it starts at the root, and its components, where a component is a normal name or
  \<open>..\<close>.  Repeated and trailing separators and inner \<open>.\<close> components are gone, as they are for
  \<open>components()\<close>.  Separators are those of a Unix target.
\<close>

record path =
  absolute :: bool
  comps :: "str list"

abbreviation dotdot :: str where "dotdot \<equiv> ''..''"

text \<open>The reading of a text as a path.\<close>

definition path_of :: "str \<Rightarrow> path" where
  "path_of s =
     \<lparr> absolute = (s \<noteq> [] \<and> hd s = CHR ''/''),
       comps = filter (\<lambda>c. c \<noteq> [] \<and> c \<noteq> ''.'') (split_str ''/'' s) \<rparr>"

definition path_display :: "path \<Rightarrow> str" where
  "path_display p = (if absolute p then ''/'' else []) @ join ''/'' (comps p)"

text \<open>\<open>Path::file_name\<close>, \<open>parent\<close>, \<open>join\<close> and \<open>starts_with\<close>.\<close>

definition file_name :: "path \<Rightarrow> str option" where
  "file_name p = (if comps p = [] \<or> last (comps p) = dotdot then None else Some (last (comps p)))"

definition parent :: "path \<Rightarrow> path option" where
  "parent p = (if comps p = [] then None else Some (p\<lparr>comps := butlast (comps p)\<rparr>))"

definition path_join :: "path \<Rightarrow> path \<Rightarrow> path" where
  "path_join p q = (if absolute q then q else p\<lparr>comps := comps p @ comps q\<rparr>)"

definition join_name :: "path \<Rightarrow> str \<Rightarrow> path" where
  "join_name p n = path_join p (path_of n)"

definition path_starts_with :: "path \<Rightarrow> path \<Rightarrow> bool" where
  "path_starts_with p q \<longleftrightarrow> absolute p = absolute q \<and> prefix (comps q) (comps p)"

text \<open>
  \<open>Path::file_stem\<close> and \<open>extension\<close> split the name at its last dot, unless the name is
  \<open>..\<close> or the only dot is its first character.
\<close>

definition split_name :: "str \<Rightarrow> str \<times> str option" where
  "split_name n =
     (case rfind_char (CHR ''.'') n of
        None \<Rightarrow> (n, None)
      | Some i \<Rightarrow> if i = 0 then (n, None) else (take i n, Some (drop (Suc i) n)))"

definition file_stem :: "path \<Rightarrow> str option" where
  "file_stem p = map_option (\<lambda>n. fst (split_name n)) (file_name p)"

definition extension :: "path \<Rightarrow> str option" where
  "extension p = Option.bind (file_name p) (\<lambda>n. snd (split_name n))"

definition with_file_name :: "path \<Rightarrow> str \<Rightarrow> path" where
  "with_file_name p n =
     join_name (case file_name p of None \<Rightarrow> p | Some _ \<Rightarrow> p\<lparr>comps := butlast (comps p)\<rparr>) n"

definition with_extension :: "path \<Rightarrow> str \<Rightarrow> path" where
  "with_extension p e =
     (case file_stem p of
        None \<Rightarrow> p
      | Some stem \<Rightarrow> with_file_name p (if e = [] then stem else stem @ ''.'' @ e))"

text \<open>A name that is one normal component.\<close>

definition plain_name :: "str \<Rightarrow> bool" where
  "plain_name n \<longleftrightarrow> n \<noteq> [] \<and> n \<noteq> ''.'' \<and> n \<noteq> dotdot \<and> CHR ''/'' \<notin> set n"

lemma path_of_plain [simp]: "plain_name n \<Longrightarrow> path_of n = \<lparr>absolute = False, comps = [n]\<rparr>"
  by (cases n) (auto simp: path_of_def plain_name_def split_char_absent simp del: split_str_char)

lemma comps_join_name [simp]: "plain_name n \<Longrightarrow> comps (join_name p n) = comps p @ [n]"
  by (simp add: join_name_def path_join_def)

lemma absolute_join_name [simp]: "plain_name n \<Longrightarrow> absolute (join_name p n) = absolute p"
  by (simp add: join_name_def path_join_def)

lemma file_name_join_name [simp]: "plain_name n \<Longrightarrow> file_name (join_name p n) = Some n"
  by (simp add: file_name_def plain_name_def)

lemma parent_join_name [simp]: "plain_name n \<Longrightarrow> parent (join_name p n) = Some p"
  by (simp add: parent_def join_name_def path_join_def)

lemma join_name_inj: "plain_name m \<Longrightarrow> plain_name n \<Longrightarrow> join_name p m = join_name p n \<longleftrightarrow> m = n"
  by (metis file_name_join_name option.inject)

end
