(* ===== verification/SubX_Error.thy ===== *)
theory SubX_Error
  imports Std_Path
begin

text \<open>
  The error type of the crate (\<open>src/error.rs\<close>): the variants of \<open>SubXError\<close>, their
  \<open>Display\<close> texts, the constructors, and the machine-readable contract of \<open>category\<close>,
  \<open>machine_code\<close> and \<open>hint\<close>.  An error of another crate that a variant wraps is kept as the
  text it displays, an I/O error with its kind.
\<close>

datatype io_kind = NotFound | PermissionDenied | AlreadyExists | InvalidInput | InvalidData
  | CrossesDevices | Unsupported | OtherKind

record io_error =
  io_kind :: io_kind
  io_text :: str

datatype ApiErrorSource = OpenAI | Whisper

datatype SubXError =
    Io io_error
  | Config str
  | SubtitleFormat str str
  | AiService str
  | Api str ApiErrorSource
  | AudioProcessing str
  | FileMatching str
  | FileAlreadyExists str
  | FileNotFound str
  | InvalidFileName str
  | FileOperationFailed str
  | CommandExecution str
  | NoInputSpecified
  | InvalidPath path
  | PathNotFound path
  | DirectoryReadError path io_error
  | InvalidSyncConfiguration
  | UnsupportedFileType str
  | OutputModeUnsupported str
  | Other str

type_synonym 'a res = "SubXError + 'a"

fun api_source_text :: "ApiErrorSource \<Rightarrow> str" where
  "api_source_text OpenAI = ''OpenAI''"
| "api_source_text Whisper = ''Whisper''"

text \<open>The \<open>#[error(...)]\<close> attributes.\<close>

fun error_display :: "SubXError \<Rightarrow> str" where
  "error_display (Io e) = ''I/O error: '' @ io_text e"
| "error_display (Config m) = ''Configuration error: '' @ m"
| "error_display (SubtitleFormat f m) = ''Subtitle format error ['' @ f @ '']: '' @ m"
| "error_display (AiService m) = ''AI service error: '' @ m"
| "error_display (Api m s) = ''API error ['' @ api_source_text s @ '']: '' @ m"
| "error_display (AudioProcessing m) = ''Audio processing error: '' @ m"
| "error_display (FileMatching m) = ''File matching error: '' @ m"
| "error_display (FileAlreadyExists m) = ''File already exists: '' @ m"
| "error_display (FileNotFound m) = ''File not found: '' @ m"
| "error_display (InvalidFileName m) = ''Invalid file name: '' @ m"
| "error_display (FileOperationFailed m) = ''File operation failed: '' @ m"
| "error_display (CommandExecution m) = m"
| "error_display NoInputSpecified = ''No input path specified''"
| "error_display (InvalidPath p) = ''Invalid path: '' @ path_display p"
| "error_display (PathNotFound p) = ''Path not found: '' @ path_display p"
| "error_display (DirectoryReadError p e) = ''Unable to read directory: '' @ path_display p"
| "error_display InvalidSyncConfiguration =
     ''Invalid sync configuration: please specify video and subtitle files, or use -i parameter for batch processing''"
| "error_display (UnsupportedFileType t) = ''Unsupported file type: '' @ t"
| "error_display (OutputModeUnsupported c) =
     ''The '' @ [CHR 0x27] @ c @ [CHR 0x27] @
     '' command does not support --output json; its stdout is a shell-completion script''"
| "error_display (Other m) = ''Unknown error: '' @ m"

section \<open>Constructors\<close>

definition parallel_processing :: "str \<Rightarrow> SubXError" where
  "parallel_processing msg = CommandExecution (''Parallel processing error: '' @ msg)"

definition task_execution_failed :: "str \<Rightarrow> str \<Rightarrow> SubXError" where
  "task_execution_failed task_id reason =
     CommandExecution (''Task '' @ task_id @ '' execution failed: '' @ reason)"

definition worker_pool_exhausted :: SubXError where
  "worker_pool_exhausted = CommandExecution ''Worker pool exhausted''"

text \<open>The duration is passed as the text its \<open>Debug\<close> form prints.\<close>

definition task_timeout :: "str \<Rightarrow> str \<Rightarrow> SubXError" where
  "task_timeout task_id duration =
     CommandExecution (''Task '' @ task_id @ '' timed out (limit: '' @ duration @ '')'')"

definition dialogue_detection_failed :: "str \<Rightarrow> SubXError" where
  "dialogue_detection_failed msg = AudioProcessing (''Dialogue detection failed: '' @ msg)"

definition invalid_audio_format :: "str \<Rightarrow> SubXError" where
  "invalid_audio_format fmt = AudioProcessing (''Unsupported audio format: '' @ fmt)"

definition dialogue_segment_invalid :: "str \<Rightarrow> SubXError" where
  "dialogue_segment_invalid reason = AudioProcessing (''Invalid dialogue segment: '' @ reason)"

definition whisper_api :: "str \<Rightarrow> SubXError" where
  "whisper_api message = Api message Whisper"

section \<open>The machine-readable contract\<close>

fun category :: "SubXError \<Rightarrow> str" where
  "category (Io _) = ''io''"
| "category (Config _) = ''config''"
| "category (SubtitleFormat _ _) = ''subtitle_format''"
| "category (AiService _) = ''ai_service''"
| "category (Api _ _) = ''api''"
| "category (AudioProcessing _) = ''audio_processing''"
| "category (FileMatching _) = ''file_matching''"
| "category (FileAlreadyExists _) = ''file_already_exists''"
| "category (FileNotFound _) = ''file_not_found''"
| "category (InvalidFileName _) = ''invalid_file_name''"
| "category (FileOperationFailed _) = ''file_operation_failed''"
| "category (CommandExecution _) = ''command_execution''"
| "category (OutputModeUnsupported _) = ''command_execution''"
| "category NoInputSpecified = ''no_input_specified''"
| "category (InvalidPath _) = ''invalid_path''"
| "category (PathNotFound _) = ''path_not_found''"
| "category (DirectoryReadError _ _) = ''directory_read_error''"
| "category InvalidSyncConfiguration = ''invalid_sync_configuration''"
| "category (UnsupportedFileType _) = ''unsupported_file_type''"
| "category (Other _) = ''other''"

fun machine_code :: "SubXError \<Rightarrow> str" where
  "machine_code (Io _) = ''E_IO''"
| "machine_code (Config _) = ''E_CONFIG''"
| "machine_code (SubtitleFormat _ _) = ''E_SUBTITLE_FORMAT''"
| "machine_code (AiService _) = ''E_AI_SERVICE''"
| "machine_code (Api _ _) = ''E_API''"
| "machine_code (AudioProcessing _) = ''E_AUDIO_PROCESSING''"
| "machine_code (FileMatching _) = ''E_FILE_MATCHING''"
| "machine_code (FileAlreadyExists _) = ''E_FILE_ALREADY_EXISTS''"
| "machine_code (FileNotFound _) = ''E_FILE_NOT_FOUND''"
| "machine_code (InvalidFileName _) = ''E_INVALID_FILE_NAME''"
| "machine_code (FileOperationFailed _) = ''E_FILE_OPERATION_FAILED''"
| "machine_code (CommandExecution _) = ''E_COMMAND_EXECUTION''"
| "machine_code (OutputModeUnsupported _) = ''E_OUTPUT_MODE_UNSUPPORTED''"
| "machine_code NoInputSpecified = ''E_NO_INPUT_SPECIFIED''"
| "machine_code (InvalidPath _) = ''E_INVALID_PATH''"
| "machine_code (PathNotFound _) = ''E_PATH_NOT_FOUND''"
| "machine_code (DirectoryReadError _ _) = ''E_DIRECTORY_READ_ERROR''"
| "machine_code InvalidSyncConfiguration = ''E_INVALID_SYNC_CONFIGURATION''"
| "machine_code (UnsupportedFileType _) = ''E_UNSUPPORTED_FILE_TYPE''"
| "machine_code (Other _) = ''E_OTHER''"

fun hint :: "SubXError \<Rightarrow> str option" where
  "hint (Config _) =
     Some (''Run '' @ [CHR 0x27] @ ''subx-cli config --help'' @ [CHR 0x27] @ '' for configuration details.'')"
| "hint (Api _ _) = Some ''Check network connectivity and the configured API key.''"
| "hint (AiService _) = Some ''Check network connectivity and the configured API key.''"
| "hint (SubtitleFormat _ _) =
     Some (''Check the subtitle file'' @ [CHR 0x27] @ ''s format and encoding.'')"
| "hint (AudioProcessing _) =
     Some (''Verify the media file'' @ [CHR 0x27] @ ''s integrity and supported codecs.'')"
| "hint (FileMatching _) = Some ''Verify file paths and patterns.''"
| "hint NoInputSpecified = Some ''Pass an input path or use the -i/--input flag.''"
| "hint InvalidSyncConfiguration =
     Some ''Specify both video and subtitle files, or use -i for batch processing.''"
| "hint (PathNotFound _) = Some ''Verify the path exists and is accessible.''"
| "hint (FileNotFound _) = Some ''Verify the path exists and is accessible.''"
| "hint (OutputModeUnsupported _) =
     Some (''Run the command without `--output json` (and without SUBX_OUTPUT=json) to receive '' @
           ''the shell-completion script.'')"
| "hint _ = None"

text \<open>\<open>char::to_ascii_uppercase\<close>, for stating how the two code spaces correspond.\<close>

definition ascii_upper_char :: "char \<Rightarrow> char" where
  "ascii_upper_char c = (if 97 \<le> code c \<and> code c \<le> 122 then char_of (code c - 32) else c)"

definition is_output_mode :: "SubXError \<Rightarrow> bool" where
  "is_output_mode e = (case e of OutputModeUnsupported _ \<Rightarrow> True | _ \<Rightarrow> False)"

text \<open>
  The machine code of an error is \<open>E_\<close> followed by its category in upper case, for every
  variant but \<open>OutputModeUnsupported\<close>, whose category is the generic one by specification.
\<close>

lemma category_machine_code:
  "machine_code e = ''E_'' @ map ascii_upper_char (category e) \<longleftrightarrow> \<not> is_output_mode e"
  by (cases e) (simp_all add: ascii_upper_char_def is_output_mode_def eq_char_of_iff)

end
