(* ===== verification/Scheduler.thy ===== *)
theory Scheduler
  imports SubX_Error "HOL-Library.Multiset"
begin

text \<open>
  The task scheduler (\<open>src/core/parallel/scheduler.rs\<close>) with its configuration (\<open>config.rs\<close>) and
  the worker pool (\<open>worker.rs\<close>).  The scheduler is a state machine: its shared queue, permits and
  task table, the submitters between their lock acquisitions, the background loop and the
  spawned executions.  The overflow check and the insertion of a submitter are separate steps,
  as they lock the queue separately, so steps of different submitters interleave; what a
  participant does from one lock of the queue to the next is one step.  A task is identified by the channel its result is
  sent on; the instants at which tasks started are left out.
\<close>

section \<open>Types\<close>

datatype TaskResult = Success str | Failed str | Cancelled | PartialSuccess str str

datatype TaskStatus = StPending | StRunning | StCompleted TaskResult | StFailed str | StCancelled

datatype TaskPriority = Low | Normal | High | Critical

fun priority_rank :: "TaskPriority \<Rightarrow> nat" where
  "priority_rank Low = 0"
| "priority_rank Normal = 1"
| "priority_rank High = 2"
| "priority_rank Critical = 3"

instantiation TaskPriority :: linorder
begin

definition less_eq_TaskPriority :: "TaskPriority \<Rightarrow> TaskPriority \<Rightarrow> bool" where
  "less_eq_TaskPriority a b \<longleftrightarrow> priority_rank a \<le> priority_rank b"

definition less_TaskPriority :: "TaskPriority \<Rightarrow> TaskPriority \<Rightarrow> bool" where
  "less_TaskPriority a b \<longleftrightarrow> priority_rank a < priority_rank b"

instance
proof
  fix a b :: TaskPriority
  show "a \<le> b \<Longrightarrow> b \<le> a \<Longrightarrow> a = b"
    by (cases a; cases b) (simp_all add: less_eq_TaskPriority_def)
qed (auto simp: less_eq_TaskPriority_def less_TaskPriority_def)

end

datatype OverflowStrategy = Block | Drop | Expand | DropOldest | Reject

record ParallelConfig =
  max_concurrent_jobs :: nat
  task_queue_size :: nat
  enable_task_priorities :: bool
  auto_balance_workers :: bool
  queue_overflow_strategy :: OverflowStrategy

definition parallel_config_validate :: "ParallelConfig \<Rightarrow> unit res" where
  "parallel_config_validate c =
     (if max_concurrent_jobs c = 0
      then Inl (Config ''Max concurrent jobs (max_concurrent_jobs) must be greater than 0'')
      else if task_queue_size c = 0
      then Inl (Config ''Queue size (task_queue_size) must be greater than 0'')
      else Inr ())"

record PendingTask =
  result_sender :: nat
  pt_id :: str
  priority :: TaskPriority

record TaskInfo =
  info_id :: str
  info_type :: str
  info_status :: TaskStatus
  info_progress :: nat

text \<open>The part of the application configuration that \<open>from_app_config\<close> reads.\<close>

record AppConfig =
  general_max_concurrent_jobs :: nat
  parallel_task_queue_size :: nat
  parallel_enable_task_priorities :: bool
  parallel_auto_balance_workers :: bool
  parallel_overflow_strategy :: OverflowStrategy

definition from_app_config :: "AppConfig \<Rightarrow> ParallelConfig" where
  "from_app_config a =
     \<lparr>max_concurrent_jobs = general_max_concurrent_jobs a, task_queue_size = parallel_task_queue_size a,
      enable_task_priorities = parallel_enable_task_priorities a,
      auto_balance_workers = parallel_auto_balance_workers a,
      queue_overflow_strategy = parallel_overflow_strategy a\<rparr>"

text \<open>A submitter: before the overflow check, before the eviction or the insertion, or awaiting its result.\<close>

datatype client = Checking PendingTask | Evicting PendingTask | Inserting PendingTask | Awaiting str

record sched =
  s_config :: ParallelConfig
  task_queue :: "PendingTask list"
  permits :: nat
  active_tasks :: "str \<Rightarrow> TaskInfo option"
  running :: "PendingTask list"
  sent :: "(nat \<times> TaskResult res) list"
  loop_running :: bool
  clients :: "nat \<Rightarrow> client option"
  returned :: "nat \<Rightarrow> TaskResult res option"
  next_chan :: nat

definition new_with_config :: "ParallelConfig \<Rightarrow> sched res" where
  "new_with_config c =
     bind_res (parallel_config_validate c) (\<lambda>_. Inr
       \<lparr>s_config = c, task_queue = [], permits = max_concurrent_jobs c, active_tasks = (\<lambda>_. None),
        running = [], sent = [], loop_running = True, clients = (\<lambda>_. None),
        returned = (\<lambda>_. None), next_chan = 0\<rparr>)"

section \<open>Operations\<close>

definition drop_message :: str where
  "drop_message = ''Task dropped due to queue overflow''"

text \<open>Insertion before the first task of strictly lower priority, or at the back.\<close>

fun insert_by_priority :: "PendingTask \<Rightarrow> PendingTask list \<Rightarrow> PendingTask list" where
  "insert_by_priority p [] = [p]"
| "insert_by_priority p (t # ts) =
     (if priority t < priority p then p # t # ts else t # insert_by_priority p ts)"

definition enqueue :: "ParallelConfig \<Rightarrow> PendingTask \<Rightarrow> PendingTask list \<Rightarrow> PendingTask list" where
  "enqueue c p q = (if enable_task_priorities c then insert_by_priority p q else q @ [p])"

text \<open>\<open>Iterator::max_by_key\<close> over the enumerated queue: of equal maxima the last one is taken.\<close>

fun max_from :: "nat \<Rightarrow> nat \<Rightarrow> TaskPriority \<Rightarrow> PendingTask list \<Rightarrow> nat" where
  "max_from i best bp [] = best"
| "max_from i best bp (t # ts) =
     (if bp \<le> priority t then max_from (Suc i) i (priority t) ts else max_from (Suc i) best bp ts)"

definition remove_at :: "nat \<Rightarrow> 'a list \<Rightarrow> 'a list" where
  "remove_at i xs = take i xs @ drop (Suc i) xs"

definition select_next :: "ParallelConfig \<Rightarrow> PendingTask list \<Rightarrow> (PendingTask \<times> PendingTask list) option" where
  "select_next c q =
     (case q of
        [] \<Rightarrow> None
      | t # ts \<Rightarrow>
          if enable_task_priorities c
          then (let i = max_from 1 0 (priority t) ts in Some (q ! i, remove_at i q))
          else Some (t, ts))"

definition register :: "str \<Rightarrow> str \<Rightarrow> sched \<Rightarrow> sched" where
  "register tid typ st =
     st\<lparr>active_tasks := (active_tasks st)
          (tid \<mapsto> \<lparr>info_id = tid, info_type = typ, info_status = StPending, info_progress = 0\<rparr>)\<rparr>"

definition unregister :: "str \<Rightarrow> sched \<Rightarrow> sched" where
  "unregister tid st = st\<lparr>active_tasks := (active_tasks st)(tid := None)\<rparr>"

text \<open>The start of \<open>submit_task_with_priority\<close>: the channel and the entry in the task table.\<close>

definition submit_start :: "str \<Rightarrow> str \<Rightarrow> TaskPriority \<Rightarrow> sched \<Rightarrow> sched" where
  "submit_start tid typ prio st =
     (let ch = next_chan st in
      (register tid typ st)
        \<lparr>clients := (clients st)(ch \<mapsto> Checking \<lparr>result_sender = ch, pt_id = tid, priority = prio\<rparr>),
         next_chan := Suc ch\<rparr>)"

text \<open>The eviction of the \<open>DropOldest\<close> strategy.\<close>

definition evict_front :: "sched \<Rightarrow> sched" where
  "evict_front st =
     (case task_queue st of
        [] \<Rightarrow> st
      | t # ts \<Rightarrow>
          unregister (pt_id t)
            (st\<lparr>task_queue := ts, sent := (result_sender t, Inr (Failed drop_message)) # sent st\<rparr>))"

text \<open>The future of a submitter ends: its guard removes the entry of the task table.\<close>

definition client_return :: "nat \<Rightarrow> str \<Rightarrow> TaskResult res \<Rightarrow> sched \<Rightarrow> sched" where
  "client_return ch tid r st =
     unregister tid (st\<lparr>clients := (clients st)(ch := None), returned := (returned st)(ch \<mapsto> r)\<rparr>)"

text \<open>The overflow check; a blocked submitter stays where it is and checks again.\<close>

definition submit_check :: "PendingTask \<Rightarrow> sched \<Rightarrow> sched" where
  "submit_check p st =
     (let ch = result_sender p;
          goto = (\<lambda>cl. st\<lparr>clients := (clients st)(ch \<mapsto> cl)\<rparr>) in
      if length (task_queue st) < task_queue_size (s_config st) then goto (Inserting p)
      else
        (case queue_overflow_strategy (s_config st) of
           Block \<Rightarrow> st
         | DropOldest \<Rightarrow> goto (Evicting p)
         | Reject \<Rightarrow> client_return ch (pt_id p) (Inl (parallel_processing ''Task queue is full'')) st
         | Drop \<Rightarrow> client_return ch (pt_id p) (Inr (Failed drop_message)) st
         | Expand \<Rightarrow> goto (Inserting p)))"

definition submit_evict :: "PendingTask \<Rightarrow> sched \<Rightarrow> sched" where
  "submit_evict p st =
     (evict_front st)\<lparr>clients := (clients st)(result_sender p \<mapsto> Inserting p)\<rparr>"

text \<open>The insertion, after which the loop is restarted if it had ended.\<close>

definition submit_insert :: "PendingTask \<Rightarrow> sched \<Rightarrow> sched" where
  "submit_insert p st =
     st\<lparr>task_queue := enqueue (s_config st) p (task_queue st), loop_running := True,
        clients := (clients st)(result_sender p \<mapsto> Awaiting (pt_id p))\<rparr>"

definition set_status :: "str \<Rightarrow> TaskStatus \<Rightarrow> nat option \<Rightarrow> sched \<Rightarrow> sched" where
  "set_status tid status progress st =
     (case active_tasks st tid of
        None \<Rightarrow> st
      | Some info \<Rightarrow>
          st\<lparr>active_tasks := (active_tasks st)
               (tid \<mapsto> info\<lparr>info_status := status,
                          info_progress := (case progress of None \<Rightarrow> info_progress info | Some n \<Rightarrow> n)\<rparr>)\<rparr>)"

text \<open>One round of the loop that finds a permit and a task.\<close>

definition loop_take :: "sched \<Rightarrow> sched" where
  "loop_take st =
     (if permits st = 0 then st
      else
        (case select_next (s_config st) (task_queue st) of
           None \<Rightarrow> st
         | Some (p, q) \<Rightarrow>
             set_status (pt_id p) StRunning None
               (st\<lparr>task_queue := q, permits := permits st - 1, running := p # running st\<rparr>)))"

text \<open>
  The end of a spawned execution: its own result or the timeout, \<open>Inr\<close>, or a panic of the task,
  \<open>Inl\<close>, which drops the sender and the permit and leaves the entry of the task table as it is.
\<close>

definition interrupted :: SubXError where
  "interrupted = parallel_processing ''Task execution interrupted''"

definition task_end :: "PendingTask \<Rightarrow> TaskResult res \<Rightarrow> sched \<Rightarrow> sched" where
  "task_end p r st =
     (let st1 = (case r of Inl _ \<Rightarrow> st | Inr result \<Rightarrow> set_status (pt_id p) (StCompleted result) (Some 1) st)
      in st1\<lparr>sent := (result_sender p, r) # sent st, permits := Suc (permits st),
             running := remove1 p (running st)\<rparr>)"

definition loop_may_end :: "sched \<Rightarrow> bool" where
  "loop_may_end st \<longleftrightarrow> task_queue st = [] \<and> (\<forall>tid. active_tasks st tid = None)"

inductive sched_step :: "sched \<Rightarrow> sched \<Rightarrow> bool" where
  start: "sched_step st (submit_start tid typ prio st)"
| check: "clients st ch = Some (Checking p) \<Longrightarrow> sched_step st (submit_check p st)"
| evict: "clients st ch = Some (Evicting p) \<Longrightarrow> sched_step st (submit_evict p st)"
| insertion: "clients st ch = Some (Inserting p) \<Longrightarrow> sched_step st (submit_insert p st)"
| take_task: "loop_running st \<Longrightarrow> sched_step st (loop_take st)"
| idle: "loop_running st \<Longrightarrow> loop_may_end st \<Longrightarrow> sched_step st (st\<lparr>loop_running := False\<rparr>)"
| finish: "p \<in> set (running st) \<Longrightarrow> sched_step st (task_end p (Inr result) st)"
| panic: "p \<in> set (running st) \<Longrightarrow> sched_step st (task_end p (Inl interrupted) st)"
| receive: "clients st ch = Some (Awaiting tid) \<Longrightarrow> (ch, r) \<in> set (sent st) \<Longrightarrow>
    sched_step st (client_return ch tid r st)"
| cancel: "clients st ch = Some c \<Longrightarrow> c = Awaiting tid \<or> c = Checking p \<and> tid = pt_id p \<Longrightarrow>
    sched_step st (unregister tid (st\<lparr>clients := (clients st)(ch := None)\<rparr>))"

inductive sched_reach :: "ParallelConfig \<Rightarrow> sched \<Rightarrow> bool" where
  init: "new_with_config c = Inr st \<Longrightarrow> sched_reach c st"
| step: "sched_reach c st \<Longrightarrow> sched_step st st' \<Longrightarrow> sched_reach c st'"

inductive_cases sched_stepE: "sched_step st st'"

section \<open>The queue\<close>

definition descending :: "PendingTask list \<Rightarrow> bool" where
  "descending q \<longleftrightarrow> sorted_wrt (\<lambda>a b. priority b \<le> priority a) q"

lemma set_insert_by_priority [simp]: "set (insert_by_priority p q) = insert p (set q)"
  by (induction q) auto

lemma mset_enqueue: "mset (enqueue c p q) = add_mset p (mset q)"
proof -
  have "mset (insert_by_priority p q) = add_mset p (mset q)" by (induction q) auto
  then show ?thesis by (simp add: enqueue_def)
qed

lemma insert_descending: "descending q \<Longrightarrow> descending (insert_by_priority p q)"
  by (induction q) (auto simp: descending_def intro: order.trans less_imp_le)

text \<open>The index found points at a task of maximal priority, and every later task ranks strictly lower.\<close>

definition last_max :: "PendingTask list \<Rightarrow> nat \<Rightarrow> bool" where
  "last_max q j \<longleftrightarrow>
     j < length q \<and> (\<forall>k < length q. priority (q ! k) \<le> priority (q ! j))
     \<and> (\<forall>k < length q. j < k \<longrightarrow> priority (q ! k) < priority (q ! j))"

lemma max_from_spec:
  "last_max pre best \<Longrightarrow> bp = priority (pre ! best) \<Longrightarrow>
   last_max (pre @ ts) (max_from (length pre) best bp ts)"
proof (induction ts arbitrary: pre best bp)
  case (Cons t ts)
  let ?pre = "pre @ [t]"
  show ?case
  proof (cases "bp \<le> priority t")
    case True
    then have "last_max ?pre (length pre)"
      using Cons.prems by (auto simp: last_max_def nth_append less_Suc_eq intro: order.trans)
    from Cons.IH [OF this, of "priority t"] True show ?thesis by simp
  next
    case False
    then have "last_max ?pre best"
      using Cons.prems by (auto simp: last_max_def nth_append less_Suc_eq)
    moreover have "best < length pre" using Cons.prems(1) by (simp add: last_max_def)
    ultimately show ?thesis
      using Cons.IH [of ?pre best bp] Cons.prems(2) False by (simp add: nth_append)
  qed
qed simp

lemma remove_at_mset: "i < length q \<Longrightarrow> mset q = add_mset (q ! i) (mset (remove_at i q))"
proof -
  assume "i < length q"
  then have "q = take i q @ q ! i # drop (Suc i) q" by (rule id_take_nth_drop)
  then have "mset q = mset (take i q) + add_mset (q ! i) (mset (drop (Suc i) q))"
    by (metis mset_append mset.simps(2))
  then show ?thesis by (simp add: remove_at_def)
qed

lemma select_index:
  assumes "q \<noteq> []"
  defines "j \<equiv> max_from 1 0 (priority (hd q)) (tl q)"
  shows "j < length q" "\<And>k. k < length q \<Longrightarrow> priority (q ! k) \<le> priority (q ! j)"
    "\<And>k. k < length q \<Longrightarrow> j < k \<Longrightarrow> priority (q ! k) < priority (q ! j)"
proof -
  have "last_max [hd q] 0" by (simp add: last_max_def)
  from max_from_spec [OF this, of "priority (hd q)" "tl q"] assms(1) have "last_max q j"
    by (simp add: j_def)
  then show "j < length q" "\<And>k. k < length q \<Longrightarrow> priority (q ! k) \<le> priority (q ! j)"
    "\<And>k. k < length q \<Longrightarrow> j < k \<Longrightarrow> priority (q ! k) < priority (q ! j)"
    by (auto simp: last_max_def)
qed

lemma select_next_mset: "select_next c q = Some (p, q') \<Longrightarrow> mset q = add_mset p (mset q')"
  using select_index(1) [of q] remove_at_mset [of _ q]
  by (auto simp: select_next_def Let_def split: list.splits if_splits)

lemma sorted_wrt_remove_at: "sorted_wrt R q \<Longrightarrow> sorted_wrt R (remove_at i q)"
proof -
  assume s: "sorted_wrt R q"
  have "sorted_wrt R (take i q @ drop i q)" using s by simp
  then have "sorted_wrt R (take i q)" "sorted_wrt R (drop i q)"
    "\<forall>x \<in> set (take i q). \<forall>y \<in> set (drop i q). R x y"
    unfolding sorted_wrt_append by blast+
  moreover have "drop (Suc i) q = tl (drop i q)" by (simp add: drop_Suc tl_drop)
  moreover have "sorted_wrt R (tl (drop i q))" using \<open>sorted_wrt R (drop i q)\<close> by (cases "drop i q") auto
  moreover have "set (tl (drop i q)) \<subseteq> set (drop i q)" by (cases "drop i q") auto
  ultimately show ?thesis by (auto simp: remove_at_def sorted_wrt_append)
qed

lemma select_next_descending: "select_next c q = Some (p, q') \<Longrightarrow> descending q \<Longrightarrow> descending q'"
  by (auto simp: select_next_def descending_def Let_def sorted_wrt_remove_at split: list.splits if_splits)

lemma select_next_max:
  assumes "select_next c q = Some (p, q')" "enable_task_priorities c" "t \<in> set q"
  shows "priority t \<le> priority p"
proof -
  have q: "q \<noteq> []" using assms(3) by auto
  then have "p = q ! max_from 1 0 (priority (hd q)) (tl q)"
    using assms(1,2) by (cases q) (auto simp: select_next_def Let_def)
  with select_index(2) [OF q] assms(3) show ?thesis by (auto simp: in_set_conv_nth)
qed

section \<open>The invariant\<close>

text \<open>The channels that a task or a result holds.\<close>

definition held :: "sched \<Rightarrow> nat multiset" where
  "held st = mset (map result_sender (task_queue st)) + mset (map result_sender (running st))
     + mset (map fst (sent st))"

definition client_ok :: "sched \<Rightarrow> nat \<Rightarrow> client \<Rightarrow> bool" where
  "client_ok st ch cl =
     (case cl of
        Checking p \<Rightarrow> result_sender p = ch \<and> ch \<notin># held st
      | Evicting p \<Rightarrow> result_sender p = ch \<and> ch \<notin># held st
      | Inserting p \<Rightarrow> result_sender p = ch \<and> ch \<notin># held st
      | Awaiting tid \<Rightarrow> ch \<in># held st)"

definition sched_inv :: "ParallelConfig \<Rightarrow> sched \<Rightarrow> bool" where
  "sched_inv c st \<longleftrightarrow>
     s_config st = c
     \<and> permits st + length (running st) = max_concurrent_jobs c
     \<and> (enable_task_priorities c \<longrightarrow> descending (task_queue st))
     \<and> (\<forall>ch. count (held st) ch \<le> 1)
     \<and> (\<forall>ch. ch \<in># held st \<longrightarrow> ch < next_chan st)
     \<and> (\<forall>ch cl. clients st ch = Some cl \<longrightarrow> ch < next_chan st \<and> client_ok st ch cl)
     \<and> (\<forall>ch r. returned st ch = Some r \<longrightarrow> ch < next_chan st \<and> clients st ch = None
          \<and> (ch \<in># held st \<longrightarrow> (ch, r) \<in> set (sent st)))"

lemma unregister_simps [simp]:
  "s_config (unregister tid st) = s_config st" "task_queue (unregister tid st) = task_queue st"
  "permits (unregister tid st) = permits st" "running (unregister tid st) = running st"
  "sent (unregister tid st) = sent st" "clients (unregister tid st) = clients st"
  "returned (unregister tid st) = returned st" "next_chan (unregister tid st) = next_chan st"
  "loop_running (unregister tid st) = loop_running st"
  by (simp_all add: unregister_def)

lemma register_simps [simp]:
  "s_config (register tid typ st) = s_config st" "task_queue (register tid typ st) = task_queue st"
  "permits (register tid typ st) = permits st" "running (register tid typ st) = running st"
  "sent (register tid typ st) = sent st" "clients (register tid typ st) = clients st"
  "returned (register tid typ st) = returned st" "next_chan (register tid typ st) = next_chan st"
  by (simp_all add: register_def)

lemma set_status_simps [simp]:
  "s_config (set_status tid v n st) = s_config st" "task_queue (set_status tid v n st) = task_queue st"
  "permits (set_status tid v n st) = permits st" "running (set_status tid v n st) = running st"
  "sent (set_status tid v n st) = sent st" "clients (set_status tid v n st) = clients st"
  "returned (set_status tid v n st) = returned st" "next_chan (set_status tid v n st) = next_chan st"
  by (simp_all add: set_status_def split: option.split)

lemma held_cong:
  "task_queue s = task_queue t \<Longrightarrow> running s = running t \<Longrightarrow> sent s = sent t \<Longrightarrow> held s = held t"
  by (simp add: held_def)

lemma client_ok_cong: "held s = held t \<Longrightarrow> client_ok s = client_ok t"
  by (intro ext) (simp add: client_ok_def split: client.splits)

text \<open>Steps that move no task: the queue, the executions and the results stay as they are.\<close>

lemma sched_inv_quiet:
  assumes "sched_inv c st" "s_config st' = s_config st" "task_queue st' = task_queue st"
    "permits st' = permits st" "running st' = running st" "sent st' = sent st"
    "next_chan st' = next_chan st" "clients st' = clients st" "returned st' = returned st"
  shows "sched_inv c st'"
proof -
  have h: "held st' = held st" using assms by (intro held_cong) auto
  show ?thesis using assms unfolding sched_inv_def h client_ok_cong [OF h] by simp
qed

lemma inv_start: "sched_inv c st \<Longrightarrow> sched_inv c (submit_start tid typ prio st)"
proof -
  assume inv: "sched_inv c st"
  let ?st = "submit_start tid typ prio st"
  have h: "held ?st = held st" by (intro held_cong) (simp_all add: submit_start_def Let_def)
  have fresh: "next_chan st \<notin># held st" "clients st (next_chan st) = None" "returned st (next_chan st) = None"
    using inv by (cases "clients st (next_chan st)"; cases "returned st (next_chan st)";
        fastforce simp: sched_inv_def)+
  then show ?thesis
    using inv unfolding sched_inv_def h client_ok_cong [OF h]
    by (auto simp: submit_start_def Let_def client_ok_def less_Suc_eq)
qed

lemma inv_evict: "sched_inv c st \<Longrightarrow> sched_inv c (evict_front st)"
proof (cases "task_queue st")
  case Nil
  then show "sched_inv c st \<Longrightarrow> ?thesis" by (simp add: evict_front_def)
next
  case (Cons t ts)
  assume inv: "sched_inv c st"
  have h: "held (evict_front st) = held st" using Cons by (simp add: evict_front_def held_def)
  have "descending (t # ts) \<Longrightarrow> descending ts" by (simp add: descending_def)
  with inv Cons show ?thesis
    unfolding sched_inv_def h client_ok_cong [OF h] by (auto simp: evict_front_def; blast)
qed

lemma inv_returned_None: "sched_inv c st \<Longrightarrow> clients st ch = Some cl \<Longrightarrow> returned st ch = None"
  by (cases "returned st ch") (auto simp: sched_inv_def)

lemma inv_proceed:
  assumes "sched_inv c st" "clients st (result_sender p) = Some cl"
    and "cl = Checking p \<or> cl = Evicting p" "cl' = Evicting p \<or> cl' = Inserting p"
  shows "sched_inv c (st\<lparr>clients := (clients st)(result_sender p \<mapsto> cl')\<rparr>)"
proof -
  let ?st = "st\<lparr>clients := (clients st)(result_sender p \<mapsto> cl')\<rparr>"
  have h: "held ?st = held st" by (intro held_cong) auto
  have "client_ok st (result_sender p) cl" using assms(1,2) unfolding sched_inv_def by blast
  then have "result_sender p \<notin># held st" using assms(3) by (auto simp: client_ok_def)
  then have "client_ok st (result_sender p) cl'" using assms(4) by (auto simp: client_ok_def)
  then show ?thesis
    using assms(1,2) inv_returned_None [OF assms(1,2)] unfolding sched_inv_def h client_ok_cong [OF h] by auto
qed

lemma inv_return:
  assumes "sched_inv c st" "ch < next_chan st"
    and "ch \<in># held st \<longrightarrow> (ch, r) \<in> set (sent st)"
  shows "sched_inv c (client_return ch tid r st)"
proof -
  have h: "held (client_return ch tid r st) = held st"
    by (intro held_cong) (simp_all add: client_return_def)
  show ?thesis
    using assms unfolding sched_inv_def h client_ok_cong [OF h] by (auto simp: client_return_def)
qed

lemma inv_cancel:
  assumes "sched_inv c st"
  shows "sched_inv c (unregister tid (st\<lparr>clients := (clients st)(ch := None)\<rparr>))"
proof -
  let ?st = "unregister tid (st\<lparr>clients := (clients st)(ch := None)\<rparr>)"
  have h: "held ?st = held st" by (intro held_cong) simp_all
  show ?thesis
    using assms unfolding sched_inv_def h client_ok_cong [OF h] by auto
qed

lemma evict_front_clients [simp]:
  "clients (evict_front st) = clients st" "next_chan (evict_front st) = next_chan st"
  "s_config (evict_front st) = s_config st"
  by (simp_all add: evict_front_def split: list.split)

lemma inv_check:
  assumes "sched_inv c st" "clients st ch = Some (Checking p)"
  shows "sched_inv c (submit_check p st)"
proof -
  have ok: "client_ok st ch (Checking p)" "ch < next_chan st" using assms by (auto simp: sched_inv_def)
  then have ch: "result_sender p = ch" "ch \<notin># held st" by (auto simp: client_ok_def)
  with assms ok inv_proceed [of c st p "Checking p" "Inserting p"] inv_proceed [of c st p "Checking p" "Evicting p"]
    inv_return [of c st ch]
  show ?thesis
    by (auto simp: submit_check_def Let_def split: OverflowStrategy.splits)
qed

lemma inv_submit_evict:
  assumes "sched_inv c st" "clients st ch = Some (Evicting p)"
  shows "sched_inv c (submit_evict p st)"
proof -
  have "client_ok st ch (Evicting p)" using assms by (auto simp: sched_inv_def)
  then have "result_sender p = ch" by (simp add: client_ok_def)
  with inv_proceed [OF inv_evict [OF assms(1)], of p "Evicting p" "Inserting p"] assms(2)
  show ?thesis by (simp add: submit_evict_def)
qed

lemma inv_insert:
  assumes "sched_inv c st" "clients st ch = Some (Inserting p)"
  shows "sched_inv c (submit_insert p st)"
proof -
  let ?st = "submit_insert p st"
  have ok: "client_ok st ch (Inserting p)" "ch < next_chan st" using assms by (auto simp: sched_inv_def)
  then have ch: "result_sender p = ch" "ch \<notin># held st" by (auto simp: client_ok_def)
  have "mset (map result_sender (task_queue ?st)) = add_mset ch (mset (map result_sender (task_queue st)))"
    using ch(1) mset_enqueue [of "s_config st" p "task_queue st"] by (simp add: submit_insert_def)
  then have h: "held ?st = add_mset ch (held st)" by (simp add: held_def submit_insert_def)
  have cnt: "count (held st) ch = 0" using ch(2) by (simp add: count_eq_zero_iff)
  have cl: "clients ?st = (clients st)(ch \<mapsto> Awaiting (pt_id p))" using ch(1) by (simp add: submit_insert_def)
  have "client_ok ?st k x" if "clients ?st k = Some x" for k x
  proof (cases "k = ch")
    case True
    with that cl h show ?thesis by (auto simp: client_ok_def)
  next
    case False
    then have "clients st k = Some x" using that cl by simp
    then have "client_ok st k x" using assms(1) by (auto simp: sched_inv_def)
    with False h show ?thesis by (auto simp: client_ok_def split: client.splits)
  qed
  moreover have "returned st ch = None" using assms by (rule inv_returned_None)
  moreover have "enable_task_priorities c \<Longrightarrow> descending (task_queue ?st)"
    using assms(1) insert_descending by (auto simp: sched_inv_def submit_insert_def enqueue_def)
  ultimately show ?thesis
    using assms(1) ok(2) cnt unfolding sched_inv_def h
    by (auto simp: submit_insert_def ch(1))
qed

lemma inv_take: "sched_inv c st \<Longrightarrow> sched_inv c (loop_take st)"
proof -
  assume inv: "sched_inv c st"
  show ?thesis
  proof (cases "permits st = 0 \<or> select_next (s_config st) (task_queue st) = None")
    case True
    then show ?thesis using inv by (auto simp: loop_take_def)
  next
    case False
    then obtain p q where sel: "select_next (s_config st) (task_queue st) = Some (p, q)" by auto
    note ms = select_next_mset [OF sel]
    let ?st = "loop_take st"
    have st: "task_queue ?st = q" "running ?st = p # running st" "permits ?st = permits st - 1"
      "sent ?st = sent st" "clients ?st = clients st" "returned ?st = returned st"
      "next_chan ?st = next_chan st" "s_config ?st = s_config st"
      using False sel by (simp_all add: loop_take_def)
    have h: "held ?st = held st" using ms by (simp add: held_def st)
    show ?thesis
      using inv False select_next_descending [OF sel]
      unfolding sched_inv_def h client_ok_cong [OF h] by (auto simp: st)
  qed
qed

lemma inv_finish:
  assumes "sched_inv c st" "p \<in> set (running st)"
  shows "sched_inv c (task_end p r st)"
proof -
  let ?st = "task_end p r st"
  have st: "task_queue ?st = task_queue st" "running ?st = remove1 p (running st)"
    "permits ?st = Suc (permits st)" "sent ?st = (result_sender p, r) # sent st"
    "clients ?st = clients st" "returned ?st = returned st" "next_chan ?st = next_chan st"
    "s_config ?st = s_config st"
    by (simp_all add: task_end_def Let_def split: sum.split)
  have "mset (running st) = add_mset p (mset (remove1 p (running st)))" using assms(2) by simp
  from arg_cong [OF this, of "image_mset result_sender"]
  have h: "held ?st = held st" by (simp add: held_def st)
  have len: "length (running st) = Suc (length (remove1 p (running st)))"
    using assms(2) length_pos_if_in_set [OF assms(2)] by (simp add: length_remove1)
  have old: "permits st + length (running st) = max_concurrent_jobs c"
    and ret: "\<And>ch ra. returned st ch = Some ra \<Longrightarrow> ch \<in># held st \<Longrightarrow>
      (ch, ra) \<in> set (sent ?st)"
    using assms(1) by (auto simp: sched_inv_def st; blast)+
  from old len have perm: "permits ?st + length (running ?st) = max_concurrent_jobs c" by (simp add: st)
  show ?thesis
    using assms(1) perm ret unfolding sched_inv_def h client_ok_cong [OF h]
    by (simp only: st) blast
qed

lemma sched_inv_step: "sched_step st st' \<Longrightarrow> sched_inv c st \<Longrightarrow> sched_inv c st'"
proof (induction rule: sched_step.induct)
  case (receive st ch tid r)
  then have "ch < next_chan st" by (auto simp: sched_inv_def)
  with receive show ?case by (intro inv_return) auto
next
  case (idle st)
  then show ?case by (auto intro: sched_inv_quiet)
qed (auto intro: inv_start inv_check inv_submit_evict inv_insert inv_take inv_finish inv_cancel)

lemma sched_inv_reach: "sched_reach c st \<Longrightarrow> sched_inv c st"
proof (induction rule: sched_reach.induct)
  case (init c st)
  then show ?case
    by (auto simp: new_with_config_def bind_res_Inr_iff sched_inv_def held_def descending_def)
next
  case (step c st st')
  then show ?case using sched_inv_step by blast
qed

section \<open>Properties of the scheduler\<close>

text \<open>
  C3.  In every reachable state, however the submitters, the loop and the executions interleave, at
  most \<open>max_concurrent_jobs\<close> tasks run, every permit not available belongs to a running task, no
  channel receives two results, and a submitter that awaits its result has its task in the queue,
  running, or its result sent: no submission is lost or run twice.  A submitter that returned when
  its task had a result returned that result.
\<close>

theorem scheduler_exactly_once:
  assumes "sched_reach c st"
  shows "permits st + length (running st) = max_concurrent_jobs c
    \<and> distinct (map fst (sent st))
    \<and> distinct (map result_sender (task_queue st @ running st))
    \<and> (\<forall>ch tid. clients st ch = Some (Awaiting tid) \<longrightarrow>
         (\<exists>p \<in> set (task_queue st @ running st). result_sender p = ch) \<or> (\<exists>r. (ch, r) \<in> set (sent st)))
    \<and> (\<forall>ch r v. returned st ch = Some r \<longrightarrow> (ch, v) \<in> set (sent st) \<longrightarrow> r = v)"
proof -
  have inv: "sched_inv c st" by (rule sched_inv_reach [OF assms])
  then have one: "count (held st) ch \<le> 1" for ch by (simp add: sched_inv_def)
  have dist: "distinct xs" if "\<And>x. count (mset xs) x \<le> 1" for xs :: "nat list"
    using that by (simp add: distinct_count_atmost_1 count_mset_0_iff le_Suc_eq)
  have "count (mset (map fst (sent st))) x \<le> 1" "count (mset (map result_sender (task_queue st @ running st))) x \<le> 1" for x
    using one [of x] by (simp_all add: held_def)
  then have "distinct (map fst (sent st))" "distinct (map result_sender (task_queue st @ running st))"
    by (simp_all only: dist)
  moreover have "(\<exists>p \<in> set (task_queue st @ running st). result_sender p = ch) \<or> (\<exists>r. (ch, r) \<in> set (sent st))"
    if "clients st ch = Some (Awaiting tid)" for ch tid
  proof -
    have "client_ok st ch (Awaiting tid)" using inv that by (auto simp: sched_inv_def)
    then show ?thesis by (force simp: client_ok_def held_def)
  qed
  moreover have "r = v" if "returned st ch = Some r" "(ch, v) \<in> set (sent st)" for ch r v
  proof -
    have "ch \<in> fst ` set (sent st)" using that(2) by force
    then have "ch \<in># held st" by (simp add: held_def)
    then have "(ch, r) \<in> set (sent st)" using inv that(1) by (simp add: sched_inv_def)
    with that(2) \<open>distinct (map fst (sent st))\<close> show ?thesis by (metis eq_key_imp_eq_value)
  qed
  ultimately show ?thesis using inv by (auto simp: sched_inv_def)
qed

definition demo_sched_config :: "OverflowStrategy \<Rightarrow> ParallelConfig" where
  "demo_sched_config s =
     \<lparr>max_concurrent_jobs = 1, task_queue_size = 1, enable_task_priorities = True,
      auto_balance_workers = False, queue_overflow_strategy = s\<rparr>"

definition sched_init :: "ParallelConfig \<Rightarrow> sched" where
  "sched_init c =
     \<lparr>s_config = c, task_queue = [], permits = max_concurrent_jobs c, active_tasks = (\<lambda>_. None),
      running = [], sent = [], loop_running = True, clients = (\<lambda>_. None),
      returned = (\<lambda>_. None), next_chan = 0\<rparr>"

lemma sched_init_reach: "sched_reach (demo_sched_config s) (sched_init (demo_sched_config s))"
  by (rule sched_reach.init)
    (simp add: new_with_config_def parallel_config_validate_def demo_sched_config_def sched_init_def)

definition demo_task :: "nat \<Rightarrow> str \<Rightarrow> TaskPriority \<Rightarrow> PendingTask" where
  "demo_task ch tid prio = \<lparr>result_sender = ch, pt_id = tid, priority = prio\<rparr>"

text \<open>Two submitters, both past the overflow check before either inserts.\<close>

definition race_state :: "OverflowStrategy \<Rightarrow> sched" where
  "race_state s =
     (let st = submit_start ''b'' ''match'' Normal (submit_start ''a'' ''match'' Normal
                 (sched_init (demo_sched_config s)));
          st = submit_check (demo_task 1 ''b'' Normal) (submit_check (demo_task 0 ''a'' Normal) st)
      in submit_insert (demo_task 1 ''b'' Normal) (submit_insert (demo_task 0 ''a'' Normal) st))"

lemma race_reach: "sched_reach (demo_sched_config s) (race_state s)"
  unfolding race_state_def Let_def
  apply (rule sched_reach.step [OF _ sched_step.insertion [where ch = 1]])
  apply (rule sched_reach.step [OF _ sched_step.insertion [where ch = 0]])
  apply (rule sched_reach.step [OF _ sched_step.check [where ch = 1]])
  apply (rule sched_reach.step [OF _ sched_step.check [where ch = 0]])
  apply (rule sched_reach.step [OF _ sched_step.start])
  apply (rule sched_reach.step [OF _ sched_step.start])
  apply (rule sched_init_reach)
  by (simp_all add: submit_check_def submit_start_def submit_insert_def register_def sched_init_def
      demo_sched_config_def demo_task_def Let_def)

lemma scheduler_exactly_once_witness:
  "permits (race_state Block) + length (running (race_state Block)) = 1
    \<and> distinct (map fst (sent (race_state Block)))"
  using scheduler_exactly_once [OF race_reach [of Block]] by (simp add: demo_sched_config_def)

text \<open>
   The queue bound is not kept by concurrent submitters: the size is read in one critical section
  and the task inserted in another, so under every strategy that is meant to bound the queue a
  state is reachable whose queue is longer than \<open>task_queue_size\<close>.
\<close>

theorem queue_bound_race:
  "\<exists>st. sched_reach (demo_sched_config s) st
      \<and> task_queue_size (demo_sched_config s) < length (task_queue st)"
proof -
  have "length (task_queue (race_state s)) = 2"
    by (simp add: race_state_def submit_check_def submit_start_def submit_insert_def register_def
        sched_init_def demo_sched_config_def demo_task_def Let_def enqueue_def)
  then show ?thesis
    using race_reach [of s] by (intro exI [of _ "race_state s"]) (simp add: demo_sched_config_def)
qed

text \<open>
   With priorities enabled the queue is ordered by descending priority in every reachable state, the
  loop takes a task of the highest priority present, and that task is the one queued last among
  those of its priority: every later position holds a task of strictly lower priority.
\<close>

theorem selection_order:
  assumes "sched_reach c st" "enable_task_priorities c"
    and "select_next c (task_queue st) = Some (p, q)"
  shows "descending (task_queue st) \<and> descending q
    \<and> (\<forall>t \<in> set (task_queue st). priority t \<le> priority p)
    \<and> (\<exists>pre post. task_queue st = pre @ p # post \<and> q = pre @ post
         \<and> (\<forall>t \<in> set post. priority t < priority p))"
proof -
  have d: "descending (task_queue st)" using sched_inv_reach [OF assms(1)] assms(2) by (simp add: sched_inv_def)
  have ne: "task_queue st \<noteq> []" using assms(3) by (auto simp: select_next_def)
  define j where "j = max_from 1 0 (priority (hd (task_queue st))) (tl (task_queue st))"
  have pq: "p = task_queue st ! j" "q = remove_at j (task_queue st)"
    using assms(2,3) ne by (cases "task_queue st"; simp add: select_next_def Let_def j_def)+
  note idx = select_index [OF ne, folded j_def]
  have "task_queue st = take j (task_queue st) @ p # drop (Suc j) (task_queue st)"
    unfolding pq(1) by (rule id_take_nth_drop [OF idx(1)])
  moreover have "\<forall>t \<in> set (drop (Suc j) (task_queue st)). priority t < priority p"
    using idx(3) pq(1) by (auto simp: in_set_conv_nth)
  ultimately show ?thesis
    using d select_next_descending [OF assms(3)] select_next_max [OF assms(3,2)] pq(2)
    by (auto simp: remove_at_def)
qed

lemma selection_order_witness:
  "descending [demo_task 0 ''a'' Normal]
    \<and> select_next (demo_sched_config Block) (task_queue (race_state Block))
        = Some (demo_task 1 ''b'' Normal, [demo_task 0 ''a'' Normal])"
proof -
  have q: "task_queue (race_state Block) = [demo_task 0 ''a'' Normal, demo_task 1 ''b'' Normal]"
    by (simp add: race_state_def submit_check_def submit_start_def submit_insert_def register_def
        sched_init_def demo_sched_config_def demo_task_def Let_def enqueue_def)
  have sel: "select_next (demo_sched_config Block) (task_queue (race_state Block))
      = Some (demo_task 1 ''b'' Normal, [demo_task 0 ''a'' Normal])"
    by (simp add: q select_next_def demo_sched_config_def demo_task_def remove_at_def)
  have "enable_task_priorities (demo_sched_config Block)" by (simp add: demo_sched_config_def)
  from selection_order [OF race_reach this sel] sel show ?thesis by blast
qed

text \<open>
   With priorities enabled, tasks of equal priority run last-in first-out: when every queued task has
  the priority of the one submitted, as in a batch, the loop takes the newest one next and leaves
  the queue as it was.
\<close>

theorem equal_priorities_lifo:
  assumes "enable_task_priorities c" "\<forall>t \<in> set q. priority t = priority p"
  shows "select_next c (enqueue c p q) = Some (p, q)"
proof -
  have ins: "enqueue c p q = q @ [p]"
  proof -
    have "insert_by_priority p q = q @ [p]" using assms(2) by (induction q) auto
    with assms(1) show ?thesis by (simp add: enqueue_def)
  qed
  have ne: "q @ [p] \<noteq> []" by simp
  define j where "j = max_from 1 0 (priority (hd (q @ [p]))) (tl (q @ [p]))"
  note idx = select_index [OF ne, folded j_def]
  have "priority ((q @ [p]) ! j) = priority p"
    using assms(2) idx(1) by (cases "j < length q") (auto simp: nth_append)
  then have "\<not> j < length q" using idx(3) [of "length q"] by auto
  then have "j = length q" using idx(1) by simp
  moreover have "select_next c (q @ [p]) = Some ((q @ [p]) ! j, remove_at j (q @ [p]))"
    using assms(1) by (cases q) (simp_all add: select_next_def Let_def j_def)
  ultimately show ?thesis by (simp add: ins remove_at_def)
qed

lemma equal_priorities_lifo_witness:
  "select_next (demo_sched_config Block) (enqueue (demo_sched_config Block) (demo_task 1 ''new'' Normal)
     [demo_task 0 ''old'' Normal]) = Some (demo_task 1 ''new'' Normal, [demo_task 0 ''old'' Normal])"
  by (rule equal_priorities_lifo) (simp_all add: demo_sched_config_def demo_task_def)

end
