(* ===== verification/Batch_Submission.thy ===== *)
theory Batch_Submission
  imports Scheduler
begin

text \<open>
  The batch interface of the scheduler, \<open>submit_batch_tasks\<close> of
  \<open>src/core/parallel/scheduler.rs\<close>: tasks are registered and queued one after the other, and only
  then is the background loop restarted and are the results awaited.
\<close>

section \<open>Operations\<close>

text \<open>What becomes of one task of a batch.\<close>

datatype batch_verdict = Queued nat | Dropped | BatchRejected | MustWait

definition batch_push :: "str \<Rightarrow> sched \<Rightarrow> sched \<times> batch_verdict" where
  "batch_push tid st =
     (let ch = next_chan st;
          p = \<lparr>result_sender = ch, pt_id = tid, priority = Normal\<rparr>
      in (st\<lparr>task_queue := enqueue (s_config st) p (task_queue st), next_chan := Suc ch\<rparr>, Queued ch))"

definition batch_offer :: "str \<Rightarrow> sched \<Rightarrow> sched \<times> batch_verdict" where
  "batch_offer tid st =
     (if length (task_queue st) < task_queue_size (s_config st) then batch_push tid st
      else
        (case queue_overflow_strategy (s_config st) of
           Block \<Rightarrow> (st, MustWait)
         | DropOldest \<Rightarrow> batch_push tid (evict_front st)
         | Reject \<Rightarrow> (st, BatchRejected)
         | Drop \<Rightarrow> (st, Dropped)
         | Expand \<Rightarrow> batch_push tid st))"

text \<open>
  The loop over the tasks, each with its id and type, while no other participant acts.  It ends with
  the receivers to await, with an empty result because the batch was rejected, or waiting for
  space with tasks left.
\<close>

datatype batch_outcome =
  AwaitAll "(str \<times> nat) list"
| ReturnEmpty
| Waiting "(str \<times> str) list"

fun batch_enqueue :: "(str \<times> str) list \<Rightarrow> (str \<times> nat) list \<Rightarrow> sched \<Rightarrow> sched \<times> batch_outcome" where
  "batch_enqueue [] receivers st = (st\<lparr>loop_running := True\<rparr>, AwaitAll receivers)"
| "batch_enqueue ((tid, ty) # tasks) receivers st =
     (let (st', verdict) = batch_offer tid (register tid ty st) in
      case verdict of
        Queued ch \<Rightarrow> batch_enqueue tasks (receivers @ [(tid, ch)]) st'
      | Dropped \<Rightarrow> batch_enqueue tasks receivers st'
      | BatchRejected \<Rightarrow> (st', ReturnEmpty)
      | MustWait \<Rightarrow> (st', Waiting ((tid, ty) # tasks)))"

text \<open>
  Awaiting the results in order.  A receiver without a value waits, \<open>None\<close>; a dropped sender gives
  the interruption message; each received result removes the entry of its task.
\<close>

fun batch_collect :: "(str \<times> nat) list \<Rightarrow> sched \<Rightarrow> (sched \<times> TaskResult list) option" where
  "batch_collect [] st = Some (st, [])"
| "batch_collect ((tid, ch) # rs) st =
     (case map_of (sent st) ch of
        None \<Rightarrow> None
      | Some r \<Rightarrow>
          (case batch_collect rs (unregister tid st) of
             None \<Rightarrow> None
           | Some (st', results) \<Rightarrow>
               Some (st', (case r of Inr v \<Rightarrow> v | Inl _ \<Rightarrow> Failed ''Task execution interrupted'') # results)))"

section \<open>Lemmas\<close>

lemma register_other [simp]: "loop_running (register tid ty st) = loop_running st"
  by (simp add: register_def)

lemma evict_front_loop [simp]: "loop_running (evict_front st) = loop_running st"
  by (simp add: evict_front_def split: list.split)

lemma length_enqueue [simp]: "length (enqueue c p q) = Suc (length q)"
  by (metis mset_enqueue size_add_mset size_mset)

lemma batch_push_simps:
  "batch_push tid st = (st', v) \<Longrightarrow> s_config st' = s_config st"
  "batch_push tid st = (st', v) \<Longrightarrow> loop_running st' = loop_running st"
  "batch_push tid st = (st', v) \<Longrightarrow> active_tasks st' = active_tasks st"
  "batch_push tid st = (st', v) \<Longrightarrow> length (task_queue st') = Suc (length (task_queue st))"
  "batch_push tid st = (st', v) \<Longrightarrow> \<exists>ch. v = Queued ch"
  by (auto simp: batch_push_def Let_def)

lemma batch_offer_config:
  "batch_offer tid st = (st', v) \<Longrightarrow> s_config st' = s_config st \<and> loop_running st' = loop_running st"
  by (auto simp: batch_offer_def batch_push_simps split: if_splits OverflowStrategy.splits)

text \<open>One submitter keeps the bound of the queue, whatever the strategy, unless it is \<open>Expand\<close>.\<close>

lemma length_evict_front: "length (task_queue (evict_front st)) = length (task_queue st) - 1"
  by (simp add: evict_front_def split: list.split)

lemma batch_offer_bound:
  assumes "batch_offer tid st = (st', v)" "length (task_queue st) \<le> task_queue_size (s_config st)"
    and "queue_overflow_strategy (s_config st) \<noteq> Expand" "0 < task_queue_size (s_config st)"
  shows "length (task_queue st') \<le> task_queue_size (s_config st')"
proof -
  have c: "s_config st' = s_config st" using batch_offer_config [OF assms(1)] by simp
  show ?thesis unfolding c using assms
    by (auto simp: batch_offer_def batch_push_simps length_evict_front
        split: if_splits OverflowStrategy.splits)
qed

lemma batch_enqueue_bound:
  assumes "batch_enqueue tasks rs st = (st', out)" "length (task_queue st) \<le> task_queue_size (s_config st)"
    and "queue_overflow_strategy (s_config st) \<noteq> Expand" "0 < task_queue_size (s_config st)"
  shows "length (task_queue st') \<le> task_queue_size (s_config st) \<and> s_config st' = s_config st"
  using assms
proof (induction tasks rs st rule: batch_enqueue.induct)
  case (2 tid ty tasks rs st)
  obtain st1 v where o: "batch_offer tid (register tid ty st) = (st1, v)" by fastforce
  have c: "s_config st1 = s_config st" using batch_offer_config [OF o] by simp
  have b: "length (task_queue st1) \<le> task_queue_size (s_config st1)"
    using batch_offer_bound [OF o] "2.prems" by simp
  show ?case
  proof (cases v)
    case (Queued ch)
    then show ?thesis using "2.IH"(1) [OF o [symmetric] refl Queued] "2.prems" o c b by simp
  next
    case Dropped
    then show ?thesis using "2.IH"(2) [OF o [symmetric] refl Dropped] "2.prems" o c b by simp
  qed (use "2.prems" o c b in auto)
qed auto

lemma batch_config_kept: "batch_enqueue tasks rs st = (st', out) \<Longrightarrow> s_config st' = s_config st"
proof (induction tasks rs st rule: batch_enqueue.induct)
  case (2 tid ty tasks rs st)
  obtain st1 v where o: "batch_offer tid (register tid ty st) = (st1, v)" by fastforce
  have c: "s_config st1 = s_config st" using batch_offer_config [OF o] by simp
  show ?case
  proof (cases v)
    case (Queued ch)
    from "2.IH"(1) [OF o [symmetric] refl Queued] "2.prems" o Queued c show ?thesis by simp
  next
    case Dropped
    from "2.IH"(2) [OF o [symmetric] refl Dropped] "2.prems" o Dropped c show ?thesis by simp
  qed (use "2.prems" o c in auto)
qed auto

text \<open>Registered entries stay: the loop over the tasks removes an entry only when it evicts one.\<close>

lemma batch_offer_keeps:
  "batch_offer tid st = (st', v) \<Longrightarrow> queue_overflow_strategy (s_config st) \<noteq> DropOldest \<Longrightarrow>
   active_tasks st' = active_tasks st"
  by (auto simp: batch_offer_def batch_push_simps split: if_splits OverflowStrategy.splits)

lemma batch_enqueue_registers:
  assumes "batch_enqueue tasks rs st = (st', out)" "queue_overflow_strategy (s_config st) \<noteq> DropOldest"
  shows "(active_tasks st t \<noteq> None \<longrightarrow> active_tasks st' t \<noteq> None)
    \<and> (\<forall>rs'. out = AwaitAll rs' \<longrightarrow> (\<forall>(u, ty) \<in> set tasks. active_tasks st' u \<noteq> None))"
  using assms
proof (induction tasks rs st arbitrary: t rule: batch_enqueue.induct)
  case (2 tid ty tasks rs st)
  obtain st1 v where o: "batch_offer tid (register tid ty st) = (st1, v)" by fastforce
  have c: "s_config st1 = s_config st" using batch_offer_config [OF o] by simp
  have a: "active_tasks st1 = active_tasks (register tid ty st)"
    using batch_offer_keeps [OF o] "2.prems" by simp
  have own: "active_tasks st1 tid \<noteq> None" "\<And>t. active_tasks st t \<noteq> None \<Longrightarrow> active_tasks st1 t \<noteq> None"
    by (simp_all add: a register_def)
  show ?case
  proof (cases v)
    case (Queued ch)
    from "2.IH"(1) [OF o [symmetric] refl Queued] "2.prems" o c Queued
    have ih: "\<And>t. (active_tasks st1 t \<noteq> None \<longrightarrow> active_tasks st' t \<noteq> None)
      \<and> (\<forall>rs'. out = AwaitAll rs' \<longrightarrow> (\<forall>(u, ty) \<in> set tasks. active_tasks st' u \<noteq> None))" by simp
    then show ?thesis using own by auto
  next
    case Dropped
    from "2.IH"(2) [OF o [symmetric] refl Dropped] "2.prems" o c Dropped
    have ih: "\<And>t. (active_tasks st1 t \<noteq> None \<longrightarrow> active_tasks st' t \<noteq> None)
      \<and> (\<forall>rs'. out = AwaitAll rs' \<longrightarrow> (\<forall>(u, ty) \<in> set tasks. active_tasks st' u \<noteq> None))" by simp
    then show ?thesis using own by auto
  qed (use "2.prems" o own in auto)
qed auto

lemma batch_collect_active:
  "batch_collect rs st = Some (st', results) \<Longrightarrow>
   length results = length rs \<and> (t \<notin> fst ` set rs \<longrightarrow> active_tasks st' t = active_tasks st t)"
  by (induction rs st arbitrary: st' results rule: batch_collect.induct)
    (fastforce simp: unregister_def split: option.splits prod.splits)+

lemma batch_collect_one:
  "map_of (sent st) ch = Some (Inr v) \<Longrightarrow> batch_collect [(tid, ch)] st = Some (unregister tid st, [v])"
  by simp

lemma batch_enqueue_receivers:
  "batch_enqueue tasks rs st = (st', AwaitAll rs') \<Longrightarrow>
   fst ` set rs' \<subseteq> fst ` set rs \<union> fst ` set tasks \<and> length rs' \<le> length rs + length tasks"
proof (induction tasks rs st rule: batch_enqueue.induct)
  case (2 tid ty tasks rs st)
  obtain st1 v where o: "batch_offer tid (register tid ty st) = (st1, v)" by fastforce
  show ?case
  proof (cases v)
    case (Queued ch)
    from "2.IH"(1) [OF o [symmetric] refl Queued] "2.prems" o Queued show ?thesis by auto
  next
    case Dropped
    from "2.IH"(2) [OF o [symmetric] refl Dropped] "2.prems" o Dropped show ?thesis by auto
  qed (use "2.prems" o in auto)
qed auto

text \<open>Waiting batches under \<open>Block\<close>: the queue is full and the loop is as it was.\<close>

lemma batch_enqueue_block:
  assumes "queue_overflow_strategy (s_config st) = Block" "batch_enqueue tasks rs st = (st', out)"
    and "length (task_queue st) \<le> task_queue_size (s_config st)"
  shows "(if length (task_queue st) + length tasks \<le> task_queue_size (s_config st)
          then \<exists>rs'. out = AwaitAll rs'
          else (\<exists>rest. out = Waiting rest \<and> rest \<noteq> []) \<and> loop_running st' = loop_running st
            \<and> length (task_queue st') = task_queue_size (s_config st) \<and> running st' = running st)"
  using assms
proof (induction tasks rs st rule: batch_enqueue.induct)
  case (2 tid ty tasks rs st)
  let ?st = "register tid ty st"
  show ?case
  proof (cases "length (task_queue st) < task_queue_size (s_config st)")
    case True
    obtain st1 v where o: "batch_push tid ?st = (st1, v)" by fastforce
    then obtain ch where v: "v = Queued ch" using batch_push_simps(5) by blast
    have bo: "batch_offer tid ?st = (st1, Queued ch)" using True o v by (simp add: batch_offer_def)
    have r: "running st1 = running st" using o by (auto simp: batch_push_def Let_def)
    note facts = batch_push_simps(1,2,4) [OF o]
    from "2.IH"(1) [OF bo [symmetric] refl refl] "2.prems" bo True facts r show ?thesis
      by (auto split: if_splits)
  next
    case False
    then show ?thesis using "2.prems" by (auto simp: batch_offer_def)
  qed
qed auto

section \<open>Properties\<close>

text \<open>
  A full queue with no loop to drain it: whatever the participants do, it stays that way, because
  the loop is restarted only after an insertion and a blocked submitter does not insert.
\<close>

definition stuck_full :: "sched \<Rightarrow> bool" where
  "stuck_full st \<longleftrightarrow>
     \<not> loop_running st \<and> queue_overflow_strategy (s_config st) = Block
     \<and> task_queue_size (s_config st) \<le> length (task_queue st)
     \<and> (\<forall>ch p. clients st ch \<noteq> Some (Inserting p) \<and> clients st ch \<noteq> Some (Evicting p))"

lemma stuck_full_unregister: "stuck_full (unregister tid st) = stuck_full st"
  by (simp add: stuck_full_def)

lemma task_end_simps:
  "loop_running (task_end p r st) = loop_running st" "s_config (task_end p r st) = s_config st"
  "task_queue (task_end p r st) = task_queue st" "clients (task_end p r st) = clients st"
  by (simp_all add: task_end_def Let_def set_status_def split: sum.split option.split)

lemma stuck_full_step: "sched_step st st' \<Longrightarrow> stuck_full st \<Longrightarrow> stuck_full st'"
proof (induction rule: sched_step.induct)
  case (cancel st ch c tid)
  then show ?case by (auto simp: stuck_full_unregister stuck_full_def)
qed (auto simp: stuck_full_def submit_start_def Let_def register_def submit_check_def client_return_def
      unregister_def task_end_simps)

lemma stuck_full_forever: "sched_step\<^sup>*\<^sup>* st st' \<Longrightarrow> stuck_full st \<Longrightarrow> stuck_full st'"
  by (induction rule: rtranclp_induct) (auto intro: stuck_full_step)

lemma batch_offer_clients: "batch_offer tid st = (st', v) \<Longrightarrow> clients st' = clients st"
  by (auto simp: batch_offer_def batch_push_def Let_def split: if_splits OverflowStrategy.splits)

lemma batch_enqueue_clients: "batch_enqueue tasks rs st = (st', out) \<Longrightarrow> clients st' = clients st"
proof (induction tasks rs st rule: batch_enqueue.induct)
  case (2 tid ty tasks rs st)
  obtain st1 v where o: "batch_offer tid (register tid ty st) = (st1, v)" by fastforce
  note c = batch_offer_clients [OF o]
  show ?case
  proof (cases v)
    case (Queued ch)
    from "2.IH"(1) [OF o [symmetric] refl Queued] "2.prems" o Queued c show ?thesis by simp
  next
    case Dropped
    from "2.IH"(2) [OF o [symmetric] refl Dropped] "2.prems" o Dropped c show ?thesis by simp
  qed (use "2.prems" o c in auto)
qed auto


definition idle_state :: "OverflowStrategy \<Rightarrow> sched" where
  "idle_state s = (sched_init (demo_sched_config s))\<lparr>loop_running := False\<rparr>"


text \<open>
   Under the \<open>Drop\<close> strategy a task that a batch drops stays registered: when the batch has
  collected its results the entry is still there, although the task will never run, so the loop
  can never end by its idle timeout again.
\<close>

theorem batch_dropped_task_leaks:
  assumes "queue_overflow_strategy (s_config st) = Drop"
    and "batch_enqueue tasks [] st = (st', AwaitAll rs)" "tid \<in> fst ` set tasks" "tid \<notin> fst ` set rs"
    and "active_tasks st2 tid = active_tasks st' tid" "batch_collect rs st2 = Some (st3, results)"
  shows "active_tasks st3 tid \<noteq> None \<and> \<not> loop_may_end st3"
proof -
  have "active_tasks st' tid \<noteq> None"
    using batch_enqueue_registers [OF assms(2), of tid] assms(1,3) by auto
  moreover have "active_tasks st3 tid = active_tasks st2 tid"
    using batch_collect_active [OF assms(6), of tid] assms(4) by simp
  ultimately show ?thesis using assms(5) by (metis loop_may_end_def)
qed

lemma batch_dropped_task_leaks_witness:
  "\<exists>st' st3. batch_enqueue [(''a'', ''match''), (''b'', ''match'')] [] (idle_state Drop)
       = (st', AwaitAll [(''a'', 0)])
     \<and> batch_collect [(''a'', 0)] (task_end (demo_task 0 ''a'' Normal) (Inr (Success ''done'')) (loop_take st'))
       = Some (st3, [Success ''done''])
     \<and> \<not> loop_may_end st3"
proof -
  let ?b = "batch_enqueue [(''a'', ''match''), (''b'', ''match'')] [] (idle_state Drop)"
  let ?st' = "fst ?b"
  let ?st2 = "task_end (demo_task 0 ''a'' Normal) (Inr (Success ''done'')) (loop_take ?st')"
  let ?st3 = "unregister ''a'' ?st2"
  note defs = idle_state_def sched_init_def demo_sched_config_def batch_offer_def batch_push_def
    register_def Let_def enqueue_def
  have b: "?b = (?st', AwaitAll [(''a'', 0)])" by (simp add: defs)
  have a: "active_tasks ?st2 ''b'' = active_tasks ?st' ''b''" "map_of (sent ?st2) 0 = Some (Inr (Success ''done''))"
    by (simp_all add: defs loop_take_def select_next_def task_end_def set_status_def demo_task_def)
  have c: "batch_collect [(''a'', 0)] ?st2 = Some (?st3, [Success ''done''])" by (rule batch_collect_one [OF a(2)])
  have "active_tasks ?st3 ''b'' \<noteq> None \<and> \<not> loop_may_end ?st3"
    by (rule batch_dropped_task_leaks [OF _ b _ _ a(1) c])
      (simp_all add: idle_state_def sched_init_def demo_sched_config_def)
  with b c show ?thesis by blast
qed

text \<open>
   \<open>DropOldest\<close> with priorities enabled does not drop the oldest task: in every reachable state the
  task evicted by a submission is one of the highest priority in the queue.
\<close>

theorem drop_oldest_evicts_top_priority:
  assumes "sched_reach c st" "enable_task_priorities c" "task_queue st = t # ts"
  shows "task_queue (evict_front st) = ts \<and> (result_sender t, Inr (Failed drop_message)) \<in> set (sent (evict_front st))
    \<and> (\<forall>u \<in> set ts. priority u \<le> priority t)"
proof -
  have "descending (t # ts)" using sched_inv_reach [OF assms(1)] assms(2,3) by (simp add: sched_inv_def)
  then show ?thesis by (simp add: evict_front_def assms(3) descending_def)
qed

lemma drop_oldest_evicts_top_priority_witness:
  "task_queue (evict_front (race_state DropOldest)) = [demo_task 1 ''b'' Normal]"
proof -
  have q: "task_queue (race_state DropOldest) = [demo_task 0 ''a'' Normal, demo_task 1 ''b'' Normal]"
    by (simp add: race_state_def submit_check_def submit_start_def submit_insert_def register_def
        sched_init_def demo_sched_config_def demo_task_def Let_def enqueue_def)
  have "enable_task_priorities (demo_sched_config DropOldest)" by (simp add: demo_sched_config_def)
  from drop_oldest_evicts_top_priority [OF race_reach this q] show ?thesis by simp
qed

end
