(* ===== verification/Worker_Pool.thy ===== *)
theory Worker_Pool
  imports Scheduler Complex_Main
begin

text \<open>
  The worker pool (\<open>src/core/parallel/worker.rs\<close>) and the load balancer
  (\<open>src/core/parallel/load_balancer.rs\<close>).  The pool is the map from worker ids to workers, a step
  is one critical section of \<open>execute\<close> or \<open>shutdown\<close>; worker ids are numbers, as only their
  freshness matters.  A spawned task ends on its own, which the pool does not observe.
\<close>

section \<open>Types\<close>

datatype WorkerType = CpuIntensive | IoIntensive | Mixed

record WorkerInfo =
  w_task_id :: str
  w_type :: WorkerType
  w_done :: bool

record WorkerPool =
  workers :: "nat \<Rightarrow> WorkerInfo option"
  max_workers :: nat

record WorkerStats =
  total_active :: nat
  cpu_intensive_count :: nat
  io_intensive_count :: nat
  mixed_count :: nat
  max_capacity :: nat

datatype WorkerStatus = Idle | Busy str | Stopped | WorkerError str

record Worker =
  worker_id :: nat
  worker_status :: WorkerStatus

section \<open>Operations\<close>

definition new_pool :: "nat \<Rightarrow> WorkerPool" where
  "new_pool n = \<lparr>workers = (\<lambda>_. None), max_workers = n\<rparr>"

definition new_worker :: "nat \<Rightarrow> Worker" where
  "new_worker wid = \<lparr>worker_id = wid, worker_status = Idle\<rparr>"

definition worker_set_status :: "WorkerStatus \<Rightarrow> Worker \<Rightarrow> Worker" where
  "worker_set_status s w = w\<lparr>worker_status := s\<rparr>"

definition determine_worker_type :: "str \<Rightarrow> WorkerType" where
  "determine_worker_type t =
     (if t = ''convert'' then CpuIntensive
      else if t = ''sync'' then Mixed
      else if t = ''match'' then IoIntensive
      else if t = ''validate'' then IoIntensive
      else Mixed)"

definition get_active_count :: "WorkerPool \<Rightarrow> nat" where
  "get_active_count p = card (dom (workers p))"

text \<open>
  The two critical sections of \<open>execute\<close>, between which the task is spawned and other callers may
  run, and \<open>execute\<close> without interruption.
\<close>

definition execute_check :: "WorkerPool \<Rightarrow> str + unit" where
  "execute_check p =
     (if max_workers p \<le> get_active_count p then Inl ''Worker pool is full'' else Inr ())"

definition execute_insert :: "nat \<Rightarrow> str \<Rightarrow> str \<Rightarrow> WorkerPool \<Rightarrow> WorkerPool" where
  "execute_insert wid tid typ p =
     p\<lparr>workers := (workers p)
        (wid \<mapsto> \<lparr>w_task_id = tid, w_type = determine_worker_type typ, w_done = False\<rparr>)\<rparr>"

definition pool_execute :: "nat \<Rightarrow> str \<Rightarrow> str \<Rightarrow> WorkerPool \<Rightarrow> WorkerPool \<times> (str + TaskResult)" where
  "pool_execute wid tid typ p =
     (case execute_check p of
        Inl e \<Rightarrow> (p, Inl e)
      | Inr _ \<Rightarrow> (execute_insert wid tid typ p, Inr (Success ''Task submitted'')))"

text \<open>The end of a spawned task is seen in its handle only.\<close>

definition worker_done :: "nat \<Rightarrow> WorkerPool \<Rightarrow> WorkerPool" where
  "worker_done wid p =
     (case workers p wid of
        None \<Rightarrow> p
      | Some w \<Rightarrow> p\<lparr>workers := (workers p)(wid \<mapsto> w\<lparr>w_done := True\<rparr>)\<rparr>)"

text \<open>\<open>shutdown\<close> takes the whole map and awaits every handle.\<close>

definition pool_shutdown :: "WorkerPool \<Rightarrow> WorkerPool" where
  "pool_shutdown p = p\<lparr>workers := (\<lambda>_. None)\<rparr>"

definition count_type :: "WorkerType \<Rightarrow> WorkerPool \<Rightarrow> nat" where
  "count_type t p = card {wid \<in> dom (workers p). w_type (the (workers p wid)) = t}"

definition get_worker_stats :: "WorkerPool \<Rightarrow> WorkerStats" where
  "get_worker_stats p =
     \<lparr>total_active = get_active_count p,
      cpu_intensive_count = count_type CpuIntensive p,
      io_intensive_count = count_type IoIntensive p,
      mixed_count = count_type Mixed p,
      max_capacity = max_workers p\<rparr>"

text \<open>The pool with the accepted tasks not yet inserted.\<close>

type_synonym pool_run = "WorkerPool \<times> (nat \<times> str \<times> str) list"

inductive pool_step :: "pool_run \<Rightarrow> pool_run \<Rightarrow> bool" where
  accept: "execute_check p = Inr () \<Longrightarrow> pool_step (p, pend) (p, (wid, tid, typ) # pend)"
| insertion: "(wid, tid, typ) \<in> set pend \<Longrightarrow>
    pool_step (p, pend) (execute_insert wid tid typ p, remove1 (wid, tid, typ) pend)"
| task_done: "pool_step (p, pend) (worker_done wid p, pend)"

text \<open>The load balancer, with the time since the last balancing and the interval in seconds.\<close>

record LoadBalancer =
  cpu_load_history :: "real list"
  io_load_history :: "real list"
  since_balance :: nat
  balance_interval :: nat

definition new_balancer :: LoadBalancer where
  "new_balancer =
     \<lparr>cpu_load_history = [], io_load_history = [], since_balance = 0, balance_interval = 30\<rparr>"

definition should_rebalance :: "LoadBalancer \<Rightarrow> bool" where
  "should_rebalance b \<longleftrightarrow> balance_interval b \<le> since_balance b"

definition calculate_optimal_distribution :: "LoadBalancer \<Rightarrow> nat \<times> nat" where
  "calculate_optimal_distribution b = (0, 0)"

section \<open>Lemmas\<close>

lemma worker_done_dom [simp]: "dom (workers (worker_done wid p)) = dom (workers p)"
  by (auto simp: worker_done_def split: option.splits if_splits)

lemma worker_done_count [simp]:
  "get_active_count (worker_done wid p) = get_active_count p" "max_workers (worker_done wid p) = max_workers p"
  by (simp_all add: get_active_count_def) (simp add: worker_done_def split: option.splits)

lemma execute_insert_simps [simp]:
  "max_workers (execute_insert wid tid typ p) = max_workers p"
  "dom (workers (execute_insert wid tid typ p)) = insert wid (dom (workers p))"
  by (auto simp: execute_insert_def)

lemma execute_insert_count:
  "finite (dom (workers p)) \<Longrightarrow> get_active_count p \<le> get_active_count (execute_insert wid tid typ p)"
  by (simp add: get_active_count_def card_insert_if)

lemma pool_step_grows:
  "pool_step a b \<Longrightarrow> finite (dom (workers (fst a))) \<Longrightarrow>
   finite (dom (workers (fst b))) \<and> max_workers (fst b) = max_workers (fst a)
     \<and> get_active_count (fst a) \<le> get_active_count (fst b)"
  by (induction rule: pool_step.induct) (auto intro: execute_insert_count)

lemma pool_steps_grow:
  assumes "pool_step\<^sup>*\<^sup>* a b" "finite (dom (workers (fst a)))"
  shows "finite (dom (workers (fst b))) \<and> max_workers (fst b) = max_workers (fst a)
     \<and> get_active_count (fst a) \<le> get_active_count (fst b)"
  using assms
proof (induction rule: rtranclp_induct)
  case (step b c)
  then show ?case using pool_step_grows [OF step.hyps(2)] by auto
qed simp

lemma count_types:
  "finite (dom (workers p)) \<Longrightarrow>
   count_type CpuIntensive p + count_type IoIntensive p + count_type Mixed p = get_active_count p"
proof -
  assume fin: "finite (dom (workers p))"
  let ?S = "\<lambda>t. {wid \<in> dom (workers p). w_type (the (workers p wid)) = t}"
  have "dom (workers p) = ?S CpuIntensive \<union> ?S IoIntensive \<union> ?S Mixed"
    using WorkerType.exhaust by blast
  then have "card (dom (workers p)) = card (?S CpuIntensive \<union> ?S IoIntensive \<union> ?S Mixed)" by simp
  also have "\<dots> = card (?S CpuIntensive \<union> ?S IoIntensive) + card (?S Mixed)"
    by (rule card_Un_disjoint) (use fin in auto)
  also have "card (?S CpuIntensive \<union> ?S IoIntensive) = card (?S CpuIntensive) + card (?S IoIntensive)"
    by (rule card_Un_disjoint) (use fin in auto)
  finally show ?thesis by (simp add: count_type_def get_active_count_def)
qed

section \<open>Properties\<close>

text \<open>
   A pool without shutdown never frees a worker: once \<open>max_workers\<close> tasks have been accepted, every
  later \<open>execute\<close> is refused, whichever of the tasks have ended, and the reported counts add up to
  the full pool.
\<close>

theorem full_pool_stays_full:
  assumes "finite (dom (workers p))" "max_workers p \<le> get_active_count p"
    and "pool_step\<^sup>*\<^sup>* (p, pend) (p', pend')"
  shows "pool_execute wid tid typ p' = (p', Inl ''Worker pool is full'')
    \<and> max_workers p \<le> total_active (get_worker_stats p')
    \<and> cpu_intensive_count (get_worker_stats p') + io_intensive_count (get_worker_stats p')
        + mixed_count (get_worker_stats p') = total_active (get_worker_stats p')"
proof -
  have "finite (dom (workers p'))" "max_workers p' = max_workers p" "get_active_count p \<le> get_active_count p'"
    using pool_steps_grow [OF assms(3)] assms(1) by auto
  then show ?thesis
    using count_types [of p'] assms(2) by (simp add: pool_execute_def execute_check_def get_worker_stats_def)
qed

definition full_pool :: WorkerPool where
  "full_pool = fst (pool_execute 0 ''a'' ''convert'' (new_pool 1))"

lemma full_pool_stays_full_witness:
  "pool_execute 1 ''b'' ''match'' (worker_done 0 full_pool) = (worker_done 0 full_pool, Inl ''Worker pool is full'')"
proof -
  have c: "get_active_count full_pool = 1" "max_workers full_pool = 1" "finite (dom (workers full_pool))"
    by (simp_all add: full_pool_def new_pool_def pool_execute_def execute_check_def execute_insert_def
        get_active_count_def)
  then have "max_workers full_pool \<le> get_active_count full_pool" by simp
  from full_pool_stays_full [OF c(3) this r_into_rtranclp [of pool_step, OF task_done], where wid = 1]
  show ?thesis by blast
qed

text \<open>
  The capacity is not kept by concurrent callers: two callers that both pass the check of a
  pool of size one before either inserts leave it with two workers.
\<close>

theorem pool_capacity_race:
  "\<exists>p pend. pool_step\<^sup>*\<^sup>* (new_pool (Suc 0), []) (p, pend) \<and> max_workers p < get_active_count p"
proof -
  let ?p = "new_pool (Suc 0)"
  let ?a = "(0, ''a'', ''match'') :: nat \<times> str \<times> str"
  let ?b = "(1, ''b'', ''match'') :: nat \<times> str \<times> str"
  let ?q = "execute_insert 1 ''b'' ''match'' (execute_insert 0 ''a'' ''match'' ?p)"
  have ok: "execute_check ?p = Inr ()" by (simp add: execute_check_def new_pool_def get_active_count_def)
  note acc = pool_step.accept [OF ok]
  have "pool_step\<^sup>*\<^sup>* (?p, []) (?p, [?a, ?b])"
    using acc [of "[]" 1 "''b''" "''match''"] acc [of "[?b]" 0 "''a''" "''match''"] by force
  moreover have "pool_step (?p, [?a, ?b]) (execute_insert 0 ''a'' ''match'' ?p, [?b])"
    using pool_step.insertion [of 0 "''a''" "''match''" "[?a, ?b]" ?p] by simp
  moreover have "pool_step (execute_insert 0 ''a'' ''match'' ?p, [?b]) (?q, [])"
    using pool_step.insertion [of 1 "''b''" "''match''" "[?b]"] by simp
  ultimately have "pool_step\<^sup>*\<^sup>* (?p, []) (?q, [])" by (meson rtranclp.rtrancl_into_rtrancl)
  moreover have "max_workers ?q < get_active_count ?q"
    by (simp add: get_active_count_def new_pool_def)
  ultimately show ?thesis by blast
qed

end
