(* ===== verification/Regex_Engine.thy ===== *)
theory Regex_Engine
  imports SubX_Error
begin

text \<open>
  The interface to the \<open>regex\<close> crate.  The crate is not part of the repository, so the searches
  of the source are calls of an engine that is an argument of every definition using one.  A
  pattern is written as data: alternatives in order of preference, each with an anchor and a
  sequence of repeated character classes, some of them inside a capture group.  The locale
  \<open>regex_engine\<close> states what the crate documents: the match found is the leftmost one, the first
  alternative and the longest repetition being preferred (\<open>rx_search\<close>).  Which characters outside
  ASCII are decimal digits for \<open>\d\<close> is a parameter: the list \<open>nd\<close> of their encodings.
\<close>

datatype cset = CDigit | CSpace | CLit char | CNot str | CRange char char | CNonSpace str

record rx_item =
  group :: nat
  rep_min :: nat
  rep_max :: "nat option"
  cls :: cset

datatype anchor = NoAnchor | TextStart | LineStart

type_synonym rx_alt = "anchor \<times> rx_item list"
type_synonym rx = "rx_alt list"

text \<open>A match: the text before it, what each item matched with its group, the text after it.\<close>

type_synonym rx_match = "str \<times> (nat \<times> str) list \<times> str"

record regex_crate =
  captures :: "rx \<Rightarrow> str \<Rightarrow> rx_match option"
  replace_all :: "rx \<Rightarrow> ((nat \<times> str) list \<Rightarrow> str) \<Rightarrow> str \<Rightarrow> str"

definition is_match :: "'m regex_crate_scheme \<Rightarrow> rx \<Rightarrow> str \<Rightarrow> bool" where
  "is_match eng r s \<longleftrightarrow> captures eng r s \<noteq> None"

definition cap :: "(nat \<times> str) list \<Rightarrow> nat \<Rightarrow> str" where
  "cap ms k = concat (map snd (filter (\<lambda>m. fst m = k) ms))"

section \<open>Building patterns\<close>

definition lit :: "char \<Rightarrow> rx_item" where
  "lit c = \<lparr>group = 0, rep_min = 1, rep_max = Some 1, cls = CLit c\<rparr>"

definition lits :: "str \<Rightarrow> rx_item list" where
  "lits s = map lit s"

definition digits :: "nat \<Rightarrow> nat \<Rightarrow> rx_item" where
  "digits g n = \<lparr>group = g, rep_min = n, rep_max = Some n, cls = CDigit\<rparr>"

definition digits_plus :: "nat \<Rightarrow> rx_item" where
  "digits_plus g = \<lparr>group = g, rep_min = 1, rep_max = None, cls = CDigit\<rparr>"

definition star :: "nat \<Rightarrow> cset \<Rightarrow> rx_item" where
  "star g c = \<lparr>group = g, rep_min = 0, rep_max = None, cls = c\<rparr>"

definition plus :: "nat \<Rightarrow> cset \<Rightarrow> rx_item" where
  "plus g c = \<lparr>group = g, rep_min = 1, rep_max = None, cls = c\<rparr>"

definition optional :: "nat \<Rightarrow> cset \<Rightarrow> rx_item" where
  "optional g c = \<lparr>group = g, rep_min = 0, rep_max = Some 1, cls = c\<rparr>"

section \<open>The documented search\<close>

text \<open>How many bytes one character of the class takes at the front of the text; 0 if none is there.
  A negated class counts a multi-byte character by its bytes, all of which it contains.\<close>

definition cset_len :: "str list \<Rightarrow> cset \<Rightarrow> str \<Rightarrow> nat" where
  "cset_len nd c s =
     (case s of
        [] \<Rightarrow> 0
      | x # _ \<Rightarrow>
        (case c of
           CDigit \<Rightarrow>
             if is_digit x then 1
             else (case List.find (\<lambda>e. e \<noteq> [] \<and> prefix e s) nd of None \<Rightarrow> 0 | Some e \<Rightarrow> length e)
         | CSpace \<Rightarrow>
             (case List.find (\<lambda>e. e \<noteq> [] \<and> prefix e s) utf8_ws of None \<Rightarrow> 0 | Some e \<Rightarrow> length e)
         | CLit y \<Rightarrow> if x = y then 1 else 0
         | CNot ys \<Rightarrow> if x \<in> set ys then 0 else 1
         | CRange a b \<Rightarrow> if code a \<le> code x \<and> code x \<le> code b then 1 else 0
         | CNonSpace ys \<Rightarrow> if x \<in> set ys \<or> (\<exists>e \<in> set utf8_ws. prefix e s) then 0 else 1))"

fun rep_lens :: "str list \<Rightarrow> cset \<Rightarrow> nat \<Rightarrow> str \<Rightarrow> nat list" where
  "rep_lens nd c 0 s = [0]"
| "rep_lens nd c (Suc k) s =
     (let l = cset_len nd c s
      in if l = 0 then [0] else 0 # map ((+) l) (rep_lens nd c k (drop l s)))"

definition item_lens :: "str list \<Rightarrow> rx_item \<Rightarrow> str \<Rightarrow> nat list" where
  "item_lens nd it s =
     rev (drop (rep_min it)
       (rep_lens nd (cls it) (case rep_max it of None \<Rightarrow> length s | Some h \<Rightarrow> h) s))"

fun first_some :: "('a \<Rightarrow> 'b option) \<Rightarrow> 'a list \<Rightarrow> 'b option" where
  "first_some f [] = None"
| "first_some f (x # xs) = (case f x of None \<Rightarrow> first_some f xs | Some y \<Rightarrow> Some y)"

fun rx_items :: "str list \<Rightarrow> rx_item list \<Rightarrow> str \<Rightarrow> ((nat \<times> str) list \<times> str) option" where
  "rx_items nd [] s = Some ([], s)"
| "rx_items nd (it # its) s =
     first_some
       (\<lambda>l. map_option (\<lambda>(ms, post). ((group it, take l s) # ms, post)) (rx_items nd its (drop l s)))
       (item_lens nd it s)"

fun anchor_ok :: "anchor \<Rightarrow> str \<Rightarrow> bool" where
  "anchor_ok NoAnchor pre = True"
| "anchor_ok TextStart pre = (pre = [])"
| "anchor_ok LineStart pre = (pre = [] \<or> last pre = LF)"

definition rx_at :: "str list \<Rightarrow> rx \<Rightarrow> str \<Rightarrow> str \<Rightarrow> rx_match option" where
  "rx_at nd r pre s =
     first_some
       (\<lambda>(a, its). if anchor_ok a pre
                   then map_option (\<lambda>(ms, post). (pre, ms, post)) (rx_items nd its s) else None) r"

fun rx_from :: "str list \<Rightarrow> rx \<Rightarrow> str \<Rightarrow> str \<Rightarrow> rx_match option" where
  "rx_from nd r pre [] = rx_at nd r pre []"
| "rx_from nd r pre (c # s) =
     (case rx_at nd r pre (c # s) of None \<Rightarrow> rx_from nd r (pre @ [c]) s | Some m \<Rightarrow> Some m)"

definition rx_search :: "str list \<Rightarrow> rx \<Rightarrow> str \<Rightarrow> rx_match option" where
  "rx_search nd r s = rx_from nd r [] s"

text \<open>Replacing all matches: each search starts where the previous match ended.  The patterns
  that the source replaces match no empty text, so a match shortens the rest.\<close>

function rx_replace :: "str list \<Rightarrow> rx \<Rightarrow> ((nat \<times> str) list \<Rightarrow> str) \<Rightarrow> str \<Rightarrow> str" where
  "rx_replace nd r f s =
     (case rx_search nd r s of
        None \<Rightarrow> s
      | Some (pre, ms, post) \<Rightarrow>
          if length post < length s then pre @ f ms @ rx_replace nd r f post else s)"
  by pat_completeness auto
termination by (relation "measure (\<lambda>(nd, r, f, s). length s)") auto

declare rx_replace.simps [simp del]

text \<open>The engine that is exactly the documented search.\<close>

definition ref_engine :: "str list \<Rightarrow> regex_crate" where
  "ref_engine nd = \<lparr>captures = rx_search nd, replace_all = rx_replace nd\<rparr>"

locale regex_engine =
  fixes eng :: regex_crate and nd :: "str list"
  assumes nonascii_digits: "\<forall>e \<in> set nd. e \<noteq> [] \<and> 128 \<le> code (hd e)"
    and captures_search: "captures eng r s = rx_search nd r s"
    and replace_all_search: "replace_all eng r f s = rx_replace nd r f s"

lemma ref_engine_simps [simp]:
  "captures (ref_engine nd) = rx_search nd" "replace_all (ref_engine nd) = rx_replace nd"
  by (simp_all add: ref_engine_def)

interpretation ascii_engine: regex_engine "ref_engine []" "[]"
  by unfold_locales simp_all

section \<open>Evaluating searches\<close>

lemma cset_len_Nil [simp]: "cset_len nd c [] = 0"
  by (simp add: cset_len_def)

lemma cset_len_lit [simp]: "cset_len nd (CLit y) (x # s) = (if x = y then 1 else 0)"
  by (simp add: cset_len_def)

lemma cset_len_not [simp]: "cset_len nd (CNot ys) (x # s) = (if x \<in> set ys then 0 else 1)"
  by (simp add: cset_len_def)

lemma cset_len_digit [simp]: "is_digit x \<Longrightarrow> cset_len nd CDigit (x # s) = 1"
  by (simp add: cset_len_def)

lemma cset_len_no_digit:
  assumes "\<forall>e \<in> set nd. e \<noteq> [] \<and> 128 \<le> code (hd e)" "\<not> is_digit x" "code x < 128"
  shows "cset_len nd CDigit (x # s) = 0"
proof -
  have "List.find (\<lambda>e. e \<noteq> [] \<and> prefix e (x # s)) nd = None"
    using assms(1,3) by (fastforce simp: find_None_iff prefix_Cons)
  with assms(2) show ?thesis by (simp add: cset_len_def)
qed

lemma rx_items_lit:
  "rx_items nd (lit c # its) s =
     (case s of
        [] \<Rightarrow> None
      | x # r \<Rightarrow> if x = c then map_option (\<lambda>(ms, post). ((0, [c]) # ms, post)) (rx_items nd its r)
                else None)"
  by (cases s)
    (auto simp: lit_def item_lens_def numeral_eq_Suc split: option.splits)

lemma rx_from_skip:
  "rx_at nd r pre (c # s) = None \<Longrightarrow> rx_from nd r pre (c # s) = rx_from nd r (pre @ [c]) s"
  by simp

lemma find_prefix_length:
  "List.find (\<lambda>e. e \<noteq> [] \<and> prefix e s) ws = Some e \<Longrightarrow> length e \<le> length s"
  by (auto simp: find_Some_iff dest: prefix_length_le)

lemma cset_len_le: "cset_len nd c s \<le> length s"
  using find_prefix_length [of s nd] find_prefix_length [of s utf8_ws]
  by (cases s) (auto simp: cset_len_def split: cset.splits option.splits)

lemma rep_lens_le: "l \<in> set (rep_lens nd c k s) \<Longrightarrow> l \<le> length s"
proof (induction k arbitrary: s l)
  case (Suc k)
  have "cset_len nd c s \<le> length s"
    by (rule cset_len_le)
  with Suc show ?case by (fastforce simp: Let_def split: if_splits)
qed simp

lemma first_some_Some: "first_some f xs = Some y \<Longrightarrow> \<exists>x \<in> set xs. f x = Some y"
  by (induction xs) (auto split: option.splits)

lemma first_some_none [simp]: "first_some (\<lambda>x. None) xs = None"
  by (induction xs) auto

text \<open>What the items matched and what is left make up the text.\<close>

lemma rx_items_concat:
  "rx_items nd its s = Some (ms, post) \<Longrightarrow> concat (map snd ms) @ post = s"
proof (induction its arbitrary: s ms post)
  case (Cons it its)
  from Cons.prems obtain l ms' where
    "rx_items nd its (drop l s) = Some (ms', post)" "ms = (group it, take l s) # ms'"
    by (fastforce dest!: first_some_Some)
  with Cons.IH show ?case by fastforce
qed simp

lemma rx_at_concat:
  "rx_at nd r pre s = Some (p, ms, post) \<Longrightarrow> p = pre \<and> concat (map snd ms) @ post = s"
  unfolding rx_at_def
  by (fastforce dest!: first_some_Some rx_items_concat split: if_splits)

lemma rx_from_concat:
  "rx_from nd r pre s = Some (p, ms, post) \<Longrightarrow> p @ concat (map snd ms) @ post = pre @ s"
proof (induction nd r pre s rule: rx_from.induct)
  case (1 nd r pre)
  then show ?case by (auto dest!: rx_at_concat)
next
  case (2 nd r pre c s)
  then show ?case by (auto dest!: rx_at_concat split: option.splits)
qed

lemma rx_search_concat:
  "rx_search nd r s = Some (p, ms, post) \<Longrightarrow> p @ concat (map snd ms) @ post = s"
  using rx_from_concat [of nd r "[]" s] by (simp add: rx_search_def)

declare rx_items.simps(2) [simp del]

section \<open>Runs of a negated class\<close>

lemma rep_lens_not:
  "rep_lens nd (CNot xs) (length r) r = [0..<Suc (length (takeWhile (\<lambda>c. c \<notin> set xs) r))]"
proof (induction r)
  case (Cons c r)
  have "(+) (Suc 0) = Suc" by auto
  with Cons show ?case by (simp add: map_Suc_upt upt_conv_Cons del: upt_Suc)
qed simp

text \<open>\<open>[^x]*x\<close> matches up to the first \<open>x\<close>.\<close>

lemma rx_items_until:
  "rx_items nd [star g (CNot [x]), lit x] r =
     (case find_char x r of
        None \<Rightarrow> None
      | Some j \<Rightarrow> Some ([(g, take j r), (0, [x])], drop (Suc j) r))"
proof -
  let ?n = "length (takeWhile (\<lambda>c. c \<noteq> x) r)"
  have cands: "item_lens nd (star g (CNot [x])) r = rev [0..<Suc ?n]"
    by (simp add: item_lens_def star_def rep_lens_not del: upt_Suc)
  have at: "rx_items nd [lit x] (drop l r) = None" if "l < ?n" for l
  proof -
    have "r ! l \<noteq> x" using nth_mem [OF that] that by (metis set_takeWhileD takeWhile_nth)
    moreover have "l < length r" using that length_takeWhile_le [of "\<lambda>c. c \<noteq> x" r] by linarith
    ultimately show ?thesis by (simp add: rx_items_lit Cons_nth_drop_Suc [symmetric])
  qed
  show ?thesis
  proof (cases "find_char x r")
    case None
    then have "takeWhile (\<lambda>c. c \<noteq> x) r = r"
      unfolding takeWhile_eq_all_conv by (auto simp: find_char_None)
    then have n: "?n = length r" by (rule arg_cong)
    have "rx_items nd [lit x] (drop l r) = None" if "l \<in> set (item_lens nd (star g (CNot [x])) r)" for l
      using that at [of l] n by (cases "l < ?n") (auto simp: cands rx_items_lit)
    then have "first_some (\<lambda>l. map_option (\<lambda>(ms, post). ((g, take l r) # ms, post))
        (rx_items nd [lit x] (drop l r))) ls = None"
      if "set ls \<subseteq> set (item_lens nd (star g (CNot [x])) r)" for ls
      using that by (induction ls) auto
    with None show ?thesis by (simp add: rx_items.simps(2) [of nd "star g (CNot [x])"]) (simp add: star_def)
  next
    case (Some j)
    then have j: "j < length r" "r ! j = x" "x \<notin> set (take j r)" by (auto simp: find_char_Some)
    have "takeWhile (\<lambda>c. c \<noteq> x) r = take j r"
    proof -
      have "takeWhile (\<lambda>c. c \<noteq> x) (take j r @ drop j r) = take j r @ takeWhile (\<lambda>c. c \<noteq> x) (drop j r)"
        using j(3) by (intro takeWhile_append2) auto
      moreover have "takeWhile (\<lambda>c. c \<noteq> x) (drop j r) = []"
        using j(1,2) by (simp add: Cons_nth_drop_Suc [symmetric])
      ultimately show ?thesis by simp
    qed
    then have n: "?n = j" using j(1) by simp
    have "rx_items nd [lit x] (drop j r) = Some ([(0, [x])], drop (Suc j) r)"
      using j(1,2) by (simp add: rx_items_lit Cons_nth_drop_Suc [symmetric])
    with Some n show ?thesis
      by (simp add: rx_items.simps(2) [of nd "star g (CNot [x])"] cands) (simp add: star_def)
  qed
qed

text \<open>A match of literal characters is a prefix.\<close>

lemma rx_items_lits_prefix: "rx_items nd (lits p @ its) s = Some m \<Longrightarrow> prefix p s"
proof (induction p arbitrary: s m)
  case (Cons c p)
  then show ?case
    by (cases s) (auto simp: lits_def rx_items_lit split: if_splits)
qed simp

lemma rx_from_Some:
  "rx_from nd r pre s = Some m \<Longrightarrow> \<exists>p u. s = p @ u \<and> rx_at nd r (pre @ p) u = Some m"
proof (induction nd r pre s rule: rx_from.induct)
  case (1 nd r pre)
  then show ?case by auto
next
  case (2 nd r pre c s)
  show ?case
  proof (cases "rx_at nd r pre (c # s)")
    case None
    with 2 obtain p u where "s = p @ u" "rx_at nd r ((pre @ [c]) @ p) u = Some m" by auto
    then show ?thesis by (intro exI [of _ "c # p"] exI [of _ u]) simp
  next
    case (Some x)
    with 2 show ?thesis by (intro exI [of _ "[]"] exI [of _ "c # s"]) simp
  qed
qed

end
