(* ===== verification/Language_Detect.thy ===== *)
theory Language_Detect
  imports Regex_Engine "HOL-Library.List_Lexorder" Complex_Main
begin

text \<open>
  Language detection from paths (\<open>src/core/language.rs\<close>).  The Unicode \<open>str::to_lowercase\<close> is
  the argument \<open>lower\<close> of the definitions that call it, the regular expression engine the
  argument \<open>eng\<close>; confidences are exact rationals.
\<close>

datatype LanguageSource = Directory | Filename | Extension

record LanguageInfo =
  lang_code :: str
  lang_source :: LanguageSource
  lang_confidence :: rat

text \<open>The table of \<open>LanguageDetector::new\<close>, its Chinese keys written as UTF-8 bytes.\<close>

definition language_codes :: "(str \<times> str) list" where
  "language_codes =
    [
    (''tc'', ''tc''),
    ([CHR 0xE7, CHR 0xB9, CHR 0x81, CHR 0xE4, CHR 0xB8, CHR 0xAD], ''tc''),
    ([CHR 0xE7, CHR 0xB9, CHR 0x81, CHR 0xE9, CHR 0xAB, CHR 0x94], ''tc''),
    (''cht'', ''tc''),
    (''sc'', ''sc''),
    ([CHR 0xE7, CHR 0xAE, CHR 0x80, CHR 0xE4, CHR 0xB8, CHR 0xAD], ''sc''),
    ([CHR 0xE7, CHR 0xAE, CHR 0x80, CHR 0xE4, CHR 0xBD, CHR 0x93], ''sc''),
    (''chs'', ''sc''),
    (''traditional-chinese'', ''tc''),
    (''traditional_chinese'', ''tc''),
    (''zh-hant'', ''tc''),
    (''zh_hant'', ''tc''),
    (''simplified-chinese'', ''sc''),
    (''simplified_chinese'', ''sc''),
    (''zh-hans'', ''sc''),
    (''zh_hans'', ''sc''),
    (''en'', ''en''),
    ([CHR 0xE8, CHR 0x8B, CHR 0xB1, CHR 0xE6, CHR 0x96, CHR 0x87], ''en''),
    (''english'', ''en''),
    (''eng'', ''en''),
    (''ja'', ''ja''),
    (''jpn'', ''ja''),
    (''japanese'', ''ja''),
    (''ko'', ''ko''),
    (''kor'', ''ko''),
    (''korean'', ''ko''),
    (''fr'', ''fr''),
    (''fra'', ''fr''),
    (''fre'', ''fr''),
    (''french'', ''fr''),
    (''de'', ''de''),
    (''deu'', ''de''),
    (''ger'', ''de''),
    (''german'', ''de''),
    (''es'', ''es''),
    (''spa'', ''es''),
    (''spanish'', ''es''),
    (''pt'', ''pt''),
    (''por'', ''pt''),
    (''portuguese'', ''pt''),
    (''ru'', ''ru''),
    (''rus'', ''ru''),
    (''russian'', ''ru'')
    ]"

text \<open>\<open>\.([a-z]{2,3})\.\<close>, and the same after \<open>_\<close> and \<open>-\<close>.\<close>

definition code_rx :: "char \<Rightarrow> rx" where
  "code_rx c =
     [(NoAnchor, [lit c, \<lparr>group = 1, rep_min = 2, rep_max = Some 3, cls = CRange (CHR ''a'') (CHR ''z'')\<rparr>,
        lit (CHR ''.'')])]"

definition filename_patterns :: "rx list" where
  "filename_patterns = map code_rx [CHR ''.'', CHR ''_'', CHR ''-'']"

definition detect_from_directory :: "(str \<Rightarrow> str) \<Rightarrow> path \<Rightarrow> LanguageInfo option" where
  "detect_from_directory lower p =
     first_some
       (\<lambda>c. map_option (\<lambda>l. \<lparr>lang_code = l, lang_source = Directory, lang_confidence = 9/10\<rparr>)
              (map_of language_codes (lower c)))
       (comps p)"

definition detect_from_filename :: "regex_crate \<Rightarrow> path \<Rightarrow> LanguageInfo option" where
  "detect_from_filename eng p =
     (case file_name p of
        None \<Rightarrow> None
      | Some name \<Rightarrow>
          first_some
            (\<lambda>re. case captures eng re name of
                None \<Rightarrow> None
              | Some (_, caps, _) \<Rightarrow>
                  map_option (\<lambda>l. \<lparr>lang_code = l, lang_source = Filename, lang_confidence = 8/10\<rparr>)
                    (map_of language_codes (cap caps 1)))
            filename_patterns)"

definition detect_from_path :: "(str \<Rightarrow> str) \<Rightarrow> regex_crate \<Rightarrow> path \<Rightarrow> LanguageInfo option" where
  "detect_from_path lower eng p =
     (case detect_from_directory lower p of
        Some l \<Rightarrow> Some l
      | None \<Rightarrow> detect_from_filename eng p)"

text \<open>\<open>Vec::dedup_by\<close>: an element equal to the one kept before it is dropped.\<close>

fun dedup_by :: "('a \<Rightarrow> 'b) \<Rightarrow> 'a list \<Rightarrow> 'a list" where
  "dedup_by f (x # y # ys) = (if f x = f y then dedup_by f (x # ys) else x # dedup_by f (y # ys))"
| "dedup_by f xs = xs"

definition detect_all_languages :: "(str \<Rightarrow> str) \<Rightarrow> regex_crate \<Rightarrow> path \<Rightarrow> LanguageInfo list" where
  "detect_all_languages lower eng p =
     dedup_by lang_code
       (sort_key (\<lambda>l. - lang_confidence l)
         ((case detect_from_directory lower p of None \<Rightarrow> [] | Some l \<Rightarrow> [l])
          @ (case detect_from_filename eng p of None \<Rightarrow> [] | Some l \<Rightarrow> [l])))"

definition get_primary_language :: "(str \<Rightarrow> str) \<Rightarrow> regex_crate \<Rightarrow> path \<Rightarrow> str option" where
  "get_primary_language lower eng p =
     (case detect_all_languages lower eng p of [] \<Rightarrow> None | l # _ \<Rightarrow> Some (lang_code l))"

definition normalize :: "(str \<Rightarrow> str) \<Rightarrow> str \<Rightarrow> str option" where
  "normalize lower raw =
     (let trimmed = trim raw in
      if trimmed = [] then None
      else
        (case map_of language_codes (lower trimmed) of
           Some c \<Rightarrow> Some c
         | None \<Rightarrow>
             (case map_of language_codes trimmed of
                Some c \<Rightarrow> Some c
              | None \<Rightarrow> Some (lower trimmed))))"

section \<open>Lemmas\<close>

text \<open>The canonical codes.\<close>

definition canonical_codes :: "str list" where
  "canonical_codes = [''tc'', ''sc'', ''en'', ''ja'', ''ko'', ''fr'', ''de'', ''es'', ''pt'', ''ru'']"

lemma language_codes_canonical: "map_of language_codes k = Some c \<Longrightarrow> c \<in> set canonical_codes"
proof -
  have "list_all (\<lambda>(k, c). c \<in> set canonical_codes) language_codes" by code_simp
  then show "map_of language_codes k = Some c \<Longrightarrow> c \<in> set canonical_codes"
    by (auto simp: list_all_iff dest!: map_of_SomeD)
qed

lemma detect_directory_facts:
  "detect_from_directory lower p = Some l \<Longrightarrow>
   lang_code l \<in> set canonical_codes \<and> lang_source l = Directory \<and> lang_confidence l = 9/10"
  by (auto simp: detect_from_directory_def dest!: first_some_Some language_codes_canonical)

lemma detect_filename_facts:
  "detect_from_filename eng p = Some l \<Longrightarrow>
   lang_code l \<in> set canonical_codes \<and> lang_source l = Filename \<and> lang_confidence l = 8/10"
  by (auto simp: detect_from_filename_def split: option.splits dest!: first_some_Some language_codes_canonical)

lemma primary_is_detected:
  "get_primary_language lower eng p = map_option lang_code (detect_from_path lower eng p)"
proof -
  have "dedup_by lang_code [a, b] = (if lang_code a = lang_code b then [a] else [a, b])" for a b :: LanguageInfo
    by simp
  then show ?thesis
    using detect_directory_facts [of lower p] detect_filename_facts [of eng p]
    by (auto simp: get_primary_language_def detect_all_languages_def detect_from_path_def
        split: option.split)
qed

lemma detect_codes:
  "get_primary_language lower eng p = Some c \<Longrightarrow> c \<in> set canonical_codes"
  using detect_directory_facts [of lower p] detect_filename_facts [of eng p]
  by (auto simp: primary_is_detected detect_from_path_def split: option.splits)

section \<open>Properties\<close>

text \<open>
  The primary language of a path, computed by collecting, sorting and deduplicating all
  detections, is the language that the direct detection finds first, the directory before the file
  name, and it is one of the ten canonical codes.
\<close>

theorem primary_language_agrees:
  "get_primary_language lower eng p = map_option lang_code (detect_from_path lower eng p)
   \<and> set_option (get_primary_language lower eng p) \<subseteq> set canonical_codes"
proof (rule conjI [OF primary_is_detected])
  show "set_option (get_primary_language lower eng p) \<subseteq> set canonical_codes"
    by (auto dest: detect_codes)
qed

end
