(* ===== verification/File_Tasks.thy ===== *)
theory File_Tasks
  imports Scheduler
begin

text \<open>
  File operations: \<open>src/core/fs_util.rs\<close> and the file processing tasks of
  \<open>src/core/parallel/task.rs\<close>.  The file system is the map from the paths of files to their
  contents.  Every system call may fail: which calls fail, and with what error, is an argument of
  the model, so the theorems hold for every pattern of failures.  Directories appear as parents
  only, other processes do not interfere, and \<open>Path::exists\<close> is taken to answer truthfully.
\<close>

section \<open>The file system\<close>

type_synonym files = "path \<Rightarrow> str option"

datatype fs_call =
  CallCreateDir path | CallCreateNew path | CallCreate path | CallOpen path
| CallCopyBytes path path | CallRename path path | CallRemove path | CallSync path
| CallWrite path | CallRead path | CallCanonicalize path | CallLinkMetadata path | CallMetadata path
| CallSetPermissions path

text \<open>
  The operating system: the error of a call in a state, how many bytes a failing copy has written
  before it fails, canonical paths, and which paths are symbolic links.
\<close>

record os =
  fault :: "fs_call \<Rightarrow> files \<Rightarrow> io_error option"
  partial_bytes :: "path \<Rightarrow> path \<Rightarrow> nat"
  canonical :: "path \<Rightarrow> path"
  is_symlink :: "path \<Rightarrow> bool"

type_synonym ('e, 'a) io = "files \<Rightarrow> ('e + 'a) \<times> files"

definition return_io :: "'a \<Rightarrow> ('e, 'a) io" where
  "return_io a fs = (Inr a, fs)"

definition fail_io :: "'e \<Rightarrow> ('e, 'a) io" where
  "fail_io e fs = (Inl e, fs)"

definition bind_io :: "('e, 'a) io \<Rightarrow> ('a \<Rightarrow> ('e, 'b) io) \<Rightarrow> ('e, 'b) io" where
  "bind_io m k fs = (case m fs of (Inl e, fs') \<Rightarrow> (Inl e, fs') | (Inr a, fs') \<Rightarrow> k a fs')"

definition map_err_io :: "('e \<Rightarrow> 'd) \<Rightarrow> ('e, 'a) io \<Rightarrow> ('d, 'a) io" where
  "map_err_io f m fs = (case m fs of (Inl e, fs') \<Rightarrow> (Inl (f e), fs') | (Inr a, fs') \<Rightarrow> (Inr a, fs'))"

definition sys :: "os \<Rightarrow> fs_call \<Rightarrow> (io_error, 'a) io \<Rightarrow> (io_error, 'a) io" where
  "sys os c m fs = (case fault os c fs of Some e \<Rightarrow> (Inl e, fs) | None \<Rightarrow> m fs)"

definition not_found :: io_error where
  "not_found = \<lparr>io_kind = NotFound, io_text = ''No such file or directory (os error 2)''\<rparr>"

definition exists_error :: io_error where
  "exists_error = \<lparr>io_kind = AlreadyExists, io_text = ''File exists (os error 17)''\<rparr>"

text \<open>The calls of \<open>std::fs\<close> that the program makes.\<close>

definition create_dir_all :: "os \<Rightarrow> path \<Rightarrow> (io_error, unit) io" where
  "create_dir_all os p = sys os (CallCreateDir p) (return_io ())"

definition open_file :: "os \<Rightarrow> path \<Rightarrow> (io_error, unit) io" where
  "open_file os p =
     sys os (CallOpen p) (\<lambda>fs. if fs p = None then (Inl not_found, fs) else (Inr (), fs))"

definition create_file :: "os \<Rightarrow> path \<Rightarrow> (io_error, unit) io" where
  "create_file os p = sys os (CallCreate p) (\<lambda>fs. (Inr (), fs(p \<mapsto> [])))"

text \<open>\<open>io::copy\<close> from one open file to another that is empty.\<close>

definition copy_bytes :: "os \<Rightarrow> path \<Rightarrow> path \<Rightarrow> (io_error, nat) io" where
  "copy_bytes os src dst fs =
     (let content = (case fs src of Some c \<Rightarrow> c | None \<Rightarrow> []) in
      case fault os (CallCopyBytes src dst) fs of
        Some e \<Rightarrow> (Inl e, fs(dst \<mapsto> take (partial_bytes os src dst) content))
      | None \<Rightarrow> (Inr (length content), fs(dst \<mapsto> content)))"

definition rename_path :: "os \<Rightarrow> path \<Rightarrow> path \<Rightarrow> (io_error, unit) io" where
  "rename_path os src dst =
     sys os (CallRename src dst)
       (\<lambda>fs. if fs src = None then (Inl not_found, fs)
             else if src = dst then (Inr (), fs)
             else (Inr (), fs(dst := fs src, src := None)))"

definition remove_file :: "os \<Rightarrow> path \<Rightarrow> (io_error, unit) io" where
  "remove_file os p =
     sys os (CallRemove p) (\<lambda>fs. if fs p = None then (Inl not_found, fs) else (Inr (), fs(p := None)))"

definition sync_all :: "os \<Rightarrow> path \<Rightarrow> (io_error, unit) io" where
  "sync_all os p = sys os (CallSync p) (return_io ())"

definition write_all :: "os \<Rightarrow> path \<Rightarrow> str \<Rightarrow> (io_error, unit) io" where
  "write_all os p content fs =
     (case fault os (CallWrite p) fs of
        Some e \<Rightarrow> (Inl e, fs(p \<mapsto> take (partial_bytes os p p) content))
      | None \<Rightarrow> (Inr (), fs(p \<mapsto> content)))"

definition read_to_string :: "os \<Rightarrow> path \<Rightarrow> (io_error, str) io" where
  "read_to_string os p =
     sys os (CallRead p) (\<lambda>fs. case fs p of None \<Rightarrow> (Inl not_found, fs) | Some c \<Rightarrow> (Inr c, fs))"

section \<open>Utilities\<close>

definition atomic_create_file :: "os \<Rightarrow> path \<Rightarrow> (io_error, unit) io" where
  "atomic_create_file os p =
     sys os (CallCreateNew p)
       (\<lambda>fs. if fs p \<noteq> None then (Inl exists_error, fs) else (Inr (), fs(p \<mapsto> [])))"

definition copy_file_cifs_safe :: "os \<Rightarrow> path \<Rightarrow> path \<Rightarrow> (io_error, nat) io" where
  "copy_file_cifs_safe os src dst =
     bind_io (open_file os src) (\<lambda>_. bind_io (create_file os dst) (\<lambda>_. copy_bytes os src dst))"

definition canonicalize :: "os \<Rightarrow> path \<Rightarrow> (io_error, path) io" where
  "canonicalize os p = sys os (CallCanonicalize p) (return_io (canonical os p))"

definition validate_write_target :: "os \<Rightarrow> path \<Rightarrow> path \<Rightarrow> (io_error, unit) io" where
  "validate_write_target os target expected_parent =
     (case parent target of
        None \<Rightarrow> fail_io \<lparr>io_kind = InvalidInput, io_text = ''target has no parent directory''\<rparr>
      | Some target_parent \<Rightarrow>
          bind_io (canonicalize os target_parent) (\<lambda>canon_parent.
          bind_io (canonicalize os expected_parent) (\<lambda>canon_expected.
            if \<not> path_starts_with canon_parent canon_expected
            then fail_io \<lparr>io_kind = PermissionDenied,
              io_text = ''target parent '' @ path_display canon_parent @ '' escapes expected parent ''
                @ path_display canon_expected\<rparr>
            else
              (\<lambda>fs. case fault os (CallLinkMetadata target) fs of
                 Some e \<Rightarrow> (if io_kind e = NotFound then Inr () else Inl e, fs)
               | None \<Rightarrow>
                   if fs target \<noteq> None \<and> is_symlink os target
                   then (Inl \<lparr>io_kind = PermissionDenied,
                       io_text = ''refusing to operate on symlink target: '' @ path_display target\<rparr>, fs)
                   else (Inr (), fs)))))"

definition check_file_size :: "os \<Rightarrow> path \<Rightarrow> nat \<Rightarrow> str \<Rightarrow> (io_error, unit) io" where
  "check_file_size os p max_bytes label =
     sys os (CallMetadata p)
       (\<lambda>fs. case fs p of
          None \<Rightarrow> (Inl not_found, fs)
        | Some c \<Rightarrow>
            if max_bytes < length c
            then (Inl \<lparr>io_kind = InvalidInput,
                io_text = label @ '' file too large: '' @ show_nat (length c) @ '' bytes (limit: ''
                  @ show_nat max_bytes @ '' bytes): '' @ path_display p\<rparr>, fs)
            else (Inr (), fs))"

section \<open>Tasks\<close>

definition is_cross_device_error :: "io_error \<Rightarrow> bool" where
  "is_cross_device_error e \<longleftrightarrow> io_kind e = CrossesDevices \<or> io_kind e = Unsupported"

text \<open>The probed names \<open>stem.i.ext\<close>.\<close>

definition probe_path :: "path \<Rightarrow> nat \<Rightarrow> path" where
  "probe_path target i =
     (let stem = (case file_stem target of Some s \<Rightarrow> s | None \<Rightarrow> ''file'');
          ext = (case extension target of Some e \<Rightarrow> e | None \<Rightarrow> []);
          par = (case parent target of Some p \<Rightarrow> p | None \<Rightarrow> path_of ''.'')
      in join_name par (if ext = [] then stem @ ''.'' @ show_nat i
                        else stem @ ''.'' @ show_nat i @ ''.'' @ ext))"

fun create_first_free :: "os \<Rightarrow> path list \<Rightarrow> (str, path) io" where
  "create_first_free os [] fs = (Inl ''Could not resolve filename conflict'', fs)"
| "create_first_free os (p # ps) fs =
     (case atomic_create_file os p fs of
        (Inr _, fs') \<Rightarrow> (Inr p, fs')
      | (Inl e, fs') \<Rightarrow>
          if io_kind e = AlreadyExists then create_first_free os ps fs' else (Inl (io_text e), fs'))"

definition target_probes :: "path \<Rightarrow> path list" where
  "target_probes target = target # map (probe_path target) [1..<1000]"

definition task_resolve_conflict :: "os \<Rightarrow> path \<Rightarrow> (str, path) io" where
  "task_resolve_conflict os target = create_first_free os (target_probes target)"

definition ensure_parent :: "os \<Rightarrow> path \<Rightarrow> (str, unit) io" where
  "ensure_parent os target =
     (case parent target of
        None \<Rightarrow> return_io ()
      | Some p \<Rightarrow> map_err_io io_text (create_dir_all os p))"

definition validate_in_parent :: "os \<Rightarrow> path \<Rightarrow> (str, unit) io" where
  "validate_in_parent os target =
     (case parent target of
        None \<Rightarrow> return_io ()
      | Some p \<Rightarrow> map_err_io io_text (validate_write_target os target p))"

text \<open>A new file beside the target with the content of the source.\<close>

definition copy_to_new :: "os \<Rightarrow> path \<Rightarrow> path \<Rightarrow> (str, path) io" where
  "copy_to_new os src target =
     bind_io (task_resolve_conflict os target) (\<lambda>final.
     bind_io (validate_in_parent os final) (\<lambda>_.
     bind_io (map_err_io io_text (open_file os src)) (\<lambda>_.
     bind_io (map_err_io io_text (copy_bytes os src final)) (\<lambda>_. return_io final))))"

definition execute_copy_operation :: "os \<Rightarrow> path \<Rightarrow> path \<Rightarrow> (str, unit) io" where
  "execute_copy_operation os src target =
     bind_io (ensure_parent os target) (\<lambda>_. bind_io (copy_to_new os src target) (\<lambda>_. return_io ()))"

text \<open>
  A rename where the target is free, and otherwise, or when the rename fails for whatever reason,
  a copy and the removal of the source.
\<close>

definition move_by_copy :: "os \<Rightarrow> path \<Rightarrow> path \<Rightarrow> (str, unit) io" where
  "move_by_copy os src target =
     bind_io (copy_to_new os src target) (\<lambda>final.
     bind_io (map_err_io io_text (sync_all os final)) (\<lambda>_.
       map_err_io io_text (remove_file os src)))"

definition execute_move_operation :: "os \<Rightarrow> path \<Rightarrow> path \<Rightarrow> (str, unit) io" where
  "execute_move_operation os src target =
     bind_io (ensure_parent os target) (\<lambda>_ fs.
       if fs target = None
       then (case rename_path os src target fs of
               (Inr _, fs') \<Rightarrow> (Inr (), fs')
             | (Inl e, fs') \<Rightarrow> move_by_copy os src target fs')
       else move_by_copy os src target fs)"

definition execute_copy_with_rename_operation :: "os \<Rightarrow> path \<Rightarrow> path \<Rightarrow> (str, unit) io" where
  "execute_copy_with_rename_operation os src target =
     bind_io (ensure_parent os target) (\<lambda>_.
     bind_io (map_err_io io_text (copy_file_cifs_safe os src target)) (\<lambda>_. return_io ()))"

definition execute_create_backup_operation :: "os \<Rightarrow> path \<Rightarrow> path \<Rightarrow> (str, unit) io" where
  "execute_create_backup_operation os src backup =
     bind_io (ensure_parent os backup) (\<lambda>_. bind_io (copy_to_new os src backup) (\<lambda>_. return_io ()))"

text \<open>The body of \<open>execute_rename_file_operation\<close> is that of the move.\<close>

definition execute_rename_file_operation :: "os \<Rightarrow> path \<Rightarrow> path \<Rightarrow> (str, unit) io" where
  "execute_rename_file_operation os src target =
     bind_io (ensure_parent os target) (\<lambda>_ fs.
       if fs target = None
       then (case rename_path os src target fs of
               (Inr _, fs') \<Rightarrow> (Inr (), fs')
             | (Inl e, fs') \<Rightarrow> move_by_copy os src target fs')
       else move_by_copy os src target fs)"

datatype ProcessingOperation =
  ConvertFormat str str
| SyncSubtitle path
| MatchFiles bool
| ValidateFormat
| CopyToVideoFolder path path
| MoveToVideoFolder path path
| CopyWithRename path path
| CreateBackup path path
| RenameFile path path

record FileProcessingTask =
  input_path :: path
  output_path :: "path option"
  operation :: ProcessingOperation

definition arrow_text :: "path \<Rightarrow> path \<Rightarrow> str" where
  "arrow_text a b = path_display a @ '' -> '' @ path_display b"

definition report_task :: "str \<Rightarrow> str \<Rightarrow> (str + 'a) \<times> files \<Rightarrow> TaskResult \<times> files" where
  "report_task ok bad r =
     (case r of (Inr _, fs) \<Rightarrow> (Success ok, fs) | (Inl e, fs) \<Rightarrow> (Failed (bad @ e), fs))"

text \<open>Conversion, matching and validation are stubs in the source and succeed.\<close>

definition task_execute :: "os \<Rightarrow> FileProcessingTask \<Rightarrow> files \<Rightarrow> TaskResult \<times> files" where
  "task_execute os t fs =
     (case operation t of
        ConvertFormat from to \<Rightarrow>
          (Success (''Successfully converted '' @ from @ '' -> '' @ to @ '': ''
             @ path_display (input_path t)), fs)
      | SyncSubtitle _ \<Rightarrow> (Failed ''Sync functionality not implemented'', fs)
      | MatchFiles _ \<Rightarrow> (Success ''File matching completed: found 0 matches'', fs)
      | ValidateFormat \<Rightarrow> (Success (''Format validation passed: '' @ path_display (input_path t)), fs)
      | CopyToVideoFolder src dst \<Rightarrow>
          report_task (''Copied: '' @ arrow_text src dst) ''Copy failed: '' (execute_copy_operation os src dst fs)
      | MoveToVideoFolder src dst \<Rightarrow>
          report_task (''Moved: '' @ arrow_text src dst) ''Move failed: '' (execute_move_operation os src dst fs)
      | CopyWithRename src dst \<Rightarrow>
          report_task (''Copied: '' @ arrow_text src dst) ''Copy failed: ''
            (execute_copy_with_rename_operation os src dst fs)
      | CreateBackup src dst \<Rightarrow>
          report_task (''Backup created: '' @ arrow_text src dst) ''Backup failed: ''
            (execute_create_backup_operation os src dst fs)
      | RenameFile src dst \<Rightarrow>
          report_task (''Renamed: '' @ arrow_text src dst) ''Rename failed: ''
            (execute_rename_file_operation os src dst fs))"

fun task_type :: "ProcessingOperation \<Rightarrow> str" where
  "task_type (ConvertFormat _ _) = ''convert''"
| "task_type (SyncSubtitle _) = ''sync''"
| "task_type (MatchFiles _) = ''match''"
| "task_type ValidateFormat = ''validate''"
| "task_type (CopyToVideoFolder _ _) = ''copy_to_video_folder''"
| "task_type (MoveToVideoFolder _ _) = ''move_to_video_folder''"
| "task_type (CopyWithRename _ _) = ''copy_with_rename''"
| "task_type (CreateBackup _ _) = ''create_backup''"
| "task_type (RenameFile _ _) = ''rename_file''"

definition description :: "FileProcessingTask \<Rightarrow> str" where
  "description t =
     (case operation t of
        ConvertFormat from to \<Rightarrow> ''Convert '' @ path_display (input_path t) @ '' from '' @ from @ '' to '' @ to
      | SyncSubtitle audio \<Rightarrow>
          ''Sync subtitle '' @ path_display (input_path t) @ '' with audio '' @ path_display audio
      | MatchFiles recursive \<Rightarrow>
          ''Match files in '' @ path_display (input_path t) @ (if recursive then '' (recursive)'' else [])
      | ValidateFormat \<Rightarrow> ''Validate format of '' @ path_display (input_path t)
      | CopyToVideoFolder a b \<Rightarrow> ''Copy '' @ path_display a @ '' to '' @ path_display b
      | MoveToVideoFolder a b \<Rightarrow> ''Move '' @ path_display a @ '' to '' @ path_display b
      | CopyWithRename a b \<Rightarrow> ''CopyWithRename '' @ path_display a @ '' to '' @ path_display b
      | CreateBackup a b \<Rightarrow> ''CreateBackup '' @ path_display a @ '' to '' @ path_display b
      | RenameFile a b \<Rightarrow> ''Rename '' @ path_display a @ '' to '' @ path_display b)"

text \<open>What an operation feeds to the hasher, and the task id over a hasher of the standard library.\<close>

datatype hash_item = HashStr str | HashPath path | HashBool bool

fun operation_hash_input :: "ProcessingOperation \<Rightarrow> hash_item list" where
  "operation_hash_input (ConvertFormat f t) = [HashStr ''convert'', HashStr f, HashStr t]"
| "operation_hash_input (SyncSubtitle a) = [HashStr ''sync'', HashPath a]"
| "operation_hash_input (MatchFiles r) = [HashStr ''match'', HashBool r]"
| "operation_hash_input ValidateFormat = [HashStr ''validate'']"
| "operation_hash_input (CopyToVideoFolder s t) = [HashStr ''copy_to_video_folder'', HashPath s, HashPath t]"
| "operation_hash_input (MoveToVideoFolder s t) = [HashStr ''move_to_video_folder'', HashPath s, HashPath t]"
| "operation_hash_input (CopyWithRename s t) = [HashStr ''copy_with_rename'', HashPath s, HashPath t]"
| "operation_hash_input (CreateBackup s t) = [HashStr ''create_backup'', HashPath s, HashPath t]"
| "operation_hash_input (RenameFile s t) = [HashStr ''rename_file'', HashPath s, HashPath t]"

definition task_id :: "(hash_item list \<Rightarrow> str) \<Rightarrow> FileProcessingTask \<Rightarrow> str" where
  "task_id hash_hex t =
     task_type (operation t) @ ''_'' @ hash_hex (HashPath (input_path t) # operation_hash_input (operation t))"

fun task_result_display :: "TaskResult \<Rightarrow> str" where
  "task_result_display (Success m) = [CHR 0xE2, CHR 0x9C, CHR 0x93] @ '' '' @ m"
| "task_result_display (Failed m) = [CHR 0xE2, CHR 0x9C, CHR 0x97] @ '' '' @ m"
| "task_result_display Cancelled = [CHR 0xE2, CHR 0x9A, CHR 0xA0] @ '' Task cancelled''"
| "task_result_display (PartialSuccess s w) =
     [CHR 0xE2, CHR 0x9A, CHR 0xA0] @ '' '' @ s @ '' (warning: '' @ w @ '')''"

fun task_status_display :: "TaskStatus \<Rightarrow> str" where
  "task_status_display StPending = ''Pending''"
| "task_status_display StRunning = ''Running''"
| "task_status_display (StCompleted r) = ''Completed: '' @ task_result_display r"
| "task_status_display (StFailed m) = ''Failed: '' @ m"
| "task_status_display StCancelled = ''Cancelled''"

section \<open>Lemmas\<close>

named_theorems io_simps \<open>evaluation of file system programs\<close>

lemma bind_io_simps [io_simps]:
  "bind_io m k fs = (case m fs of (Inl e, fs') \<Rightarrow> (Inl e, fs') | (Inr a, fs') \<Rightarrow> k a fs')"
  "map_err_io f m fs = (case m fs of (Inl e, fs') \<Rightarrow> (Inl (f e), fs') | (Inr a, fs') \<Rightarrow> (Inr a, fs'))"
  "return_io a fs = (Inr a, fs)" "fail_io e fs = (Inl e, fs)"
  by (simp_all add: bind_io_def map_err_io_def return_io_def fail_io_def)

lemma ensure_parent_files: "ensure_parent os target fs = (r, fs') \<Longrightarrow> fs' = fs"
  by (auto simp: ensure_parent_def create_dir_all_def sys_def io_simps split: option.splits)

lemma canonicalize_files: "canonicalize os p fs = (r, fs') \<Longrightarrow> fs' = fs"
  by (auto simp: canonicalize_def sys_def io_simps split: option.splits)

lemma validate_write_target_files: "validate_write_target os p q fs = (r, fs') \<Longrightarrow> fs' = fs"
  by (auto simp: validate_write_target_def io_simps split: option.splits prod.splits sum.splits if_splits
      dest!: canonicalize_files)

lemma validate_in_parent_files: "validate_in_parent os p fs = (r, fs') \<Longrightarrow> fs' = fs"
  by (auto simp: validate_in_parent_def io_simps split: option.splits prod.splits sum.splits
      dest!: validate_write_target_files)

lemma create_first_free_cases:
  "create_first_free os ps fs = (r, fs') \<Longrightarrow>
   (case r of Inl _ \<Rightarrow> fs' = fs | Inr p \<Rightarrow> p \<in> set ps \<and> fs p = None \<and> fs' = fs(p \<mapsto> []))"
proof (induction os ps fs rule: create_first_free.induct)
  case (2 os p ps fs)
  obtain r1 fs1 where a: "atomic_create_file os p fs = (r1, fs1)" by fastforce
  then have c: "case r1 of Inl _ \<Rightarrow> fs1 = fs | Inr _ \<Rightarrow> fs p = None \<and> fs1 = fs(p \<mapsto> [])"
    by (auto simp: atomic_create_file_def sys_def split: option.splits if_splits)
  show ?case
  proof (cases r1)
    case (Inl e)
    then have fs1: "fs1 = fs" using c by simp
    show ?thesis
    proof (cases "io_kind e = AlreadyExists")
      case True
      from "2.IH" [OF a [symmetric] Inl True] "2.prems" a Inl True fs1
      show ?thesis by (simp split: sum.splits)
    next
      case False
      then show ?thesis using "2.prems" a Inl fs1 by (simp split: sum.splits) auto
    qed
  next
    case (Inr u)
    then show ?thesis using "2.prems" a c by auto
  qed
qed auto

text \<open>The outcome of a copy into a new file, for a source that exists.\<close>

lemma copy_to_new_cases:
  assumes "copy_to_new os src target fs = (r, fs')" "fs src = Some c"
  shows "case r of
      Inr q \<Rightarrow> q \<in> set (target_probes target) \<and> fs q = None \<and> fs' = fs(q \<mapsto> c)
    | Inl _ \<Rightarrow> fs \<subseteq>\<^sub>m fs'"
proof -
  obtain r1 fs1 where a: "task_resolve_conflict os target fs = (r1, fs1)" by fastforce
  note cases1 = create_first_free_cases [OF a [unfolded task_resolve_conflict_def]]
  show ?thesis
  proof (cases r1)
    case (Inl e)
    then show ?thesis using assms(1) a cases1 by (auto simp: copy_to_new_def io_simps)
  next
    case (Inr q)
    then have q: "fs q = None" "fs1 = fs(q \<mapsto> [])" "q \<in> set (target_probes target)" using cases1 by auto
    then have src: "fs1 src = Some c" "src \<noteq> q" using assms(2) by auto
    have le: "fs \<subseteq>\<^sub>m fs(q \<mapsto> x)" for x using q(1) by (auto simp: map_le_def dom_def)
    obtain r2 fs2 where v: "validate_in_parent os q fs1 = (r2, fs2)" by fastforce
    then have fs2: "fs2 = fs1" by (rule validate_in_parent_files)
    have le1: "fs \<subseteq>\<^sub>m fs1" using le q(2) by simp
    show ?thesis
      using assms(1) a Inr v fs2 src q le le1
      by (auto simp: copy_to_new_def io_simps open_file_def sys_def copy_bytes_def Let_def
          split: sum.splits option.splits)
  qed
qed

lemma copy_op_cases:
  assumes "execute_copy_operation os src target fs = (r, fs')" "fs src = Some c"
  shows "case r of Inr _ \<Rightarrow> \<exists>q \<in> set (target_probes target). fs q = None \<and> fs' = fs(q \<mapsto> c) | Inl _ \<Rightarrow> fs \<subseteq>\<^sub>m fs'"
proof -
  obtain r1 fs1 where e: "ensure_parent os target fs = (r1, fs1)" by fastforce
  then have fs1: "fs1 = fs" by (rule ensure_parent_files)
  obtain r2 fs2 where n: "copy_to_new os src target fs = (r2, fs2)" by fastforce
  from copy_to_new_cases [OF n assms(2)] assms(1) e fs1 n show ?thesis
    by (auto simp: execute_copy_operation_def io_simps split: sum.splits)
qed

lemma backup_is_copy: "execute_create_backup_operation = execute_copy_operation"
  by (intro ext) (simp add: execute_create_backup_operation_def execute_copy_operation_def)

lemma rename_is_move: "execute_rename_file_operation = execute_move_operation"
  by (intro ext) (simp add: execute_rename_file_operation_def execute_move_operation_def)

lemma move_by_copy_cases:
  assumes "move_by_copy os src target fs = (r, fs')" "fs src = Some c"
  shows "case r of Inr _ \<Rightarrow> \<exists>q \<in> set (target_probes target). fs q = None \<and> fs' = fs(src := None, q \<mapsto> c) | Inl _ \<Rightarrow> fs \<subseteq>\<^sub>m fs'"
proof -
  obtain r2 fs2 where n: "copy_to_new os src target fs = (r2, fs2)" by fastforce
  note cases2 = copy_to_new_cases [OF n assms(2)]
  show ?thesis
  proof (cases r2)
    case (Inl e)
    then show ?thesis using cases2 assms(1) n by (auto simp: move_by_copy_def io_simps)
  next
    case (Inr q)
    then have q: "fs q = None" "fs2 = fs(q \<mapsto> c)" "q \<in> set (target_probes target)" using cases2 by auto
    then have "q \<noteq> src" using assms(2) by auto
    moreover have "fs \<subseteq>\<^sub>m fs(q \<mapsto> c)" using q(1) by (auto simp: map_le_def dom_def)
    ultimately show ?thesis
      using q assms n Inr
      by (auto simp: move_by_copy_def io_simps sync_all_def remove_file_def sys_def fun_upd_twist
          split: sum.splits option.splits)
  qed
qed

lemma move_op_cases:
  assumes "execute_move_operation os src target fs = (r, fs')" "fs src = Some c"
  shows "case r of Inr _ \<Rightarrow> \<exists>q \<in> set (target_probes target). fs q = None \<and> fs' = fs(src := None, q \<mapsto> c) | Inl _ \<Rightarrow> fs \<subseteq>\<^sub>m fs'"
proof -
  obtain r1 fs1 where e: "ensure_parent os target fs = (r1, fs1)" by fastforce
  then have fs1: "fs1 = fs" by (rule ensure_parent_files)
  obtain r2 fs2 where m: "move_by_copy os src target fs = (r2, fs2)" by fastforce
  note by_copy = move_by_copy_cases [OF m assms(2)]
  obtain r3 fs3 where rn: "rename_path os src target fs = (r3, fs3)" by fastforce
  show ?thesis
  proof (cases r1)
    case (Inl x)
    then show ?thesis using assms(1) e fs1 by (auto simp: execute_move_operation_def io_simps)
  next
    case (Inr u)
    show ?thesis
    proof (cases "fs target = None \<and> (\<exists>v. r3 = Inr v)")
      case True
      then have "src \<noteq> target" using assms(2) by auto
      then have "fs3 = fs(src := None, target \<mapsto> c)"
        using rn True assms(2)
        by (auto simp: rename_path_def sys_def fun_upd_twist split: option.splits if_splits)
      moreover have "target \<in> set (target_probes target)" by (simp add: target_probes_def)
      ultimately show ?thesis
        using assms(1) e fs1 Inr True rn by (auto simp: execute_move_operation_def io_simps)
    next
      case False
      have "fs3 = fs" if "r3 = Inl x" for x
        using rn that by (auto simp: rename_path_def sys_def split: option.splits if_splits)
      then have "r = r2" "fs' = fs2"
        using assms(1) e fs1 Inr False rn m
        by (auto simp: execute_move_operation_def io_simps split: if_splits sum.splits)
      then show ?thesis using by_copy by (simp only:)
    qed
  qed
qed

lemma task_outcome:
  assumes "fs src = Some c"
    and "operation t = CopyToVideoFolder src dst \<or> operation t = CreateBackup src dst
      \<or> operation t = MoveToVideoFolder src dst \<or> operation t = RenameFile src dst"
  shows "case task_execute os t fs of (result, fs') \<Rightarrow>
    (case result of
       Success _ \<Rightarrow>
         (\<exists>q \<in> set (target_probes dst). fs q = None \<and>
            fs' = (if operation t = CopyToVideoFolder src dst \<or> operation t = CreateBackup src dst
                   then fs(q \<mapsto> c) else fs(src := None, q \<mapsto> c)))
     | _ \<Rightarrow> fs \<subseteq>\<^sub>m fs')"
proof -
  obtain r1 fs1 where cp: "execute_copy_operation os src dst fs = (r1, fs1)" by fastforce
  obtain r2 fs2 where mv: "execute_move_operation os src dst fs = (r2, fs2)" by fastforce
  note copied = copy_op_cases [OF cp assms(1)] and moved = move_op_cases [OF mv assms(1)]
  from assms(2) show ?thesis
  proof (elim disjE)
    assume "operation t = CopyToVideoFolder src dst"
    then show ?thesis using copied cp by (cases r1) (simp_all add: task_execute_def report_task_def)
  next
    assume "operation t = CreateBackup src dst"
    then show ?thesis
      using copied cp by (cases r1) (simp_all add: task_execute_def report_task_def backup_is_copy)
  next
    assume "operation t = MoveToVideoFolder src dst"
    then show ?thesis using moved mv by (cases r2) (simp_all add: task_execute_def report_task_def)
  next
    assume "operation t = RenameFile src dst"
    then show ?thesis
      using moved mv by (cases r2) (simp_all add: task_execute_def report_task_def rename_is_move)
  qed
qed

section \<open>Properties\<close>


text \<open>An operating system on which every call succeeds.\<close>

definition good_os :: os where
  "good_os = \<lparr>fault = (\<lambda>_ _. None), partial_bytes = (\<lambda>_ _. 0), canonical = (\<lambda>p. p), is_symlink = (\<lambda>_. False)\<rparr>"

definition demo_path :: "str \<Rightarrow> path" where
  "demo_path name = \<lparr>absolute = True, comps = [''media'', name]\<rparr>"

definition demo_files :: files where
  "demo_files = [demo_path ''a.srt'' \<mapsto> ''cue'']"

definition rename_task :: "path \<Rightarrow> path \<Rightarrow> FileProcessingTask" where
  "rename_task a b = \<lparr>input_path = a, output_path = Some b, operation = RenameFile a b\<rparr>"


lemma good_os_fault [simp]: "fault good_os c fs = None" "is_symlink good_os p = False"
  "canonical good_os p = p"
  by (simp_all add: good_os_def)

lemma path_starts_with_self [simp]: "path_starts_with p p"
  by (simp add: path_starts_with_def)

text \<open>
   The containment check of a write target never rejects anything: it is always called with the
  parent of the target itself, so whatever the canonical paths are, also when a symbolic link
  leads out of the intended directory, it passes unless a call fails or the target is a link.
\<close>

theorem containment_check_vacuous:
  assumes "\<forall>call. fault os call fs = None" "\<not> is_symlink os target"
  shows "validate_in_parent os target fs = (Inr (), fs)"
  using assms
  by (auto simp: validate_in_parent_def validate_write_target_def canonicalize_def sys_def io_simps
      split: option.split)

lemma containment_check_vacuous_witness:
  "validate_in_parent (good_os\<lparr>canonical := (\<lambda>_. path_of ''/elsewhere'')\<rparr>) (demo_path ''b.srt'') demo_files
     = (Inr (), demo_files)"
  by (rule containment_check_vacuous) (simp_all add: good_os_def)

lemma good_os_resolve:
  "create_first_free good_os (p # ps) fs =
     (if fs p = None then (Inr p, fs(p \<mapsto> [])) else create_first_free good_os ps fs)"
  by (auto simp: atomic_create_file_def sys_def exists_error_def)

lemma good_os_validate: "validate_in_parent good_os target fs = (Inr (), fs)"
  by (auto simp: validate_in_parent_def validate_write_target_def canonicalize_def sys_def io_simps
      split: option.split)

lemma good_os_ensure: "ensure_parent good_os target fs = (Inr (), fs)"
  by (auto simp: ensure_parent_def create_dir_all_def sys_def io_simps split: option.split)

lemmas good_os_calls = open_file_def sync_all_def remove_file_def rename_path_def copy_bytes_def sys_def

lemma probe_list: "map f [1..<1000] = f 1 # map f [2..<1000]"
proof -
  have "[1..<1000::nat] = 1 # [2..<1000]" by (subst upt_rec) (simp add: numeral_2_eq_2)
  then show ?thesis by simp
qed

lemma rename_self:
  assumes "fs p = Some c" "fs (probe_path p 1) = None"
  shows "execute_rename_file_operation good_os p p fs = (Inr (), fs(p := None, probe_path p 1 \<mapsto> c))"
proof -
  have ne: "probe_path p 1 \<noteq> p" using assms by auto
  have "task_resolve_conflict good_os p fs = (Inr (probe_path p 1), fs(probe_path p 1 \<mapsto> []))"
    using assms by (simp only: task_resolve_conflict_def target_probes_def probe_list good_os_resolve) simp
  then show ?thesis
    using assms ne
    by (simp add: execute_rename_file_operation_def io_simps good_os_ensure move_by_copy_def
        copy_to_new_def good_os_validate good_os_calls Let_def fun_upd_twist)
qed

text \<open>
   Renaming a file to the name it already has renames it to \<open>name.1.ext\<close>: the target exists, being
  the source, so the conflict resolution picks the next free name and the source is removed.
\<close>

theorem rename_to_itself_renumbers:
  assumes "fs p = Some c" "fs (probe_path p 1) = None"
  shows "task_execute good_os (rename_task p p) fs
    = (Success (''Renamed: '' @ arrow_text p p), fs(p := None, probe_path p 1 \<mapsto> c))"
  using rename_self [OF assms] by (simp add: task_execute_def rename_task_def report_task_def)

lemma rename_to_itself_renumbers_witness:
  "snd (task_execute good_os (rename_task (demo_path ''a.srt'') (demo_path ''a.srt'')) demo_files)
     = [demo_path ''a.1.srt'' \<mapsto> ''cue'']"
proof -
  have pr: "probe_path (demo_path ''a.srt'') 1 = demo_path ''a.1.srt''" by code_simp
  have "demo_files (demo_path ''a.srt'') = Some ''cue''" by (simp add: demo_files_def)
  moreover have "demo_files (probe_path (demo_path ''a.srt'') 1) = None"
    unfolding pr by (simp add: demo_files_def demo_path_def)
  ultimately show ?thesis
    using rename_to_itself_renumbers [where fs = demo_files and p = "demo_path ''a.srt''" and c = "''cue''"]
    unfolding pr by (auto simp: demo_files_def)
qed

text \<open>
  A rename whose source does not exist fails, but leaves an empty file at the target: the failed
  rename falls through to the copy, which creates its target before it opens the source.
\<close>

theorem failed_rename_leaves_empty_file:
  assumes "fs src = None" "fs dst = None" "src \<noteq> dst"
  shows "task_execute good_os (rename_task src dst) fs
    = (Failed (''Rename failed: '' @ io_text not_found), fs(dst \<mapsto> []))"
proof -
  have "task_resolve_conflict good_os dst fs = (Inr dst, fs(dst \<mapsto> []))"
    using assms(2) by (simp only: task_resolve_conflict_def target_probes_def good_os_resolve) simp
  then have "execute_rename_file_operation good_os src dst fs = (Inl (io_text not_found), fs(dst \<mapsto> []))"
    using assms
    by (simp add: execute_rename_file_operation_def io_simps good_os_ensure move_by_copy_def
        copy_to_new_def good_os_validate good_os_calls)
  then show ?thesis by (simp add: task_execute_def rename_task_def report_task_def)
qed

lemma failed_rename_leaves_empty_file_witness:
  "snd (task_execute good_os (rename_task (demo_path ''x.srt'') (demo_path ''y.srt'')) (\<lambda>_. None))
     (demo_path ''y.srt'') = Some []"
proof -
  have "demo_path ''x.srt'' \<noteq> demo_path ''y.srt''" by (simp add: demo_path_def)
  then show ?thesis
    using failed_rename_leaves_empty_file [where fs = Map.empty and src = "demo_path ''x.srt''"
        and dst = "demo_path ''y.srt''"] by simp
qed

end
