(* ===== verification/Match_Plan.thy ===== *)
theory Match_Plan
  imports Language_Detect File_Tasks "HOL-Library.Product_Lexorder"
begin

text \<open>
  Planning of match operations (\<open>src/core/matcher/engine.rs\<close>, the first half): sanitising what
  the AI supplies, generating subtitle names, assembling operations from the AI's matches, the
  relocation of subtitles that come from archives, and the allocation of unique target paths.
  The answer of the AI service is an argument, as are the file ids.  Confidences are exact rationals.
\<close>

section \<open>Data\<close>

datatype MediaFileType = Video | Subtitle

record MediaFile =
  mf_id :: str
  mf_path :: path
  file_type :: MediaFileType
  mf_size :: nat
  mf_name :: str
  mf_extension :: str
  relative_path :: str

record FileMatch =
  video_file_id :: str
  subtitle_file_id :: str
  match_confidence :: rat
  match_factors :: "str list"
  match_language :: "str option"
  target_filename_suffix :: "str option"

datatype FileRelocationMode = NoRelocation | CopyMode | MoveMode

datatype ConflictResolution = Skip | AutoRename | Prompt

record MatchConfig =
  confidence_threshold :: rat
  max_sample_length :: nat
  enable_content_analysis :: bool
  backup_enabled :: bool
  cfg_relocation_mode :: FileRelocationMode
  conflict_resolution :: ConflictResolution
  ai_model :: str
  max_subtitle_bytes :: nat

record MatchOperation =
  video_file :: MediaFile
  subtitle_file :: MediaFile
  new_subtitle_name :: str
  op_confidence :: rat
  reasoning :: "str list"
  relocation_mode :: FileRelocationMode
  relocation_target_path :: "path option"
  requires_relocation :: bool

record RejectedCandidate =
  rej_video_path :: str
  rej_subtitle_path :: str
  rej_confidence :: rat
  rej_reason :: str

section \<open>Discovery from a file list\<close>

definition video_extensions :: "str list" where
  "video_extensions = [''mp4'', ''mkv'', ''avi'', ''mov'', ''wmv'', ''flv'', ''m4v'', ''webm'']"

definition subtitle_extensions :: "str list" where
  "subtitle_extensions = [''srt'', ''ass'', ''vtt'', ''sub'', ''ssa'', ''idx'']"

text \<open>\<open>scan_file_list\<close> with the ids its generator yields in order; a path names a file when it has content.\<close>

fun scan_file_list :: "(str \<Rightarrow> str) \<Rightarrow> (nat \<Rightarrow> str) \<Rightarrow> files \<Rightarrow> nat \<Rightarrow> path list \<Rightarrow> MediaFile list" where
  "scan_file_list lower ids fs n [] = []"
| "scan_file_list lower ids fs n (p # ps) =
     (case (fs p, extension p) of
        (Some content, Some ext) \<Rightarrow>
          (let ext_lower = lower ext;
               kind = (if ext_lower \<in> set video_extensions then Some Video
                       else if ext_lower \<in> set subtitle_extensions then Some Subtitle else None);
               name = (case file_name p of Some f \<Rightarrow> f | None \<Rightarrow> [])
           in case kind of
                None \<Rightarrow> scan_file_list lower ids fs n ps
              | Some ty \<Rightarrow>
                  \<lparr>mf_id = ids n, mf_path = p, file_type = ty, mf_size = length content,
                   mf_name = name, mf_extension = ext_lower, relative_path = name\<rparr>
                  # scan_file_list lower ids fs (Suc n) ps)
      | _ \<Rightarrow> scan_file_list lower ids fs n ps)"

section \<open>Names\<close>

definition suffix_char :: "char \<Rightarrow> bool" where
  "suffix_char c \<longleftrightarrow>
     is_digit c \<or> 65 \<le> code c \<and> code c \<le> 90 \<or> 97 \<le> code c \<and> code c \<le> 122
     \<or> c = CHR ''_'' \<or> c = CHR ''-''"

definition sanitize_suffix :: "str \<Rightarrow> str option" where
  "sanitize_suffix raw =
     (if raw = [] \<or> 16 < length raw then None
      else if list_all suffix_char raw then Some raw else None)"

definition normalize_ai_language :: "(str \<Rightarrow> str) \<Rightarrow> str \<Rightarrow> str option" where
  "normalize_ai_language lower raw =
     (let trimmed = trim raw in
      if trimmed = [] \<or> eq_ignore_ascii_case trimmed ''und'' then None
      else Option.bind (normalize lower (ascii_lower trimmed)) sanitize_suffix)"

definition video_base_name :: "MediaFile \<Rightarrow> str" where
  "video_base_name v =
     (if mf_extension v \<noteq> []
      then (case strip_suffix (''.'' @ mf_extension v) (mf_name v) of Some b \<Rightarrow> b | None \<Rightarrow> mf_name v)
      else mf_name v)"

definition generate_subtitle_name ::
    "(str \<Rightarrow> str) \<Rightarrow> regex_crate \<Rightarrow> MediaFile \<Rightarrow> MediaFile \<Rightarrow> FileMatch \<Rightarrow> str" where
  "generate_subtitle_name lower eng video subtitle m =
     (let ai_tag = (case Option.bind (target_filename_suffix m) sanitize_suffix of
                      Some t \<Rightarrow> Some t
                    | None \<Rightarrow> Option.bind (match_language m) (normalize_ai_language lower));
          lang = (case ai_tag of Some t \<Rightarrow> Some t | None \<Rightarrow> get_primary_language lower eng (mf_path subtitle))
      in case lang of
           Some c \<Rightarrow> video_base_name video @ ''.'' @ c @ ''.'' @ mf_extension subtitle
         | None \<Rightarrow> video_base_name video @ ''.'' @ mf_extension subtitle)"

text \<open>Slicing a text at a byte index panics inside a multi-byte character.\<close>

definition is_char_boundary :: "str \<Rightarrow> nat \<Rightarrow> bool" where
  "is_char_boundary s i \<longleftrightarrow>
     i = 0 \<or> i = length s \<or> i < length s \<and> \<not> (128 \<le> code (s ! i) \<and> code (s ! i) < 192)"

definition create_content_preview :: "MatchConfig \<Rightarrow> str \<Rightarrow> str run" where
  "create_content_preview cfg content =
     (let preview = join [LF] (take 20 (str_lines content)) in
      if max_sample_length cfg < length preview
      then if is_char_boundary preview (max_sample_length cfg)
           then Returns (take (max_sample_length cfg) preview @ ''...'')
           else Panics ''byte index is not a char boundary''
      else Returns preview)"

section \<open>Assembling operations\<close>

definition find_media_file_by_id_or_path :: "MediaFile list \<Rightarrow> str \<Rightarrow> str option \<Rightarrow> MediaFile option" where
  "find_media_file_by_id_or_path files file_id fallback =
     (case List.find (\<lambda>f. mf_id f = file_id) files of
        Some f \<Rightarrow> Some f
      | None \<Rightarrow>
          (case fallback of
             None \<Rightarrow> None
           | Some p \<Rightarrow>
               (case List.find (\<lambda>f. relative_path f = p) files of
                  Some f \<Rightarrow> Some f
                | None \<Rightarrow> List.find (\<lambda>f. mf_name f = p) files)))"

definition rejected_candidate :: "MediaFile option \<Rightarrow> MediaFile option \<Rightarrow> FileMatch \<Rightarrow> str \<Rightarrow> RejectedCandidate" where
  "rejected_candidate v s m reason =
     \<lparr>rej_video_path = (case v of Some f \<Rightarrow> path_display (mf_path f) | None \<Rightarrow> []),
      rej_subtitle_path = (case s of Some f \<Rightarrow> path_display (mf_path f) | None \<Rightarrow> []),
      rej_confidence = match_confidence m, rej_reason = reason\<rparr>"

definition plan_operation ::
    "(str \<Rightarrow> str) \<Rightarrow> regex_crate \<Rightarrow> MatchConfig \<Rightarrow> MediaFile \<Rightarrow> MediaFile \<Rightarrow> FileMatch \<Rightarrow> MatchOperation run" where
  "plan_operation lower eng cfg video subtitle m =
     (let new_name = generate_subtitle_name lower eng video subtitle m;
          relocate = (cfg_relocation_mode cfg \<noteq> NoRelocation
                        \<and> parent (mf_path subtitle) \<noteq> parent (mf_path video));
          op = (\<lambda>target. \<lparr>video_file = video, subtitle_file = subtitle, new_subtitle_name = new_name,
                  op_confidence = match_confidence m, reasoning = match_factors m,
                  relocation_mode = cfg_relocation_mode cfg, relocation_target_path = target,
                  requires_relocation = relocate\<rparr>)
      in if relocate
         then (case parent (mf_path video) of
                 None \<Rightarrow> Panics ''called Option::unwrap() on a None value''
               | Some dir \<Rightarrow> Returns (op (Some (join_name dir new_name))))
         else Returns (op None))"

text \<open>The loop over the AI's matches.\<close>

fun assemble ::
    "(str \<Rightarrow> str) \<Rightarrow> regex_crate \<Rightarrow> MatchConfig \<Rightarrow> MediaFile list \<Rightarrow> MediaFile list \<Rightarrow> FileMatch list \<Rightarrow>
     (MatchOperation list \<times> RejectedCandidate list) run" where
  "assemble lower eng cfg videos subtitles [] = Returns ([], [])"
| "assemble lower eng cfg videos subtitles (m # ms) =
     (let v = find_media_file_by_id_or_path videos (video_file_id m) None;
          s = find_media_file_by_id_or_path subtitles (subtitle_file_id m) None;
          reject = (\<lambda>reason. case assemble lower eng cfg videos subtitles ms of
                      Panics e \<Rightarrow> Panics e
                    | Returns (ops, rej) \<Rightarrow> Returns (ops, rejected_candidate v s m reason # rej))
      in if match_confidence m < confidence_threshold cfg then reject ''below_threshold''
         else
           (case (v, s) of
              (Some video, Some subtitle) \<Rightarrow>
                (case plan_operation lower eng cfg video subtitle m of
                   Panics e \<Rightarrow> Panics e
                 | Returns op \<Rightarrow>
                     (case assemble lower eng cfg videos subtitles ms of
                        Panics e \<Rightarrow> Panics e
                      | Returns (ops, rej) \<Rightarrow> Returns (op # ops, rej)))
            | _ \<Rightarrow> reject ''id_not_found''))"

section \<open>Archive relocation\<close>

text \<open>\<open>CollectedFiles::archive_origin\<close> over the map of temporary roots, in the order it iterates.\<close>

definition archive_origin :: "(path \<times> path) list \<Rightarrow> path \<Rightarrow> path option" where
  "archive_origin origins p = first_some (\<lambda>(root, archive). if path_starts_with p root then Some archive else None) origins"

definition relocate_archive_op :: "(path \<times> path) list \<Rightarrow> MatchOperation \<Rightarrow> MatchOperation" where
  "relocate_archive_op origins op =
     (if archive_origin origins (mf_path (subtitle_file op)) \<noteq> None \<and> \<not> requires_relocation op
      then (case parent (mf_path (video_file op)) of
              None \<Rightarrow> op
            | Some dir \<Rightarrow>
                op\<lparr>relocation_target_path := Some (join_name dir (new_subtitle_name op)),
                   requires_relocation := True, relocation_mode := CopyMode\<rparr>)
      else op)"

definition apply_archive_origin_relocation :: "(path \<times> path) list \<Rightarrow> MatchOperation list \<Rightarrow> MatchOperation list" where
  "apply_archive_origin_relocation origins ops = map (relocate_archive_op origins) ops"

section \<open>Unique target paths\<close>

definition final_target :: "MatchOperation \<Rightarrow> path" where
  "final_target op =
     (case relocation_target_path op of
        Some p \<Rightarrow> p
      | None \<Rightarrow>
          join_name (case parent (mf_path (subtitle_file op)) of Some d \<Rightarrow> d | None \<Rightarrow> path_of ''.'')
            (new_subtitle_name op))"

definition split_filename :: "str \<Rightarrow> str \<times> str" where
  "split_filename name =
     (case rfind_char (CHR ''.'') name of
        Some i \<Rightarrow> if 0 < i then (take i name, drop i name) else (name, [])
      | None \<Rightarrow> (name, []))"

definition split_numeric_tail :: "str \<Rightarrow> str \<times> nat option" where
  "split_numeric_tail stem =
     (case rfind_char (CHR ''.'') stem of
        None \<Rightarrow> (stem, None)
      | Some i \<Rightarrow>
          (let tail = drop (Suc i) stem in
           if tail \<noteq> [] \<and> list_all is_digit tail
           then (case parse_uint (2 ^ 32) tail of Inr n \<Rightarrow> (take i stem, Some n) | Inl _ \<Rightarrow> (stem, None))
           else (stem, None)))"

text \<open>
  \<open>Path::cmp\<close>: components are compared in order, a root before \<open>..\<close> before names, names by their
  bytes.  A path is mapped to the list of its components' keys, ordered lexicographically.
\<close>

definition path_key :: "path \<Rightarrow> nat list list" where
  "path_key p =
     (if absolute p then [[1]] else [])
     @ map (\<lambda>c. if c = dotdot then [3] else 4 # map code c) (comps p)"

definition parent_or_empty :: "path \<Rightarrow> path" where
  "parent_or_empty p = (case parent p of Some d \<Rightarrow> d | None \<Rightarrow> \<lparr>absolute = False, comps = []\<rparr>)"

definition allocation_order :: "MatchOperation list \<Rightarrow> nat list" where
  "allocation_order ops =
     sort_key (\<lambda>i. (path_key (parent_or_empty (final_target (ops ! i))),
                    map code (relative_path (subtitle_file (ops ! i)))))
       [0..<length ops]"

text \<open>The probing loop from a counter on; \<open>None\<close> when the counter passes 9999.\<close>

function probe_target :: "(path \<Rightarrow> bool) \<Rightarrow> path \<Rightarrow> str \<Rightarrow> str \<Rightarrow> nat \<Rightarrow> (path \<times> str) option" where
  "probe_target taken par base ext counter =
     (let new_name = base @ ''.'' @ show_nat counter @ ext;
          probe = join_name par new_name
      in if \<not> taken probe then Some (probe, new_name)
         else if 9999 < Suc counter then None
         else probe_target taken par base ext (Suc counter))"
  by pat_completeness auto
termination by (relation "measure (\<lambda>(taken, par, base, ext, counter). 10000 - counter)") auto

declare probe_target.simps [simp del]

definition path_taken :: "files \<Rightarrow> path list \<Rightarrow> path list \<Rightarrow> path \<Rightarrow> path \<Rightarrow> path \<Rightarrow> bool" where
  "path_taken fs reserved claimed candidate source p \<longleftrightarrow>
     p \<in> set claimed \<or> p \<noteq> candidate \<and> p \<in> set reserved \<or> p \<noteq> source \<and> fs p \<noteq> None"

text \<open>The first counter probed, a \<open>u32\<close>: adding 1 to an existing counter wraps as in a release build.\<close>

definition start_counter :: "nat option \<Rightarrow> nat" where
  "start_counter existing = max 2 (case existing of Some n \<Rightarrow> (n + 1) mod 2 ^ 32 | None \<Rightarrow> 2)"

text \<open>The target of one operation.\<close>

definition resolve_target :: "files \<Rightarrow> path list \<Rightarrow> path list \<Rightarrow> MatchOperation \<Rightarrow> path \<times> str" where
  "resolve_target fs reserved claimed op =
     (let candidate = final_target op;
          par = parent_or_empty candidate;
          filename = (case file_name candidate of Some f \<Rightarrow> f | None \<Rightarrow> []);
          (stem, ext) = split_filename filename;
          (base_stem, existing) = split_numeric_tail stem;
          taken = path_taken fs reserved claimed candidate (mf_path (subtitle_file op))
      in if taken candidate
         then (case probe_target taken par base_stem ext (start_counter existing) of
                 Some r \<Rightarrow> r
               | None \<Rightarrow> (candidate, filename))
         else (candidate, filename))"

definition retarget :: "path \<times> str \<Rightarrow> MatchOperation \<Rightarrow> MatchOperation" where
  "retarget r op =
     op\<lparr>new_subtitle_name := snd r,
        relocation_target_path :=
          (case relocation_target_path op of None \<Rightarrow> None | Some _ \<Rightarrow> Some (fst r))\<rparr>"

text \<open>The loop over the operations in a given order, with the targets claimed so far.\<close>

fun allocate ::
    "(path list \<Rightarrow> MatchOperation \<Rightarrow> path \<times> str) \<Rightarrow> nat list \<Rightarrow> path list \<Rightarrow> MatchOperation list \<Rightarrow> MatchOperation list" where
  "allocate resolve [] claimed ops = ops"
| "allocate resolve (i # is) claimed ops =
     (let r = resolve claimed (ops ! i)
      in allocate resolve is (fst r # claimed) (ops[i := retarget r (ops ! i)]))"

definition apply_unique_target_paths :: "files \<Rightarrow> MatchOperation list \<Rightarrow> MatchOperation list" where
  "apply_unique_target_paths fs ops =
     allocate (resolve_target fs (map final_target ops)) (allocation_order ops) [] ops"

text \<open>What is planned for the matches the AI answers.\<close>

definition plan_answer ::
    "(str \<Rightarrow> str) \<Rightarrow> regex_crate \<Rightarrow> MatchConfig \<Rightarrow> files \<Rightarrow> MediaFile list \<Rightarrow> MediaFile list \<Rightarrow> FileMatch list \<Rightarrow>
     (MatchOperation list \<times> RejectedCandidate list) run" where
  "plan_answer lower eng cfg fs videos subtitles matches =
     (case assemble lower eng cfg videos subtitles matches of
        Panics e \<Rightarrow> Panics e
      | Returns (ops, rejected) \<Rightarrow> Returns (apply_unique_target_paths fs ops, rejected))"

text \<open>The files of one kind of a scan.\<close>

definition of_type :: "MediaFileType \<Rightarrow> MediaFile list \<Rightarrow> MediaFile list" where
  "of_type ty files = filter (\<lambda>f. file_type f = ty) files"

end
