(* ===== verification/Target_Allocation.thy ===== *)
theory Target_Allocation
  imports Match_Plan
begin

text \<open>
  The allocation of unique target paths, \<open>apply_unique_target_paths\<close> of
  \<open>src/core/matcher/engine.rs\<close>: the choice of one target, the contract between the loop over the
  operations and that choice, and what the loop guarantees for a batch.
\<close>

section \<open>Lemmas on allocation\<close>

text \<open>An operation whose target is a plain name in a directory.\<close>

definition op_ok :: "MatchOperation \<Rightarrow> bool" where
  "op_ok op \<longleftrightarrow>
     (case relocation_target_path op of
        Some p \<Rightarrow> \<exists>d f. p = join_name d f \<and> plain_name f
      | None \<Rightarrow> plain_name (new_subtitle_name op))"

definition target_name :: "MatchOperation \<Rightarrow> str" where
  "target_name op = (case file_name (final_target op) of Some f \<Rightarrow> f | None \<Rightarrow> [])"

definition existing_counter :: "MatchOperation \<Rightarrow> nat option" where
  "existing_counter op = snd (split_numeric_tail (fst (split_filename (target_name op))))"

abbreviation op_source :: "MatchOperation \<Rightarrow> path" where
  "op_source op \<equiv> mf_path (subtitle_file op)"

lemma op_okE:
  assumes "op_ok op"
  obtains d f where "final_target op = join_name d f" "plain_name f"
    "relocation_target_path op = None \<Longrightarrow> f = new_subtitle_name op"
    "\<And>g. plain_name g \<Longrightarrow> final_target (retarget (join_name d g, g) op) = join_name d g"
    "\<And>g. plain_name g \<Longrightarrow> op_ok (retarget (join_name d g, g) op)"
proof (cases "relocation_target_path op")
  case None
  let ?d = "case parent (op_source op) of Some d \<Rightarrow> d | None \<Rightarrow> path_of ''.''"
  show thesis
    by (rule that [of ?d "new_subtitle_name op"])
      (use None assms in \<open>simp_all add: final_target_def op_ok_def retarget_def\<close>)
next
  case (Some p)
  then obtain d f where p: "p = join_name d f" "plain_name f" using assms by (auto simp: op_ok_def)
  show thesis
    by (rule that [of d f]) (use Some p in \<open>auto simp: final_target_def op_ok_def retarget_def\<close>)
qed

lemma parent_or_empty_join [simp]: "plain_name f \<Longrightarrow> parent_or_empty (join_name d f) = d"
  by (simp add: parent_or_empty_def)

lemma split_filename_append: "split_filename n = (a, b) \<Longrightarrow> a @ b = n"
  by (auto simp: split_filename_def split: option.splits if_splits)

lemma split_numeric_tail_prefix: "split_numeric_tail n = (a, b) \<Longrightarrow> prefix a n"
  by (auto simp: split_numeric_tail_def Let_def take_is_prefix split: option.splits if_splits sum.splits)

lemma plain_probe_name:
  assumes "plain_name f" "split_filename f = (stem, ext)" "split_numeric_tail stem = (base, c)"
  shows "plain_name (base @ ''.'' @ show_nat k @ ext)"
proof -
  have "set base \<subseteq> set f" "set ext \<subseteq> set f"
    using split_filename_append [OF assms(2)] split_numeric_tail_prefix [OF assms(3)]
    by (auto dest!: set_mono_prefix)
  then have slash: "CHR ''/'' \<notin> set base" "CHR ''/'' \<notin> set ext" using assms(1) by (auto simp: plain_name_def)
  have digits: "list_all is_digit (show_nat k)" "show_nat k \<noteq> []" by simp_all
  then obtain x xs where x: "show_nat k = x # xs" "is_digit x" by (cases "show_nat k") auto
  have "x \<noteq> CHR ''.''" using x(2) by (auto simp: is_digit_def)
  then have "base @ ''.'' @ show_nat k @ ext \<noteq> dotdot" "base @ ''.'' @ show_nat k @ ext \<noteq> ''.''"
    using x(1) by (auto simp: append_eq_Cons_conv)
  moreover have "CHR ''/'' \<notin> set (show_nat k)" using digits(1) by (auto simp: list_all_iff is_digit_def)
  ultimately show ?thesis using slash by (auto simp: plain_name_def)
qed

text \<open>The probing loop finds a free counter, or every counter it can try is taken.\<close>

lemma probe_target_Some:
  "probe_target taken par base ext c = Some r \<Longrightarrow>
   \<exists>k. r = (join_name par (base @ ''.'' @ show_nat k @ ext), base @ ''.'' @ show_nat k @ ext)
     \<and> \<not> taken (fst r)"
proof (induction taken par base ext c rule: probe_target.induct)
  case (1 taken par base ext c)
  show ?case
    using "1.prems" "1.IH" [OF refl refl]
    by (subst (asm) probe_target.simps) (auto simp: Let_def split: if_splits)
qed

lemma probe_target_None:
  "probe_target taken par base ext c = None \<Longrightarrow> c \<le> k \<Longrightarrow> k \<le> 9999 \<Longrightarrow>
   taken (join_name par (base @ ''.'' @ show_nat k @ ext))"
proof (induction taken par base ext c rule: probe_target.induct)
  case (1 taken par base ext c)
  note prems = "1.prems"(1) [unfolded probe_target.simps [of taken par base ext c] Let_def]
  show ?case
  proof (cases "k = c")
    case True
    then show ?thesis using prems by (auto split: if_splits)
  next
    case False
    then have "Suc c \<le> k" "\<not> 9999 < Suc c" using "1.prems"(2,3) by auto
    moreover from this prems have "taken (join_name par (base @ ''.'' @ show_nat c @ ext))"
      "probe_target taken par base ext (Suc c) = None" by (auto split: if_splits)
    ultimately show ?thesis using "1.IH" [OF refl refl] "1.prems"(3) by blast
  qed
qed

lemma show_nat_inj: "show_nat a = show_nat b \<longleftrightarrow> a = b"
  by (metis dec_val_show_nat)

lemma probe_target_found:
  assumes "finite T" "\<And>p. taken p \<Longrightarrow> p \<in> T" "c + card T < 10000"
    and "\<And>k. plain_name (base @ ''.'' @ show_nat k @ ext)"
  shows "\<exists>r. probe_target taken par base ext c = Some r"
proof (rule ccontr)
  let ?p = "\<lambda>k. join_name par (base @ ''.'' @ show_nat k @ ext)"
  assume "\<not> (\<exists>r. probe_target taken par base ext c = Some r)"
  then have "probe_target taken par base ext c = None" by (cases "probe_target taken par base ext c") auto
  then have "?p k \<in> T" if "c \<le> k" "k \<le> 9999" for k
    using probe_target_None [OF _ that] assms(2) by blast
  then have "?p ` {c..9999} \<subseteq> T" by auto
  then have "card (?p ` {c..9999}) \<le> card T" using assms(1) by (rule card_mono [rotated])
  moreover have "inj_on ?p {c..9999}"
    using assms(4) by (auto simp: inj_on_def join_name_inj show_nat_inj)
  then have "card (?p ` {c..9999}) = 10000 - c" by (simp add: card_image)
  ultimately show False using assms(3) by simp
qed

text \<open>
  The contract between the loop and the choice of one target: while fewer than \<open>limit\<close> targets are
  claimed, the choice for an operation that is \<open>ok\<close> is none of them, it becomes the target of the
  operation, and the operation is then \<open>settled\<close>.
\<close>

locale target_allocator =
  fixes resolve :: "path list \<Rightarrow> MatchOperation \<Rightarrow> path \<times> str"
    and ok :: "MatchOperation \<Rightarrow> bool" and settled :: "MatchOperation \<Rightarrow> MatchOperation \<Rightarrow> bool"
    and limit :: nat
  assumes fresh: "ok op \<Longrightarrow> length claimed < limit \<Longrightarrow> fst (resolve claimed op) \<notin> set claimed"
    and target: "ok op \<Longrightarrow> length claimed < limit \<Longrightarrow>
      final_target (retarget (resolve claimed op) op) = fst (resolve claimed op)"
    and settles: "ok op \<Longrightarrow> length claimed < limit \<Longrightarrow> settled op (retarget (resolve claimed op) op)"
begin

lemma allocate_spec:
  assumes "\<forall>i \<in> set is. i < length ops \<and> ok (ops ! i)" "distinct is" "D \<inter> set is = {}"
    and "\<forall>i \<in> D. i < length ops" "set claimed = (\<lambda>i. final_target (ops ! i)) ` D"
    and "inj_on (\<lambda>i. final_target (ops ! i)) D" "length claimed + length is \<le> limit"
  shows "length (allocate resolve is claimed ops) = length ops
    \<and> inj_on (\<lambda>i. final_target (allocate resolve is claimed ops ! i)) (D \<union> set is)
    \<and> (\<forall>i \<in> set is. settled (ops ! i) (allocate resolve is claimed ops ! i))
    \<and> (\<forall>i. i \<notin> set is \<longrightarrow> allocate resolve is claimed ops ! i = ops ! i)"
  using assms
proof (induction "is" arbitrary: claimed ops D)
  case (Cons i "is")
  let ?r = "resolve claimed (ops ! i)"
  let ?ops = "ops[i := retarget ?r (ops ! i)]"
  have i: "i < length ops" "ok (ops ! i)" "i \<notin> set is" "i \<notin> D" and len: "length claimed < limit"
    using Cons.prems by auto
  note laws = fresh [OF i(2) len] target [OF i(2) len] settles [OF i(2) len]
  have same: "?ops ! k = ops ! k" if "k \<noteq> i" for k using that by simp
  have here: "final_target (?ops ! i) = fst ?r" using i(1) laws(2) by simp
  have keep: "final_target (?ops ! k) = final_target (ops ! k)" if "k \<in> D" for k
    using that i(4) same [of k] by metis
  have D: "(\<lambda>k. final_target (?ops ! k)) ` D = set claimed"
    unfolding Cons.prems(5) by (intro image_cong) (auto simp: keep)
  have img: "set (fst ?r # claimed) = (\<lambda>k. final_target (?ops ! k)) ` insert i D"
    using D here by simp
  have "inj_on (\<lambda>k. final_target (?ops ! k)) D"
    using Cons.prems(6) inj_on_cong [of D, OF keep] by simp
  then have inj: "inj_on (\<lambda>k. final_target (?ops ! k)) (insert i D)"
    unfolding inj_on_insert here using D laws(1) by blast
  have "\<forall>k \<in> set is. k < length ?ops \<and> ok (?ops ! k)" using Cons.prems(1) i(3)
    by (metis length_list_update list.set_intros(2) same)
  note IH = Cons.IH [OF this _ _ _ img inj]
  have "distinct is" "insert i D \<inter> set is = {}" "\<forall>k \<in> insert i D. k < length ?ops"
    "length (fst ?r # claimed) + length is \<le> limit"
    using Cons.prems i by auto
  note IH = IH [OF this]
  have set_eq: "D \<union> set (i # is) = insert i D \<union> set is" by auto
  have "settled (ops ! k) (allocate resolve (i # is) claimed ops ! k)" if "k \<in> set (i # is)" for k
  proof (cases "k = i")
    case True
    then show ?thesis using IH i laws(3) by (simp add: Let_def)
  next
    case False
    then show ?thesis using IH that same [OF False] by (auto simp: Let_def)
  qed
  moreover have "allocate resolve (i # is) claimed ops ! k = ops ! k" if "k \<notin> set (i # is)" for k
    using IH that by (simp add: Let_def)
  ultimately show ?case
    using IH unfolding set_eq by (simp add: Let_def)
qed simp

lemma allocate_all:
  assumes "\<forall>op \<in> set ops. ok op" "distinct is" "set is = {..<length ops}" "length ops \<le> limit"
  shows "length (allocate resolve is [] ops) = length ops
    \<and> distinct (map final_target (allocate resolve is [] ops))
    \<and> (\<forall>i < length ops. settled (ops ! i) (allocate resolve is [] ops ! i))"
proof -
  have "length is = length ops" using assms(2,3) distinct_card by fastforce
  then have "length (allocate resolve is [] ops) = length ops
    \<and> inj_on (\<lambda>i. final_target (allocate resolve is [] ops ! i)) ({} \<union> set is)
    \<and> (\<forall>i \<in> set is. settled (ops ! i) (allocate resolve is [] ops ! i))
    \<and> (\<forall>i. i \<notin> set is \<longrightarrow> allocate resolve is [] ops ! i = ops ! i)"
    using assms by (intro allocate_spec) auto
  then show ?thesis using assms(3) by (auto simp: distinct_conv_nth inj_on_def)
qed

end

lemma set_allocation_order: "set (allocation_order ops) = {..<length ops}"
  by (auto simp: allocation_order_def)

lemma distinct_allocation_order: "distinct (allocation_order ops)"
  by (simp add: allocation_order_def)

text \<open>The choice of the code, for operations that leave enough counters.\<close>

definition enough_counters :: "files \<Rightarrow> path list \<Rightarrow> nat \<Rightarrow> MatchOperation \<Rightarrow> bool" where
  "enough_counters fs reserved limit op \<longleftrightarrow>
     op_ok op \<and> finite (dom fs)
     \<and> start_counter (existing_counter op) + card (dom fs) + length reserved + limit < 10000"

text \<open>What the loop leaves of an operation: its source, its directory, a target free on disk.\<close>

definition settled_on :: "files \<Rightarrow> MatchOperation \<Rightarrow> MatchOperation \<Rightarrow> bool" where
  "settled_on fs old new \<longleftrightarrow>
     subtitle_file new = subtitle_file old \<and> op_ok new
     \<and> parent (final_target new) = parent (final_target old)
     \<and> file_name (final_target new) = Some (new_subtitle_name new)
     \<and> (fs (final_target new) = None \<or> final_target new = op_source new)"

lemma resolve_target_cases:
  assumes "enough_counters fs reserved limit op" "length claimed < limit"
  obtains d g where "resolve_target fs reserved claimed op = (join_name d g, g)" "plain_name g"
    "\<not> path_taken fs reserved claimed (final_target op) (op_source op) (join_name d g)"
    "final_target (retarget (join_name d g, g) op) = join_name d g" "op_ok (retarget (join_name d g, g) op)"
    "parent (final_target op) = Some d"
proof -
  have ok: "op_ok op" using assms(1) by (simp add: enough_counters_def)
  then obtain d f where f: "final_target op = join_name d f" "plain_name f"
    and re: "\<And>g. plain_name g \<Longrightarrow> final_target (retarget (join_name d g, g) op) = join_name d g"
      "\<And>g. plain_name g \<Longrightarrow> op_ok (retarget (join_name d g, g) op)"
    by (rule op_okE) blast
  let ?taken = "path_taken fs reserved claimed (final_target op) (op_source op)"
  obtain stem ext where sf: "split_filename f = (stem, ext)" by fastforce
  obtain base c where sn: "split_numeric_tail stem = (base, c)" by fastforce
  have ex: "existing_counter op = c" using f sf sn by (simp add: existing_counter_def target_name_def)
  have plain: "plain_name (base @ ''.'' @ show_nat k @ ext)" for k by (rule plain_probe_name [OF f(2) sf sn])
  have res: "resolve_target fs reserved claimed op =
      (if ?taken (join_name d f)
       then (case probe_target ?taken d base ext (start_counter c) of Some r \<Rightarrow> r | None \<Rightarrow> (join_name d f, f))
       else (join_name d f, f))"
    using f sf sn by (simp add: resolve_target_def Let_def split: option.split)
  show thesis
  proof (cases "?taken (join_name d f)")
    case False
    then show thesis using that [of d f] res f re by auto
  next
    case True
    let ?T = "set claimed \<union> set reserved \<union> dom fs"
    have fin: "finite ?T" using assms(1) by (simp add: enough_counters_def)
    have "card ?T \<le> card (set claimed) + card (set reserved) + card (dom fs)"
      by (meson card_Un_le order.trans add_le_mono1)
    also have "\<dots> \<le> length claimed + length reserved + card (dom fs)"
      by (simp add: add_mono card_length)
    finally have "start_counter c + card ?T < 10000"
      using assms ex by (simp add: enough_counters_def)
    moreover have "\<And>p. ?taken p \<Longrightarrow> p \<in> ?T" by (auto simp: path_taken_def)
    ultimately obtain r where r: "probe_target ?taken d base ext (start_counter c) = Some r"
      using probe_target_found [OF fin _ _ plain] by blast
    from probe_target_Some [OF r] obtain k where
      "r = (join_name d (base @ ''.'' @ show_nat k @ ext), base @ ''.'' @ show_nat k @ ext)" "\<not> ?taken (fst r)"
      by blast
    then show thesis using that [of d "base @ ''.'' @ show_nat k @ ext"] res True r plain re f by simp
  qed
qed

interpretation unique_targets: target_allocator "resolve_target fs reserved"
    "enough_counters fs reserved limit" "settled_on fs" limit for fs reserved limit
proof
  fix op and claimed :: "path list"
  assume a: "enough_counters fs reserved limit op" "length claimed < limit"
  obtain d g where g: "resolve_target fs reserved claimed op = (join_name d g, g)" "plain_name g"
    "\<not> path_taken fs reserved claimed (final_target op) (op_source op) (join_name d g)"
    "final_target (retarget (join_name d g, g) op) = join_name d g" "op_ok (retarget (join_name d g, g) op)"
    "parent (final_target op) = Some d"
    by (rule resolve_target_cases [OF a])
  show "fst (resolve_target fs reserved claimed op) \<notin> set claimed" using g by (auto simp: path_taken_def)
  show "final_target (retarget (resolve_target fs reserved claimed op) op) = fst (resolve_target fs reserved claimed op)"
    using g by simp
  have "op_source (retarget (join_name d g, g) op) = op_source op"
    "subtitle_file (retarget (join_name d g, g) op) = subtitle_file op"
    "new_subtitle_name (retarget (join_name d g, g) op) = g" by (simp_all add: retarget_def)
  then show "settled_on fs op (retarget (resolve_target fs reserved claimed op) op)"
    using g by (auto simp: settled_on_def path_taken_def)
qed

text \<open>Whatever the counters, the choice is a plain name in the directory of the operation.\<close>

lemma resolve_target_plain:
  assumes "final_target op = join_name d f" "plain_name f"
  shows "\<exists>g. resolve_target fs reserved claimed op = (join_name d g, g) \<and> plain_name g"
proof -
  let ?taken = "path_taken fs reserved claimed (final_target op) (op_source op)"
  obtain stem ext where sf: "split_filename f = (stem, ext)" by fastforce
  obtain base c where sn: "split_numeric_tail stem = (base, c)" by fastforce
  have plain: "plain_name (base @ ''.'' @ show_nat k @ ext)" for k by (rule plain_probe_name [OF assms(2) sf sn])
  have res: "resolve_target fs reserved claimed op =
      (if ?taken (join_name d f)
       then (case probe_target ?taken d base ext (start_counter c) of Some r \<Rightarrow> r | None \<Rightarrow> (join_name d f, f))
       else (join_name d f, f))"
    using assms sf sn by (simp add: resolve_target_def Let_def split: option.split)
  show ?thesis
  proof (cases "probe_target ?taken d base ext (start_counter c)")
    case None
    then show ?thesis using res assms(2) by auto
  next
    case (Some r)
    from probe_target_Some [OF Some] Some res plain assms(2) show ?thesis by (cases "?taken (join_name d f)") auto
  qed
qed

definition same_place :: "MatchOperation \<Rightarrow> MatchOperation \<Rightarrow> bool" where
  "same_place old new \<longleftrightarrow>
     op_ok new \<and> parent (final_target new) = parent (final_target old)
     \<and> subtitle_file new = subtitle_file old \<and> video_file new = video_file old
     \<and> op_confidence new = op_confidence old"

lemma retarget_same_place:
  assumes "op_ok op"
  shows "same_place op (retarget (resolve_target fs reserved claimed op) op)"
proof -
  obtain d f where f: "final_target op = join_name d f" "plain_name f"
    and re: "\<And>g. plain_name g \<Longrightarrow> final_target (retarget (join_name d g, g) op) = join_name d g"
      "\<And>g. plain_name g \<Longrightarrow> op_ok (retarget (join_name d g, g) op)"
    using assms by (rule op_okE) blast
  obtain g where "resolve_target fs reserved claimed op = (join_name d g, g)" "plain_name g"
    using resolve_target_plain [OF f] by blast
  then show ?thesis using re f by (simp add: same_place_def) (simp add: retarget_def)
qed

lemma allocate_same_place:
  assumes "\<forall>i \<in> set is. i < length ops" "\<forall>i < length ops. op_ok (ops ! i)"
  shows "list_all2 same_place ops (allocate (resolve_target fs reserved) is claimed ops)"
  using assms
proof (induction "is" arbitrary: claimed ops)
  case Nil
  then show ?case by (auto simp: list_all2_conv_all_nth same_place_def)
next
  case (Cons i "is")
  let ?r = "resolve_target fs reserved claimed (ops ! i)"
  let ?ops = "ops[i := retarget ?r (ops ! i)]"
  have i: "i < length ops" "op_ok (ops ! i)" using Cons.prems by auto
  note here = retarget_same_place [OF i(2), of fs reserved claimed]
  then have "\<forall>k < length ?ops. op_ok (?ops ! k)"
    using Cons.prems(2) here i(1) by (simp add: nth_list_update same_place_def)
  moreover have "\<forall>k \<in> set is. k < length ?ops" using Cons.prems(1) by simp
  ultimately have IH: "list_all2 same_place ?ops (allocate (resolve_target fs reserved) is (fst ?r # claimed) ?ops)"
    by (intro Cons.IH)
  have "list_all2 same_place ops ?ops"
    using Cons.prems(2) here i(1) by (simp add: list_all2_conv_all_nth nth_list_update same_place_def)
  from list_all2_trans [OF _ this IH, of same_place]
  have "list_all2 same_place ops (allocate (resolve_target fs reserved) is (fst ?r # claimed) ?ops)"
    by (auto simp: same_place_def)
  then show ?case by (simp add: Let_def)
qed

lemma unique_targets_same_place:
  "\<forall>op \<in> set ops. op_ok op \<Longrightarrow> list_all2 same_place ops (apply_unique_target_paths fs ops)"
  unfolding apply_unique_target_paths_def
  by (rule allocate_same_place) (simp_all add: set_allocation_order)

text \<open>A batch with pairwise different free targets is left alone.\<close>

definition in_place :: "files \<Rightarrow> MatchOperation \<Rightarrow> bool" where
  "in_place fs op \<longleftrightarrow>
     file_name (final_target op) = Some (new_subtitle_name op)
     \<and> (fs (final_target op) = None \<or> final_target op = op_source op)"

lemma resolve_in_place:
  assumes "in_place fs op" "final_target op \<notin> set claimed"
  shows "resolve_target fs reserved claimed op = (final_target op, new_subtitle_name op)"
proof -
  have "\<not> path_taken fs reserved claimed (final_target op) (op_source op) (final_target op)"
    using assms by (auto simp: path_taken_def in_place_def)
  then show ?thesis
    using assms(1) by (simp add: resolve_target_def Let_def in_place_def split: prod.split)
qed

lemma retarget_in_place: "retarget (final_target op, new_subtitle_name op) op = op"
  by (cases op) (simp add: retarget_def final_target_def split: option.split)

lemma allocate_in_place:
  assumes "\<forall>op \<in> set ops. in_place fs op" "distinct (map final_target ops)" "distinct is"
    and "\<forall>i \<in> set is. i < length ops" "set claimed \<subseteq> (\<lambda>i. final_target (ops ! i)) ` {i. i < length ops \<and> i \<notin> set is}"
  shows "allocate (resolve_target fs reserved) is claimed ops = ops"
  using assms(3-)
proof (induction "is" arbitrary: claimed)
  case (Cons i "is")
  then have i: "i < length ops" by simp
  then have "in_place fs (ops ! i)" using assms(1) by simp
  moreover have "final_target (ops ! i) \<notin> set claimed"
    using Cons.prems(3) i assms(2) by (fastforce simp: distinct_conv_nth)
  ultimately have r: "resolve_target fs reserved claimed (ops ! i)
      = (final_target (ops ! i), new_subtitle_name (ops ! i))"
    by (rule resolve_in_place)
  have "allocate (resolve_target fs reserved) is (final_target (ops ! i) # claimed) ops = ops"
    using Cons.prems i by (intro Cons.IH) auto
  then show ?case by (simp add: r Let_def retarget_in_place)
qed simp

lemma unique_targets_spec:
  assumes "\<forall>op \<in> set ops. enough_counters fs (map final_target ops) (length ops) op"
  shows "length (apply_unique_target_paths fs ops) = length ops
    \<and> distinct (map final_target (apply_unique_target_paths fs ops))
    \<and> (\<forall>i < length ops. settled_on fs (ops ! i) (apply_unique_target_paths fs ops ! i))"
  unfolding apply_unique_target_paths_def
  by (rule unique_targets.allocate_all [OF assms distinct_allocation_order set_allocation_order order.refl])

section \<open>Properties\<close>

text \<open>
  C2.  After the allocation all final targets of the batch are pairwise different, each is free on disk
  or the operation's own source, and every operation keeps its subtitle and its directory; the
  counters up to 9999 must leave room for the batch and the files on disk.
\<close>

theorem unique_target_paths:
  assumes "\<forall>op \<in> set ops. enough_counters fs (map final_target ops) (length ops) op"
  shows "length (apply_unique_target_paths fs ops) = length ops
    \<and> distinct (map final_target (apply_unique_target_paths fs ops))
    \<and> (\<forall>i < length ops. settled_on fs (ops ! i) (apply_unique_target_paths fs ops ! i))"
  using assms by (rule unique_targets_spec)

definition demo_media :: "MediaFileType \<Rightarrow> str \<Rightarrow> str \<Rightarrow> MediaFile" where
  "demo_media ty name ext =
     \<lparr>mf_id = name, mf_path = demo_path name, file_type = ty, mf_size = 3, mf_name = name,
      mf_extension = ext, relative_path = name\<rparr>"

definition demo_op :: "str \<Rightarrow> str \<Rightarrow> MatchOperation" where
  "demo_op source new_name =
     \<lparr>video_file = demo_media Video ''m.mkv'' ''mkv'', subtitle_file = demo_media Subtitle source ''srt'',
      new_subtitle_name = new_name, op_confidence = 1, reasoning = [], relocation_mode = NoRelocation,
      relocation_target_path = None, requires_relocation = False\<rparr>"

definition demo_batch :: "MatchOperation list" where
  "demo_batch = [demo_op ''a.srt'' ''m.srt'', demo_op ''b.srt'' ''m.srt'', demo_op ''c.srt'' ''m.2.srt'']"

lemma demo_final_targets:
  "map final_target demo_batch = [demo_path ''m.srt'', demo_path ''m.srt'', demo_path ''m.2.srt'']"
  by code_simp

lemma demo_enough:
  "\<forall>op \<in> set demo_batch. enough_counters Map.empty (map final_target demo_batch) (length demo_batch) op"
proof -
  have names: "map target_name demo_batch = [''m.srt'', ''m.srt'', ''m.2.srt'']" by code_simp
  have split: "split_filename ''m.srt'' = (''m'', ''.srt'')" "split_filename ''m.2.srt'' = (''m.2'', ''.srt'')"
    "rfind_char (CHR ''.'') ''m'' = None" "rfind_char (CHR ''.'') ''m.2'' = Some 1"
    by code_simp+
  have "parse_uint (2 ^ 32) ''2'' = Inr 2" by (subst parse_uint_digits) (simp_all add: is_digit_def digit_val_def)
  then have "\<forall>n \<in> set (map target_name demo_batch).
      snd (split_numeric_tail (fst (split_filename n))) = None
      \<or> snd (split_numeric_tail (fst (split_filename n))) = Some 2"
    by (simp add: names split split_numeric_tail_def is_digit_def)
  then have "list_all (\<lambda>op. existing_counter op = None \<or> existing_counter op = Some 2) demo_batch"
    by (simp add: existing_counter_def list_all_iff)
  moreover have "list_all op_ok demo_batch"
    by (simp add: demo_batch_def demo_op_def op_ok_def plain_name_def)
  moreover have "length (map final_target demo_batch) = 3" "length demo_batch = 3" by (simp_all add: demo_batch_def)
  ultimately show ?thesis
    by (auto simp: enough_counters_def list_all_iff start_counter_def)
qed

lemma unique_target_paths_witness:
  "distinct (map final_target (apply_unique_target_paths Map.empty demo_batch))"
  using unique_target_paths [OF demo_enough] by blast

text \<open>
   The allocation is idempotent, so the pass of the command line after the one of the engine changes
  nothing.
\<close>

theorem unique_target_paths_idempotent:
  assumes "\<forall>op \<in> set ops. enough_counters fs (map final_target ops) (length ops) op"
  shows "apply_unique_target_paths fs (apply_unique_target_paths fs ops) = apply_unique_target_paths fs ops"
proof -
  let ?ops = "apply_unique_target_paths fs ops"
  note spec = unique_targets_spec [OF assms]
  then have "\<forall>op \<in> set ?ops. in_place fs op"
    by (auto simp: in_set_conv_nth settled_on_def in_place_def)
  then have "allocate (resolve_target fs (map final_target ?ops)) (allocation_order ?ops) [] ?ops = ?ops"
    using spec
    by (intro allocate_in_place) (simp_all add: set_allocation_order distinct_allocation_order)
  then show ?thesis unfolding apply_unique_target_paths_def [of fs ?ops] .
qed

lemma unique_target_paths_idempotent_witness:
  "apply_unique_target_paths Map.empty (apply_unique_target_paths Map.empty demo_batch)
     = apply_unique_target_paths Map.empty demo_batch"
  by (rule unique_target_paths_idempotent [OF demo_enough])

end
