(* ===== verification/Plan_Properties.thy ===== *)
theory Plan_Properties
  imports Target_Allocation
begin

text \<open>
  What the planning of match operations guarantees whatever the AI answers: every match is accounted
  for, names and targets stay inside the directories of the files matched, and previews are bounded.
\<close>

section \<open>Scanned files\<close>

text \<open>A media file of a scan: its path is one of those given, its name is a file name, its
  extension one of the known ones.\<close>

definition scanned :: "path list \<Rightarrow> MediaFile \<Rightarrow> bool" where
  "scanned paths f \<longleftrightarrow>
     mf_path f \<in> set paths \<and> file_name (mf_path f) = Some (mf_name f)
     \<and> mf_extension f \<in> set video_extensions \<union> set subtitle_extensions"

lemma extension_file_name: "extension p = Some e \<Longrightarrow> \<exists>f. file_name p = Some f"
  by (cases "file_name p") (auto simp: extension_def)

lemma scan_file_list_scanned: "f \<in> set (scan_file_list lower ids fs n ps) \<Longrightarrow> scanned ps f"
proof (induction ps arbitrary: n)
  case (Cons p ps)
  have rest: "f \<in> set (scan_file_list lower ids fs k ps) \<Longrightarrow> scanned (p # ps) f" for k
    using Cons.IH [of k] by (auto simp: scanned_def)
  show ?case
  proof (cases "fs p = None \<or> extension p = None")
    case True
    then have "scan_file_list lower ids fs n (p # ps) = scan_file_list lower ids fs n ps"
      by (auto split: option.splits)
    then show ?thesis using Cons.prems rest by simp
  next
    case False
    then obtain content ext where ce: "fs p = Some content" "extension p = Some ext" by auto
    obtain name where name: "file_name p = Some name" using extension_file_name [OF ce(2)] by auto
    have "f \<in> set (scan_file_list lower ids fs n ps) \<or> f \<in> set (scan_file_list lower ids fs (Suc n) ps)
        \<or> mf_path f = p \<and> mf_name f = name \<and> mf_extension f \<in> set video_extensions \<union> set subtitle_extensions"
      using Cons.prems ce name by (simp add: Let_def split: if_splits) auto
    then show ?thesis using rest name by (auto simp: scanned_def)
  qed
qed simp

lemma known_extension:
  assumes "e \<in> set video_extensions \<union> set subtitle_extensions"
  shows "e \<noteq> [] \<and> CHR ''/'' \<notin> set e \<and> CHR ''.'' \<notin> set e"
proof -
  have "list_all (\<lambda>e. e \<noteq> [] \<and> CHR ''/'' \<notin> set e \<and> CHR ''.'' \<notin> set e) (video_extensions @ subtitle_extensions)"
    by code_simp
  then show ?thesis using assms by (auto simp: list_all_iff)
qed

section \<open>Generated names\<close>

lemma suffix_char_slash: "suffix_char c \<Longrightarrow> c \<noteq> CHR ''/''"
  by (auto simp: suffix_char_def is_digit_def)

lemma sanitize_suffix_Some:
  "sanitize_suffix raw = Some s \<Longrightarrow> s = raw \<and> s \<noteq> [] \<and> length s \<le> 16 \<and> list_all suffix_char s"
  by (auto simp: sanitize_suffix_def split: if_splits)

lemma sanitize_no_slash: "sanitize_suffix raw = Some s \<Longrightarrow> CHR ''/'' \<notin> set s"
  using sanitize_suffix_Some [of raw s] by (auto simp: list_all_iff dest: suffix_char_slash)

lemma primary_no_slash: "get_primary_language lower eng p = Some c \<Longrightarrow> CHR ''/'' \<notin> set c"
  using detect_codes [of lower eng p c] by (auto simp: canonical_codes_def)

lemma video_base_subset: "set (video_base_name v) \<subseteq> set (mf_name v)"
  by (auto simp: video_base_name_def strip_suffix_def dest: in_set_takeD split: option.splits if_splits)

lemma generated_form:
  "\<exists>tag. generate_subtitle_name lower eng v s m = video_base_name v @ tag @ ''.'' @ mf_extension s
     \<and> CHR ''/'' \<notin> set tag"
proof -
  define lang where "lang = (case (case Option.bind (target_filename_suffix m) sanitize_suffix of
        Some t \<Rightarrow> Some t | None \<Rightarrow> Option.bind (match_language m) (normalize_ai_language lower)) of
      Some t \<Rightarrow> Some t | None \<Rightarrow> get_primary_language lower eng (mf_path s))"
  have "CHR ''/'' \<notin> set c" if "lang = Some c" for c
    using that sanitize_no_slash primary_no_slash
    by (auto simp: lang_def normalize_ai_language_def Let_def bind_eq_Some_conv split: option.splits if_splits)
  moreover have "generate_subtitle_name lower eng v s m =
      (case lang of Some c \<Rightarrow> video_base_name v @ ''.'' @ c @ ''.'' @ mf_extension s
       | None \<Rightarrow> video_base_name v @ ''.'' @ mf_extension s)"
    by (simp add: generate_subtitle_name_def Let_def lang_def)
  ultimately show ?thesis
    by (cases lang) (auto intro: exI [of _ "[]"] exI [of _ "''.'' @ the lang"])
qed

lemma plain_dotted:
  assumes "CHR ''/'' \<notin> set a" "e \<noteq> []" "CHR ''/'' \<notin> set e" "CHR ''.'' \<notin> set e"
  shows "plain_name (a @ ''.'' @ e)"
proof -
  have "last e \<noteq> CHR ''.''" using assms(2,4) by (metis last_in_set)
  then have "last (a @ ''.'' @ e) \<noteq> CHR ''.''" using assms(2) by simp
  moreover have "last ''.'' = CHR ''.''" "last dotdot = CHR ''.''" by simp_all
  ultimately have "a @ ''.'' @ e \<noteq> ''.''" "a @ ''.'' @ e \<noteq> dotdot" by metis+
  then show ?thesis using assms by (simp add: plain_name_def)
qed

lemma generated_plain:
  assumes "CHR ''/'' \<notin> set (mf_name v)" "mf_extension s \<in> set video_extensions \<union> set subtitle_extensions"
  shows "plain_name (generate_subtitle_name lower eng v s m)"
proof -
  obtain tag where g: "generate_subtitle_name lower eng v s m = video_base_name v @ tag @ ''.'' @ mf_extension s"
    "CHR ''/'' \<notin> set tag" using generated_form by blast
  have "CHR ''/'' \<notin> set (video_base_name v @ tag)" using assms(1) g(2) video_base_subset by fastforce
  then show ?thesis using plain_dotted [of "video_base_name v @ tag"] known_extension [OF assms(2)] g(1) by simp
qed

section \<open>Assembling\<close>

lemma find_member: "find_media_file_by_id_or_path files i None = Some f \<Longrightarrow> f \<in> set files"
  by (auto simp: find_media_file_by_id_or_path_def find_Some_iff split: option.splits)

text \<open>An operation that may come of the assembling of two lists of files.\<close>

definition planned :: "MatchConfig \<Rightarrow> MediaFile list \<Rightarrow> MediaFile list \<Rightarrow> MatchOperation \<Rightarrow> bool" where
  "planned cfg videos subtitles op \<longleftrightarrow>
     video_file op \<in> set videos \<and> subtitle_file op \<in> set subtitles
     \<and> confidence_threshold cfg \<le> op_confidence op
     \<and> relocation_mode op = cfg_relocation_mode cfg
     \<and> requires_relocation op
         = (cfg_relocation_mode cfg \<noteq> NoRelocation \<and> parent (op_source op) \<noteq> parent (mf_path (video_file op)))
     \<and> (relocation_target_path op \<noteq> None) = requires_relocation op"

lemma plan_operation_planned:
  assumes "plan_operation lower eng cfg v s m = Returns op" "v \<in> set videos" "s \<in> set subtitles"
    "\<not> match_confidence m < confidence_threshold cfg"
  shows "planned cfg videos subtitles op"
  using assms by (auto simp: plan_operation_def Let_def planned_def split: if_splits option.splits)

lemma assemble_spec:
  "case assemble lower eng cfg videos subtitles matches of
     Returns (ops, rej) \<Rightarrow>
       length ops + length rej = length matches \<and> list_all (planned cfg videos subtitles) ops
       \<and> list_all (\<lambda>r. rej_reason r \<in> {''below_threshold'', ''id_not_found''}) rej
   | Panics _ \<Rightarrow> list_ex (\<lambda>v. parent (mf_path v) = None) videos"
proof (induction matches)
  case (Cons m ms)
  let ?v = "find_media_file_by_id_or_path videos (video_file_id m) None"
  let ?s = "find_media_file_by_id_or_path subtitles (subtitle_file_id m) None"
  show ?case
  proof (cases "match_confidence m < confidence_threshold cfg \<or> ?v = None \<or> ?s = None")
    case True
    then show ?thesis
      using Cons.IH by (auto simp: Let_def rejected_candidate_def split: run.splits option.splits)
  next
    case False
    then obtain v s where vs: "?v = Some v" "?s = Some s" by auto
    note vs = vs find_member [OF vs(1)] find_member [OF vs(2)]
    show ?thesis
    proof (cases "plan_operation lower eng cfg v s m")
      case (Returns op)
      have "planned cfg videos subtitles op"
        using plan_operation_planned [OF Returns vs(3,4)] False by simp
      then show ?thesis using Cons.IH vs Returns False by (auto simp: Let_def split: run.splits)
    next
      case (Panics e)
      then have "parent (mf_path v) = None"
        by (auto simp: plan_operation_def Let_def split: if_splits option.splits)
      then show ?thesis using vs Panics False by (auto simp: Let_def list_ex_iff)
    qed
  qed
qed simp

lemma assemble_targets:
  assumes "assemble lower eng cfg videos subtitles matches = Returns (ops, rej)" "op \<in> set ops"
    and "\<forall>v \<in> set videos. CHR ''/'' \<notin> set (mf_name v)"
    and "\<forall>s \<in> set subtitles. mf_extension s \<in> set video_extensions \<union> set subtitle_extensions
           \<and> parent (mf_path s) \<noteq> None"
  shows "op_ok op \<and> parent (final_target op) =
    (if requires_relocation op then parent (mf_path (video_file op)) else parent (op_source op))"
  using assms(1,2)
proof (induction matches arbitrary: ops rej)
  case (Cons m ms)
  let ?v = "find_media_file_by_id_or_path videos (video_file_id m) None"
  let ?s = "find_media_file_by_id_or_path subtitles (subtitle_file_id m) None"
  show ?case
  proof (cases "match_confidence m < confidence_threshold cfg \<or> ?v = None \<or> ?s = None")
    case True
    then show ?thesis
      using Cons by (auto simp: Let_def split: run.splits option.splits if_splits)
  next
    case False
    then obtain v s where vs: "?v = Some v" "?s = Some s" by auto
    note vs = vs find_member [OF vs(1)] find_member [OF vs(2)]
    obtain op1 where op1: "plan_operation lower eng cfg v s m = Returns op1"
      using Cons.prems False vs by (auto simp: Let_def split: run.splits)
    obtain ops1 where ops1: "assemble lower eng cfg videos subtitles ms = Returns (ops1, rej)" "ops = op1 # ops1"
      using Cons.prems False vs op1 by (auto simp: Let_def split: run.splits)
    have plain: "plain_name (generate_subtitle_name lower eng v s m)"
      using generated_plain assms(3,4) vs(3,4) by blast
    obtain sd where sd: "parent (mf_path s) = Some sd" using assms(4) vs(4) by blast
    have "op_ok op1 \<and> parent (final_target op1) =
        (if requires_relocation op1 then parent (mf_path (video_file op1)) else parent (op_source op1))"
      using op1 plain sd
      by (auto simp: plan_operation_def Let_def op_ok_def final_target_def
          split: if_splits option.splits intro!: exI)
    then show ?thesis using Cons.IH [OF ops1(1)] Cons.prems(2) ops1(2) by auto
  qed
qed simp

section \<open>Properties\<close>


definition plain_path :: "path \<Rightarrow> bool" where
  "plain_path p \<longleftrightarrow> comps p \<noteq> [] \<and> list_all plain_name (comps p)"

text \<open>Assembled operations of a scan go to the directory of the video or of the subtitle.\<close>

lemma of_type_subset: "set (of_type ty files) \<subseteq> set files"
  by (auto simp: of_type_def)

lemma plan_op_place:
  assumes "\<forall>p \<in> set paths. plain_path p" "files = scan_file_list lower ids fs 0 paths"
    and "assemble lower eng cfg (of_type Video files) (of_type Subtitle files) matches = Returns (ops, rejected)"
    and "op \<in> set ops"
  shows "op_ok op \<and> parent (final_target op) =
      (if requires_relocation op then parent (mf_path (video_file op)) else parent (op_source op))"
proof (rule assemble_targets [OF assms(3,4)])
  have scan: "scanned paths f" if "f \<in> set files" for f
    using that assms(2) scan_file_list_scanned by blast
  have "CHR ''/'' \<notin> set (mf_name f)" if "f \<in> set files" for f
  proof -
    have "mf_name f \<in> set (comps (mf_path f))"
      using scan [OF that] by (simp add: scanned_def file_name_def split: if_splits) (metis last_in_set)
    then show ?thesis using scan [OF that] assms(1)
      by (auto simp: scanned_def plain_path_def list_all_iff plain_name_def)
  qed
  then show "\<forall>v \<in> set (of_type Video files). CHR ''/'' \<notin> set (mf_name v)" using of_type_subset by blast
  have "mf_extension f \<in> set video_extensions \<union> set subtitle_extensions \<and> parent (mf_path f) \<noteq> None"
    if "f \<in> set files" for f
    using scan [OF that] assms(1) by (auto simp: scanned_def parent_def plain_path_def)
  then show "\<forall>s \<in> set (of_type Subtitle files). mf_extension s \<in> set video_extensions \<union> set subtitle_extensions
      \<and> parent (mf_path s) \<noteq> None" using of_type_subset by blast
qed

text \<open>
  C9.  Whatever names, languages and suffixes the AI answers, the final target of every planned
  operation, after the allocation of unique targets, is a plain file name in the directory of
  the matched video or of the subtitle itself: the answer cannot direct a file anywhere else.
\<close>

theorem plan_targets_contained:
  assumes "\<forall>p \<in> set paths. plain_path p"
    and "files = scan_file_list lower ids fs 0 paths"
    and "plan_answer lower eng cfg fs (of_type Video files) (of_type Subtitle files) matches = Returns (ops, rejected)"
    and "op \<in> set ops"
  shows "op_ok op \<and> mf_path (video_file op) \<in> set paths \<and> op_source op \<in> set paths
    \<and> (parent (final_target op) = parent (mf_path (video_file op)) \<or> parent (final_target op) = parent (op_source op))"
proof -
  obtain ops0 where a: "assemble lower eng cfg (of_type Video files) (of_type Subtitle files) matches = Returns (ops0, rejected)"
    and ops: "ops = apply_unique_target_paths fs ops0"
    using assms(3) by (auto simp: plan_answer_def split: run.splits)
  note place = plan_op_place [OF assms(1,2) a]
  have "list_all2 same_place ops0 ops"
    unfolding ops using place by (intro unique_targets_same_place) blast
  then obtain op0 where op0: "op0 \<in> set ops0" "same_place op0 op"
    using assms(4) by (metis in_set_conv_nth list_all2_conv_all_nth)
  have "planned cfg (of_type Video files) (of_type Subtitle files) op0"
    using assemble_spec [where lower = lower and eng = eng and cfg = cfg and videos = "of_type Video files"
        and subtitles = "of_type Subtitle files" and matches = matches] a op0(1)
    by (simp add: list_all_iff)
  then have "video_file op0 \<in> set files" "subtitle_file op0 \<in> set files"
    using of_type_subset by (auto simp: planned_def)
  then have "mf_path (video_file op0) \<in> set paths" "op_source op0 \<in> set paths"
    using scan_file_list_scanned assms(2) by (auto simp: scanned_def dest!: scan_file_list_scanned)
  then show ?thesis using place [OF op0(1)] op0(2) by (auto simp: same_place_def split: if_splits)
qed

definition demo_config :: "FileRelocationMode \<Rightarrow> ConflictResolution \<Rightarrow> MatchConfig" where
  "demo_config mode resolution =
     \<lparr>confidence_threshold = 1/2, max_sample_length = 1, enable_content_analysis = False,
      backup_enabled = False, cfg_relocation_mode = mode, conflict_resolution = resolution,
      ai_model = ''m'', max_subtitle_bytes = 100\<rparr>"

definition demo_match :: FileMatch where
  "demo_match = \<lparr>video_file_id = ''0'', subtitle_file_id = ''1'', match_confidence = 1, match_factors = [],
     match_language = None, target_filename_suffix = Some ''../../etc''\<rparr>"

definition demo_paths :: "path list" where
  "demo_paths = [demo_path ''m.mkv'', demo_path ''a.srt'']"

definition demo_disk :: files where
  "demo_disk = [demo_path ''m.mkv'' \<mapsto> ''v'', demo_path ''a.srt'' \<mapsto> ''s'']"

text \<open>The plan of one match whose suffix tries to leave the directory.\<close>

definition demo_planned_op :: MatchOperation where
  "demo_planned_op =
     \<lparr>video_file = \<lparr>mf_id = ''0'', mf_path = demo_path ''m.mkv'', file_type = Video, mf_size = 1,
        mf_name = ''m.mkv'', mf_extension = ''mkv'', relative_path = ''m.mkv''\<rparr>,
      subtitle_file = \<lparr>mf_id = ''1'', mf_path = demo_path ''a.srt'', file_type = Subtitle, mf_size = 1,
        mf_name = ''a.srt'', mf_extension = ''srt'', relative_path = ''a.srt''\<rparr>,
      new_subtitle_name = ''m.srt'', op_confidence = 1, reasoning = [], relocation_mode = CopyMode,
      relocation_target_path = None, requires_relocation = False\<rparr>"

abbreviation demo_scan :: "MediaFile list" where
  "demo_scan \<equiv> scan_file_list ascii_lower (\<lambda>n. show_nat n) demo_disk 0 demo_paths"

lemma demo_plan:
  "plan_answer ascii_lower (ref_engine []) (demo_config CopyMode AutoRename) demo_disk
     (of_type Video demo_scan) (of_type Subtitle demo_scan) [demo_match] = Returns ([demo_planned_op], [])"
  by code_simp

lemma plan_targets_contained_witness:
  "parent (final_target demo_planned_op) = Some (path_of ''/media'')"
proof -
  have "\<forall>p \<in> set demo_paths. plain_path p"
    by (simp add: demo_paths_def demo_path_def plain_path_def plain_name_def)
  from plan_targets_contained [OF this refl demo_plan, of demo_planned_op]
  have "parent (final_target demo_planned_op) = parent (mf_path (video_file demo_planned_op))
      \<or> parent (final_target demo_planned_op) = parent (op_source demo_planned_op)" by simp
  moreover have "parent (mf_path (video_file demo_planned_op)) = Some (path_of ''/media'')"
    "parent (op_source demo_planned_op) = Some (path_of ''/media'')" by code_simp+
  ultimately show ?thesis by auto
qed

text \<open>
   A content preview is at most three bytes longer than \<open>max_sample_length\<close>, or the thread panics,
  which happens when that many bytes end inside a character: every odd limit has a text, of
  two-byte characters, on which it does.
\<close>

theorem preview_bounded_or_panics:
  "(case create_content_preview cfg content of
      Returns p \<Rightarrow> length p \<le> max_sample_length cfg + 3
    | Panics _ \<Rightarrow> \<not> is_char_boundary (join [LF] (take 20 (str_lines content))) (max_sample_length cfg))
   \<and> create_content_preview (cfg\<lparr>max_sample_length := 2 * n + 1\<rparr>) (concat (replicate (n + 1) [CHR 0xC3, CHR 0xA9]))
       = Panics ''byte index is not a char boundary''"
proof
  show "case create_content_preview cfg content of
      Returns p \<Rightarrow> length p \<le> max_sample_length cfg + 3
    | Panics _ \<Rightarrow> \<not> is_char_boundary (join [LF] (take 20 (str_lines content))) (max_sample_length cfg)"
    by (simp add: create_content_preview_def Let_def)
  let ?t = "concat (replicate (n + 1) [CHR 0xC3, CHR 0xA9])"
  have t: "?t = concat (replicate n [CHR 0xC3, CHR 0xA9]) @ [CHR 0xC3, CHR 0xA9]"
    by (simp add: replicate_append_same [symmetric] del: replicate_append_same)
  have len: "length (concat (replicate k [CHR 0xC3, CHR 0xA9])) = 2 * k" for k by (induction k) simp_all
  have lf: "LF \<notin> set ?t" "CR \<notin> set ?t" by auto
  have "str_lines ?t = [?t]"
  proof -
    have "?t \<noteq> []" by simp
    then show ?thesis using lf by (simp add: str_lines_def split_char_absent strip_cr_id del: split_str_char)
  qed
  moreover have "?t ! (2 * n + 1) = CHR 0xA9" unfolding t by (simp add: nth_append len)
  moreover have "length ?t = 2 * n + 2" unfolding len by simp
  ultimately show "create_content_preview (cfg\<lparr>max_sample_length := 2 * n + 1\<rparr>) ?t
      = Panics ''byte index is not a char boundary''"
    by (simp add: create_content_preview_def is_char_boundary_def)
qed

text \<open>
   A video whose extension is not in lower case keeps it in the names of its subtitles: the scan
  stores the extension in lower case and the name as it is, so the extension is not stripped.
\<close>

theorem uppercase_extension_kept:
  assumes "fs p = Some content" "file_name p = Some (stem @ ''.'' @ ext)" "stem \<noteq> []"
    and "ext \<noteq> []" "CHR ''.'' \<notin> set ext" "lower ext \<in> set video_extensions" "length (lower ext) = length ext"
    and "lower ext \<noteq> ext"
  shows "map video_base_name (scan_file_list lower ids fs 0 [p]) = [stem @ ''.'' @ ext]"
proof -
  have "rfind_char (CHR ''.'') (stem @ ''.'' @ ext) = Some (length stem)"
  proof -
    have "find_char (CHR ''.'') (rev ext @ CHR ''.'' # rev stem) = Some (length ext)"
      using assms(5) by (simp add: find_char_append find_char_None [THEN iffD2])
    then show ?thesis by (simp add: rfind_char_def)
  qed
  then have e: "extension p = Some ext"
    using assms(2,3) by (simp add: extension_def split_name_def)
  have "\<not> suffix (''.'' @ lower ext) (stem @ ''.'' @ ext)"
    using assms(7,8) by (auto simp: suffix_def)
  then show ?thesis
    using assms e by (auto simp: video_base_name_def strip_suffix_def Let_def)
qed

lemma uppercase_extension_kept_witness:
  "map video_base_name (scan_file_list ascii_lower show_nat [demo_path ''M.MKV'' \<mapsto> ''v''] 0 [demo_path ''M.MKV''])
     = [''M.MKV'']"
proof -
  have "map video_base_name (scan_file_list ascii_lower show_nat [demo_path ''M.MKV'' \<mapsto> ''v''] 0 [demo_path ''M.MKV''])
     = [''M'' @ ''.'' @ ''MKV'']"
    by (rule uppercase_extension_kept [where content = "''v''"]) (simp_all, code_simp+)
  then show ?thesis by simp
qed

end
