(* ===== verification/Match_Exec.thy ===== *)
theory Match_Exec
  imports Plan_Properties
begin

text \<open>
  Execution of match operations: the second half of \<open>src/core/matcher/engine.rs\<close> and the journal of
  \<open>src/core/matcher/journal.rs\<close>.  Calls may panic or never return, and the loops end with an error
  at the first failure (\<open>execute_operations\<close>) or record one outcome per operation
  (\<open>execute_operations_audit\<close>).  The serialisation of the journal, the modification times and the
  user's cancellation are arguments; progress is the list of events the reporter receives.
\<close>

section \<open>Journal\<close>

datatype JournalEntryStatus = JournalPending | JournalCompleted

datatype JournalOperationType = Renamed | Copied | Moved

record JournalEntry =
  operation_type :: JournalOperationType
  je_source :: path
  je_destination :: path
  je_backup_path :: "path option"
  je_status :: JournalEntryStatus
  je_file_size :: nat
  je_file_mtime :: nat

record JournalData =
  batch_id :: str
  created_at :: nat
  entries :: "JournalEntry list"

definition config_join :: "path \<Rightarrow> str \<Rightarrow> path" where
  "config_join dir name = join_name (join_name dir ''subx'') name"

text \<open>\<open>journal_path\<close> and \<open>lock_path\<close> over the variable \<open>XDG_CONFIG_HOME\<close> and the platform's directory.\<close>

definition config_base :: "path option \<Rightarrow> path option \<Rightarrow> path res" where
  "config_base xdg platform =
     (case xdg of
        Some d \<Rightarrow> Inr d
      | None \<Rightarrow> (case platform of Some d \<Rightarrow> Inr d
                | None \<Rightarrow> Inl (Config ''Unable to determine config directory'')))"

definition journal_path :: "path option \<Rightarrow> path option \<Rightarrow> path res" where
  "journal_path xdg platform =
     bind_res (config_base xdg platform) (\<lambda>d. Inr (config_join d ''match_journal.json''))"

definition lock_path :: "path option \<Rightarrow> path option \<Rightarrow> path res" where
  "lock_path xdg platform =
     bind_res (config_base xdg platform) (\<lambda>d. Inr (config_join d ''subx.lock''))"

definition journal_tmp :: "path \<Rightarrow> str \<Rightarrow> path" where
  "journal_tmp p name = with_file_name p (''.'' @ name @ ''.tmp'')"

text \<open>\<open>JournalData::save\<close>: the new content goes to a temporary file that then replaces the journal.\<close>

definition journal_save :: "os \<Rightarrow> (JournalData \<Rightarrow> str) \<Rightarrow> JournalData \<Rightarrow> path \<Rightarrow> (SubXError, unit) io" where
  "journal_save os to_json data p =
     map_err_io Io
       (bind_io (case parent p of None \<Rightarrow> return_io () | Some d \<Rightarrow> create_dir_all os d) (\<lambda>_.
          case file_name p of
            None \<Rightarrow> fail_io \<lparr>io_kind = InvalidInput, io_text = ''journal path has no file name''\<rparr>
          | Some name \<Rightarrow>
              bind_io (create_file os (journal_tmp p name)) (\<lambda>_.
              bind_io (write_all os (journal_tmp p name) (to_json data)) (\<lambda>_.
              bind_io (sync_all os (journal_tmp p name)) (\<lambda>_.
                rename_path os (journal_tmp p name) p)))))"

definition journal_load :: "os \<Rightarrow> (str \<Rightarrow> JournalData res) \<Rightarrow> path \<Rightarrow> (SubXError, JournalData) io" where
  "journal_load os of_json p =
     bind_io (map_err_io Io (read_to_string os p)) (\<lambda>content fs. (of_json content, fs))"

section \<open>Conflict resolution\<close>

text \<open>
  The probing of \<open>AutoRename\<close>: a placeholder is created to claim the name and removed again, whatever
  the removal answers.
\<close>

fun first_free_probe :: "os \<Rightarrow> path list \<Rightarrow> (SubXError, path) io" where
  "first_free_probe os [] fs = (Inl (FileOperationFailed ''Could not resolve filename conflict''), fs)"
| "first_free_probe os (p # ps) fs =
     (case atomic_create_file os p fs of
        (Inr _, fs') \<Rightarrow> (Inr p, snd (remove_file os p fs'))
      | (Inl e, fs') \<Rightarrow>
          if io_kind e = AlreadyExists then first_free_probe os ps fs' else (Inl (Io e), fs'))"

text \<open>The \<open>Prompt\<close> strategy calls the function again on the same target.\<close>

partial_function (option) resolve_filename_conflict ::
    "os \<Rightarrow> ConflictResolution \<Rightarrow> path \<Rightarrow> files \<Rightarrow> ((SubXError + path) \<times> files) option" where
  "resolve_filename_conflict os mode target fs =
     (if fs target = None then Some (Inr target, fs)
      else if mode = Skip then Some (Inr target, fs)
      else if mode = AutoRename then Some (first_free_probe os (target_probes target) fs)
      else resolve_filename_conflict os mode target fs)"

section \<open>Tasks of an operation\<close>

definition unwrap_none :: str where
  "unwrap_none = ''called Option::unwrap() on a None value''"

definition unwrap_err :: str where
  "unwrap_err = ''called Result::unwrap() on an Err value''"

text \<open>The target a task is created for, resolved; \<open>None\<close> when the resolution does not return.\<close>

definition resolved_target ::
    "os \<Rightarrow> MatchConfig \<Rightarrow> path option \<Rightarrow> files \<Rightarrow> (path run \<times> files) option" where
  "resolved_target os cfg target fs =
     (case target of
        None \<Rightarrow> Some (Panics unwrap_none, fs)
      | Some base \<Rightarrow>
          (case resolve_filename_conflict os (conflict_resolution cfg) base fs of
             None \<Rightarrow> None
           | Some (Inl _, fs') \<Rightarrow> Some (Panics unwrap_err, fs')
           | Some (Inr p, fs') \<Rightarrow> Some (Returns p, fs')))"

definition file_task :: "path \<Rightarrow> path \<Rightarrow> ProcessingOperation \<Rightarrow> FileProcessingTask" where
  "file_task src dst op = \<lparr>input_path = src, output_path = Some dst, operation = op\<rparr>"

definition create_copy_task ::
    "os \<Rightarrow> MatchConfig \<Rightarrow> MatchOperation \<Rightarrow> files \<Rightarrow> (FileProcessingTask run \<times> files) option" where
  "create_copy_task os cfg op fs =
     (case resolved_target os cfg (relocation_target_path op) fs of
        None \<Rightarrow> None
      | Some (Panics m, fs') \<Rightarrow> Some (Panics m, fs')
      | Some (Returns p, fs') \<Rightarrow>
          Some (Returns (file_task (op_source op) p (CopyWithRename (op_source op) p)), fs'))"

definition backup_target :: "path \<Rightarrow> str \<Rightarrow> path" where
  "backup_target src ext = with_extension src (ext @ ''.backup'')"

definition create_backup_task :: "path \<Rightarrow> str \<Rightarrow> FileProcessingTask" where
  "create_backup_task src ext =
     file_task src (backup_target src ext) (CreateBackup src (backup_target src ext))"

definition create_rename_task ::
    "os \<Rightarrow> MatchConfig \<Rightarrow> MatchOperation \<Rightarrow> files \<Rightarrow> (FileProcessingTask run \<times> files) option" where
  "create_rename_task os cfg op fs =
     (let old = op_source op in
      if requires_relocation op \<and> relocation_target_path op \<noteq> None
      then (case resolved_target os cfg (relocation_target_path op) fs of
              None \<Rightarrow> None
            | Some (Panics m, fs') \<Rightarrow> Some (Panics m, fs')
            | Some (Returns p, fs') \<Rightarrow> Some (Returns (file_task old p (RenameFile old p)), fs'))
      else (let p = with_file_name old (new_subtitle_name op)
            in Some (Returns (file_task old p (RenameFile old p)), fs)))"

section \<open>One operation\<close>

record engine =
  eng_os :: os
  eng_config :: MatchConfig
  eng_to_json :: "JournalData \<Rightarrow> str"
  eng_journal :: "path option"
  eng_mtime :: "path \<Rightarrow> files \<Rightarrow> nat"
  eng_batch_id :: "MatchOperation list \<Rightarrow> str"
  eng_now :: nat

datatype op_result = OpDone JournalEntry | OpFailed SubXError | OpPanicked str

definition file_metadata :: "engine \<Rightarrow> path \<Rightarrow> files \<Rightarrow> (nat \<times> nat) option" where
  "file_metadata e p fs =
     (case fault (eng_os e) (CallMetadata p) fs of
        Some _ \<Rightarrow> None
      | None \<Rightarrow> map_option (\<lambda>c. (length c, eng_mtime e p fs)) (fs p))"

definition journal_fields :: "MatchOperation \<Rightarrow> ProcessingOperation \<Rightarrow> path \<times> path \<times> JournalOperationType" where
  "journal_fields op task_op =
     (case task_op of
        CopyWithRename s t \<Rightarrow> (s, t, Copied)
      | CopyToVideoFolder s t \<Rightarrow> (s, t, Copied)
      | MoveToVideoFolder s t \<Rightarrow> (s, t, Moved)
      | RenameFile s t \<Rightarrow> (s, t, if relocation_mode op = MoveMode then Moved else Renamed)
      | _ \<Rightarrow>
          (op_source op,
           (case relocation_target_path op of Some p \<Rightarrow> p
            | None \<Rightarrow> with_file_name (op_source op) (new_subtitle_name op)), Renamed))"

definition run_primary :: "engine \<Rightarrow> MatchOperation \<Rightarrow> path option \<Rightarrow> FileProcessingTask \<Rightarrow> files \<Rightarrow> op_result \<times> files" where
  "run_primary e op backup task fs =
     (let (src, dst, kind) = journal_fields op (operation task);
          pre = (case file_metadata e src fs of Some m \<Rightarrow> m | None \<Rightarrow> (0, 0))
      in case task_execute (eng_os e) task fs of
           (Failed err, fs') \<Rightarrow> (OpFailed (FileOperationFailed err), fs')
         | (_, fs') \<Rightarrow>
             (let (size, mtime) = (case file_metadata e dst fs' of Some m \<Rightarrow> m | None \<Rightarrow> pre)
              in (OpDone \<lparr>operation_type = kind, je_source = src, je_destination = dst,
                    je_backup_path = backup, je_status = JournalCompleted, je_file_size = size,
                    je_file_mtime = mtime\<rparr>, fs')))"

text \<open>The backup, wanted when moving with backups enabled: the path recorded, or the failure.\<close>

definition backup_step :: "engine \<Rightarrow> MatchOperation \<Rightarrow> (str, path option) io" where
  "backup_step e op fs =
     (if relocation_mode op = MoveMode \<and> backup_enabled (eng_config e)
      then (let task = create_backup_task (op_source op) (mf_extension (subtitle_file op))
            in case task_execute (eng_os e) task fs of
                 (Failed err, fs') \<Rightarrow> (Inl err, fs')
               | (_, fs') \<Rightarrow> (Inr (output_path task), fs'))
      else (Inr None, fs))"

definition primary_task :: "engine \<Rightarrow> MatchOperation \<Rightarrow> files \<Rightarrow> (FileProcessingTask run \<times> files) option" where
  "primary_task e op =
     (if relocation_mode op = CopyMode then create_copy_task (eng_os e) (eng_config e) op
      else create_rename_task (eng_os e) (eng_config e) op)"

definition execute_one :: "engine \<Rightarrow> MatchOperation \<Rightarrow> files \<Rightarrow> (op_result \<times> files) option" where
  "execute_one e op fs =
     (case backup_step e op fs of
        (Inl err, fs1) \<Rightarrow> Some (OpFailed (FileOperationFailed err), fs1)
      | (Inr backup, fs1) \<Rightarrow>
          (case primary_task e op fs1 of
             None \<Rightarrow> None
           | Some (Panics m, fs2) \<Rightarrow> Some (OpPanicked m, fs2)
           | Some (Returns task, fs2) \<Rightarrow> Some (run_primary e op backup task fs2)))"

section \<open>The loops\<close>

datatype ProgressEvent = Started nat | Advanced nat nat "str option" | Finished nat nat

datatype 'a loop_end = LoopReturns 'a | LoopPanics str

record 'a loop_run =
  loop_end :: "'a loop_end"
  loop_events :: "ProgressEvent list"
  loop_journal :: "JournalEntry list"
  loop_files :: files

definition loop_result :: "'a loop_end \<Rightarrow> ProgressEvent list \<Rightarrow> JournalEntry list \<Rightarrow> files \<Rightarrow> 'a loop_run" where
  "loop_result r evs js fs = \<lparr>loop_end = r, loop_events = evs, loop_journal = js, loop_files = fs\<rparr>"

definition emit :: "ProgressEvent \<Rightarrow> 'a loop_run \<Rightarrow> 'a loop_run" where
  "emit ev r = r\<lparr>loop_events := ev # loop_events r\<rparr>"

definition save_journal :: "engine \<Rightarrow> MatchOperation list \<Rightarrow> JournalEntry list \<Rightarrow> (SubXError, unit) io" where
  "save_journal e ops js =
     (case eng_journal e of
        None \<Rightarrow> return_io ()
      | Some p \<Rightarrow>
          journal_save (eng_os e) (eng_to_json e)
            \<lparr>batch_id = eng_batch_id e ops, created_at = eng_now e, entries = js\<rparr> p)"

text \<open>
  The loop of \<open>execute_operations\<close> over the body and the saving of the journal; \<open>done\<close> counts completed
  operations.
\<close>

fun exec_loop ::
    "(MatchOperation \<Rightarrow> files \<Rightarrow> (op_result \<times> files) option) \<Rightarrow>
     (JournalEntry list \<Rightarrow> (SubXError, unit) io) \<Rightarrow> nat \<Rightarrow> MatchOperation list \<Rightarrow> JournalEntry list \<Rightarrow>
     files \<Rightarrow> unit res loop_run option" where
  "exec_loop one save n_ops [] js fs =
     Some (loop_result (LoopReturns (Inr ())) [Finished (length js) n_ops] js fs)"
| "exec_loop one save n_ops (op # ops) js fs =
     (case one op fs of
        None \<Rightarrow> None
      | Some (OpPanicked m, fs') \<Rightarrow> Some (loop_result (LoopPanics m) [] js fs')
      | Some (OpFailed err, fs') \<Rightarrow>
          Some (loop_result (LoopReturns (Inl err)) [Finished (length js) n_ops] js fs')
      | Some (OpDone entry, fs') \<Rightarrow>
          (case save (js @ [entry]) fs' of
             (Inl err, fs'') \<Rightarrow>
               Some (loop_result (LoopReturns (Inl err)) [Finished (length js) n_ops] (js @ [entry]) fs'')
           | (Inr _, fs'') \<Rightarrow>
               map_option (emit (Advanced (Suc (length js)) n_ops None))
                 (exec_loop one save n_ops ops (js @ [entry]) fs'')))"

definition execute_operations ::
    "engine \<Rightarrow> MatchOperation list \<Rightarrow> bool \<Rightarrow> files \<Rightarrow> unit res loop_run option" where
  "execute_operations e ops dry_run fs =
     (if dry_run then Some (loop_result (LoopReturns (Inr ())) [] [] fs)
      else map_option (emit (Started (length ops)))
        (exec_loop (execute_one e) (save_journal e ops) (length ops) ops [] fs))"

record OperationError =
  err_category :: str
  err_code :: str
  err_message :: str

record OperationOutcome =
  applied :: bool
  op_error :: "OperationError option"

definition operation_error_from :: "SubXError \<Rightarrow> OperationError" where
  "operation_error_from err =
     \<lparr>err_category = category err, err_code = machine_code err, err_message = error_display err\<rparr>"

definition not_applied :: OperationOutcome where
  "not_applied = \<lparr>applied = False, op_error = None\<rparr>"

text \<open>
  The loop of \<open>execute_operations_audit\<close>: the reporter is asked before each operation whether the user
  cancelled, and the outcomes left are then padded.
\<close>

fun audit_loop ::
    "(MatchOperation \<Rightarrow> files \<Rightarrow> (op_result \<times> files) option) \<Rightarrow>
     (JournalEntry list \<Rightarrow> (SubXError, unit) io) \<Rightarrow> (nat \<Rightarrow> bool) \<Rightarrow> nat \<Rightarrow> MatchOperation list \<Rightarrow>
     OperationOutcome list \<Rightarrow> JournalEntry list \<Rightarrow> files \<Rightarrow> OperationOutcome list res loop_run option" where
  "audit_loop one save cancelled n_ops [] outcomes js fs =
     Some (loop_result (LoopReturns (Inr outcomes)) [Finished (length outcomes) n_ops] js fs)"
| "audit_loop one save cancelled n_ops (op # ops) outcomes js fs =
     (let done = length outcomes;
          advanced = emit (Advanced (Suc done) n_ops (Some (mf_name (subtitle_file op))))
      in if cancelled done
         then Some (loop_result (LoopReturns (Inr (outcomes @ replicate (n_ops - done) not_applied)))
                [Finished done n_ops] js fs)
         else
           (case one op fs of
              None \<Rightarrow> None
            | Some (OpPanicked m, fs') \<Rightarrow> Some (loop_result (LoopPanics m) [] js fs')
            | Some (OpFailed err, fs') \<Rightarrow>
                map_option advanced
                  (audit_loop one save cancelled n_ops ops
                     (outcomes @ [\<lparr>applied = False, op_error = Some (operation_error_from err)\<rparr>]) js fs')
            | Some (OpDone entry, fs') \<Rightarrow>
                (case save (js @ [entry]) fs' of
                   (Inl err, fs'') \<Rightarrow>
                     Some (loop_result (LoopReturns (Inl err)) [Finished done n_ops] (js @ [entry]) fs'')
                 | (Inr _, fs'') \<Rightarrow>
                     map_option advanced
                       (audit_loop one save cancelled n_ops ops
                          (outcomes @ [\<lparr>applied = True, op_error = None\<rparr>]) (js @ [entry]) fs''))))"

definition execute_operations_audit ::
    "engine \<Rightarrow> (nat \<Rightarrow> bool) \<Rightarrow> MatchOperation list \<Rightarrow> bool \<Rightarrow> files \<Rightarrow> OperationOutcome list res loop_run option" where
  "execute_operations_audit e cancelled ops dry_run fs =
     (if dry_run
      then Some (loop_result (LoopReturns (Inr (map (\<lambda>_. not_applied) ops))) [] [] fs)
      else map_option (emit (Started (length ops)))
        (audit_loop (execute_one e) (save_journal e ops) cancelled (length ops) ops [] [] fs))"

end
