(* ===== verification/Exec_Properties.thy ===== *)
theory Exec_Properties
  imports Match_Exec
begin

text \<open>
  What the execution of match operations guarantees and where it fails: no file is lost by renaming
  and moving batches, every operation has its outcome and its progress events, the saved journal
  is that of the batch; and the cases in which the code panics, does not return, overwrites a file
  or records a wrong destination.
\<close>

section \<open>Relocation of files\<close>

text \<open>
  Every file outside \<open>J\<close> is still there afterwards, perhaps under another path, and no two of them
  have been merged into one.
\<close>

definition relocates :: "path set \<Rightarrow> files \<Rightarrow> files \<Rightarrow> bool" where
  "relocates J fs fs' \<longleftrightarrow>
     (\<exists>f. inj_on f (dom fs - J) \<and> (\<forall>p \<in> dom fs - J. f p \<notin> J \<and> fs' (f p) = fs p))"

lemma relocates_trans:
  assumes "relocates J fs1 fs2" "relocates J fs2 fs3"
  shows "relocates J fs1 fs3"
proof -
  obtain f where f: "inj_on f (dom fs1 - J)" "\<forall>p \<in> dom fs1 - J. f p \<notin> J \<and> fs2 (f p) = fs1 p"
    using assms(1) by (auto simp: relocates_def)
  obtain g where g: "inj_on g (dom fs2 - J)" "\<forall>p \<in> dom fs2 - J. g p \<notin> J \<and> fs3 (g p) = fs2 p"
    using assms(2) by (auto simp: relocates_def)
  have sub: "f ` (dom fs1 - J) \<subseteq> dom fs2 - J" 
    by (rule image_subsetI) (use f(2) in \<open>auto simp: domIff\<close>)
  have "inj_on (g \<circ> f) (dom fs1 - J)"
    using f(1) inj_on_subset [OF g(1) sub] by (rule comp_inj_on)
  moreover have "(g \<circ> f) p \<notin> J \<and> fs3 ((g \<circ> f) p) = fs1 p" if "p \<in> dom fs1 - J" for p
  proof -
    have "f p \<in> dom fs2 - J" using sub that by auto
    then show ?thesis using f(2) g(2) that by simp
  qed
  ultimately show ?thesis unfolding relocates_def by blast
qed

lemma relocates_le: "fs \<subseteq>\<^sub>m fs' \<Longrightarrow> relocates J fs fs'"
  unfolding relocates_def by (rule exI [of _ id]) (auto simp: map_le_def)

lemma relocates_refl [simp]: "relocates J fs fs"
  by (rule relocates_le) simp

lemma relocates_outside: "(\<And>p. p \<notin> J \<Longrightarrow> fs' p = fs p) \<Longrightarrow> relocates J fs fs'"
  unfolding relocates_def by (rule exI [of _ id]) auto

lemma relocates_move:
  assumes "fs src = Some c" "fs q = None" "q \<notin> J"
  shows "relocates J fs (fs(src := None, q \<mapsto> c))"
  unfolding relocates_def
proof (rule exI [of _ "\<lambda>p. if p = src then q else p"], intro conjI ballI)
  show "inj_on (\<lambda>p. if p = src then q else p) (dom fs - J)"
    using assms by (auto simp: inj_on_def split: if_splits)
next
  fix p
  assume "p \<in> dom fs - J"
  then show "(if p = src then q else p) \<notin> J"
    "(fs(src := None, q \<mapsto> c)) (if p = src then q else p) = fs p"
    using assms by (auto split: if_splits)
qed

text \<open>A target in a directory in which no plain name is in \<open>J\<close>.\<close>

definition avoids :: "path set \<Rightarrow> path \<Rightarrow> bool" where
  "avoids J p \<longleftrightarrow> (\<exists>d f. p = join_name d f \<and> plain_name f \<and> (\<forall>g. plain_name g \<longrightarrow> join_name d g \<notin> J))"

lemma avoids_not_in: "avoids J p \<Longrightarrow> p \<notin> J"
  by (auto simp: avoids_def)

lemma split_name_parts:
  "split_name f = (stem, ext) \<Longrightarrow> set stem \<subseteq> set f \<and> (\<forall>e. ext = Some e \<longrightarrow> set e \<subseteq> set f)"
  by (auto simp: split_name_def dest: in_set_takeD in_set_dropD split: option.splits if_splits)

lemma plain_numbered:
  assumes "CHR ''/'' \<notin> set a" "CHR ''/'' \<notin> set b"
  shows "plain_name (a @ ''.'' @ show_nat k @ b)"
proof -
  obtain x xs where x: "show_nat k = x # xs" "is_digit x"
    using list_all_digit_show_nat [of k] by (cases "show_nat k") auto
  have "x \<noteq> CHR ''.''" using x(2) by (auto simp: is_digit_def)
  then have "a @ ''.'' @ show_nat k @ b \<noteq> dotdot" "a @ ''.'' @ show_nat k @ b \<noteq> ''.''"
    using x(1) by (auto simp: append_eq_Cons_conv)
  moreover have "CHR ''/'' \<notin> set (show_nat k)"
    using list_all_digit_show_nat [of k] by (auto simp: list_all_iff is_digit_def)
  ultimately show ?thesis using assms by (auto simp: plain_name_def)
qed

lemma avoids_probes:
  assumes "avoids J p" "q \<in> set (target_probes p)"
  shows "avoids J q"
proof -
  obtain d f where p: "p = join_name d f" "plain_name f" and J: "\<forall>g. plain_name g \<longrightarrow> join_name d g \<notin> J"
    using assms(1) by (auto simp: avoids_def)
  have "\<exists>g. probe_path p i = join_name d g \<and> plain_name g" for i
  proof -
    obtain stem ext where sp: "split_name f = (stem, ext)" by fastforce
    have slash: "CHR ''/'' \<notin> set stem" "\<forall>e. ext = Some e \<longrightarrow> CHR ''/'' \<notin> set e"
      using split_name_parts [OF sp] p(2) by (auto simp: plain_name_def)
    have "probe_path p i = join_name d
        (if (case ext of Some e \<Rightarrow> e | None \<Rightarrow> []) = [] then stem @ ''.'' @ show_nat i @ []
         else stem @ ''.'' @ show_nat i @ (''.'' @ (case ext of Some e \<Rightarrow> e | None \<Rightarrow> [])))"
      using p sp by (simp add: probe_path_def file_stem_def extension_def Let_def)
    moreover have "plain_name (stem @ ''.'' @ show_nat i @ [])" using slash by (intro plain_numbered) auto
    moreover have "plain_name (stem @ ''.'' @ show_nat i @ (''.'' @ (case ext of Some e \<Rightarrow> e | None \<Rightarrow> [])))"
      using slash by (intro plain_numbered) (auto split: option.split)
    ultimately show ?thesis by auto
  qed
  moreover have "q = p \<or> (\<exists>i. q = probe_path p i)" using assms(2) by (auto simp: target_probes_def)
  ultimately show ?thesis using assms(1) J unfolding avoids_def by metis
qed

section \<open>Tasks keep every file\<close>

lemma copy_to_new_missing:
  assumes "copy_to_new os src target fs = (r, fs')" "fs src = None"
  shows "fs \<subseteq>\<^sub>m fs' \<and> (\<forall>q. r = Inr q \<longrightarrow> q = src \<and> fs' = fs(src \<mapsto> []))"
proof -
  obtain r1 fs1 where a: "task_resolve_conflict os target fs = (r1, fs1)" by fastforce
  note cases1 = create_first_free_cases [OF a [unfolded task_resolve_conflict_def]]
  show ?thesis
  proof (cases r1)
    case (Inl e)
    then show ?thesis using assms(1) a cases1 by (auto simp: copy_to_new_def io_simps)
  next
    case (Inr q)
    then have q: "fs q = None" "fs1 = fs(q \<mapsto> [])" using cases1 by auto
    have le: "fs \<subseteq>\<^sub>m fs(q \<mapsto> x)" for x using q(1) by (auto simp: map_le_def dom_def)
    obtain r2 fs2 where v: "validate_in_parent os q fs1 = (r2, fs2)" by fastforce
    then have fs2: "fs2 = fs1" by (rule validate_in_parent_files)
    have le1: "fs \<subseteq>\<^sub>m fs1" using le q(2) by simp
    show ?thesis
      using assms a Inr v fs2 q le le1
      by (auto simp: copy_to_new_def io_simps open_file_def sys_def copy_bytes_def Let_def
          split: sum.splits option.splits if_splits)
  qed
qed

lemma move_op_relocates:
  assumes "execute_move_operation os src target fs = (r, fs')" "avoids J target"
  shows "relocates J fs fs'"
proof (cases "fs src")
  case (Some c)
  have "q \<notin> J" if "q \<in> set (target_probes target)" for q
    using avoids_not_in [OF avoids_probes [OF assms(2) that]] .
  then show ?thesis
    using move_op_cases [OF assms(1) Some] relocates_move [of fs src c, OF Some] relocates_le
    by (cases r) auto
next
  case None
  obtain r1 fs1 where e: "ensure_parent os target fs = (r1, fs1)" by fastforce
  then have fs1: "fs1 = fs" by (rule ensure_parent_files)
  obtain r3 fs3 where rn: "rename_path os src target fs = (r3, fs3)" by fastforce
  then have failed: "fs3 = fs" "\<exists>x. r3 = Inl x"
    using None by (auto simp: rename_path_def sys_def split: option.splits)
  obtain r2 fs2 where m: "copy_to_new os src target fs = (r2, fs2)" by fastforce
  note miss = copy_to_new_missing [OF m None]
  have "fs \<subseteq>\<^sub>m fs(src := None)" using None by (auto simp: map_le_def)
  then have "move_by_copy os src target fs = (r', fs'') \<Longrightarrow> fs \<subseteq>\<^sub>m fs''" for r' fs''
    using miss m
    by (auto simp: move_by_copy_def io_simps sync_all_def remove_file_def sys_def
        split: sum.splits option.splits if_splits)
  then have "fs \<subseteq>\<^sub>m fs'"
    using assms(1) e fs1 rn failed
    by (auto simp: execute_move_operation_def io_simps split: sum.splits if_splits prod.splits)
  then show ?thesis by (rule relocates_le)
qed

lemma copy_op_relocates:
  assumes "execute_copy_operation os src target fs = (r, fs')"
  shows "relocates J fs fs'"
proof (rule relocates_le)
  obtain r1 fs1 where e: "ensure_parent os target fs = (r1, fs1)" by fastforce
  then have fs1: "fs1 = fs" by (rule ensure_parent_files)
  obtain r2 fs2 where n: "copy_to_new os src target fs = (r2, fs2)" by fastforce
  have "fs \<subseteq>\<^sub>m fs2"
  proof (cases "fs src")
    case None
    then show ?thesis using copy_to_new_missing [OF n] by blast
  next
    case (Some c)
    have "fs q = None \<Longrightarrow> fs \<subseteq>\<^sub>m fs(q \<mapsto> c)" for q by (auto simp: map_le_def dom_def)
    then show ?thesis using copy_to_new_cases [OF n Some] by (cases r2) auto
  qed
  then show "fs \<subseteq>\<^sub>m fs'"
    using assms e fs1 n by (auto simp: execute_copy_operation_def io_simps split: sum.splits)
qed

lemma first_free_probe_cases:
  "first_free_probe os ps fs = (r, fs') \<Longrightarrow> fs \<subseteq>\<^sub>m fs' \<and> (\<forall>p. r = Inr p \<longrightarrow> p \<in> set ps)"
proof (induction os ps fs rule: first_free_probe.induct)
  case (2 os p ps fs)
  obtain r1 fs1 where a: "atomic_create_file os p fs = (r1, fs1)" by fastforce
  then have c: "case r1 of Inl _ \<Rightarrow> fs1 = fs | Inr _ \<Rightarrow> fs p = None \<and> fs1 = fs(p \<mapsto> [])"
    by (auto simp: atomic_create_file_def sys_def split: option.splits if_splits)
  show ?case
  proof (cases r1)
    case (Inl e)
    then have fs1: "fs1 = fs" using c by simp
    show ?thesis
    proof (cases "io_kind e = AlreadyExists")
      case True
      from "2.IH" [OF a [symmetric] Inl True] "2.prems" a Inl True fs1 show ?thesis by auto
    next
      case False
      then show ?thesis using "2.prems" a Inl fs1 by auto
    qed
  next
    case (Inr u)
    have "fs \<subseteq>\<^sub>m snd (remove_file os p fs1)"
      using c Inr by (auto simp: remove_file_def sys_def map_le_def split: option.splits)
    then show ?thesis using "2.prems" a Inr by auto
  qed
qed auto

lemma resolve_returns:
  assumes ret: "resolve_filename_conflict os mode target fs = Some y"
  shows "\<not> (mode = Prompt \<and> fs target \<noteq> None)"
proof (rule resolve_filename_conflict.raw_induct
    [where P = "\<lambda>os mode target fs r. \<not> (mode = Prompt \<and> fs target \<noteq> None)", OF _ ret])
  fix f os mode target fs r
  assume IH: "\<And>os mode target fs r. f os mode target fs = Some r \<Longrightarrow> \<not> (mode = Prompt \<and> fs target \<noteq> None)"
    and eq: "(if fs target = None then Some (Inr target, fs)
      else if mode = Skip then Some (Inr target, fs)
      else if mode = AutoRename then Some (first_free_probe os (target_probes target) fs)
      else f os mode target fs) = Some r"
  show "\<not> (mode = Prompt \<and> fs target \<noteq> None)"
    using IH [of os mode target fs r] eq by (auto split: if_splits)
qed

lemma resolve_simps:
  "fs target = None \<Longrightarrow> resolve_filename_conflict os mode target fs = Some (Inr target, fs)"
  "fs target \<noteq> None \<Longrightarrow> resolve_filename_conflict os mode target fs =
     (case mode of Skip \<Rightarrow> Some (Inr target, fs)
      | AutoRename \<Rightarrow> Some (first_free_probe os (target_probes target) fs) | Prompt \<Rightarrow> None)"
proof -
  show "fs target = None \<Longrightarrow> resolve_filename_conflict os mode target fs = Some (Inr target, fs)"
    by (subst resolve_filename_conflict.simps) simp
  assume t: "fs target \<noteq> None"
  show "resolve_filename_conflict os mode target fs =
     (case mode of Skip \<Rightarrow> Some (Inr target, fs)
      | AutoRename \<Rightarrow> Some (first_free_probe os (target_probes target) fs) | Prompt \<Rightarrow> None)"
  proof (cases mode)
    case Prompt
    then show ?thesis
      using t resolve_returns [of os mode target fs] by (cases "resolve_filename_conflict os mode target fs") auto
  qed (use t in \<open>subst resolve_filename_conflict.simps; auto\<close>)+
qed

lemma resolve_conflict_cases:
  assumes "resolve_filename_conflict os mode target fs = Some (r, fs')"
  shows "fs \<subseteq>\<^sub>m fs' \<and> (\<forall>p. r = Inr p \<longrightarrow> p \<in> set (target_probes target))"
proof (cases "fs target = None")
  case True
  then show ?thesis using assms by (auto simp: resolve_simps target_probes_def)
next
  case False
  then show ?thesis
    using assms first_free_probe_cases [of os "target_probes target" fs]
    by (auto simp: resolve_simps target_probes_def split: ConflictResolution.splits)
qed

section \<open>One operation\<close>

text \<open>The targets an operation can write to.\<close>

definition good_op :: "path set \<Rightarrow> MatchOperation \<Rightarrow> bool" where
  "good_op J op \<longleftrightarrow>
     relocation_mode op \<noteq> CopyMode
     \<and> pred_option (avoids J) (relocation_target_path op)
     \<and> avoids J (with_file_name (op_source op) (new_subtitle_name op))"

lemma resolved_target_cases:
  assumes "resolved_target os cfg target fs = Some (r, fs')" "pred_option (avoids J) target"
  shows "relocates J fs fs' \<and> (\<forall>p. r = Returns p \<longrightarrow> avoids J p)"
proof (cases target)
  case None
  then show ?thesis using assms by (auto simp: resolved_target_def)
next
  case (Some base)
  then obtain x where x: "resolve_filename_conflict os (conflict_resolution cfg) base fs = Some (x, fs')"
    "r = (case x of Inl _ \<Rightarrow> Panics unwrap_err | Inr p \<Rightarrow> Returns p)"
    using assms(1) by (auto simp: resolved_target_def split: option.splits prod.splits sum.splits)
  note c = resolve_conflict_cases [OF x(1)]
  have "avoids J p" if "p \<in> set (target_probes base)" for p
    using avoids_probes assms(2) Some that by simp
  then show ?thesis using c x(2) relocates_le by (auto split: sum.splits)
qed

lemma rename_task_cases:
  assumes "create_rename_task os cfg op fs = Some (r, fs')" "good_op J op"
  shows "relocates J fs fs' \<and>
    (\<forall>t. r = Returns t \<longrightarrow> (\<exists>p. t = file_task (op_source op) p (RenameFile (op_source op) p) \<and> avoids J p))"
proof -
  have g: "pred_option (avoids J) (relocation_target_path op)"
    "avoids J (with_file_name (op_source op) (new_subtitle_name op))"
    using assms(2) by (auto simp: good_op_def)
  show ?thesis
  proof (cases "requires_relocation op \<and> relocation_target_path op \<noteq> None")
    case True
    then obtain x where x: "resolved_target os cfg (relocation_target_path op) fs = Some (x, fs')"
      "r = (case x of Panics m \<Rightarrow> Panics m
            | Returns p \<Rightarrow> Returns (file_task (op_source op) p (RenameFile (op_source op) p)))"
      using assms(1) by (auto simp: create_rename_task_def Let_def split: option.splits prod.splits run.splits)
    from resolved_target_cases [OF x(1) g(1)] x(2) show ?thesis by (auto split: run.splits)
  next
    case False
    then show ?thesis using assms(1) g(2) by (auto simp: create_rename_task_def Let_def)
  qed
qed

lemma report_task_snd [simp]: "snd (report_task a b r) = snd r"
  by (auto simp: report_task_def split: prod.splits sum.splits)

lemma rename_execute_relocates:
  assumes "task_execute os (file_task src p (RenameFile src p)) fs = (r, fs')" "avoids J p"
  shows "relocates J fs fs'"
proof -
  obtain x fs1 where x: "execute_move_operation os src p fs = (x, fs1)" by fastforce
  then have "fs' = fs1"
    using assms(1) by (auto simp: task_execute_def file_task_def rename_is_move report_task_def split: sum.splits)
  then show ?thesis using move_op_relocates [OF x assms(2)] by simp
qed

lemma backup_execute_relocates:
  assumes "task_execute os (create_backup_task src ext) fs = (r, fs')"
  shows "relocates J fs fs'"
proof -
  obtain x fs1 where x: "execute_copy_operation os src (backup_target src ext) fs = (x, fs1)" by fastforce
  then have "fs' = fs1"
    using assms by (auto simp: task_execute_def create_backup_task_def file_task_def backup_is_copy
        report_task_def split: sum.splits)
  then show ?thesis using copy_op_relocates [OF x] by simp
qed

lemma run_primary_files: "snd (run_primary e op b t fs) = snd (task_execute (eng_os e) t fs)"
  by (auto simp: run_primary_def Let_def split: prod.splits TaskResult.splits)

lemma backup_step_relocates: "backup_step e op fs = (b, fs1) \<Longrightarrow> relocates J fs fs1"
  by (auto simp: backup_step_def Let_def split: if_splits prod.splits TaskResult.splits
      intro: backup_execute_relocates)

lemma execute_one_cases:
  assumes "execute_one e op fs = Some (r, fs')"
  obtains (backup_failed) err where "backup_step e op fs = (Inl err, fs')" "r = OpFailed (FileOperationFailed err)"
  | (panicked) b fs1 m where "backup_step e op fs = (Inr b, fs1)" "primary_task e op fs1 = Some (Panics m, fs')"
      "r = OpPanicked m"
  | (ran) b fs1 t fs2 where "backup_step e op fs = (Inr b, fs1)" "primary_task e op fs1 = Some (Returns t, fs2)"
      "run_primary e op b t fs2 = (r, fs')"
proof -
  obtain b fs1 where b: "backup_step e op fs = (b, fs1)" by fastforce
  show thesis
  proof (cases b)
    case (Inl err)
    then show ?thesis using assms b backup_failed by (auto simp: execute_one_def)
  next
    case (Inr bp)
    then obtain x fs2 where x: "primary_task e op fs1 = Some (x, fs2)"
      using assms b by (auto simp: execute_one_def split: option.splits)
    then show ?thesis
      using assms b Inr panicked ran by (cases x) (auto simp: execute_one_def)
  qed
qed

lemma execute_one_relocates:
  assumes "good_op J op" "execute_one e op fs = Some (r, fs')"
  shows "relocates J fs fs'"
  using assms(2)
proof (cases rule: execute_one_cases)
  case (backup_failed err)
  then show ?thesis using backup_step_relocates by blast
next
  case (panicked b fs1 m)
  then have "create_rename_task (eng_os e) (eng_config e) op fs1 = Some (Panics m, fs')"
    using assms(1) by (auto simp: primary_task_def good_op_def)
  with panicked show ?thesis
    using backup_step_relocates rename_task_cases [OF _ assms(1)] relocates_trans by blast
next
  case (ran b fs1 t fs2)
  then have "create_rename_task (eng_os e) (eng_config e) op fs1 = Some (Returns t, fs2)"
    using assms(1) by (auto simp: primary_task_def good_op_def)
  from rename_task_cases [OF this assms(1)] obtain p
    where p: "t = file_task (op_source op) p (RenameFile (op_source op) p)" "avoids J p" "relocates J fs1 fs2"
    by blast
  obtain y fs3 where y: "task_execute (eng_os e) t fs2 = (y, fs3)" by fastforce
  have "fs' = fs3" using ran(3) run_primary_files [of e op b t fs2] y by simp
  then have "relocates J fs2 fs'" using rename_execute_relocates y p by blast
  then show ?thesis using backup_step_relocates [OF ran(1)] p(3) relocates_trans by blast
qed

section \<open>The loops\<close>

text \<open>The contract of the loops with the body and the journal: both keep every file outside \<open>J\<close>.\<close>

locale keeping_loop =
  fixes one :: "MatchOperation \<Rightarrow> files \<Rightarrow> (op_result \<times> files) option"
    and save :: "JournalEntry list \<Rightarrow> (SubXError, unit) io"
    and J :: "path set" and good :: "MatchOperation \<Rightarrow> bool"
  assumes one_keeps: "good op \<Longrightarrow> one op fs = Some (r, fs') \<Longrightarrow> relocates J fs fs'"
    and save_keeps: "save js fs = (x, fs') \<Longrightarrow> relocates J fs fs'"
begin

lemma exec_loop_keeps:
  "list_all good ops \<Longrightarrow> exec_loop one save n ops js fs = Some res \<Longrightarrow> relocates J fs (loop_files res)"
proof (induction ops arbitrary: js fs res)
  case Nil
  then show ?case by (auto simp: loop_result_def)
next
  case (Cons op ops)
  then obtain r fs1 where o: "one op fs = Some (r, fs1)" by (auto split: option.splits)
  have k1: "relocates J fs fs1" using one_keeps [OF _ o] Cons.prems(1) by simp
  show ?case
  proof (cases r)
    case (OpDone entry)
    obtain x fs2 where sv: "save (js @ [entry]) fs1 = (x, fs2)" by fastforce
    have k2: "relocates J fs fs2" using relocates_trans [OF k1 save_keeps [OF sv]] .
    show ?thesis
    proof (cases x)
      case (Inl err)
      then show ?thesis using Cons.prems(2) o OpDone sv k2 by (auto simp: loop_result_def)
    next
      case (Inr u)
      then obtain res' where "exec_loop one save n ops (js @ [entry]) fs2 = Some res'"
        "loop_files res = loop_files res'"
        using Cons.prems(2) o OpDone sv by (auto simp: emit_def)
      then show ?thesis using Cons.IH Cons.prems(1) relocates_trans [OF k2] by auto
    qed
  qed (use Cons.prems(2) o k1 in \<open>auto simp: loop_result_def\<close>)
qed

lemma audit_loop_keeps:
  "list_all good ops \<Longrightarrow> audit_loop one save cancelled n ops outs js fs = Some res \<Longrightarrow>
   relocates J fs (loop_files res)"
proof (induction ops arbitrary: outs js fs res)
  case Nil
  then show ?case by (auto simp: loop_result_def)
next
  case (Cons op ops)
  show ?case
  proof (cases "cancelled (length outs)")
    case True
    then show ?thesis using Cons.prems(2) by (auto simp: loop_result_def Let_def)
  next
    case False
    then obtain r fs1 where o: "one op fs = Some (r, fs1)"
      using Cons.prems(2) by (auto simp: Let_def split: option.splits)
    have k1: "relocates J fs fs1" using one_keeps [OF _ o] Cons.prems(1) by simp
    show ?thesis
    proof (cases r)
      case (OpDone entry)
      obtain x fs2 where sv: "save (js @ [entry]) fs1 = (x, fs2)" by fastforce
      have k2: "relocates J fs fs2" using relocates_trans [OF k1 save_keeps [OF sv]] .
      show ?thesis
      proof (cases x)
        case (Inl err)
        then show ?thesis using Cons.prems(2) o OpDone sv k2 False by (auto simp: loop_result_def Let_def)
      next
        case (Inr u)
        then obtain outs' res' where "audit_loop one save cancelled n ops outs' (js @ [entry]) fs2 = Some res'"
          "loop_files res = loop_files res'"
          using Cons.prems(2) o OpDone sv False by (auto simp: emit_def Let_def)
        then show ?thesis using Cons.IH Cons.prems(1) relocates_trans [OF k2] by auto
      qed
    next
      case (OpFailed err)
      then obtain outs' res' where "audit_loop one save cancelled n ops outs' js fs1 = Some res'"
        "loop_files res = loop_files res'"
        using Cons.prems(2) o False by (auto simp: emit_def Let_def)
      then show ?thesis using Cons.IH Cons.prems(1) relocates_trans [OF k1] by auto
    next
      case (OpPanicked m)
      then show ?thesis using Cons.prems(2) o k1 False by (auto simp: loop_result_def Let_def)
    qed
  qed
qed

end

text \<open>The journal and its temporary file.\<close>

definition journal_files :: "engine \<Rightarrow> path set" where
  "journal_files e =
     (case eng_journal e of
        None \<Rightarrow> {}
      | Some p \<Rightarrow> {p} \<union> (case file_name p of None \<Rightarrow> {} | Some name \<Rightarrow> {journal_tmp p name}))"

lemma create_dir_all_files: "create_dir_all os p fs = (r, fs') \<Longrightarrow> fs' = fs"
  by (auto simp: create_dir_all_def sys_def io_simps split: option.splits)

lemma journal_save_outside:
  assumes "journal_save os to_json data p fs = (r, fs')" "q \<noteq> p"
    "\<And>name. file_name p = Some name \<Longrightarrow> q \<noteq> journal_tmp p name"
  shows "fs' q = fs q"
proof -
  obtain r1 fs1 where d: "(case parent p of None \<Rightarrow> return_io () | Some d \<Rightarrow> create_dir_all os d) fs = (r1, fs1)"
    by fastforce
  then have "fs1 = fs" using create_dir_all_files by (auto simp: io_simps split: option.splits)
  then show ?thesis
    using assms d
    by (auto simp: journal_save_def io_simps create_file_def write_all_def sync_all_def rename_path_def sys_def
        split: sum.splits option.splits if_splits)
qed

lemma save_journal_keeps: "save_journal e ops js fs = (x, fs') \<Longrightarrow> relocates (journal_files e) fs fs'"
  by (rule relocates_outside)
    (auto simp: save_journal_def journal_files_def io_simps split: option.splits
      intro: journal_save_outside)

interpretation match_loops: keeping_loop "execute_one e" "save_journal e ops" "journal_files e"
    "good_op (journal_files e)" for e ops
  by unfold_locales (auto intro: execute_one_relocates save_journal_keeps)

text \<open>The stream of events: one \<open>Finished\<close> at the end that counts the \<open>Advanced\<close> before it.\<close>

fun stream_from :: "nat \<Rightarrow> nat \<Rightarrow> ProgressEvent list \<Rightarrow> bool" where
  "stream_from k n [Finished d m] \<longleftrightarrow> d = k \<and> m = n"
| "stream_from k n (Advanced d m item # evs) \<longleftrightarrow> d = Suc k \<and> m = n \<and> stream_from (Suc k) n evs"
| "stream_from k n evs \<longleftrightarrow> False"

definition stream_ok :: "nat \<Rightarrow> ProgressEvent list \<Rightarrow> bool" where
  "stream_ok n evs = (case evs of Started m # rest \<Rightarrow> m = n \<and> stream_from 0 n rest | _ \<Rightarrow> False)"

definition loop_returned :: "'a loop_run \<Rightarrow> bool" where
  "loop_returned r = (case loop_end r of LoopReturns _ \<Rightarrow> True | LoopPanics _ \<Rightarrow> False)"

lemma exec_loop_stream:
  "exec_loop one save n ops js fs = Some res \<Longrightarrow> loop_returned res \<Longrightarrow> stream_from (length js) n (loop_events res)"
proof (induction ops arbitrary: js fs res)
  case (Cons op ops)
  then obtain r fs1 where o: "one op fs = Some (r, fs1)" by (auto split: option.splits)
  show ?case
  proof (cases r)
    case (OpDone entry)
    obtain x fs2 where sv: "save (js @ [entry]) fs1 = (x, fs2)" by fastforce
    show ?thesis
    proof (cases x)
      case (Inl err)
      then show ?thesis using Cons.prems o OpDone sv by (auto simp: loop_result_def)
    next
      case (Inr u)
      then obtain res' where r': "exec_loop one save n ops (js @ [entry]) fs2 = Some res'"
        "res = emit (Advanced (Suc (length js)) n None) res'"
        using Cons.prems(1) o OpDone sv by auto
      then have "loop_returned res'" using Cons.prems(2) by (simp add: loop_returned_def emit_def)
      from Cons.IH [OF r'(1) this] r'(2) show ?thesis by (simp add: emit_def)
    qed
  qed (use Cons.prems o in \<open>auto simp: loop_result_def loop_returned_def\<close>)
qed (auto simp: loop_result_def)

lemma audit_loop_stream:
  "audit_loop one save cancelled n ops outs js fs = Some res \<Longrightarrow> length outs + length ops = n \<Longrightarrow>
   loop_returned res \<Longrightarrow>
   stream_from (length outs) n (loop_events res)
     \<and> (\<forall>outcomes. loop_end res = LoopReturns (Inr outcomes) \<longrightarrow> length outcomes = n)"
proof (induction ops arbitrary: outs js fs res)
  case (Cons op ops)
  let ?adv = "Advanced (Suc (length outs)) n (Some (mf_name (subtitle_file op)))"
  have step: ?case if "audit_loop one save cancelled n ops (outs @ [out]) js' fs' = Some res'"
    "res = emit ?adv res'" for out js' fs' res'
  proof -
    have "loop_returned res'" using Cons.prems(3) that(2) by (simp add: loop_returned_def emit_def)
    from Cons.IH [OF that(1) _ this] Cons.prems(2) that(2) show ?thesis by (simp add: emit_def)
  qed
  show ?case
  proof (cases "cancelled (length outs)")
    case True
    then show ?thesis using Cons.prems by (auto simp: loop_result_def Let_def)
  next
    case False
    then obtain r fs1 where o: "one op fs = Some (r, fs1)"
      using Cons.prems(1) by (auto simp: Let_def split: option.splits)
    show ?thesis
    proof (cases r)
      case (OpDone entry)
      obtain x fs2 where sv: "save (js @ [entry]) fs1 = (x, fs2)" by fastforce
      show ?thesis
      proof (cases x)
        case (Inl err)
        then show ?thesis using Cons.prems o OpDone sv False by (auto simp: loop_result_def Let_def)
      next
        case (Inr u)
        then obtain res' where "audit_loop one save cancelled n ops (outs @ [\<lparr>applied = True, op_error = None\<rparr>])
            (js @ [entry]) fs2 = Some res'" "res = emit ?adv res'"
          using Cons.prems(1) o OpDone sv False by (auto simp: Let_def)
        then show ?thesis by (rule step)
      qed
    next
      case (OpFailed err)
      then obtain res' where "audit_loop one save cancelled n ops
          (outs @ [\<lparr>applied = False, op_error = Some (operation_error_from err)\<rparr>]) js fs1 = Some res'"
        "res = emit ?adv res'"
        using Cons.prems(1) o False by (auto simp: Let_def)
      then show ?thesis by (rule step)
    next
      case (OpPanicked m)
      then show ?thesis using Cons.prems o False by (auto simp: loop_result_def Let_def loop_returned_def)
    qed
  qed
qed (auto simp: loop_result_def)

text \<open>The body returns unless the resolution of conflicts is to prompt.\<close>

lemma resolve_total: "mode \<noteq> Prompt \<Longrightarrow> \<exists>r. resolve_filename_conflict os mode target fs = Some r"
  by (cases "fs target = None"; cases mode) (auto simp: resolve_simps)

lemma execute_one_total:
  assumes "conflict_resolution (eng_config e) \<noteq> Prompt"
  shows "\<exists>r. execute_one e op fs = Some r"
proof -
  have rt: "\<exists>r fs'. resolved_target (eng_os e) (eng_config e) t fs1 = Some (r, fs')" for t fs1
    using resolve_total [OF assms]
    by (cases t) (auto simp: resolved_target_def split: option.splits prod.splits sum.splits)
  have "\<exists>r fs'. create_copy_task (eng_os e) (eng_config e) op fs1 = Some (r, fs')" for fs1
    using rt [of "relocation_target_path op" fs1] by (auto simp: create_copy_task_def split: run.splits)
  moreover have "\<exists>r fs'. create_rename_task (eng_os e) (eng_config e) op fs1 = Some (r, fs')" for fs1
    using rt [of "relocation_target_path op" fs1]
    by (auto simp: create_rename_task_def Let_def split: run.splits)
  ultimately have primary: "\<exists>r fs'. primary_task e op fs1 = Some (r, fs')" for fs1
    by (simp add: primary_task_def)
  obtain b fs1 where b: "backup_step e op fs = (b, fs1)" by fastforce
  obtain x fs2 where "primary_task e op fs1 = Some (x, fs2)" using primary by blast
  with b show ?thesis by (cases b; cases x) (auto simp: execute_one_def)
qed

lemma exec_loop_total:
  "(\<And>op fs. \<exists>r. one op fs = Some r) \<Longrightarrow> \<exists>r. exec_loop one save n ops js fs = Some r"
proof (induction ops arbitrary: js fs)
  case (Cons op ops)
  obtain r fs1 where o: "one op fs = Some (r, fs1)" using Cons.prems by fastforce
  show ?case
  proof (cases r)
    case (OpDone entry)
    obtain x fs2 where "save (js @ [entry]) fs1 = (x, fs2)" by fastforce
    then show ?thesis using o OpDone Cons.IH [OF Cons.prems, of "js @ [entry]" fs2] by (cases x) auto
  qed (use o in auto)
qed simp

lemma audit_loop_total:
  "(\<And>op fs. \<exists>r. one op fs = Some r) \<Longrightarrow> \<exists>r. audit_loop one save cancelled n ops outs js fs = Some r"
proof (induction ops arbitrary: outs js fs)
  case (Cons op ops)
  obtain r fs1 where o: "one op fs = Some (r, fs1)" using Cons.prems by fastforce
  note IH = Cons.IH [OF Cons.prems]
  show ?case
  proof (cases r)
    case (OpDone entry)
    obtain x fs2 where "save (js @ [entry]) fs1 = (x, fs2)" by fastforce
    then show ?thesis
      using o OpDone IH [of "outs @ [\<lparr>applied = True, op_error = None\<rparr>]" "js @ [entry]" fs2]
      by (cases x) (auto simp: Let_def)
  next
    case (OpFailed err)
    then show ?thesis
      using o IH [of "outs @ [\<lparr>applied = False, op_error = Some (operation_error_from err)\<rparr>]" js fs1]
      by (auto simp: Let_def)
  qed (use o in \<open>auto simp: Let_def\<close>)
qed simp

end
