(* ===== verification/Match_Safety.thy ===== *)
theory Match_Safety
  imports Exec_Properties
begin

text \<open>
  The properties of the execution of match operations: safety of batches, outcomes and events, the
  saved journal, termination, and the cases in which the code panics, does not return, overwrites
  a file or records a wrong destination.
\<close>

section \<open>The journal of a batch\<close>

lemma create_tasks_shape:
  assumes "primary_task e op fs = Some (Returns t, fs')"
  shows "\<exists>p. operation t = CopyWithRename (op_source op) p \<or> operation t = RenameFile (op_source op) p"
  using assms
  by (auto simp: primary_task_def create_copy_task_def create_rename_task_def Let_def file_task_def
      split: if_splits option.splits run.splits)

lemma done_entry:
  assumes "execute_one e op fs = Some (OpDone entry, fs')"
  shows "je_source entry = op_source op \<and> je_status entry = JournalCompleted"
  using assms
proof (cases rule: execute_one_cases)
  case (ran b fs1 t fs2)
  obtain p where "operation t = CopyWithRename (op_source op) p \<or> operation t = RenameFile (op_source op) p"
    using create_tasks_shape [OF ran(2)] by blast
  then show ?thesis
    using ran(3) by (auto simp: run_primary_def journal_fields_def Let_def split: prod.splits TaskResult.splits)
qed auto

lemma exec_loop_journal:
  assumes "exec_loop (execute_one e) save n ops js fs = Some res" "loop_end res = LoopReturns (Inr ())"
  shows "\<exists>es. loop_journal res = js @ es \<and> map je_source es = map op_source ops
    \<and> list_all (\<lambda>x. je_status x = JournalCompleted) es
    \<and> (ops \<noteq> [] \<longrightarrow> (\<exists>fs1. save (js @ es) fs1 = (Inr (), loop_files res)))"
  using assms
proof (induction ops arbitrary: js fs res)
  case (Cons op ops)
  then obtain r fs1 where o: "execute_one e op fs = Some (r, fs1)" by (auto split: option.splits)
  obtain entry where d: "r = OpDone entry"
    using Cons.prems o by (cases r) (auto simp: loop_result_def)
  obtain x fs2 where sv: "save (js @ [entry]) fs1 = (x, fs2)" by fastforce
  obtain u where u: "x = Inr u" using Cons.prems o d sv by (cases x) (auto simp: loop_result_def)
  obtain res' where r': "exec_loop (execute_one e) save n ops (js @ [entry]) fs2 = Some res'"
    "res = emit (Advanced (Suc (length js)) n None) res'"
    using Cons.prems(1) o d sv u by auto
  then have same: "loop_journal res = loop_journal res'" "loop_files res = loop_files res'"
    "loop_end res' = LoopReturns (Inr ())" using Cons.prems(2) by (simp_all add: emit_def)
  from Cons.IH [OF r'(1) same(3)] obtain es where es: "loop_journal res' = (js @ [entry]) @ es"
    "map je_source es = map op_source ops" "list_all (\<lambda>x. je_status x = JournalCompleted) es"
    "ops \<noteq> [] \<longrightarrow> (\<exists>fs1. save ((js @ [entry]) @ es) fs1 = (Inr (), loop_files res'))" by blast
  have "\<exists>fs1. save (js @ entry # es) fs1 = (Inr (), loop_files res)"
  proof (cases "ops = []")
    case True
    then have "es = []" "loop_files res = fs2" using es(2) r' by (auto simp: emit_def loop_result_def)
    then show ?thesis using sv u by auto
  next
    case False
    then show ?thesis using es(4) same(2) by auto
  qed
  then show ?case
    using es done_entry [OF o [unfolded d]] same(1) by (intro exI [of _ "entry # es"]) auto
qed (auto simp: loop_result_def)

lemma journal_save_content:
  assumes "journal_save os to_json data p fs = (Inr u, fs')" "file_name p = Some name"
  shows "fs' p = Some (to_json data)"
proof -
  have p: "comps p \<noteq> []" using assms(2) by (auto simp: file_name_def split: if_splits)
  obtain r1 fs1 where d: "(case parent p of None \<Rightarrow> return_io () | Some d \<Rightarrow> create_dir_all os d) fs = (r1, fs1)"
    by fastforce
  then have "fs1 = fs" using create_dir_all_files by (auto simp: io_simps split: option.splits)
  then show ?thesis
    using assms d
    by (auto simp: journal_save_def io_simps create_file_def write_all_def sync_all_def rename_path_def sys_def
        split: sum.splits option.splits if_splits)
qed

section \<open>Properties that hold\<close>

definition demo_engine :: "FileRelocationMode \<Rightarrow> ConflictResolution \<Rightarrow> engine" where
  "demo_engine mode resolution =
     \<lparr>eng_os = good_os, eng_config = demo_config mode resolution, eng_to_json = (\<lambda>d. show_nat (length (entries d))),
      eng_journal = Some (path_of ''/cfg/j''), eng_mtime = (\<lambda>_ _. 0), eng_batch_id = (\<lambda>_. []), eng_now = 0\<rparr>"

text \<open>
  C1.  Renaming and moving a batch loses nothing, whichever system calls fail and wherever the loop stops
  or panics: every file that was there, the journal apart, is there afterwards with its content,
  and no two of them have become one.  Both loops guarantee it, for operations whose targets are
  not in the directory of the journal.
\<close>

theorem batch_loses_nothing:
  assumes "list_all (good_op (journal_files e)) ops"
  shows "pred_option (\<lambda>r. relocates (journal_files e) fs (loop_files r)) (execute_operations e ops dry_run fs)
    \<and> pred_option (\<lambda>r. relocates (journal_files e) fs (loop_files r))
        (execute_operations_audit e cancelled ops dry_run fs)"
proof -
  have "relocates (journal_files e) fs (loop_files r)"
    if "exec_loop (execute_one e) (save_journal e ops) n ops [] fs = Some r" for n r
    using match_loops.exec_loop_keeps [OF assms that] .
  moreover have "relocates (journal_files e) fs (loop_files r)"
    if "audit_loop (execute_one e) (save_journal e ops) cancelled n ops [] [] fs = Some r" for n r
    using match_loops.audit_loop_keeps [OF assms that] .
  ultimately show ?thesis
    by (auto simp: execute_operations_def execute_operations_audit_def loop_result_def emit_def
        pred_option_def)
qed

lemma demo_good: "good_op (journal_files (demo_engine NoRelocation AutoRename)) (demo_op ''a.srt'' ''m.srt'')"
proof -
  have j: "journal_files (demo_engine NoRelocation AutoRename)
      = {\<lparr>absolute = True, comps = [''cfg'', ''j'']\<rparr>, \<lparr>absolute = True, comps = [''cfg'', ''.j.tmp'']\<rparr>}"
  proof -
    have "path_of ''/cfg/j'' = \<lparr>absolute = True, comps = [''cfg'', ''j'']\<rparr>" by code_simp
    moreover have "file_name (path_of ''/cfg/j'') = Some ''j''" by code_simp
    moreover have "journal_tmp (path_of ''/cfg/j'') ''j'' = \<lparr>absolute = True, comps = [''cfg'', ''.j.tmp'']\<rparr>" by code_simp
    ultimately show ?thesis by (auto simp: journal_files_def demo_engine_def)
  qed
  have "with_file_name (op_source (demo_op ''a.srt'' ''m.srt'')) ''m.srt'' = join_name (path_of ''/media'') ''m.srt''"
    by code_simp
  moreover have "plain_name ''m.srt''" by (simp add: plain_name_def)
  moreover have "join_name (path_of ''/media'') g \<notin> journal_files (demo_engine NoRelocation AutoRename)"
    if "plain_name g" for g
  proof -
    have "comps (path_of ''/media'') = [''media'']" by code_simp
    then have "comps (join_name (path_of ''/media'') g) = [''media'', g]" using that by simp
    then show ?thesis unfolding j by auto
  qed
  ultimately have "avoids (journal_files (demo_engine NoRelocation AutoRename))
      (with_file_name (op_source (demo_op ''a.srt'' ''m.srt'')) (new_subtitle_name (demo_op ''a.srt'' ''m.srt'')))"
    unfolding avoids_def by (auto simp: demo_op_def)
  then show ?thesis by (simp add: good_op_def demo_op_def)
qed

lemma batch_loses_nothing_witness:
  "pred_option (\<lambda>r. relocates (journal_files (demo_engine NoRelocation AutoRename)) demo_files (loop_files r))
     (execute_operations (demo_engine NoRelocation AutoRename) [demo_op ''a.srt'' ''m.srt''] False demo_files)"
proof -
  have "list_all (good_op (journal_files (demo_engine NoRelocation AutoRename))) [demo_op ''a.srt'' ''m.srt'']"
    using demo_good by simp
  from batch_loses_nothing [OF this] show ?thesis by blast
qed

text \<open>
  C10.  When the audit returns outcomes there is exactly one for every operation, also after a
  cancellation, and whenever a loop returns its events are one \<open>Started\<close>, then one \<open>Advanced\<close> for each
  unit in order, then one \<open>Finished\<close> that counts them; a dry run changes no file.
\<close>

theorem outcomes_and_events:
  "pred_option (\<lambda>r. if loop_returned r then stream_ok (length ops) (loop_events r) else True)
     (execute_operations e ops False fs)
   \<and> pred_option (\<lambda>r. (if loop_returned r then stream_ok (length ops) (loop_events r) else True)
        \<and> (case loop_end r of LoopReturns (Inr outcomes) \<Rightarrow> length outcomes = length ops | _ \<Rightarrow> True))
     (execute_operations_audit e cancelled ops False fs)
   \<and> map_option (\<lambda>r. (loop_files r, loop_events r, loop_journal r)) (execute_operations e ops True fs)
       = Some (fs, [], [])
   \<and> map_option (\<lambda>r. (loop_end r, loop_files r, loop_events r)) (execute_operations_audit e cancelled ops True fs)
       = Some (LoopReturns (Inr (map (\<lambda>_. not_applied) ops)), fs, [])"
proof -
  have ret: "loop_returned (emit ev r) = loop_returned r" "loop_end (emit ev r) = loop_end r" for ev and r :: "'a loop_run"
    by (simp_all add: loop_returned_def emit_def)
  have audit: "case loop_end r of LoopReturns (Inr outcomes) \<Rightarrow> length outcomes = length ops | _ \<Rightarrow> True"
    if "audit_loop (execute_one e) (save_journal e ops) cancelled (length ops) ops [] [] fs = Some r" for r
    using audit_loop_stream [OF that] by (auto simp: loop_returned_def split: loop_end.splits sum.splits)
  show ?thesis
    using exec_loop_stream [of "execute_one e" "save_journal e ops" "length ops" ops "[]" fs]
      audit_loop_stream [of "execute_one e" "save_journal e ops" cancelled "length ops" ops "[]" "[]" fs] audit
    by (auto simp: execute_operations_def execute_operations_audit_def loop_result_def ret pred_option_def
        emit_def loop_returned_def stream_ok_def)
qed





section \<open>Where the code fails\<close>

text \<open>
   In copy mode an operation that the planner makes for a subtitle in the directory of its video
  panics: the planner leaves the relocation path empty there, and the copy task unwraps it.
\<close>

theorem copy_beside_video_panics:
  assumes "planned cfg videos subtitles op" "cfg_relocation_mode cfg = CopyMode"
    and "parent (op_source op) = parent (mf_path (video_file op))"
  shows "execute_operations e (op # ops) False fs
    = Some (loop_result (LoopPanics unwrap_none) [Started (Suc (length ops))] [] fs)"
proof -
  have "relocation_mode op = CopyMode" "relocation_target_path op = None"
    using assms by (auto simp: planned_def)
  then have "execute_one e op fs = Some (OpPanicked unwrap_none, fs)"
    by (simp add: execute_one_def backup_step_def primary_task_def create_copy_task_def resolved_target_def)
  then show ?thesis by (simp add: execute_operations_def emit_def loop_result_def)
qed

lemma copy_beside_video_panics_witness:
  "execute_operations (demo_engine CopyMode AutoRename) [demo_planned_op] False demo_disk
     = Some (loop_result (LoopPanics unwrap_none) [Started 1] [] demo_disk)"
proof -
  have p: "planned (demo_config CopyMode AutoRename) [video_file demo_planned_op] [subtitle_file demo_planned_op]
      demo_planned_op" by code_simp
  have same: "parent (op_source demo_planned_op) = parent (mf_path (video_file demo_planned_op))" by code_simp
  have "cfg_relocation_mode (demo_config CopyMode AutoRename) = CopyMode" by (simp add: demo_config_def)
  from copy_beside_video_panics [OF p this same] show ?thesis by simp
qed

text \<open>
   With conflicts to be skipped, a copy onto an existing file is not skipped but overwrites it: the
  resolution returns the existing target and the copy truncates it.
\<close>

theorem skip_overwrites_existing:
  assumes "eng_os e = good_os" "conflict_resolution (eng_config e) = Skip" "eng_journal e = None"
    and "relocation_mode op = CopyMode" "relocation_target_path op = Some t"
    and "fs (op_source op) = Some new" "fs t = Some old" "op_source op \<noteq> t"
  shows "map_option (\<lambda>r. (loop_end r, loop_files r)) (execute_operations e [op] False fs)
    = Some (LoopReturns (Inr ()), fs(t \<mapsto> new))"
proof -
  have "resolve_filename_conflict (eng_os e) Skip t fs = Some (Inr t, fs)"
    using assms(7) by (simp add: resolve_simps)
  then have prim: "primary_task e op fs = Some (Returns (file_task (op_source op) t (CopyWithRename (op_source op) t)), fs)"
    using assms(2,4,5) by (simp add: primary_task_def create_copy_task_def resolved_target_def)
  have "execute_copy_with_rename_operation good_os (op_source op) t fs = (Inr (), fs(t \<mapsto> new))"
    using assms(6,8)
    by (simp add: execute_copy_with_rename_operation_def io_simps good_os_ensure copy_file_cifs_safe_def
        create_file_def good_os_calls)
  then have "task_execute good_os (file_task (op_source op) t (CopyWithRename (op_source op) t)) fs
      = (Success (''Copied: '' @ arrow_text (op_source op) t), fs(t \<mapsto> new))"
    by (simp add: task_execute_def file_task_def report_task_def)
  then have "\<exists>entry. execute_one e op fs = Some (OpDone entry, fs(t \<mapsto> new))"
    using assms(1,4) prim
    by (auto simp: execute_one_def backup_step_def run_primary_def Let_def split: prod.split)
  then show ?thesis
    using assms(3) by (auto simp: execute_operations_def save_journal_def io_simps emit_def loop_result_def)
qed

definition copy_op :: MatchOperation where
  "copy_op = (demo_op ''a.srt'' ''m.srt'')
     \<lparr>relocation_mode := CopyMode, relocation_target_path := Some (path_of ''/video/m.srt''),
      requires_relocation := True\<rparr>"

lemma skip_overwrites_existing_witness:
  "map_option (\<lambda>r. loop_files r (path_of ''/video/m.srt''))
     (execute_operations ((demo_engine CopyMode Skip)\<lparr>eng_journal := None\<rparr>) [copy_op] False
        (demo_files(path_of ''/video/m.srt'' \<mapsto> ''precious''))) = Some (Some ''cue'')"
proof -
  have ne: "path_of ''/video/m.srt'' \<noteq> demo_path ''a.srt''" by code_simp
  have "map_option (\<lambda>r. (loop_end r, loop_files r))
      (execute_operations ((demo_engine CopyMode Skip)\<lparr>eng_journal := None\<rparr>) [copy_op] False
        (demo_files(path_of ''/video/m.srt'' \<mapsto> ''precious'')))
    = Some (LoopReturns (Inr ()), (demo_files(path_of ''/video/m.srt'' \<mapsto> ''precious''))(path_of ''/video/m.srt'' \<mapsto> ''cue''))"
    by (rule skip_overwrites_existing [where old = "''precious''"])
      (use ne in \<open>simp_all add: demo_engine_def demo_config_def copy_op_def demo_op_def demo_media_def demo_files_def\<close>)
  then show ?thesis by (auto simp: map_option_case split: option.splits)
qed

text \<open>
   With conflicts to be prompted for, an operation onto an existing target never returns: the
  resolution calls itself with the same target.
\<close>

theorem prompt_never_returns:
  assumes "conflict_resolution (eng_config e) = Prompt" "\<not> backup_enabled (eng_config e)"
    and "relocation_target_path op = Some t" "requires_relocation op" "fs t \<noteq> None"
  shows "execute_operations e (op # ops) False fs = None"
proof -
  have "resolve_filename_conflict (eng_os e) Prompt t fs = None"
    using resolve_simps(2) [where fs = fs and target = t] assms(5) by simp
  then have "primary_task e op fs = None"
    using assms by (simp add: primary_task_def create_copy_task_def create_rename_task_def resolved_target_def)
  then show ?thesis using assms(2) by (simp add: execute_operations_def execute_one_def backup_step_def)
qed

lemma prompt_never_returns_witness:
  "execute_operations (demo_engine CopyMode Prompt) [copy_op] False
     (demo_files(path_of ''/video/m.srt'' \<mapsto> ''precious'')) = None"
  by (rule prompt_never_returns [where t = "path_of ''/video/m.srt''"])
    (simp_all add: demo_engine_def demo_config_def copy_op_def demo_op_def)

text \<open>
   An operation whose new name is the name the subtitle has renumbers the file, and its journal entry
  names a destination that does not exist: the rename resolves the conflict of the file with itself,
  and the journal records the name asked for.
\<close>

theorem rename_in_place_wrong_journal:
  assumes "eng_os e = good_os" "eng_journal e = None" "relocation_mode op = NoRelocation"
    and "requires_relocation op = False" "with_file_name (op_source op) (new_subtitle_name op) = op_source op"
    and "fs (op_source op) = Some c" "fs (probe_path (op_source op) 1) = None"
  shows "map_option (\<lambda>r. (loop_end r, loop_files r, map je_destination (loop_journal r)))
      (execute_operations e [op] False fs)
    = Some (LoopReturns (Inr ()), fs(op_source op := None, probe_path (op_source op) 1 \<mapsto> c), [op_source op])"
proof -
  let ?p = "op_source op"
  let ?fs = "fs(?p := None, probe_path ?p 1 \<mapsto> c)"
  have prim: "primary_task e op fs = Some (Returns (file_task ?p ?p (RenameFile ?p ?p)), fs)"
    using assms(3-5) by (simp add: primary_task_def create_rename_task_def Let_def)
  have "task_execute good_os (file_task ?p ?p (RenameFile ?p ?p)) fs
      = (Success (''Renamed: '' @ arrow_text ?p ?p), ?fs)"
    using rename_self [OF assms(6,7)] by (simp add: task_execute_def file_task_def report_task_def)
  then have "\<exists>entry. execute_one e op fs = Some (OpDone entry, ?fs) \<and> je_destination entry = ?p"
    using assms(1,3) prim
    by (auto simp: execute_one_def backup_step_def run_primary_def journal_fields_def file_task_def Let_def
        split: prod.split)
  then show ?thesis
    using assms(2) by (auto simp: execute_operations_def save_journal_def io_simps emit_def loop_result_def)
qed

lemma rename_in_place_wrong_journal_witness:
  "map_option (\<lambda>r. (loop_files r (demo_path ''a.srt''), map je_destination (loop_journal r)))
     (execute_operations ((demo_engine NoRelocation AutoRename)\<lparr>eng_journal := None\<rparr>)
        [demo_op ''a.srt'' ''a.srt''] False demo_files) = Some (None, [demo_path ''a.srt''])"
proof -
  have pr: "probe_path (demo_path ''a.srt'') 1 = demo_path ''a.1.srt''" by code_simp
  have same: "with_file_name (demo_path ''a.srt'') ''a.srt'' = demo_path ''a.srt''" by code_simp
  have ne: "demo_path ''a.srt'' \<noteq> demo_path ''a.1.srt''" by (simp add: demo_path_def)
  have src: "op_source (demo_op ''a.srt'' ''a.srt'') = demo_path ''a.srt''" by (simp add: demo_op_def demo_media_def)
  have "map_option (\<lambda>r. (loop_end r, loop_files r, map je_destination (loop_journal r)))
      (execute_operations ((demo_engine NoRelocation AutoRename)\<lparr>eng_journal := None\<rparr>)
        [demo_op ''a.srt'' ''a.srt''] False demo_files)
    = Some (LoopReturns (Inr ()), demo_files(op_source (demo_op ''a.srt'' ''a.srt'') := None,
        probe_path (op_source (demo_op ''a.srt'' ''a.srt'')) 1 \<mapsto> ''cue''), [op_source (demo_op ''a.srt'' ''a.srt'')])"
  proof (rule rename_in_place_wrong_journal)
    show "demo_files (probe_path (op_source (demo_op ''a.srt'' ''a.srt'')) 1) = None"
      unfolding src pr using ne by (simp add: demo_files_def)
    have nm: "new_subtitle_name (demo_op ''a.srt'' ''a.srt'') = ''a.srt''" by (simp add: demo_op_def)
    show "with_file_name (op_source (demo_op ''a.srt'' ''a.srt'')) (new_subtitle_name (demo_op ''a.srt'' ''a.srt''))
        = op_source (demo_op ''a.srt'' ''a.srt'')"
      unfolding src nm same ..
  qed (simp_all add: demo_engine_def src demo_files_def, simp_all add: demo_op_def)
  then show ?thesis unfolding src pr using ne by (auto simp: map_option_case split: option.splits)
qed

end
