(* ===== verification/Ordered_Map.thy ===== *)
theory Ordered_Map
  imports SubX_Prelude "HOL-Library.List_Lexorder"
begin

text \<open>
  \<open>BTreeMap<String, V>\<close> of the standard library as the list of its entries in the order of the
  keys, which is the order of their bytes.
\<close>

abbreviation str_less :: "str \<Rightarrow> str \<Rightarrow> bool" where
  "str_less s t \<equiv> map code s < map code t"

fun btree_insert :: "str \<Rightarrow> 'v \<Rightarrow> (str \<times> 'v) list \<Rightarrow> (str \<times> 'v) list" where
  "btree_insert k v [] = [(k, v)]"
| "btree_insert k v ((k', v') # m) =
     (if k = k' then (k, v) # m
      else if str_less k k' then (k, v) # (k', v') # m
      else (k', v') # btree_insert k v m)"

text \<open>\<open>BTreeMap::extend\<close> and \<open>collect\<close>.\<close>

definition btree_extend :: "(str \<times> 'v) list \<Rightarrow> (str \<times> 'v) list \<Rightarrow> (str \<times> 'v) list" where
  "btree_extend m es = fold (\<lambda>(k, v) m. btree_insert k v m) es m"

definition btree_ok :: "(str \<times> 'v) list \<Rightarrow> bool" where
  "btree_ok m \<longleftrightarrow> sorted_wrt str_less (map fst m)"

lemma str_less_linear: "s \<noteq> t \<Longrightarrow> \<not> str_less s t \<Longrightarrow> str_less t s"
proof -
  assume "s \<noteq> t" "\<not> str_less s t"
  moreover have "inj (code :: char \<Rightarrow> nat)" by (simp add: inj_def)
  ultimately have "map code s \<noteq> map code t" using inj_map_eq_map by blast
  then show ?thesis using \<open>\<not> str_less s t\<close> by simp
qed

lemma keys_btree_insert [simp]: "set (map fst (btree_insert k v m)) = insert k (set (map fst m))"
  by (induction k v m rule: btree_insert.induct) auto

lemma btree_insert_ok [intro]: "btree_ok m \<Longrightarrow> btree_ok (btree_insert k v m)"
  unfolding btree_ok_def
proof (induction k v m rule: btree_insert.induct)
  case (2 k v k' v' m)
  consider "k = k'" | "k \<noteq> k'" "str_less k k'" | "k \<noteq> k'" "\<not> str_less k k'" by blast
  then show ?case
  proof cases
    case 2
    then show ?thesis using "2.prems" by (auto intro: less_trans)
  next
    case 3
    then have "\<forall>x \<in> set (map fst (btree_insert k v m)). str_less k' x"
      unfolding keys_btree_insert using "2.prems" str_less_linear by auto
    then show ?thesis using 3 "2.IH" "2.prems" by simp
  qed (use "2.prems" in simp)
qed simp

lemma map_of_btree_insert [simp]: "map_of (btree_insert k v m) = (map_of m)(k \<mapsto> v)"
  by (induction k v m rule: btree_insert.induct) (auto simp: fun_eq_iff)

lemma btree_extend_simps [simp]:
  "btree_extend m [] = m" "btree_extend m ((k, v) # es) = btree_extend (btree_insert k v m) es"
  by (simp_all add: btree_extend_def)

lemma btree_extend_ok [intro]: "btree_ok m \<Longrightarrow> btree_ok (btree_extend m es)"
  by (induction es arbitrary: m) (auto simp: btree_extend_def)

lemma btree_Nil_ok [simp, intro]: "btree_ok []"
  by (simp add: btree_ok_def)

lemma map_of_btree_extend: "map_of (btree_extend m es) = map_of m ++ map_of (rev es)"
proof (induction es arbitrary: m)
  case (Cons e es)
  obtain k v where "e = (k, v)" by fastforce
  then show ?case using Cons by (simp add: map_add_def fun_eq_iff map_of_append split: option.splits)
qed simp

lemma keys_btree_extend: "set (map fst (btree_extend m es)) = set (map fst m) \<union> set (map fst es)"
proof (induction es arbitrary: m)
  case (Cons e es)
  obtain k v where "e = (k, v)" by fastforce
  then show ?case using Cons [of "btree_insert k v m"] keys_btree_insert [of k v m] by auto
qed simp

lemma btree_distinct: "btree_ok m \<Longrightarrow> distinct (map fst m)"
  unfolding btree_ok_def by (induction m) auto

text \<open>Two ordered maps with the same lookups are the same list.\<close>

lemma btree_eqI:
  assumes "btree_ok m" "btree_ok m'" "map_of m = map_of m'"
  shows "m = m'"
proof -
  have keys: "set (map fst m) = set (map fst m')"
    using assms(3) by (metis dom_map_of_conv_image_fst set_map)
  have "sorted_wrt (<) (map (map code) (map fst x))" if "btree_ok x" for x :: "(str \<times> 'a) list"
    using that by (simp add: btree_ok_def sorted_wrt_map)
  moreover have "set (map (map code) (map fst m)) = set (map (map code) (map fst m'))"
    using keys by (metis list.set_map)
  ultimately have "map (map code) (map fst m) = map (map code) (map fst m')"
    using assms(1,2) strict_sorted_equal by blast
  moreover have "inj (code :: char \<Rightarrow> nat)" by (simp add: inj_def)
  ultimately have f: "map fst m = map fst m'" by (metis inj_map_eq_map inj_mapI)
  have "map snd x = map (\<lambda>k. the (map_of x k)) (map fst x)" if "btree_ok x" for x :: "(str \<times> 'a) list"
  proof -
    have "snd e = the (map_of x (fst e))" if "e \<in> set x" for e
      using map_of_is_SomeI [OF btree_distinct [OF \<open>btree_ok x\<close>], of "fst e" "snd e"] that by simp
    then show ?thesis by simp
  qed
  then have "map snd m = map snd m'" using f assms by metis
  with f show ?thesis by (metis zip_map_fst_snd)
qed

end
