(* ===== verification/Match_Cache.thy ===== *)
theory Match_Cache
  imports Match_Exec Ordered_Map
begin

text \<open>
  The match cache (\<open>src/core/matcher/cache.rs\<close> and the cache functions of
  \<open>src/core/matcher/engine.rs\<close>) and the whole of \<open>match_file_list_with_audit\<close>: content samples, the
  request to the AI, the plan and its cache.  The AI service, the ids, the hashes of the standard
  library's hasher, the JSON of the cache file, the clock and the modification times of files are
  fields of the record \<open>matcher\<close>.
\<close>

section \<open>Data\<close>

record SnapshotItem =
  si_path :: str
  si_name :: str
  si_size :: nat
  si_mtime :: nat
  si_file_type :: str

record StaleFile =
  stale_path :: str
  stale_reason :: str

record OpItem =
  oi_video_file :: str
  oi_subtitle_file :: str
  oi_new_subtitle_name :: str
  oi_confidence :: rat
  oi_reasoning :: "str list"

record CacheData =
  cache_version :: str
  cd_directory :: str
  file_snapshot :: "SnapshotItem list"
  match_operations :: "OpItem list"
  cd_created_at :: nat
  ai_model_used :: str
  cd_config_hash :: str
  original_relocation_mode :: str
  original_backup_enabled :: bool

record ContentSample =
  sample_filename :: str
  sample_file_id :: str
  content_preview :: str
  sample_file_size :: nat

record AnalysisRequest =
  req_video_files :: "str list"
  req_subtitle_files :: "str list"
  req_content_samples :: "ContentSample list"

record MatchAudit =
  ma_operations :: "MatchOperation list"
  ma_rejected :: "RejectedCandidate list"

text \<open>
  An engine with what it calls.  A modification time is counted in nanoseconds from the epoch;
  \<open>m_ids\<close> are the ids a fresh generator yields.
\<close>

record matcher =
  m_os :: os
  m_config :: MatchConfig
  m_lower :: "str \<Rightarrow> str"
  m_regex :: regex_crate
  m_ids :: "nat \<Rightarrow> str"
  m_modified :: "path \<Rightarrow> files \<Rightarrow> int option"
  m_now :: nat
  m_xdg :: "path option"
  m_platform :: "path option"
  m_config_hash :: "str \<times> bool \<times> str \<Rightarrow> str"
  m_key_hash :: "(str \<times> nat \<times> int option) list \<times> str \<Rightarrow> str"
  m_to_json :: "CacheData \<Rightarrow> str"
  m_of_json :: "str \<Rightarrow> CacheData option"
  m_ai :: "AnalysisRequest \<Rightarrow> FileMatch list res"

definition CURRENT_CACHE_VERSION :: str where
  "CURRENT_CACHE_VERSION = ''2.0''"

definition is_cache_version_current :: "str \<Rightarrow> bool" where
  "is_cache_version_current v \<longleftrightarrow> v = CURRENT_CACHE_VERSION"

section \<open>Metadata\<close>

definition metadata_of :: "matcher \<Rightarrow> path \<Rightarrow> files \<Rightarrow> io_error + (nat \<times> int option)" where
  "metadata_of m p fs =
     (case fault (m_os m) (CallMetadata p) fs of
        Some e \<Rightarrow> Inl e
      | None \<Rightarrow> (case fs p of None \<Rightarrow> Inl not_found | Some c \<Rightarrow> Inr (length c, m_modified m p fs)))"

text \<open>Whole seconds since the epoch; 0 for an unknown time and for one before the epoch.\<close>

definition mtime_secs :: "int option \<Rightarrow> nat" where
  "mtime_secs t = (case t of None \<Rightarrow> 0 | Some ns \<Rightarrow> if ns < 0 then 0 else nat (ns div 1000000000))"

definition canonical_or_self :: "matcher \<Rightarrow> path \<Rightarrow> files \<Rightarrow> path" where
  "canonical_or_self m p fs = (case fst (canonicalize (m_os m) p fs) of Inr c \<Rightarrow> c | Inl _ \<Rightarrow> p)"

section \<open>The key of a list of files\<close>

definition relocation_debug :: "FileRelocationMode \<Rightarrow> str" where
  "relocation_debug mode =
     (case mode of NoRelocation \<Rightarrow> ''None'' | CopyMode \<Rightarrow> ''Copy'' | MoveMode \<Rightarrow> ''Move'')"

definition calculate_config_hash :: "matcher \<Rightarrow> str" where
  "calculate_config_hash m =
     m_config_hash m (relocation_debug (cfg_relocation_mode (m_config m)), backup_enabled (m_config m), ''prompt_v2'')"

definition path_metadata :: "matcher \<Rightarrow> path list \<Rightarrow> files \<Rightarrow> (str \<times> nat \<times> int option) list" where
  "path_metadata m paths fs =
     fold (\<lambda>p t. case metadata_of m p fs of
                   Inl _ \<Rightarrow> t
                 | Inr v \<Rightarrow> btree_insert (path_display (canonical_or_self m p fs)) v t) paths []"

definition calculate_file_list_cache_key :: "matcher \<Rightarrow> path list \<Rightarrow> files \<Rightarrow> str" where
  "calculate_file_list_cache_key m paths fs =
     ''filelist_'' @ m_key_hash m (path_metadata m paths fs, calculate_config_hash m)"

definition get_cache_file_path :: "matcher \<Rightarrow> path res" where
  "get_cache_file_path m =
     (case m_xdg m of
        Some d \<Rightarrow> Inr (config_join d ''match_cache.json'')
      | None \<Rightarrow>
          (case m_platform m of
             Some d \<Rightarrow> Inr (config_join d ''match_cache.json'')
           | None \<Rightarrow> Inl (Config ''Unable to determine cache directory'')))"

section \<open>Reading the cache\<close>

text \<open>\<open>CacheData::load\<close>; every caller drops the reason of a failure.\<close>

definition cache_load :: "matcher \<Rightarrow> path \<Rightarrow> files \<Rightarrow> CacheData option" where
  "cache_load m p fs =
     (case fst (read_to_string (m_os m) p fs) of Inl _ \<Rightarrow> None | Inr content \<Rightarrow> m_of_json m content)"

definition cached_media :: "(str \<Rightarrow> str) \<Rightarrow> str \<Rightarrow> path \<Rightarrow> MediaFileType \<Rightarrow> nat \<Rightarrow> str \<Rightarrow> MediaFile" where
  "cached_media lower fid p ty bytes name =
     \<lparr>mf_id = fid, mf_path = p, file_type = ty, mf_size = bytes, mf_name = name,
      mf_extension = lower (case extension p of Some e \<Rightarrow> e | None \<Rightarrow> []), relative_path = name\<rparr>"

definition cached_relocates :: "MatchConfig \<Rightarrow> path \<Rightarrow> path \<Rightarrow> bool" where
  "cached_relocates cfg v s \<longleftrightarrow> cfg_relocation_mode cfg \<noteq> NoRelocation \<and> parent s \<noteq> parent v"

definition cached_operation ::
    "MatchConfig \<Rightarrow> OpItem \<Rightarrow> MediaFile \<Rightarrow> MediaFile \<Rightarrow> path option \<Rightarrow> MatchOperation" where
  "cached_operation cfg it v s target =
     \<lparr>video_file = v, subtitle_file = s, new_subtitle_name = oi_new_subtitle_name it,
      op_confidence = oi_confidence it, reasoning = oi_reasoning it,
      relocation_mode = cfg_relocation_mode cfg, relocation_target_path = target,
      requires_relocation = cached_relocates cfg (mf_path v) (mf_path s)\<rparr>"

definition cons_run :: "'a \<Rightarrow> 'a list res run \<Rightarrow> 'a list res run" where
  "cons_run x r = (case r of Returns (Inr xs) \<Rightarrow> Returns (Inr (x # xs)) | _ \<Rightarrow> r)"

text \<open>The operations of the cached items, numbered from \<open>n\<close>; items whose files are gone are skipped.\<close>

fun rebuild :: "matcher \<Rightarrow> files \<Rightarrow> nat \<Rightarrow> OpItem list \<Rightarrow> MatchOperation list res run" where
  "rebuild m fs n [] = Returns (Inr [])"
| "rebuild m fs n (it # its) =
     (let v = path_of (oi_video_file it); s = path_of (oi_subtitle_file it);
          media = cached_media (m_lower m)
      in if fs v = None \<or> fs s = None then rebuild m fs n its
         else
           (case metadata_of m v fs of
              Inl e \<Rightarrow> Returns (Inl (Io e))
            | Inr (vsize, _) \<Rightarrow>
                (case metadata_of m s fs of
                   Inl e \<Rightarrow> Returns (Inl (Io e))
                 | Inr (ssize, _) \<Rightarrow>
                     (case (file_name v, file_name s) of
                        (Some vname, Some sname) \<Rightarrow>
                          (let op = cached_operation (m_config m) it (media (m_ids m n) v Video vsize vname)
                                      (media (m_ids m (Suc n)) s Subtitle ssize sname)
                           in if cached_relocates (m_config m) v s
                              then (case parent v of
                                      None \<Rightarrow> Panics unwrap_none
                                    | Some dir \<Rightarrow>
                                        cons_run (op (Some (join_name dir (oi_new_subtitle_name it))))
                                          (rebuild m fs (n + 2) its))
                              else cons_run (op None) (rebuild m fs (n + 2) its))
                      | _ \<Rightarrow> Panics unwrap_none))))"

definition check_file_list_cache :: "matcher \<Rightarrow> str \<Rightarrow> files \<Rightarrow> MatchOperation list option res run" where
  "check_file_list_cache m key fs =
     (case get_cache_file_path m of
        Inl e \<Rightarrow> Returns (Inl e)
      | Inr p \<Rightarrow>
          (case cache_load m p fs of
             None \<Rightarrow> Returns (Inr None)
           | Some data \<Rightarrow>
               if \<not> is_cache_version_current (cache_version data) then Returns (Inr None)
               else if cd_directory data = key
               then (case rebuild m fs 0 (match_operations data) of
                       Panics e \<Rightarrow> Panics e
                     | Returns (Inl e) \<Rightarrow> Returns (Inl e)
                     | Returns (Inr ops) \<Rightarrow> Returns (Inr (Some ops)))
               else Returns (Inr None)))"

text \<open>\<open>reconstruct_operations_from_cache\<close>, for replaying a cached plan: missing names are empty.\<close>

fun reconstruct :: "matcher \<Rightarrow> MatchConfig \<Rightarrow> files \<Rightarrow> nat \<Rightarrow> OpItem list \<Rightarrow> MatchOperation list res" where
  "reconstruct m cfg fs n [] = Inr []"
| "reconstruct m cfg fs n (it # its) =
     (let v = path_of (oi_video_file it); s = path_of (oi_subtitle_file it);
          media = cached_media (m_lower m)
      in if fs v = None \<or> fs s = None then reconstruct m cfg fs n its
         else
           (case metadata_of m v fs of
              Inl e \<Rightarrow> Inl (Io e)
            | Inr (vsize, _) \<Rightarrow>
                (case metadata_of m s fs of
                   Inl e \<Rightarrow> Inl (Io e)
                 | Inr (ssize, _) \<Rightarrow>
                     (let vf = media (m_ids m n) v Video vsize (case file_name v of Some f \<Rightarrow> f | None \<Rightarrow> []);
                          sf = media (m_ids m (Suc n)) s Subtitle ssize (case file_name s of Some f \<Rightarrow> f | None \<Rightarrow> []);
                          target = (if cached_relocates cfg v s
                                    then map_option (\<lambda>d. join_name d (oi_new_subtitle_name it)) (parent v)
                                    else None)
                      in bind_res (reconstruct m cfg fs (n + 2) its)
                           (\<lambda>ops. Inr (cached_operation cfg it vf sf target # ops))))))"

text \<open>\<open>apply_cached_operations_with_reporter\<close>: the rebuilt operations are executed by an engine.\<close>

definition apply_cached_operations ::
    "matcher \<Rightarrow> engine \<Rightarrow> CacheData \<Rightarrow> files \<Rightarrow> (SubXError + unit res loop_run) option" where
  "apply_cached_operations m e cache fs =
     (case reconstruct m (eng_config e) fs 0 (match_operations cache) of
        Inl err \<Rightarrow> Some (Inl err)
      | Inr ops \<Rightarrow> map_option Inr (execute_operations e ops False fs))"

section \<open>Writing the cache\<close>

definition op_item :: "MatchOperation \<Rightarrow> OpItem" where
  "op_item op =
     \<lparr>oi_video_file = path_display (mf_path (video_file op)),
      oi_subtitle_file = path_display (mf_path (subtitle_file op)),
      oi_new_subtitle_name = new_subtitle_name op, oi_confidence = op_confidence op,
      oi_reasoning = reasoning op\<rparr>"

definition snapshot_subtitle_extensions :: "str list" where
  "snapshot_subtitle_extensions = [''srt'', ''ass'', ''ssa'', ''vtt'', ''sub'']"

definition snapshot_item :: "(str \<Rightarrow> str) \<Rightarrow> path \<Rightarrow> nat \<times> int option \<Rightarrow> SnapshotItem" where
  "snapshot_item lower c meta =
     \<lparr>si_path = path_display c, si_name = (case file_name c of Some f \<Rightarrow> f | None \<Rightarrow> []),
      si_size = fst meta, si_mtime = mtime_secs (snd meta),
      si_file_type =
        (case extension c of
           Some e \<Rightarrow> if lower e \<in> set snapshot_subtitle_extensions then ''subtitle'' else ''video''
         | None \<Rightarrow> ''video'')\<rparr>"

fun snapshot_loop :: "matcher \<Rightarrow> files \<Rightarrow> str list \<Rightarrow> path list \<Rightarrow> SnapshotItem list" where
  "snapshot_loop m fs seen [] = []"
| "snapshot_loop m fs seen (p # ps) =
     (let c = canonical_or_self m p fs; key = path_display c
      in if key \<in> set seen then snapshot_loop m fs seen ps
         else
           (case metadata_of m c fs of
              Inl _ \<Rightarrow> snapshot_loop m fs (key # seen) ps
            | Inr meta \<Rightarrow> snapshot_item (m_lower m) c meta # snapshot_loop m fs (key # seen) ps))"

definition cache_data :: "matcher \<Rightarrow> str \<Rightarrow> MatchOperation list \<Rightarrow> files \<Rightarrow> CacheData" where
  "cache_data m key ops fs =
     \<lparr>cache_version = CURRENT_CACHE_VERSION, cd_directory = key,
      file_snapshot = snapshot_loop m fs []
        (concat (map (\<lambda>op. [mf_path (video_file op), mf_path (subtitle_file op)]) ops)),
      match_operations = map op_item ops, cd_created_at = m_now m,
      ai_model_used = ai_model (m_config m), cd_config_hash = calculate_config_hash m,
      original_relocation_mode = relocation_debug (cfg_relocation_mode (m_config m)),
      original_backup_enabled = backup_enabled (m_config m)\<rparr>"

definition save_file_list_cache :: "matcher \<Rightarrow> str \<Rightarrow> MatchOperation list \<Rightarrow> (SubXError, unit) io" where
  "save_file_list_cache m key ops fs =
     (case get_cache_file_path m of
        Inl e \<Rightarrow> (Inl e, fs)
      | Inr p \<Rightarrow>
          (let data = cache_data m key ops fs
           in map_err_io Io
                (bind_io (create_dir_all (m_os m) (parent_or_empty p)) (\<lambda>_.
                 bind_io (create_file (m_os m) p) (\<lambda>_. write_all (m_os m) p (m_to_json m data)))) fs))"

section \<open>Validation\<close>

definition has_empty_snapshot :: "CacheData \<Rightarrow> bool" where
  "has_empty_snapshot data \<longleftrightarrow> file_snapshot data = []"

definition stale_item :: "matcher \<Rightarrow> files \<Rightarrow> SnapshotItem \<Rightarrow> StaleFile option" where
  "stale_item m fs it =
     (if si_path it = []
      then Some \<lparr>stale_path = si_name it, stale_reason = ''snapshot entry missing canonical path''\<rparr>
      else
        (case metadata_of m (path_of (si_path it)) fs of
           Inl e \<Rightarrow> Some \<lparr>stale_path = si_path it, stale_reason = ''file missing or inaccessible: '' @ io_text e\<rparr>
         | Inr (bytes, t) \<Rightarrow>
             if bytes \<noteq> si_size it
             then Some \<lparr>stale_path = si_path it, stale_reason = ''size changed (snapshot='' @ show_nat (si_size it)
                    @ '', current='' @ show_nat bytes @ '')''\<rparr>
             else if mtime_secs t \<noteq> si_mtime it
             then Some \<lparr>stale_path = si_path it, stale_reason = ''mtime changed (snapshot='' @ show_nat (si_mtime it)
                    @ '', current='' @ show_nat (mtime_secs t) @ '')''\<rparr>
             else None))"

definition validate_snapshot :: "matcher \<Rightarrow> files \<Rightarrow> CacheData \<Rightarrow> StaleFile list" where
  "validate_snapshot m fs data = List.map_filter (stale_item m fs) (file_snapshot data)"

definition cached_target :: "bool \<Rightarrow> OpItem \<Rightarrow> path option" where
  "cached_target relocates it =
     map_option (\<lambda>d. join_name d (oi_new_subtitle_name it))
       (parent (path_of (if relocates then oi_video_file it else oi_subtitle_file it)))"

definition validate_target_paths :: "files \<Rightarrow> CacheData \<Rightarrow> path list" where
  "validate_target_paths fs data =
     (let relocates = (original_relocation_mode data \<notin> {[], ''None''})
      in List.map_filter
           (\<lambda>it. case cached_target relocates it of
                   None \<Rightarrow> None
                 | Some t \<Rightarrow> if fs t \<noteq> None \<and> t \<noteq> path_of (oi_subtitle_file it) then Some t else None)
           (match_operations data))"

section \<open>Matching a list of files\<close>

fun extract_content_samples :: "matcher \<Rightarrow> files \<Rightarrow> MediaFile list \<Rightarrow> ContentSample list res run" where
  "extract_content_samples m fs [] = Returns (Inr [])"
| "extract_content_samples m fs (s # ss) =
     (case fst (check_file_size (m_os m) (mf_path s) (max_subtitle_bytes (m_config m)) ''Subtitle'' fs) of
        Inl e \<Rightarrow> Returns (Inl (Io e))
      | Inr _ \<Rightarrow>
          (case fst (read_to_string (m_os m) (mf_path s) fs) of
             Inl e \<Rightarrow> Returns (Inl (Io e))
           | Inr content \<Rightarrow>
               (case create_content_preview (m_config m) content of
                  Panics e \<Rightarrow> Panics e
                | Returns preview \<Rightarrow>
                    cons_run \<lparr>sample_filename = mf_name s, sample_file_id = mf_id s,
                      content_preview = preview, sample_file_size = mf_size s\<rparr>
                      (extract_content_samples m fs ss))))"

definition request_line :: "MediaFile \<Rightarrow> str" where
  "request_line f = ''ID:'' @ mf_id f @ '' | Name:'' @ mf_name f @ '' | Path:'' @ relative_path f"

definition match_file_list_with_audit :: "matcher \<Rightarrow> path list \<Rightarrow> files \<Rightarrow> MatchAudit res run \<times> files" where
  "match_file_list_with_audit m paths fs =
     (let files = scan_file_list (m_lower m) (m_ids m) fs 0 paths;
          videos = of_type Video files; subtitles = of_type Subtitle files;
          key = calculate_file_list_cache_key m paths fs
      in if videos = [] \<or> subtitles = []
         then (Returns (Inr \<lparr>ma_operations = [], ma_rejected = []\<rparr>), fs)
         else
           (case check_file_list_cache m key fs of
              Panics e \<Rightarrow> (Panics e, fs)
            | Returns (Inl e) \<Rightarrow> (Returns (Inl e), fs)
            | Returns (Inr (Some ops)) \<Rightarrow> (Returns (Inr \<lparr>ma_operations = ops, ma_rejected = []\<rparr>), fs)
            | Returns (Inr None) \<Rightarrow>
                (case (if enable_content_analysis (m_config m) then extract_content_samples m fs subtitles
                       else Returns (Inr [])) of
                   Panics e \<Rightarrow> (Panics e, fs)
                 | Returns (Inl e) \<Rightarrow> (Returns (Inl e), fs)
                 | Returns (Inr samples) \<Rightarrow>
                     (case m_ai m \<lparr>req_video_files = map request_line videos,
                             req_subtitle_files = map request_line subtitles, req_content_samples = samples\<rparr> of
                        Inl e \<Rightarrow> (Returns (Inl e), fs)
                      | Inr matches \<Rightarrow>
                          (case plan_answer (m_lower m) (m_regex m) (m_config m) fs videos subtitles matches of
                             Panics e \<Rightarrow> (Panics e, fs)
                           | Returns (ops, rejected) \<Rightarrow>
                               (case save_file_list_cache m key ops fs of
                                  (Inl e, fs') \<Rightarrow> (Returns (Inl e), fs')
                                | (Inr _, fs') \<Rightarrow>
                                    (Returns (Inr \<lparr>ma_operations = ops, ma_rejected = rejected\<rparr>), fs')))))))"

text \<open>\<open>match_file_list\<close> keeps the operations only.\<close>

definition match_file_list :: "matcher \<Rightarrow> path list \<Rightarrow> files \<Rightarrow> MatchOperation list res run \<times> files" where
  "match_file_list m paths fs =
     (case match_file_list_with_audit m paths fs of
        (Panics e, fs') \<Rightarrow> (Panics e, fs')
      | (Returns r, fs') \<Rightarrow> (Returns (bind_res r (\<lambda>a. Inr (ma_operations a))), fs'))"

end
