(* ===== verification/Cache_Properties.thy ===== *)
theory Cache_Properties
  imports Match_Cache Exec_Properties
begin

text \<open>
  What the match cache guarantees: a cached plan is replayed as it was made, a fresh snapshot is
  valid, the two ways of rebuilding operations agree, and a fresh plan has no target conflicts.
\<close>

section \<open>Paths as texts\<close>

lemma split_join_plain:
  "list_all plain_name cs \<Longrightarrow> cs \<noteq> [] \<Longrightarrow> split_str ''/'' (join ''/'' cs) = cs"
proof (induction cs)
  case (Cons c cs)
  have c: "CHR ''/'' \<notin> set c" using Cons.prems by (simp add: plain_name_def)
  show ?case
  proof (cases cs)
    case Nil
    then show ?thesis using c by (simp add: split_char_absent del: split_str_char)
  next
    case (Cons d ds)
    then show ?thesis
      using Cons.IH Cons.prems split_char_append [OF c, of "join ''/'' (d # ds)"]
      by (simp del: split_str_char)
  qed
qed simp

lemma path_roundtrip:
  assumes "plain_path p"
  shows "path_of (path_display p) = p"
proof -
  have cs: "list_all plain_name (comps p)" "comps p \<noteq> []" using assms by (auto simp: plain_path_def)
  then obtain c ds where c: "comps p = c # ds" "c \<noteq> []" "hd c \<noteq> CHR ''/''"
    by (cases "comps p") (auto simp: plain_name_def, metis list.set_sel(1))
  have hd: "join ''/'' (comps p) \<noteq> []" "hd (join ''/'' (comps p)) \<noteq> CHR ''/''"
    using c by (cases ds; simp)+
  have keep: "filter (\<lambda>c. c \<noteq> [] \<and> c \<noteq> ''.'') (comps p) = comps p"
    using cs(1) by (auto simp: list_all_iff plain_name_def intro: filter_True)
  show ?thesis
  proof (cases "absolute p")
    case True
    have "split_str ''/'' (CHR ''/'' # join ''/'' (comps p)) = [] # comps p"
      using split_join_plain [OF cs] by simp
    then show ?thesis
      using True keep by (simp add: path_of_def path_display_def del: split_str_char)
  next
    case False
    then show ?thesis
      using hd keep split_join_plain [OF cs] by (simp add: path_of_def path_display_def del: split_str_char)
  qed
qed

section \<open>Scanned files and cached files\<close>

definition forget_id :: "MediaFile \<Rightarrow> MediaFile" where
  "forget_id f = f\<lparr>mf_id := []\<rparr>"

definition forget_ids :: "MatchOperation \<Rightarrow> MatchOperation" where
  "forget_ids op = op\<lparr>video_file := forget_id (video_file op), subtitle_file := forget_id (subtitle_file op)\<rparr>"

text \<open>A media file as the cache rebuilds it from its path.\<close>

definition rebuildable :: "(str \<Rightarrow> str) \<Rightarrow> files \<Rightarrow> MediaFileType \<Rightarrow> MediaFile \<Rightarrow> bool" where
  "rebuildable lower fs ty f \<longleftrightarrow>
     (case fs (mf_path f) of
        None \<Rightarrow> False
      | Some content \<Rightarrow>
          file_name (mf_path f) = Some (mf_name f)
          \<and> f = cached_media lower (mf_id f) (mf_path f) ty (length content) (mf_name f))"

lemma scan_rebuildable:
  "f \<in> set (scan_file_list lower ids fs n ps) \<Longrightarrow> rebuildable lower fs (file_type f) f"
proof (induction ps arbitrary: n)
  case (Cons p ps)
  show ?case
  proof (cases "fs p = None \<or> extension p = None")
    case True
    then have "scan_file_list lower ids fs n (p # ps) = scan_file_list lower ids fs n ps"
      by (auto split: option.splits)
    then show ?thesis using Cons by simp
  next
    case False
    then obtain content ext where ce: "fs p = Some content" "extension p = Some ext" by auto
    obtain name where name: "file_name p = Some name" using extension_file_name [OF ce(2)] by auto
    have "f \<in> set (scan_file_list lower ids fs n ps) \<or> f \<in> set (scan_file_list lower ids fs (Suc n) ps)
        \<or> (\<exists>i ty. f = \<lparr>mf_id = i, mf_path = p, file_type = ty, mf_size = length content,
             mf_name = name, mf_extension = lower ext, relative_path = name\<rparr>)"
      using Cons.prems ce name by (simp add: Let_def split: if_splits) auto
    then show ?thesis
      using Cons.IH ce name by (auto simp: rebuildable_def cached_media_def)
  qed
qed simp

lemma scan_cong:
  "(\<And>p. p \<in> set ps \<Longrightarrow> fs p = fs' p) \<Longrightarrow> scan_file_list lower ids fs n ps = scan_file_list lower ids fs' n ps"
  by (induction ps arbitrary: n) (simp_all add: Let_def split: option.split)

lemma scan_types:
  "map file_type (scan_file_list lower ids fs n ps) = map file_type (scan_file_list lower ids' fs k ps)"
proof (induction ps arbitrary: n k)
  case (Cons p ps)
  show ?case by (auto simp: Let_def intro: Cons.IH split: option.split)
qed simp

lemma of_type_empty: "of_type ty files = [] \<longleftrightarrow> ty \<notin> set (map file_type files)"
  by (auto simp: of_type_def filter_empty_conv)

section \<open>Rebuilding a plan\<close>

definition cache_target :: "MatchConfig \<Rightarrow> MatchOperation \<Rightarrow> path option" where
  "cache_target cfg op =
     (if cached_relocates cfg (mf_path (video_file op)) (op_source op)
      then map_option (\<lambda>d. join_name d (new_subtitle_name op)) (parent (mf_path (video_file op))) else None)"

text \<open>An operation that its item in the cache determines, up to the ids of its files.\<close>

definition cacheable :: "(str \<Rightarrow> str) \<Rightarrow> MatchConfig \<Rightarrow> files \<Rightarrow> MatchOperation \<Rightarrow> bool" where
  "cacheable lower cfg fs op \<longleftrightarrow>
     rebuildable lower fs Video (video_file op) \<and> rebuildable lower fs Subtitle (subtitle_file op)
     \<and> plain_path (mf_path (video_file op)) \<and> plain_path (op_source op)
     \<and> relocation_mode op = cfg_relocation_mode cfg
     \<and> requires_relocation op = cached_relocates cfg (mf_path (video_file op)) (op_source op)
     \<and> relocation_target_path op = cache_target cfg op"

lemma forget_cached_media: "forget_id (cached_media lower i p ty n f) = cached_media lower [] p ty n f"
  by (simp add: forget_id_def cached_media_def)

lemma rebuildable_forget:
  assumes "rebuildable lower fs ty f" "fs (mf_path f) = Some c"
  shows "forget_id f = cached_media lower [] (mf_path f) ty (length c) (mf_name f)"
  using assms by (simp add: rebuildable_def) (metis forget_cached_media)

lemma plain_path_parent: "plain_path p \<Longrightarrow> \<exists>d. parent p = Some d"
  by (simp add: plain_path_def parent_def)

lemma rebuild_cacheable:
  assumes "\<And>p. fault (m_os m) (CallMetadata p) fs = None" "list_all (cacheable (m_lower m) (m_config m) fs) ops"
  shows "\<exists>ops'. rebuild m fs n (map op_item ops) = Returns (Inr ops') \<and> map forget_ids ops' = map forget_ids ops"
  using assms(2)
proof (induction ops arbitrary: n)
  case (Cons op ops)
  let ?v = "mf_path (video_file op)" and ?s = "op_source op"
  have op: "rebuildable (m_lower m) fs Video (video_file op)" "rebuildable (m_lower m) fs Subtitle (subtitle_file op)"
    "plain_path ?v" "plain_path ?s" and mode: "relocation_mode op = cfg_relocation_mode (m_config m)"
    "requires_relocation op = cached_relocates (m_config m) ?v ?s"
    "relocation_target_path op = cache_target (m_config m) op"
    using Cons.prems by (auto simp: cacheable_def)
  obtain cv cs where c: "fs ?v = Some cv" "fs ?s = Some cs"
    and names: "file_name ?v = Some (mf_name (video_file op))" "file_name ?s = Some (mf_name (subtitle_file op))"
    using op(1,2) by (auto simp: rebuildable_def split: option.splits)
  have paths: "path_of (oi_video_file (op_item op)) = ?v" "path_of (oi_subtitle_file (op_item op)) = ?s"
    using op(3,4) by (simp_all add: op_item_def path_roundtrip)
  have meta: "metadata_of m ?v fs = Inr (length cv, m_modified m ?v fs)"
    "metadata_of m ?s fs = Inr (length cs, m_modified m ?s fs)"
    using c assms(1) by (simp_all add: metadata_of_def)
  obtain dir where dir: "parent ?v = Some dir" using plain_path_parent [OF op(3)] by blast
  obtain ops1 where ih: "rebuild m fs (n + 2) (map op_item ops) = Returns (Inr ops1)"
    "map forget_ids ops1 = map forget_ids ops"
    using Cons by (auto simp del: add_2_eq_Suc')
  define op1 where "op1 = cached_operation (m_config m) (op_item op)
    (cached_media (m_lower m) (m_ids m n) ?v Video (length cv) (mf_name (video_file op)))
    (cached_media (m_lower m) (m_ids m (Suc n)) ?s Subtitle (length cs) (mf_name (subtitle_file op)))
    (cache_target (m_config m) op)"
  have "rebuild m fs n (map op_item (op # ops)) = Returns (Inr (op1 # ops1))"
    using ih(1) c paths meta names dir
    by (simp add: Let_def cons_run_def op1_def cache_target_def op_item_def del: add_2_eq_Suc')
  moreover have "forget_ids op1 = forget_ids op"
    using mode rebuildable_forget [OF op(1) c(1)] rebuildable_forget [OF op(2) c(2)]
    by (simp add: op1_def forget_ids_def cached_operation_def op_item_def forget_cached_media)
      (simp add: cached_media_def)
  ultimately show ?case using ih(2) by simp
qed simp

section \<open>Fresh plans\<close>

lemma allocate_retargets:
  "distinct is \<Longrightarrow> \<forall>i \<in> set is. i < length ops \<Longrightarrow>
   length (allocate r is claimed ops) = length ops
   \<and> (\<forall>j < length ops.
        if j \<in> set is then \<exists>c. allocate r is claimed ops ! j = retarget (r c (ops ! j)) (ops ! j)
        else allocate r is claimed ops ! j = ops ! j)"
proof (induction "is" arbitrary: claimed ops)
  case (Cons i "is")
  let ?ops = "ops[i := retarget (r claimed (ops ! i)) (ops ! i)]"
  have ih: "length (allocate r is c ?ops) = length ?ops
    \<and> (\<forall>j < length ?ops.
        if j \<in> set is then \<exists>d. allocate r is c ?ops ! j = retarget (r d (?ops ! j)) (?ops ! j)
        else allocate r is c ?ops ! j = ?ops ! j)" for c
    by (rule Cons.IH) (use Cons.prems in auto)
  let ?c = "fst (r claimed (ops ! i)) # claimed"
  have i: "i < length ops" "i \<notin> set is" using Cons.prems by auto
  have run: "allocate r (i # is) claimed ops = allocate r is ?c ?ops" by (simp add: Let_def)
  have each: "if j \<in> set (i # is) then \<exists>c. allocate r is ?c ?ops ! j = retarget (r c (ops ! j)) (ops ! j)
      else allocate r is ?c ?ops ! j = ops ! j" if "j < length ops" for j
  proof (cases "j = i")
    case True
    then have "allocate r is ?c ?ops ! j = retarget (r claimed (ops ! j)) (ops ! j)"
      using ih [of ?c] i by simp
    then show ?thesis using True by auto
  next
    case False
    then have "?ops ! j = ops ! j" by simp
    then show ?thesis using ih [of ?c] that False by (metis length_list_update set_ConsD list.set_intros(2))
  qed
  show ?case unfolding run using ih [of ?c] each by simp
qed simp

lemma unique_targets_retarget:
  assumes "op \<in> set (apply_unique_target_paths fs ops)"
  shows "\<exists>old \<in> set ops. \<exists>reserved claimed. op = retarget (resolve_target fs reserved claimed old) old"
proof -
  have "length (apply_unique_target_paths fs ops) = length ops
    \<and> (\<forall>j < length ops. \<exists>c. apply_unique_target_paths fs ops ! j
         = retarget (resolve_target fs (map final_target ops) c (ops ! j)) (ops ! j))"
    using allocate_retargets [OF distinct_allocation_order [of ops], of ops "resolve_target fs (map final_target ops)" "[]"]
    by (auto simp: apply_unique_target_paths_def set_allocation_order)
  then show ?thesis using assms by (metis in_set_conv_nth)
qed

text \<open>Every operation of a fresh plan can be rebuilt from its item.\<close>

lemma plan_cacheable:
  assumes "\<forall>p \<in> set paths. plain_path p" "files = scan_file_list lower ids fs 0 paths"
    and "plan_answer lower eng cfg fs (of_type Video files) (of_type Subtitle files) matches = Returns (ops, rejected)"
    and "op \<in> set ops"
  shows "cacheable lower cfg fs op \<and> mf_path (video_file op) \<in> set paths \<and> op_source op \<in> set paths"
proof -
  obtain ops0 where a: "assemble lower eng cfg (of_type Video files) (of_type Subtitle files) matches = Returns (ops0, rejected)"
    and ops: "ops = apply_unique_target_paths fs ops0"
    using assms(3) by (auto simp: plan_answer_def split: run.splits)
  obtain op0 reserved claimed where op0: "op0 \<in> set ops0" "op = retarget (resolve_target fs reserved claimed op0) op0"
    using unique_targets_retarget assms(4) ops by blast
  have kept: "video_file op = video_file op0" "subtitle_file op = subtitle_file op0"
    "relocation_mode op = relocation_mode op0" "requires_relocation op = requires_relocation op0"
    by (simp_all add: op0(2) retarget_def)
  have planned: "planned cfg (of_type Video files) (of_type Subtitle files) op0"
    using assemble_spec [where lower = lower and eng = eng and cfg = cfg and videos = "of_type Video files"
        and subtitles = "of_type Subtitle files" and matches = matches] a op0(1)
    by (simp add: list_all_iff)
  then have files: "video_file op \<in> set files" "file_type (video_file op) = Video"
    "subtitle_file op \<in> set files" "file_type (subtitle_file op) = Subtitle"
    by (auto simp: planned_def of_type_def kept)
  then have media: "rebuildable lower fs Video (video_file op)" "rebuildable lower fs Subtitle (subtitle_file op)"
    and paths: "mf_path (video_file op) \<in> set paths" "op_source op \<in> set paths"
    using scan_rebuildable assms(2) scan_file_list_scanned
    by (metis, metis, auto simp: scanned_def dest!: scan_file_list_scanned)
  have place: "op_ok op0 \<and> parent (final_target op0) =
      (if requires_relocation op0 then parent (mf_path (video_file op0)) else parent (op_source op0))"
    by (rule plan_op_place [OF assms(1,2) a op0(1)])
  obtain d f where df: "final_target op0 = join_name d f" "plain_name f" using place by (auto elim: op_okE)
  obtain g where g: "resolve_target fs reserved claimed op0 = (join_name d g, g)" "plain_name g"
    using resolve_target_plain [OF df] by blast
  have "relocation_target_path op = cache_target cfg op"
  proof (cases "requires_relocation op0")
    case True
    then have "parent (mf_path (video_file op0)) = Some d" using place df by simp
    moreover obtain t where "relocation_target_path op0 = Some t" using planned True by (auto simp: planned_def)
    ultimately show ?thesis
      using True planned g(1) op0(2) by (simp add: cache_target_def retarget_def planned_def cached_relocates_def)
  next
    case False
    then show ?thesis using planned g(1) op0(2)
      by (auto simp: cache_target_def retarget_def planned_def cached_relocates_def)
  qed
  then show ?thesis
    using planned media paths assms(1) kept by (simp add: cacheable_def planned_def cached_relocates_def)
qed

section \<open>Saving and reading back\<close>

lemma save_cache_content:
  assumes "fault (m_os m) = (\<lambda>_ _. None)" "get_cache_file_path m = Inr cp"
  shows "save_file_list_cache m key ops fs = (Inr (), fs(cp \<mapsto> m_to_json m (cache_data m key ops fs)))"
  using assms by (simp add: save_file_list_cache_def create_dir_all_def create_file_def write_all_def sys_def
      io_simps Let_def)

lemma fold_path_cong:
  "(\<And>p. p \<in> set ps \<Longrightarrow> f p = g p) \<Longrightarrow> fold f ps = fold g ps"
  by (induction ps) auto

lemma cache_key_cong:
  assumes "fault (m_os m) = (\<lambda>_ _. None)" "m_os m' = m_os m" "m_modified m' = m_modified m"
    and "m_key_hash m' = m_key_hash m" "calculate_config_hash m' = calculate_config_hash m"
    and "\<And>p. p \<in> set paths \<Longrightarrow> fs' p = fs p \<and> m_modified m p fs' = m_modified m p fs"
  shows "calculate_file_list_cache_key m' paths fs' = calculate_file_list_cache_key m paths fs"
proof -
  have "canonical_or_self m' p fs' = canonical_or_self m p fs" for p
    using assms(1,2) by (simp add: canonical_or_self_def canonicalize_def sys_def io_simps)
  moreover have "metadata_of m' p fs' = metadata_of m p fs" if "p \<in> set paths" for p
    unfolding metadata_of_def assms(2,3) using assms(1) assms(6) [OF that] by (simp split: option.split)
  ultimately have "path_metadata m' paths fs' = path_metadata m paths fs"
    unfolding path_metadata_def by (intro fun_cong [OF fold_path_cong]) (simp cong: sum.case_cong)
  then show ?thesis using assms(4,5) by (simp add: calculate_file_list_cache_key_def)
qed

lemma cacheable_cong:
  assumes "cacheable lower cfg fs op" "fs' (mf_path (video_file op)) = fs (mf_path (video_file op))"
    and "fs' (op_source op) = fs (op_source op)" "cfg_relocation_mode cfg' = cfg_relocation_mode cfg"
  shows "cacheable lower cfg' fs' op"
  using assms by (simp add: cacheable_def rebuildable_def cache_target_def cached_relocates_def)

text \<open>What one call with an empty cache leaves behind.\<close>

lemma audit_miss:
  assumes "match_file_list_with_audit m paths fs = (Returns (Inr audit), fs')"
    and "check_file_list_cache m (calculate_file_list_cache_key m paths fs) fs = Returns (Inr None)"
    and "files = scan_file_list (m_lower m) (m_ids m) fs 0 paths"
    and "of_type Video files \<noteq> []" "of_type Subtitle files \<noteq> []"
  shows "\<exists>matches. plan_answer (m_lower m) (m_regex m) (m_config m) fs (of_type Video files) (of_type Subtitle files)
        matches = Returns (ma_operations audit, ma_rejected audit)
    \<and> save_file_list_cache m (calculate_file_list_cache_key m paths fs) (ma_operations audit) fs = (Inr (), fs')"
  using assms
  by (auto simp: match_file_list_with_audit_def Let_def split: run.splits sum.splits prod.splits if_splits)

section \<open>Snapshots and replays\<close>

lemma snapshot_loop_iff:
  assumes "\<And>p. p \<in> set ps \<Longrightarrow> plain_path (canonical_or_self m p fs)"
  shows "it \<in> set (snapshot_loop m fs seen ps) \<longleftrightarrow>
    (\<exists>p \<in> set ps. path_display (canonical_or_self m p fs) \<notin> set seen
       \<and> (\<exists>meta. metadata_of m (canonical_or_self m p fs) fs = Inr meta
            \<and> it = snapshot_item (m_lower m) (canonical_or_self m p fs) meta))"
  using assms
proof (induction ps arbitrary: seen)
  case (Cons p ps)
  define k where "k q = path_display (canonical_or_self m q fs)" for q
  define P where "P q \<longleftrightarrow> (\<exists>meta. metadata_of m (canonical_or_self m q fs) fs = Inr meta
    \<and> it = snapshot_item (m_lower m) (canonical_or_self m q fs) meta)" for q
  have ih: "it \<in> set (snapshot_loop m fs seen ps) \<longleftrightarrow> (\<exists>q \<in> set ps. k q \<notin> set seen \<and> P q)" for seen
    using Cons by (simp add: k_def P_def)
  have same: "P q = P p" if "q \<in> set ps" "k q = k p" for q
  proof -
    have "canonical_or_self m q fs = canonical_or_self m p fs"
      using that Cons.prems path_roundtrip unfolding k_def by (metis list.set_intros)
    then show ?thesis by (simp add: P_def)
  qed
  have "it \<in> set (snapshot_loop m fs seen (p # ps)) \<longleftrightarrow>
      (if k p \<in> set seen then it \<in> set (snapshot_loop m fs seen ps)
       else P p \<or> it \<in> set (snapshot_loop m fs (k p # seen) ps))"
    by (auto simp: Let_def k_def P_def split: sum.split)
  also have "\<dots> \<longleftrightarrow> (\<exists>q \<in> set (p # ps). k q \<notin> set seen \<and> P q)"
    unfolding ih using same by auto
  finally show ?case by (simp add: k_def P_def)
qed simp

text \<open>The files of a plan, canonical, that could be read when it was cached.\<close>

definition plan_files :: "MatchOperation list \<Rightarrow> path list" where
  "plan_files ops = concat (map (\<lambda>op. [mf_path (video_file op), op_source op]) ops)"

text \<open>A file with the size and the second of modification it had.\<close>

definition unchanged :: "matcher \<Rightarrow> files \<Rightarrow> files \<Rightarrow> path \<Rightarrow> bool" where
  "unchanged m fs fs' c \<longleftrightarrow>
     (case metadata_of m c fs of
        Inl _ \<Rightarrow> True
      | Inr (size0, t0) \<Rightarrow>
          (case metadata_of m c fs' of Inl _ \<Rightarrow> False | Inr (size1, t1) \<Rightarrow> size1 = size0 \<and> mtime_secs t1 = mtime_secs t0))"

lemma stale_snapshot_item:
  assumes "plain_path c" "metadata_of m c fs = Inr meta"
  shows "stale_item m fs' (snapshot_item lower c meta) = None \<longleftrightarrow> unchanged m fs fs' c"
proof -
  have "path_display c \<noteq> []"
    using assms(1) path_roundtrip [OF assms(1)] by (auto simp: plain_path_def path_of_def)
  then show ?thesis
    using assms(2) path_roundtrip [OF assms(1)]
    by (auto simp: stale_item_def snapshot_item_def unchanged_def split: sum.split prod.split)
qed

lemma cached_target_final:
  assumes "cacheable lower cfg fs op" "op_ok op"
  shows "cached_target (cfg_relocation_mode cfg \<noteq> NoRelocation) (op_item op) = Some (final_target op)"
proof -
  have paths: "path_of (oi_video_file (op_item op)) = mf_path (video_file op)"
    "path_of (oi_subtitle_file (op_item op)) = op_source op"
    using assms(1) by (simp_all add: cacheable_def op_item_def path_roundtrip)
  obtain v s where d: "parent (mf_path (video_file op)) = Some v" "parent (op_source op) = Some s"
    using assms(1) plain_path_parent unfolding cacheable_def by meson
  have "relocation_target_path op = cache_target cfg op" using assms(1) by (simp add: cacheable_def)
  then show ?thesis
    using d paths by (simp add: cached_target_def final_target_def cache_target_def cached_relocates_def)
      (simp add: op_item_def)
qed

lemma relocates_debug: "relocation_debug mode \<notin> {[], ''None''} \<longleftrightarrow> mode \<noteq> NoRelocation"
  by (cases mode) (simp_all add: relocation_debug_def)

lemma map_filter_empty: "List.map_filter f xs = [] \<longleftrightarrow> (\<forall>x \<in> set xs. f x = None)"
  by (induction xs) (auto simp: List.map_filter_simps split: option.split)

section \<open>Properties\<close>

text \<open>
  C32.  A plan is replayed from the cache as it was made.  After a call that missed the cache and planned
  successfully, a second call on the same files returns the same operations, up to the fresh ids of
  the files, with no rejected candidates and without consulting the AI service, whose answer may
  have changed altogether; and it does so for every configuration with the same relocation mode and
  backup flag, whatever its confidence threshold, so that operations below a raised threshold are
  replayed too.
\<close>

theorem cached_plan_replayed:
  assumes "match_file_list_with_audit m paths fs = (Returns (Inr audit), fs')"
    and "check_file_list_cache m (calculate_file_list_cache_key m paths fs) fs = Returns (Inr None)"
    and "data = cache_data m (calculate_file_list_cache_key m paths fs) (ma_operations audit) fs"
    and "fault (m_os m) = (\<lambda>_ _. None)" "m_of_json m (m_to_json m data) = Some data"
    and "get_cache_file_path m = Inr cp" "cp \<notin> set paths" "\<forall>p \<in> set paths. plain_path p"
    and "\<forall>p \<in> set paths. m_modified m p fs' = m_modified m p fs"
    and "cfg_relocation_mode cfg = cfg_relocation_mode (m_config m)" "backup_enabled cfg = backup_enabled (m_config m)"
  shows "\<exists>ops. match_file_list_with_audit (m\<lparr>m_ai := ai, m_ids := ids, m_config := cfg\<rparr>) paths fs'
      = (Returns (Inr \<lparr>ma_operations = ops, ma_rejected = []\<rparr>), fs')
    \<and> map forget_ids ops = map forget_ids (ma_operations audit)"
proof -
  let ?m = "m\<lparr>m_ai := ai, m_ids := ids, m_config := cfg\<rparr>"
  let ?files = "scan_file_list (m_lower m) (m_ids m) fs 0 paths"
  let ?files' = "scan_file_list (m_lower m) ids fs' 0 paths"
  let ?key = "calculate_file_list_cache_key m paths fs"
  show ?thesis
  proof (cases "of_type Video ?files = [] \<or> of_type Subtitle ?files = []")
    case True
    then have first: "audit = \<lparr>ma_operations = [], ma_rejected = []\<rparr>" "fs' = fs"
      using assms(1) by (auto simp: match_file_list_with_audit_def Let_def)
    have "of_type Video ?files' = [] \<or> of_type Subtitle ?files' = []"
      using True unfolding of_type_empty first(2) by (metis scan_types)
    then show ?thesis using first by (simp add: match_file_list_with_audit_def Let_def)
  next
    case False
    obtain matches where plan: "plan_answer (m_lower m) (m_regex m) (m_config m) fs (of_type Video ?files)
        (of_type Subtitle ?files) matches = Returns (ma_operations audit, ma_rejected audit)"
      and saved: "save_file_list_cache m ?key (ma_operations audit) fs = (Inr (), fs')"
      using audit_miss [OF assms(1,2) refl] False by blast
    have fs': "fs' = fs(cp \<mapsto> m_to_json m data)"
      using saved save_cache_content [OF assms(4,6)] by (simp add: assms(3))
    have same: "fs' p = fs p" if "p \<in> set paths" for p using that assms(7) fs' by auto
    have key: "calculate_file_list_cache_key ?m paths fs' = ?key"
      by (rule cache_key_cong) (use assms(4,9-11) same in \<open>simp_all add: calculate_config_hash_def\<close>)
    have "list_all (cacheable (m_lower m) cfg fs') (ma_operations audit)"
      unfolding list_all_iff
    proof
      fix op assume "op \<in> set (ma_operations audit)"
      from plan_cacheable [OF assms(8) refl plan this] same assms(10)
      show "cacheable (m_lower m) cfg fs' op" by (blast intro: cacheable_cong)
    qed
    then obtain ops where ops: "rebuild ?m fs' 0 (map op_item (ma_operations audit)) = Returns (Inr ops)"
      "map forget_ids ops = map forget_ids (ma_operations audit)"
      using rebuild_cacheable [of ?m fs' "ma_operations audit" 0] assms(4) by auto
    have "cache_load ?m cp fs' = Some data"
      using assms(4,5) fs' by (simp add: cache_load_def read_to_string_def sys_def)
    moreover have "get_cache_file_path ?m = Inr cp"
      using assms(6) by (simp add: get_cache_file_path_def cong: option.case_cong)
    ultimately have "check_file_list_cache ?m ?key fs' = Returns (Inr (Some ops))"
      using ops(1)
      by (simp add: check_file_list_cache_def assms(3) cache_data_def is_cache_version_current_def)
    moreover have "of_type Video ?files' \<noteq> []" "of_type Subtitle ?files' \<noteq> []"
      using False scan_types [of "m_lower m" ids fs 0 paths "m_ids m" 0] scan_cong [of paths fs fs'] same
      unfolding of_type_empty by auto
    ultimately show ?thesis using ops(2) by (simp add: match_file_list_with_audit_def Let_def key)
  qed
qed

definition demo_matcher :: "(str \<Rightarrow> CacheData option) \<Rightarrow> matcher" where
  "demo_matcher of_json =
     \<lparr>m_os = good_os, m_config = demo_config CopyMode AutoRename, m_lower = ascii_lower,
      m_regex = ref_engine [], m_ids = (\<lambda>n. show_nat n), m_modified = (\<lambda>_ _. Some 0), m_now = 0,
      m_xdg = Some (path_of ''/cfg''), m_platform = None, m_config_hash = (\<lambda>_. ''h''),
      m_key_hash = (\<lambda>_. ''k''), m_to_json = (\<lambda>_. ''json''), m_of_json = of_json,
      m_ai = (\<lambda>_. Inr [demo_match])\<rparr>"

lemma demo_matcher_simps [simp]:
  "m_os (demo_matcher f) = good_os" "m_config (demo_matcher f) = demo_config CopyMode AutoRename"
  "m_lower (demo_matcher f) = ascii_lower" "m_regex (demo_matcher f) = ref_engine []"
  "m_ids (demo_matcher f) = (\<lambda>n. show_nat n)" "m_modified (demo_matcher f) = (\<lambda>_ _. Some 0)"
  "m_to_json (demo_matcher f) = (\<lambda>_. ''json'')" "m_of_json (demo_matcher f) = f"
  "m_ai (demo_matcher f) = (\<lambda>_. Inr [demo_match])" "m_key_hash (demo_matcher f) = (\<lambda>_. ''k'')"
  by (simp_all add: demo_matcher_def)

lemma good_os_faultless: "fault good_os = (\<lambda>_ _. None)"
  by (simp add: good_os_def)

definition demo_cache :: path where
  "demo_cache = path_of ''/cfg/subx/match_cache.json''"

lemma demo_cache_path: "get_cache_file_path (demo_matcher f) = Inr demo_cache"
proof -
  have "config_join (path_of ''/cfg'') ''match_cache.json'' = demo_cache" by code_simp
  then show ?thesis by (simp add: get_cache_file_path_def demo_matcher_def)
qed

lemma demo_cache_free: "demo_disk demo_cache = None" "demo_cache \<notin> set demo_paths"
  by (simp_all add: demo_disk_def demo_paths_def) code_simp+

lemma demo_miss: "check_file_list_cache (demo_matcher f) key demo_disk = Returns (Inr None)"
  using demo_cache_free demo_cache_path [of f]
  by (simp add: check_file_list_cache_def cache_load_def read_to_string_def sys_def)

lemma demo_first_plan:
  "match_file_list_with_audit (demo_matcher f) demo_paths demo_disk
     = (Returns (Inr \<lparr>ma_operations = [demo_planned_op], ma_rejected = []\<rparr>), demo_disk(demo_cache \<mapsto> ''json''))"
proof -
  have ne: "of_type Video demo_scan \<noteq> []" "of_type Subtitle demo_scan \<noteq> []" by code_simp+
  have "save_file_list_cache (demo_matcher f) key ops demo_disk = (Inr (), demo_disk(demo_cache \<mapsto> ''json''))" for key ops
    using save_cache_content [OF _ demo_cache_path [of f]] good_os_faultless by simp
  then show ?thesis
    using ne demo_plan demo_miss [of f]
    by (simp add: match_file_list_with_audit_def Let_def) (simp add: demo_config_def)
qed

lemma snapshot_json: "snapshot_loop (m\<lparr>m_of_json := f\<rparr>) fs seen ps = snapshot_loop m fs seen ps"
proof (induction ps arbitrary: seen)
  case (Cons p ps)
  have "canonical_or_self (m\<lparr>m_of_json := f\<rparr>) p fs = canonical_or_self m p fs"
    "metadata_of (m\<lparr>m_of_json := f\<rparr>) q fs = metadata_of m q fs" for q
    by (simp_all add: canonical_or_self_def metadata_of_def cong: option.case_cong)
  then show ?case by (simp add: Let_def Cons.IH cong: sum.case_cong)
qed simp

lemma cache_data_json: "cache_data (demo_matcher f) key ops fs = cache_data (demo_matcher (\<lambda>_. None)) key ops fs"
proof -
  have "demo_matcher f = (demo_matcher (\<lambda>_. None))\<lparr>m_of_json := f\<rparr>" by (simp add: demo_matcher_def)
  then show ?thesis by (simp add: cache_data_def snapshot_json calculate_config_hash_def)
qed

lemma demo_key: "calculate_file_list_cache_key (demo_matcher f) paths fs = ''filelist_k''"
  by (simp add: calculate_file_list_cache_key_def)

lemma cached_plan_replayed_witness:
  "\<exists>data. \<exists>ops. match_file_list_with_audit ((demo_matcher (\<lambda>_. Some data))\<lparr>m_ai := (\<lambda>_. Inl (AiService ''down'')),
        m_ids := (\<lambda>n. ''x'' @ show_nat n), m_config := (demo_config CopyMode AutoRename)\<lparr>confidence_threshold := 2\<rparr>\<rparr>)
      demo_paths (demo_disk(demo_cache \<mapsto> ''json''))
      = (Returns (Inr \<lparr>ma_operations = ops, ma_rejected = []\<rparr>), demo_disk(demo_cache \<mapsto> ''json''))
    \<and> map forget_ids ops = [forget_ids demo_planned_op]"
proof -
  define data where "data = cache_data (demo_matcher (\<lambda>_. None)) ''filelist_k'' [demo_planned_op] demo_disk"
  let ?m = "demo_matcher (\<lambda>_. Some data)"
  note first = demo_first_plan [of "\<lambda>_. Some data"]
  have "\<exists>ops. match_file_list_with_audit (?m\<lparr>m_ai := (\<lambda>_. Inl (AiService ''down'')),
        m_ids := (\<lambda>n. ''x'' @ show_nat n), m_config := (demo_config CopyMode AutoRename)\<lparr>confidence_threshold := 2\<rparr>\<rparr>)
      demo_paths (demo_disk(demo_cache \<mapsto> ''json''))
      = (Returns (Inr \<lparr>ma_operations = ops, ma_rejected = []\<rparr>), demo_disk(demo_cache \<mapsto> ''json''))
    \<and> map forget_ids ops = map forget_ids (ma_operations \<lparr>ma_operations = [demo_planned_op], ma_rejected = []\<rparr>)"
  proof (rule cached_plan_replayed [OF first demo_miss _ _ _ demo_cache_path])
    show "data = cache_data ?m (calculate_file_list_cache_key ?m demo_paths demo_disk)
        (ma_operations \<lparr>ma_operations = [demo_planned_op], ma_rejected = []\<rparr>) demo_disk"
      unfolding data_def demo_key by (simp only: MatchAudit.select_convs) (rule cache_data_json [symmetric])
    show "fault (m_os ?m) = (\<lambda>_ _. None)" by (simp add: good_os_faultless)
    show "\<forall>p \<in> set demo_paths. plain_path p"
      by (simp add: demo_paths_def demo_path_def plain_path_def plain_name_def)
  qed (simp_all add: demo_cache_free demo_config_def)
  moreover have "map forget_ids (ma_operations \<lparr>ma_operations = [demo_planned_op], ma_rejected = []\<rparr>)
      = [forget_ids demo_planned_op]" by simp
  ultimately show ?thesis by (metis (no_types, lifting))
qed


text \<open>
   A snapshot is stale exactly when a file changed: validating the snapshot of a saved plan finds
  nothing if and only if every file of the plan that could be read when it was cached still has the
  size and the second of modification it had then.
\<close>

theorem snapshot_detects_changes:
  assumes "\<forall>p \<in> set (plan_files ops). plain_path (canonical_or_self m p fs)"
  shows "validate_snapshot m fs' (cache_data m key ops fs) = []
    \<longleftrightarrow> (\<forall>p \<in> set (plan_files ops). unchanged m fs fs' (canonical_or_self m p fs))"
proof -
  let ?c = "\<lambda>p. canonical_or_self m p fs"
  have "validate_snapshot m fs' (cache_data m key ops fs) = []
      \<longleftrightarrow> (\<forall>it \<in> set (snapshot_loop m fs [] (plan_files ops)). stale_item m fs' it = None)"
    by (simp add: validate_snapshot_def map_filter_empty cache_data_def plan_files_def)
  also have "\<dots> \<longleftrightarrow> (\<forall>p \<in> set (plan_files ops). \<forall>meta. metadata_of m (?c p) fs = Inr meta \<longrightarrow>
      stale_item m fs' (snapshot_item (m_lower m) (?c p) meta) = None)"
    using snapshot_loop_iff [of "plan_files ops" m fs _ "[]"] assms by auto
  also have "\<dots> \<longleftrightarrow> (\<forall>p \<in> set (plan_files ops). unchanged m fs fs' (?c p))"
  proof (rule ball_cong [OF refl])
    fix p assume p: "p \<in> set (plan_files ops)"
    show "(\<forall>meta. metadata_of m (?c p) fs = Inr meta \<longrightarrow>
        stale_item m fs' (snapshot_item (m_lower m) (?c p) meta) = None) \<longleftrightarrow> unchanged m fs fs' (?c p)"
    proof (cases "metadata_of m (?c p) fs")
      case (Inl e)
      then show ?thesis by (simp add: unchanged_def)
    next
      case (Inr meta)
      then show ?thesis using stale_snapshot_item [OF _ Inr] assms p by simp
    qed
  qed
  finally show ?thesis .
qed

lemma snapshot_detects_changes_witness:
  "validate_snapshot (demo_matcher (\<lambda>_. None)) (demo_disk(demo_path ''a.srt'' \<mapsto> ''longer''))
     (cache_data (demo_matcher (\<lambda>_. None)) ''k'' [demo_planned_op] demo_disk) \<noteq> []"
proof -
  let ?m = "demo_matcher (\<lambda>_. None)"
  have c: "canonical_or_self ?m p fs = p" for p fs
    by (simp add: canonical_or_self_def canonicalize_def sys_def io_simps good_os_def)
  have files: "set (plan_files [demo_planned_op]) = {demo_path ''m.mkv'', demo_path ''a.srt''}"
    by (simp add: plan_files_def demo_planned_op_def)
  have "\<forall>p \<in> set (plan_files [demo_planned_op]). plain_path (canonical_or_self ?m p demo_disk)"
    unfolding files c by (simp add: demo_path_def plain_path_def plain_name_def)
  from snapshot_detects_changes [OF this, of "demo_disk(demo_path ''a.srt'' \<mapsto> ''longer'')" "''k''"]
  show ?thesis
    unfolding files c by (simp add: unchanged_def metadata_of_def good_os_faultless demo_disk_def demo_path_def)
qed

text \<open>
   The two ways of rebuilding operations agree: whenever the lookup of a plan returns operations or
  an error, replaying the same cache file under the same configuration does as well.  The lookup may
  panic where the replay does not, on a path without a file name or a parent.
\<close>

theorem replay_agrees_with_lookup:
  assumes "rebuild m fs n items = Returns r"
  shows "reconstruct m (m_config m) fs n items = r"
  using assms
proof (induction items arbitrary: n r)
  case (Cons it items)
  then show ?case
    by (auto simp: Let_def cons_run_def simp del: add_2_eq_Suc' split: sum.splits if_splits option.splits run.splits prod.splits)
qed simp

lemma replay_agrees_with_lookup_witness:
  "\<exists>ops. reconstruct (demo_matcher (\<lambda>_. None)) (demo_config CopyMode AutoRename) demo_disk 0 [op_item demo_planned_op]
     = Inr ops \<and> map forget_ids ops = [forget_ids demo_planned_op]"
proof -
  let ?m = "demo_matcher (\<lambda>_. None)"
  have "cacheable ascii_lower (demo_config CopyMode AutoRename) demo_disk demo_planned_op"
    using plan_cacheable [OF _ refl demo_plan, of demo_planned_op]
    by (simp add: demo_paths_def demo_path_def plain_path_def plain_name_def)
  then obtain ops where ops: "rebuild ?m demo_disk 0 (map op_item [demo_planned_op]) = Returns (Inr ops)"
    "map forget_ids ops = map forget_ids [demo_planned_op]"
    using rebuild_cacheable [of ?m demo_disk "[demo_planned_op]" 0] by (auto simp: good_os_faultless)
  from replay_agrees_with_lookup [OF ops(1)] ops(2) show ?thesis by simp
qed

text \<open>
   A fresh plan has no target conflicts: the target check of the cache, run on the saved plan before
  the files change, computes for every operation the target the plan has and reports none of them,
  because unique targets were allocated.
\<close>

theorem fresh_plan_has_no_conflicts:
  assumes "\<forall>p \<in> set paths. plain_path p" "files = scan_file_list lower ids fs 0 paths"
    and "assemble lower eng (m_config m) (of_type Video files) (of_type Subtitle files) matches = Returns (ops0, rejected)"
    and "\<forall>op \<in> set ops0. enough_counters fs (map final_target ops0) (length ops0) op"
    and "ops = apply_unique_target_paths fs ops0"
  shows "validate_target_paths fs (cache_data m key ops fs) = []"
proof -
  have plan: "plan_answer lower eng (m_config m) fs (of_type Video files) (of_type Subtitle files) matches
      = Returns (ops, rejected)"
    using assms(3,5) by (simp add: plan_answer_def)
  note settled = unique_targets_spec [OF assms(4), folded assms(5)]
  have "cached_target (cfg_relocation_mode (m_config m) \<noteq> NoRelocation) (op_item op) = Some (final_target op)
      \<and> path_of (oi_subtitle_file (op_item op)) = op_source op
      \<and> (fs (final_target op) = None \<or> final_target op = op_source op)" if mem: "op \<in> set ops" for op
  proof -
    obtain i where i: "i < length ops" "ops ! i = op" using mem unfolding in_set_conv_nth by blast
    then have s: "settled_on fs (ops0 ! i) op" using settled by auto
    note c = plan_cacheable [OF assms(1,2) plan mem]
    have "path_of (oi_subtitle_file (op_item op)) = op_source op"
      using c by (simp add: cacheable_def op_item_def path_roundtrip)
    then show ?thesis using cached_target_final s c by (auto simp: settled_on_def)
  qed
  then show ?thesis
    by (auto simp: validate_target_paths_def cache_data_def map_filter_empty Let_def relocates_debug [simplified])
qed

lemma fresh_plan_has_no_conflicts_witness:
  "validate_target_paths demo_disk (cache_data (demo_matcher (\<lambda>_. None)) ''k''
     (apply_unique_target_paths demo_disk [demo_planned_op]) demo_disk) = []"
proof (rule fresh_plan_has_no_conflicts [OF _ refl _ _ refl])
  show "\<forall>p \<in> set demo_paths. plain_path p"
    by (simp add: demo_paths_def demo_path_def plain_path_def plain_name_def)
  show "assemble ascii_lower (ref_engine []) (m_config (demo_matcher (\<lambda>_. None))) (of_type Video demo_scan)
      (of_type Subtitle demo_scan) [demo_match] = Returns ([demo_planned_op], [])"
    unfolding demo_matcher_simps by code_simp
  have "op_ok demo_planned_op" by (simp add: op_ok_def demo_planned_op_def plain_name_def)
  moreover have "start_counter (existing_counter demo_planned_op) = 2" by code_simp
  moreover have "finite (dom demo_disk)" "card (dom demo_disk) = 2"
    by (simp_all add: demo_disk_def demo_path_def)
  ultimately show "\<forall>op \<in> set [demo_planned_op]. enough_counters demo_disk (map final_target [demo_planned_op])
      (length [demo_planned_op]) op"
    by (simp add: enough_counters_def)
qed

end
