(* ===== verification/File_Manager.thy ===== *)
theory File_Manager
  imports File_Tasks
begin

text \<open>
  The file manager of \<open>src/core/file_manager.rs\<close>: a list of the operations made, and its rollback.
  The reporter's warnings are the list of messages a call emits.
\<close>

datatype FileOperation = Created path | Removed path

type_synonym manager = "FileOperation list"

definition record_creation :: "path \<Rightarrow> manager \<Rightarrow> manager" where
  "record_creation p ops = ops @ [Created p]"

definition manager_remove_file :: "os \<Rightarrow> path \<Rightarrow> manager \<Rightarrow> files \<Rightarrow> unit res \<times> manager \<times> files" where
  "manager_remove_file os p ops fs =
     (if fs p = None then (Inl (FileNotFound (path_display p)), ops, fs)
      else
        (case remove_file os p fs of
           (Inl e, fs') \<Rightarrow> (Inl (FileOperationFailed (io_text e)), ops, fs')
         | (Inr _, fs') \<Rightarrow> (Inr (), ops @ [Removed p], fs')))"

definition restore_warning :: str where
  "restore_warning = ''Warning: Cannot restore removed file (backup not implemented)''"

text \<open>The loop of \<open>rollback\<close> over the drained operations, newest first, with the warnings it emits.\<close>

fun rollback_loop :: "os \<Rightarrow> FileOperation list \<Rightarrow> files \<Rightarrow> (unit res \<times> str list) \<times> files" where
  "rollback_loop os [] fs = ((Inr (), []), fs)"
| "rollback_loop os (Created p # ops) fs =
     (if fs p = None then rollback_loop os ops fs
      else
        (case remove_file os p fs of
           (Inl e, fs') \<Rightarrow> ((Inl (FileOperationFailed (io_text e)), []), fs')
         | (Inr _, fs') \<Rightarrow> rollback_loop os ops fs'))"
| "rollback_loop os (Removed p # ops) fs =
     (case rollback_loop os ops fs of
        ((r, ws), fs') \<Rightarrow> ((r, restore_warning # ws), fs'))"

text \<open>\<open>drain\<close> empties the list of operations however the loop ends.\<close>

definition rollback :: "os \<Rightarrow> manager \<Rightarrow> files \<Rightarrow> (unit res \<times> str list) \<times> manager \<times> files" where
  "rollback os ops fs = (let (r, fs') = rollback_loop os (rev ops) fs in (r, [], fs'))"

definition operation_count :: "manager \<Rightarrow> nat" where
  "operation_count ops = length ops"

section \<open>Lemmas\<close>

definition created_paths :: "manager \<Rightarrow> path set" where
  "created_paths ops = {p. Created p \<in> set ops}"

lemma created_paths_simps [simp]:
  "created_paths [] = {}"
  "created_paths (Created p # ops) = insert p (created_paths ops)"
  "created_paths (Removed p # ops) = created_paths ops"
  "created_paths (rev ops) = created_paths ops"
  "created_paths (a @ b) = created_paths a \<union> created_paths b"
  by (auto simp: created_paths_def)

text \<open>Whatever fails, the loop touches created paths only, and removes all of them when it succeeds.\<close>

lemma rollback_loop_spec:
  assumes "rollback_loop os ops fs = ((r, ws), fs')"
  shows "(\<forall>p. p \<notin> created_paths ops \<longrightarrow> fs' p = fs p) \<and> (\<forall>p. fs' p = fs p \<or> fs' p = None)
    \<and> (r = Inr () \<longrightarrow> (\<forall>p \<in> created_paths ops. fs' p = None))"
  using assms
proof (induction os ops fs arbitrary: r ws fs' rule: rollback_loop.induct)
  case (2 os p ops fs)
  show ?case
  proof (cases "fs p = None \<or> fault os (CallRemove p) fs = None")
    case True
    let ?fs = "if fs p = None then fs else fs(p := None)"
    have run: "rollback_loop os ops ?fs = ((r, ws), fs')"
      using 2(3) True by (auto simp: remove_file_def sys_def split: if_splits)
    have "(\<forall>q. q \<notin> created_paths ops \<longrightarrow> fs' q = ?fs q) \<and> (\<forall>q. fs' q = ?fs q \<or> fs' q = None)
        \<and> (r = Inr () \<longrightarrow> (\<forall>q \<in> created_paths ops. fs' q = None))"
    proof (cases "fs p = None")
      case True
      then show ?thesis using 2(1) [OF True] run by simp
    next
      case False
      then have "remove_file os p fs = (Inr (), ?fs)"
        using True False by (auto simp: remove_file_def sys_def)
      from 2(2) [OF False this [symmetric] refl run] show ?thesis .
    qed
    moreover have "?fs q = (if q = p then None else fs q)" for q by auto
    ultimately show ?thesis unfolding created_paths_simps by (metis insert_iff)
  next
    case False
    then show ?thesis using 2(3) by (auto simp: remove_file_def sys_def)
  qed
next
  case (3 os p ops fs)
  then show ?case by (auto split: prod.splits)
qed simp

section \<open>Properties\<close>

text \<open>
   A rollback touches nothing but the files recorded as created: whatever system call fails, every
  other file keeps its content, the record of operations is empty afterwards, and when the rollback
  reports success none of the created files is left.
\<close>

theorem rollback_only_created:
  "case rollback os ops fs of
     ((r, ws), ops', fs') \<Rightarrow>
       ops' = [] \<and> {p. fs' p \<noteq> fs p} \<subseteq> created_paths ops \<and> dom fs' \<subseteq> dom fs
       \<and> (case r of Inr _ \<Rightarrow> created_paths ops \<inter> dom fs' = {} | Inl _ \<Rightarrow> True)"
proof -
  obtain r ws fs' where run: "rollback_loop os (rev ops) fs = ((r, ws), fs')" by (metis prod.exhaust)
  note spec = rollback_loop_spec [OF run]
  have "dom fs' \<subseteq> dom fs" using spec by (metis domIff subsetI)
  moreover have "{p. fs' p \<noteq> fs p} \<subseteq> created_paths ops" using spec by auto
  moreover have "r = Inr () \<Longrightarrow> created_paths ops \<inter> dom fs' = {}" using spec by auto
  ultimately show ?thesis using run by (simp add: rollback_def split: sum.split)
qed

text \<open>
   A removed file is not restored: after a successful removal the rollback of every history that
  starts with it succeeds or fails without bringing the content back, although the module documents
  that removed files are backed up and that a rollback returns to the exact original state.
\<close>

theorem removed_file_is_lost:
  assumes "fs p = Some content" "manager_remove_file os p ops fs = (Inr (), ops', fs')"
  shows "case rollback os ops' fs' of (_, _, fs'') \<Rightarrow> fs'' p = None"
proof -
  have gone: "fs' p = None"
    using assms by (auto simp: manager_remove_file_def remove_file_def sys_def split: option.splits if_splits)
  obtain r ws fs'' where run: "rollback_loop os (rev ops') fs' = ((r, ws), fs'')" by (metis prod.exhaust)
  have "fs'' p = None" using rollback_loop_spec [OF run] gone by metis
  then show ?thesis using run by (simp add: rollback_def)
qed

lemma removed_file_is_lost_witness:
  "snd (snd (rollback good_os [Removed (demo_path ''a.srt'')] (demo_files(demo_path ''a.srt'' := None)))) (demo_path ''a.srt'')
     = None"
proof -
  have "demo_files (demo_path ''a.srt'') = Some ''cue''" by (simp add: demo_files_def)
  moreover have "manager_remove_file good_os (demo_path ''a.srt'') [] demo_files
      = (Inr (), [Removed (demo_path ''a.srt'')], demo_files(demo_path ''a.srt'' := None))"
    using calculation by (simp add: manager_remove_file_def remove_file_def sys_def)
  ultimately show ?thesis
    using removed_file_is_lost [of demo_files "demo_path ''a.srt''" "''cue''" good_os "[]"]
    by (simp add: case_prod_beta)
qed

text \<open>
   A rollback that fails cannot be repeated: the operations were drained before the failure, so a
  second call succeeds at once and removes nothing, whatever was left.
\<close>

theorem failed_rollback_forgets:
  assumes "rollback os ops fs = ((Inl e, ws), ops', fs')"
  shows "rollback os' ops' fs' = ((Inr (), []), [], fs')"
  using assms by (auto simp: rollback_def split: prod.splits)

definition stuck_os :: os where
  "stuck_os = good_os\<lparr>fault := \<lambda>c fs. case c of
     CallRemove p \<Rightarrow> Some \<lparr>io_kind = PermissionDenied, io_text = ''denied''\<rparr> | _ \<Rightarrow> None\<rparr>"

lemma failed_rollback_forgets_witness:
  "rollback good_os [] demo_files = ((Inr (), []), [], demo_files)"
proof -
  have "rollback stuck_os [Created (demo_path ''a.srt'')] demo_files
      = ((Inl (FileOperationFailed ''denied''), []), [], demo_files)"
    by (simp add: rollback_def stuck_os_def remove_file_def sys_def demo_files_def)
  from failed_rollback_forgets [OF this] show ?thesis .
qed

end
