(* ===== verification/Translation_Prompts.thy ===== *)
theory Translation_Prompts
  imports SubX_Error Ordered_Map
begin

text \<open>
  Prompts of the subtitle translation and the parsers of the answers
  (\<open>src/services/ai/translation_prompts.rs\<close>).  The JSON library is the record \<open>json_reader\<close>: whether
  a text is a JSON value, and its reading as one of the two response structures.
\<close>

section \<open>Prompts\<close>

definition UNKNOWN_CUE_ID_ERROR_MARKER :: str where
  "UNKNOWN_CUE_ID_ERROR_MARKER = ''Translation response contained unknown cue id''"

definition TERMINOLOGY_SYSTEM_MESSAGE :: str where
  "TERMINOLOGY_SYSTEM_MESSAGE =
     ''You are a professional subtitle terminology assistant. Identify recurring proper nouns ''
     @ ''such as person names and place names that need consistent translation. Prefer established ''
     @ ''conventional translations when they exist in the target language. When coining a new ''
     @ ''translation, prefer phonetic transliteration before semantic translation, and use ''
     @ ''semantic translation only when transliteration would be misleading. Respond with strict ''
     @ ''JSON only.''"

definition TRANSLATION_SYSTEM_MESSAGE :: str where
  "TRANSLATION_SYSTEM_MESSAGE =
     ''You are a professional subtitle translator. Translate visible cue text into the requested ''
     @ ''target language while preserving meaning, tone, and the cue ID associated with each line. ''
     @ ''Use the supplied terminology map exactly when the source contains a listed term. Respond ''
     @ ''with strict JSON only.''"

definition language_lines :: "str \<Rightarrow> str option \<Rightarrow> str" where
  "language_lines target_language source_language =
     ''Target language: '' @ target_language @ [LF]
     @ (case source_language of
          Some src \<Rightarrow> ''Source language: '' @ src @ [LF]
        | None \<Rightarrow> ''Source language: auto-detect'' @ [LF])"

text \<open>An optional section of the prompt: its heading and the trimmed text.\<close>

definition prompt_section :: "str \<Rightarrow> str option \<Rightarrow> str" where
  "prompt_section heading body =
     (case body of
        None \<Rightarrow> []
      | Some b \<Rightarrow> if trim b = [] then [] else LF # heading @ [LF] @ trim b @ [LF])"

definition single_line :: "str \<Rightarrow> str" where
  "single_line t = replace_str [LF] '' '' t"

definition naming_policy :: str where
  "naming_policy =
     [LF] @ ''Naming policy:'' @ [LF]
     @ ''- If a target-language conventional translation exists for a name, use it.'' @ [LF]
     @ ''- Otherwise prefer phonetic transliteration over semantic translation.'' @ [LF]
     @ ''- Use semantic translation only when transliteration is unsuitable or would mislead.'' @ [LF]
     @ ''- Do not invent terms that do not appear in the source text.'' @ [LF]
     @ ''- Return an empty map if no proper nouns recur.'' @ [LF]"

definition terminology_format :: str where
  "terminology_format =
     [LF] @ ''Response format must be strict JSON with this shape and no additional commentary:'' @ [LF]
     @ ''{'' @ [LF, CHR 0x22] @ ''terms'' @ [CHR 0x22] @ '': ['' @ [LF] @ ''{ '' @ [CHR 0x22]
     @ ''source'' @ [CHR 0x22] @ '': '' @ [CHR 0x22] @ ''Alice'' @ [CHR 0x22] @ '', '' @ [CHR 0x22]
     @ ''target'' @ [CHR 0x22] @ '': ''
     @ [CHR 0x22, CHR 0xE6, CHR 0x84, CHR 0x9B, CHR 0xE9, CHR 0xBA, CHR 0x97, CHR 0xE7, CHR 0xB5, CHR 0xB2, CHR 0x22]
     @ '' }'' @ [LF] @ '']'' @ [LF] @ ''}'' @ [LF]"

definition build_terminology_prompt ::
    "str \<Rightarrow> str option \<Rightarrow> str list \<Rightarrow> str option \<Rightarrow> str option \<Rightarrow> str" where
  "build_terminology_prompt target_language source_language cue_texts glossary_text context_text =
     ''Extract recurring proper nouns (people, places, organizations, fictional named entities) ''
     @ ''from the subtitle text below and produce a translation map.'' @ [LF, LF]
     @ language_lines target_language source_language
     @ naming_policy
     @ prompt_section ''User glossary (authoritative, prefer these mappings):'' glossary_text
     @ prompt_section ''Additional context:'' context_text
     @ LF # ''Subtitle text (one cue per line):'' @ [LF]
     @ concat (map (\<lambda>t. ''- '' @ single_line t @ [LF]) cue_texts)
     @ terminology_format"

definition translation_task :: str where
  "translation_task =
     ''Translate each subtitle cue into the requested target language. Each cue has a unique ID ''
     @ ''that you MUST repeat in your response. Translate only human-visible text. Preserve every ''
     @ ''SUBX formatting placeholder token exactly where it appears; these placeholders represent ''
     @ ''subtitle formatting that must not be translated. Do not include timestamps.'' @ [LF, LF]"

definition terminology_section :: "(str \<times> str) list \<Rightarrow> str" where
  "terminology_section terminology =
     (if terminology = [] then []
      else
        [LF] @ ''Terminology map (use these translations exactly when the source text contains the listed ''
        @ ''term):'' @ [LF]
        @ concat (map (\<lambda>(s, t). ''- '' @ s @ '' -> '' @ t @ [LF]) terminology))"

definition translation_format :: str where
  "translation_format =
     [LF]
     @ ''Response format must be strict JSON with this shape and no additional commentary. Include ''
     @ ''every requested id exactly once and translate only the visible text:'' @ [LF] @ ''{''
     @ [LF, CHR 0x22] @ ''translations'' @ [CHR 0x22] @ '': ['' @ [LF] @ ''{ '' @ [CHR 0x22] @ ''id''
     @ [CHR 0x22] @ '': '' @ [CHR 0x22] @ ''<UUIDv7>'' @ [CHR 0x22] @ '', '' @ [CHR 0x22] @ ''text''
     @ [CHR 0x22] @ '': '' @ [CHR 0x22] @ ''<translated text>'' @ [CHR 0x22] @ '' }'' @ [LF] @ '']''
     @ [LF] @ ''}'' @ [LF]"

definition build_translation_prompt ::
    "str \<Rightarrow> str option \<Rightarrow> (str \<times> str) list \<Rightarrow> str option \<Rightarrow> str option \<Rightarrow> (str \<times> str) list \<Rightarrow> str" where
  "build_translation_prompt target_language source_language terminology glossary_text context_text cues =
     translation_task
     @ language_lines target_language source_language
     @ terminology_section terminology
     @ prompt_section ''User glossary (authoritative tone/term guidance):'' glossary_text
     @ prompt_section ''Additional context:'' context_text
     @ LF # ''Cues to translate:'' @ [LF]
     @ concat (map (\<lambda>(cid, t). ''- id: '' @ cid @ LF # ''  text: '' @ single_line t @ [LF]) cues)
     @ translation_format"

section \<open>Answers\<close>

record json_reader =
  json_value :: "str \<Rightarrow> bool"
  json_terms :: "str \<Rightarrow> str + (str \<times> str) list"
  json_translations :: "str \<Rightarrow> str + (str \<times> str) list"

definition extract_json_object :: "json_reader \<Rightarrow> str \<Rightarrow> str option" where
  "extract_json_object js response =
     (case find_char (CHR ''{'') response of
        None \<Rightarrow> None
      | Some start \<Rightarrow>
          (case rfind_char (CHR ''}'') response of
             None \<Rightarrow> None
           | Some stop \<Rightarrow>
               if stop < start then None
               else
                 (let candidate = take (stop + 1 - start) (drop start response)
                  in if json_value js candidate then Some candidate else None)))"

definition term_step :: "(str \<times> str) list \<Rightarrow> str \<times> str \<Rightarrow> (str \<times> str) list res" where
  "term_step m e =
     (let source = trim (fst e); target = trim (snd e)
      in if source = [] \<or> target = [] then Inl (AiService ''Terminology entry has empty source or target'')
         else if source \<in> set (map fst m)
         then Inl (AiService (''Terminology response contained duplicate source term: '' @ source))
         else Inr (btree_insert source target m))"

definition parse_terminology_response :: "json_reader \<Rightarrow> str \<Rightarrow> (str \<times> str) list res" where
  "parse_terminology_response js response =
     (case extract_json_object js response of
        None \<Rightarrow> Inl (AiService ''Terminology response did not contain JSON'')
      | Some json \<Rightarrow>
          (case json_terms js json of
             Inl e \<Rightarrow> Inl (AiService (''Failed to parse terminology response: '' @ e))
           | Inr terms \<Rightarrow> fold_res term_step [] terms))"

definition unknown_cue_id_error :: "str \<Rightarrow> SubXError" where
  "unknown_cue_id_error cid = AiService (UNKNOWN_CUE_ID_ERROR_MARKER @ '': '' @ cid)"

text \<open>
  The map of an answer, by its entries in the order they are read: an identifier is inserted once
  only, so the keys of \<open>translations\<close> are also the set \<open>seen\<close>.
\<close>

definition translation_step ::
    "str list \<Rightarrow> (str \<times> str) list \<Rightarrow> str \<times> str \<Rightarrow> (str \<times> str) list res" where
  "translation_step expected_ids translations e =
     (let cid = trim (fst e)
      in if cid = [] then Inl (AiService ''Translation entry has empty cue id'')
         else if cid \<notin> set expected_ids then Inl (unknown_cue_id_error cid)
         else if cid \<in> set (map fst translations)
         then Inl (AiService (''Translation response contained duplicate cue id: '' @ cid))
         else Inr (translations @ [(cid, snd e)]))"

definition parse_translation_response_partial ::
    "json_reader \<Rightarrow> str \<Rightarrow> str list \<Rightarrow> (str \<times> str) list res" where
  "parse_translation_response_partial js response expected_ids =
     (case extract_json_object js response of
        None \<Rightarrow> Inl (AiService ''Translation response did not contain JSON'')
      | Some json \<Rightarrow>
          (case json_translations js json of
             Inl e \<Rightarrow> Inl (AiService (''Failed to parse translation response: '' @ e))
           | Inr entries \<Rightarrow> fold_res (translation_step expected_ids) [] entries))"

definition is_unknown_cue_id_error :: "SubXError \<Rightarrow> bool" where
  "is_unknown_cue_id_error err =
     (case err of AiService message \<Rightarrow> contains_str message UNKNOWN_CUE_ID_ERROR_MARKER | _ \<Rightarrow> False)"

section \<open>What the parsers accept\<close>

text \<open>The entries as the parser keeps them.\<close>

definition trimmed_ids :: "(str \<times> str) list \<Rightarrow> (str \<times> str) list" where
  "trimmed_ids es = map (\<lambda>e. (trim (fst e), snd e)) es"

definition trimmed_terms :: "(str \<times> str) list \<Rightarrow> (str \<times> str) list" where
  "trimmed_terms es = map (\<lambda>e. (trim (fst e), trim (snd e))) es"

definition answer_ok :: "str list \<Rightarrow> (str \<times> str) list \<Rightarrow> bool" where
  "answer_ok expected_ids m \<longleftrightarrow>
     distinct (map fst m) \<and> [] \<notin> set (map fst m) \<and> set (map fst m) \<subseteq> set expected_ids"

lemma translation_entries_from:
  "fold_res (translation_step ids) m es = Inr m' \<longleftrightarrow>
   m' = m @ trimmed_ids es \<and> distinct (map fst (trimmed_ids es))
   \<and> set (map fst (trimmed_ids es)) \<inter> (set (map fst m) \<union> {[]}) = {}
   \<and> set (map fst (trimmed_ids es)) \<subseteq> set ids"
proof (induction es arbitrary: m)
  case (Cons e es)
  then show ?case by (auto simp: translation_step_def Let_def trimmed_ids_def bind_res_Inr_iff)
qed (auto simp: trimmed_ids_def)

lemma translation_entries:
  "fold_res (translation_step ids) [] es = Inr m \<longleftrightarrow> m = trimmed_ids es \<and> answer_ok ids m"
  by (auto simp: translation_entries_from answer_ok_def)

lemma term_entries_from:
  "btree_ok m \<Longrightarrow> fold_res term_step m es = Inr m' \<longleftrightarrow>
   m' = btree_extend m (trimmed_terms es) \<and> distinct (map fst (trimmed_terms es))
   \<and> set (map fst (trimmed_terms es)) \<inter> (set (map fst m) \<union> {[]}) = {}
   \<and> [] \<notin> set (map snd (trimmed_terms es))"
proof (induction es arbitrary: m)
  case (Cons e es)
  have "btree_ok (btree_insert (trim (fst e)) (trim (snd e)) m)" using Cons.prems by (rule btree_insert_ok)
  note ih = Cons.IH [OF this]
  show ?case
    unfolding fold_res.simps
    by (auto simp: term_step_def Let_def trimmed_terms_def bind_res_Inr_iff ih [unfolded trimmed_terms_def]
        keys_btree_insert [unfolded set_map])
qed (auto simp: trimmed_terms_def)

lemma accepted_entries:
  "parse_translation_response_partial js response ids = Inr m \<Longrightarrow> answer_ok ids m"
  by (auto simp: parse_translation_response_partial_def translation_entries split: option.splits sum.splits)

section \<open>Properties\<close>

text \<open>
   An answer is accepted exactly when the outermost braces of it delimit a JSON object of the
  expected shape whose identifiers, trimmed, are distinct, not empty and all among those asked for;
  the result keeps the texts unchanged.
\<close>

theorem accepted_answers:
  "parse_translation_response_partial js response ids = Inr m \<longleftrightarrow>
   (\<exists>json es. extract_json_object js response = Some json \<and> json_translations js json = Inr es
      \<and> m = trimmed_ids es \<and> answer_ok ids m)"
  by (auto simp: parse_translation_response_partial_def translation_entries split: option.splits sum.splits)

text \<open>
   A terminology answer is accepted exactly when its trimmed sources are distinct and neither a
  source nor a target is empty; the result is the ordered map of the trimmed entries.
\<close>

theorem accepted_terms:
  "parse_terminology_response js response = Inr m \<longleftrightarrow>
   (\<exists>json es. extract_json_object js response = Some json \<and> json_terms js json = Inr es
      \<and> m = btree_extend [] (trimmed_terms es) \<and> distinct (map fst (trimmed_terms es))
      \<and> [] \<notin> set (map fst (trimmed_terms es)) \<union> set (map snd (trimmed_terms es)))"
  by (auto simp: parse_terminology_response_def term_entries_from split: option.splits sum.splits)

end
