(* ===== verification/Inline_Format.thy ===== *)
theory Inline_Format
  imports SubX_Error
begin

text \<open>
  Protection of inline formatting in translation (\<open>src/core/translation/engine.rs\<close>, the functions
  from \<open>ProtectedCueText\<close> on): tags are replaced by placeholders before a cue is sent to the AI
  service and put back into its answer.  Texts are their UTF-8 bytes; walking over bytes instead of
  characters makes no difference because the tags begin and end with ASCII characters.
\<close>

section \<open>Model\<close>

record ProtectedCueText =
  prompt_text :: str
  visible_text :: str
  markers :: "(str \<times> str) list"

definition html_like_tag_end :: "str \<Rightarrow> nat option" where
  "html_like_tag_end t =
     (if \<not> prefix ''<'' t then None
      else (case find_char (CHR ''>'') t of
              None \<Rightarrow> None
            | Some i \<Rightarrow> if 2 < i + 1 then Some (i + 1) else None))"

definition ass_override_tag_end :: "str \<Rightarrow> nat option" where
  "ass_override_tag_end t =
     (if \<not> prefix ''{'' t then None
      else (case find_char (CHR ''}'') t of
              None \<Rightarrow> None
            | Some i \<Rightarrow> if CHR 0x5C \<in> set (take (i + 1) t) then Some (i + 1) else None))"

definition placeholder :: "nat \<Rightarrow> nat \<Rightarrow> str" where
  "placeholder cue n = ''__SUBX_FMT_'' @ show_nat cue @ ''_'' @ show_nat n @ ''__''"

definition push_format_marker :: "nat \<Rightarrow> str \<Rightarrow> ProtectedCueText \<Rightarrow> ProtectedCueText" where
  "push_format_marker cue token c =
     (let p = placeholder cue (length (markers c))
      in c\<lparr>prompt_text := prompt_text c @ p, markers := markers c @ [(p, token)]\<rparr>)"

text \<open>A tag at the start of a text: its length.\<close>

definition tag_end :: "str \<Rightarrow> nat option" where
  "tag_end t = (case html_like_tag_end t of Some e \<Rightarrow> Some e | None \<Rightarrow> ass_override_tag_end t)"

lemma tag_end_pos: "tag_end t = Some e \<Longrightarrow> 0 < e \<and> t \<noteq> []"
  by (cases t) (auto simp: tag_end_def html_like_tag_end_def ass_override_tag_end_def split: option.splits if_splits)

text \<open>The loop over the text that remains.\<close>

function protect_from :: "nat \<Rightarrow> str \<Rightarrow> ProtectedCueText \<Rightarrow> ProtectedCueText" where
  "protect_from cue t c =
     (if t = [] then c
      else
        (case tag_end t of
           Some e \<Rightarrow> protect_from cue (drop e t) (push_format_marker cue (take e t) c)
         | None \<Rightarrow>
             protect_from cue (tl t)
               (c\<lparr>prompt_text := prompt_text c @ [hd t], visible_text := visible_text c @ [hd t]\<rparr>)))"
  by pat_completeness auto
termination
  by (relation "measure (\<lambda>(cue, t, c). length t)") (auto dest: tag_end_pos)

declare protect_from.simps [simp del]

definition protect_inline_formatting :: "str \<Rightarrow> nat \<Rightarrow> ProtectedCueText" where
  "protect_inline_formatting t cue =
     protect_from cue t \<lparr>prompt_text = [], visible_text = [], markers = []\<rparr>"

text \<open>\<open>str::matches(p).count()\<close> for a pattern that is not empty.\<close>

definition count_matches :: "str \<Rightarrow> str \<Rightarrow> nat" where
  "count_matches p s = length (split_str p s) - 1"

definition placeholder_error :: "str \<Rightarrow> SubXError" where
  "placeholder_error p =
     AiService (''Translation response must preserve formatting placeholder '' @ p @ '' exactly once'')"

fun restore_markers :: "str \<Rightarrow> (str \<times> str) list \<Rightarrow> str res" where
  "restore_markers s [] = Inr s"
| "restore_markers s ((p, token) # ms) =
     (if count_matches p s \<noteq> 1 then Inl (placeholder_error p)
      else restore_markers (replace_str p token s) ms)"

definition restore_inline_formatting :: "str \<Rightarrow> ProtectedCueText \<Rightarrow> str res" where
  "restore_inline_formatting translated c = restore_markers translated (markers c)"

section \<open>Occurrences of placeholders\<close>

definition fmt_key :: str where
  "fmt_key = ''SUBX_FMT_''"

abbreviation key_free :: "str \<Rightarrow> bool" where
  "key_free s \<equiv> \<not> sublist fmt_key s"

lemma placeholder_not_Nil [simp]: "placeholder cue n \<noteq> []"
  by (simp add: placeholder_def)

lemma show_nat_Cons: "\<exists>d ds. show_nat n = d # ds \<and> is_digit d"
  using show_nat_not_Nil [of n] list_all_digit_show_nat [of n] by (cases "show_nat n") auto

text \<open>No placeholder starts inside a text without the key, at the end or before a placeholder.\<close>

lemma no_placeholder_in_text:
  assumes "key_free s" "s \<noteq> []" "z = [] \<or> (\<exists>z'. z = placeholder cue j @ z')"
  shows "\<not> prefix (placeholder cue k) (s @ z)"
proof
  assume pre: "prefix (placeholder cue k) (s @ z)"
  obtain d ds where d: "show_nat cue = d # ds" "is_digit d" using show_nat_Cons by blast
  let ?lit = "''__SUBX_FMT_''"
  have lit: "prefix ?lit (s @ z)" using pre by (auto simp: placeholder_def prefix_def)
  have dig: "CHR ''_'' \<noteq> d" using d(2) by (auto simp: is_digit_def)
  have at: "(s @ z) ! n = placeholder cue k ! n" if "n < length (placeholder cue k)" for n
  proof -
    obtain zs where zs: "s @ z = placeholder cue k @ zs" using pre by (auto simp: prefix_def)
    show ?thesis unfolding zs using that by (simp add: nth_append)
  qed
  have p11: "placeholder cue k = ?lit @ d # ds @ ''_'' @ show_nat k @ ''__''"
    by (simp add: placeholder_def d)
  show False
  proof (cases "11 \<le> length s")
    case True
    then have "prefix ?lit s" using prefix_length_prefix [OF lit, of s] by simp
    then have "sublist fmt_key s" by (auto simp: prefix_def sublist_def fmt_key_def intro: exI [of _ "''__''"])
    then show False using assms(1) by simp
  next
    case False
    show False
    proof (cases "z = []")
      case True
      then have "length (placeholder cue k) \<le> length s" using pre prefix_length_le by fastforce
      then show False using False by (simp add: p11)
    next
      case False
      then obtain z' where z: "z = ''__'' @ z'" using assms(3) by (auto simp: placeholder_def)
      have len: "length s + 1 < length (placeholder cue k)" using \<open>\<not> 11 \<le> length s\<close> by (simp add: p11)
      have u: "placeholder cue k ! length s = CHR ''_''" "placeholder cue k ! (length s + 1) = CHR ''_''"
        using at [of "length s"] at [of "length s + 1"] len by (simp_all add: z nth_append)
      have "length s \<in> {1, 2, 3, 4, 5, 6, 7, 8, 9, 10}"
      proof -
        have "n \<in> {1, 2, 3, 4, 5, 6, 7, 8, 9, 10}" if "n \<noteq> 0" "\<not> 11 \<le> n" for n :: nat
          using that by simp presburger
        then show ?thesis using \<open>\<not> 11 \<le> length s\<close> assms(2) by (metis length_0_conv)
      qed
      then show False using u dig by (auto simp: p11)
    qed
  qed
qed

text \<open>Two placeholders of a cue are different where one is a prefix of a text starting with the other.\<close>

lemma placeholder_prefix_inj:
  assumes "prefix (placeholder cue k) (placeholder cue j @ z)"
  shows "k = j"
proof -
  let ?num = "\<lambda>n w. show_nat n @ ''__'' @ w"
  have tw: "takeWhile is_digit (?num n w) = show_nat n" for n w
    using list_all_digit_show_nat [of n]
    by (simp add: takeWhile_append2 list_all_iff) (simp add: is_digit_def)
  obtain w where "placeholder cue j @ z = placeholder cue k @ w" using assms by (auto simp: prefix_def)
  then have "?num j z = ?num k w" by (simp add: placeholder_def)
  then have "show_nat j = show_nat k" using tw by metis
  then show ?thesis by (metis dec_val_show_nat)
qed

text \<open>A text cut at placeholders: what precedes the first, and each placeholder with what follows it.\<close>

fun render :: "(nat \<Rightarrow> str) \<Rightarrow> str \<Rightarrow> (nat \<times> str) list \<Rightarrow> str" where
  "render f a [] = a"
| "render f a ((j, b) # r) = a @ f j @ render f b r"

lemma render_append: "render f (x @ a) r = x @ render f a r"
  by (cases "(f, a, r)" rule: render.cases) auto

text \<open>The pieces between the occurrences of one placeholder.\<close>

fun pieces :: "nat \<Rightarrow> (nat \<Rightarrow> str) \<Rightarrow> str \<Rightarrow> (nat \<times> str) list \<Rightarrow> str list" where
  "pieces k f a [] = [a]"
| "pieces k f a ((j, b) # r) = (if j = k then a # pieces k f b r else pieces k f (a @ f j @ b) r)"

lemma pieces_prepend: "foldr cons_head x (pieces k f a r) = pieces k f (x @ a) r"
proof (induction r arbitrary: a)
  case Nil
  then show ?case by (induction x) auto
next
  case (Cons jb r)
  obtain j b where "jb = (j, b)" by fastforce
  moreover have "foldr cons_head x (a # ps) = (x @ a) # ps" for ps by (induction x) auto
  ultimately show ?case using Cons [of "a @ f j @ b"] by simp
qed

lemma pieces_not_Nil: "pieces k f a r \<noteq> []"
  by (induction k f a r rule: pieces.induct) auto

lemma join_pieces: "join t (pieces k f a r) = render (f(k := t)) a r"
proof (induction k f a r rule: pieces.induct)
  case (2 k f a j b r)
  obtain p ps where p: "pieces k f b r = p # ps" using pieces_not_Nil by (cases "pieces k f b r") blast
  then show ?case using 2 by (auto simp: render_append)
qed simp

lemma length_pieces: "length (pieces k f a r) = Suc (count_list (map fst r) k)"
  by (induction k f a r rule: pieces.induct) auto

lemma split_skip:
  assumes "\<And>s'. suffix s' s \<Longrightarrow> s' \<noteq> [] \<Longrightarrow> \<not> prefix p (s' @ z)" "p \<noteq> []"
  shows "split_str p (s @ z) = foldr cons_head s (split_str p z)"
  using assms(1)
proof (induction s)
  case (Cons c s)
  have "\<not> prefix p (c # s @ z)" using Cons.prems [of "c # s"] by simp
  then show ?case using Cons by (simp add: split_str_step assms(2) suffix_Cons)
qed simp

text \<open>A text that stands for a tag: it has no key, and its end characters do not occur in the key.\<close>

definition tag_like :: "str \<Rightarrow> bool" where
  "tag_like t \<longleftrightarrow> t \<noteq> [] \<and> key_free t \<and> hd t \<notin> set fmt_key \<and> last t \<notin> set fmt_key"

lemma sublist_across:
  assumes "sublist u (a @ c # b)" "c \<notin> set u" "u \<noteq> []"
  shows "sublist u a \<or> sublist u b"
proof -
  obtain x y where xy: "a @ c # b = x @ u @ y" using assms(1) by (auto simp: sublist_def)
  show ?thesis
  proof (cases "length a < length x")
    case True
    then obtain v where "x = a @ c # v"
      using xy by (auto simp: append_eq_append_conv2 Cons_eq_append_conv)
    then show ?thesis using xy by (auto simp: sublist_def)
  next
    case False
    have "\<exists>v. a = x @ v \<and> v @ c # b = u @ y"
    proof -
      obtain w where "a = x @ w \<and> w @ c # b = u @ y \<or> a @ w = x \<and> c # b = w @ u @ y"
        using xy unfolding append_eq_append_conv2 by blast
      moreover have "w = []" if "a @ w = x" using that False by auto
      ultimately show ?thesis by auto
    qed
    then obtain v where v: "a = x @ v" "v @ c # b = u @ y" by blast
    then consider w where "v = u @ w" | w where "u = v @ w" "w \<noteq> []"
      unfolding append_eq_append_conv2 by (metis append_Nil2)
    then show ?thesis
    proof cases
      case 1
      then show ?thesis using v(1) by (auto simp: sublist_def)
    next
      case 2
      then have "c = hd w" using v(2) by (cases w) auto
      then show ?thesis using 2 assms(2) by auto
    qed
  qed
qed

lemma key_free_join:
  assumes "key_free a" "tag_like t" "key_free b"
  shows "key_free (a @ t @ b)"
proof
  assume sub: "sublist fmt_key (a @ t @ b)"
  obtain c ds where c: "t = c # ds" "c \<notin> set fmt_key" using assms(2) by (cases t) (auto simp: tag_like_def)
  obtain es e where e: "t = es @ [e]" "e \<notin> set fmt_key"
    using assms(2) by (cases t rule: rev_cases) (auto simp: tag_like_def)
  have ne: "fmt_key \<noteq> []" by (simp add: fmt_key_def)
  have "sublist fmt_key ((a @ es) @ e # b)" using sub e(1) by simp
  then have "sublist fmt_key (a @ es)" using sublist_across [OF _ e(2) ne] assms(3) by blast
  then have "sublist fmt_key (a @ t)" using e(1) by (metis append_assoc sublist_append_rightI sublist_order.order.trans)
  then have "sublist fmt_key ds" using sublist_across [OF _ c(2) ne, of a ds] c(1) assms(1) by blast
  then show False using assms(2) c(1) by (meson sublist_Cons_right tag_like_def)
qed

text \<open>No key begins in a placeholder after its third character.\<close>

lemma placeholder_tail:
  assumes "key_free b"
  shows "\<exists>u. placeholder cue j = ''__S'' @ u \<and> key_free (u @ b)"
proof -
  define u where "u = ''UBX_FMT_'' @ show_nat cue @ ''_'' @ show_nat j @ ''__''"
  have u: "CHR ''S'' \<notin> set u"
    using list_all_digit_show_nat [of cue] list_all_digit_show_nat [of j]
    by (auto simp: list_all_iff is_digit_def u_def)
  have "key_free (u @ b)"
  proof
    assume "sublist fmt_key (u @ b)"
    then obtain x y where xy: "u @ b = x @ fmt_key @ y" by (auto simp: sublist_def)
    have "\<not> length x < length u"
    proof
      assume "length x < length u"
      then have "(u @ b) ! length x = u ! length x" by (simp add: nth_append)
      moreover have "(u @ b) ! length x = CHR ''S''" unfolding xy by (simp add: nth_append fmt_key_def)
      ultimately show False using u nth_mem [OF \<open>length x < length u\<close>] by metis
    qed
    moreover obtain w where "u = x @ w \<and> w @ b = fmt_key @ y \<or> u @ w = x \<and> b = w @ fmt_key @ y"
      using xy unfolding append_eq_append_conv2 by blast
    ultimately obtain v where "b = v @ fmt_key @ y" by force
    then show False using assms by (auto simp: sublist_def)
  qed
  then show ?thesis by (intro exI [of _ u]) (simp add: placeholder_def u_def)
qed

lemma key_free_suffix: "suffix t s \<Longrightarrow> key_free s \<Longrightarrow> key_free t"
  by (metis suffix_imp_sublist sublist_order.order.trans)

text \<open>Splitting at the occurrences of placeholder \<open>k\<close> when lower placeholders have been replaced by tags.\<close>

definition texts :: "str \<Rightarrow> (nat \<times> str) list \<Rightarrow> str list" where
  "texts a r = a # map snd r"

lemma split_render:
  assumes "list_all key_free (texts a r)" "f k = placeholder cue k"
    and "\<forall>j. f j = placeholder cue j \<or> tag_like (f j)"
  shows "split_str (placeholder cue k) (render f a r) = pieces k f a r"
  using assms(1)
proof (induction r arbitrary: a)
  case Nil
  have "split_str (placeholder cue k) (a @ []) = foldr cons_head a (split_str (placeholder cue k) [])"
  proof (rule split_skip)
    fix s' assume "suffix s' a" "s' \<noteq> []"
    then show "\<not> prefix (placeholder cue k) (s' @ [])"
      using Nil no_placeholder_in_text [of s' "[]"] key_free_suffix [of s' a] by (simp add: texts_def)
  qed simp
  also have "\<dots> = [a]" by (induction a) auto
  finally show ?case by simp
next
  case (Cons jb r)
  obtain j b where jb: "jb = (j, b)" by fastforce
  have kf: "key_free a" "key_free b" "list_all key_free (texts b r)"
    using Cons.prems by (auto simp: texts_def jb)
  show ?case
  proof (cases "f j = placeholder cue j")
    case False
    then have t: "tag_like (f j)" using assms(3) by blast
    then have "j \<noteq> k" using assms(2) False by auto
    have "list_all key_free (texts (a @ f j @ b) r)"
      using kf key_free_join [OF kf(1) t kf(2)] by (simp add: texts_def)
    from Cons.IH [OF this] show ?thesis using \<open>j \<noteq> k\<close> by (simp add: jb render_append)
  next
    case True
    have skip: "split_str (placeholder cue k) (a @ placeholder cue j @ render f b r)
        = foldr cons_head a (split_str (placeholder cue k) (placeholder cue j @ render f b r))"
    proof (rule split_skip)
      fix s' assume "suffix s' a" "s' \<noteq> []"
      then show "\<not> prefix (placeholder cue k) (s' @ placeholder cue j @ render f b r)"
        using kf(1) no_placeholder_in_text [of s'] key_free_suffix [of s' a] by blast
    qed simp
    show ?thesis
    proof (cases "j = k")
      case True
      have "foldr cons_head a ([] # ps) = a # ps" for ps by (induction a) auto
      then show ?thesis
        using skip True Cons.IH [OF kf(3)] assms(2) by (simp add: jb split_str_sep)
    next
      case False
      obtain u where u: "placeholder cue j = ''__S'' @ u" "key_free (u @ b)"
        using placeholder_tail kf(2) by blast
      have rest: "list_all key_free (texts (u @ b) r)" using kf u by (simp add: texts_def)
      have "split_str (placeholder cue k) (''__S'' @ render f (u @ b) r)
          = foldr cons_head ''__S'' (split_str (placeholder cue k) (render f (u @ b) r))"
      proof (rule split_skip)
        fix s' assume s': "suffix s' ''__S''" "s' \<noteq> []"
        show "\<not> prefix (placeholder cue k) (s' @ render f (u @ b) r)"
        proof
          assume pre: "prefix (placeholder cue k) (s' @ render f (u @ b) r)"
          show False
          proof (cases "s' = ''__S''")
            case True
            then have "prefix (placeholder cue k) (placeholder cue j @ render f b r)"
              using pre u(1) by (simp add: render_append)
            then show False using placeholder_prefix_inj \<open>j \<noteq> k\<close> by blast
          next
            case False
            then have "s' = ''_S'' \<or> s' = ''S''" using s' by (auto simp: suffix_Cons)
            then show False using pre by (auto simp: placeholder_def)
          qed
        qed
      qed simp
      then have "split_str (placeholder cue k) (placeholder cue j @ render f b r) = pieces k f (''__S'' @ u @ b) r"
        using Cons.IH [OF rest] pieces_prepend [of "''__S''" k f "u @ b" r] u(1)
        by (simp add: render_append del: foldr.simps)
      then show ?thesis
        using skip False \<open>f j = placeholder cue j\<close> pieces_prepend [of a k f "placeholder cue j @ b" r] u(1)
        by (simp add: jb)
    qed
  qed
qed

section \<open>Restoring\<close>

lemma render_cong: "(\<And>j. j \<in> set (map fst r) \<Longrightarrow> f j = g j) \<Longrightarrow> render f a r = render g a r"
  by (induction f a r rule: render.induct) auto

lemma count_list_distinct: "distinct xs \<Longrightarrow> count_list xs x = (if x \<in> set xs then 1 else 0)"
  by (induction xs) auto

text \<open>The placeholders below \<open>k\<close> replaced by their tags.\<close>

definition replaced :: "nat \<Rightarrow> nat \<Rightarrow> (nat \<Rightarrow> str) \<Rightarrow> nat \<Rightarrow> str" where
  "replaced cue k tok j = (if j < k then tok j else placeholder cue j)"

text \<open>The result of restoring: the first placeholder that does not occur exactly once is an error.\<close>

definition restored :: "nat \<Rightarrow> nat \<Rightarrow> (nat \<Rightarrow> str) \<Rightarrow> str \<Rightarrow> (nat \<times> str) list \<Rightarrow> nat list \<Rightarrow> str res" where
  "restored cue n tok a r js =
     (case List.find (\<lambda>j. count_list (map fst r) j \<noteq> 1) js of
        Some j \<Rightarrow> Inl (placeholder_error (placeholder cue j))
      | None \<Rightarrow> Inr (render (replaced cue n tok) a r))"

lemma restore_from:
  assumes "list_all key_free (texts a r)" "\<forall>j < n. tag_like (tok j)" "k \<le> n"
  shows "restore_markers (render (replaced cue k tok) a r) (map (\<lambda>j. (placeholder cue j, tok j)) [k..<n])
    = restored cue n tok a r [k..<n]"
  using assms(3)
proof (induction k rule: inc_induct)
  case (step k)
  have "split_str (placeholder cue k) (render (replaced cue k tok) a r) = pieces k (replaced cue k tok) a r"
    by (rule split_render [OF assms(1)]) (use assms(2) step in \<open>auto simp: replaced_def\<close>)
  then have "count_matches (placeholder cue k) (render (replaced cue k tok) a r) = count_list (map fst r) k"
    and "replace_str (placeholder cue k) (tok k) (render (replaced cue k tok) a r)
      = render ((replaced cue k tok)(k := tok k)) a r"
    by (simp_all add: count_matches_def replace_str_def length_pieces join_pieces)
  moreover have "(replaced cue k tok)(k := tok k) = replaced cue (Suc k) tok"
    by (auto simp: replaced_def fun_eq_iff)
  moreover have "[k..<n] = k # [Suc k..<n]" using step by (simp add: upt_conv_Cons)
  ultimately show ?case using step.IH by (simp add: restored_def)
qed (simp add: restored_def)

section \<open>Protecting\<close>

definition bracketed :: "str \<Rightarrow> bool" where
  "bracketed t \<longleftrightarrow> t \<noteq> [] \<and> hd t \<in> {CHR ''<'', CHR ''{''} \<and> last t \<in> {CHR ''>'', CHR ''}''}"

lemma tag_end_bracketed:
  assumes "tag_end t = Some e"
  shows "bracketed (take e t)"
proof -
  obtain i c d where i: "e = i + 1" "find_char c t = Some i" "c \<in> {CHR ''>'', CHR ''}''}"
    "prefix [d] t" "d \<in> {CHR ''<'', CHR ''{''}"
    using assms
    by (auto simp: tag_end_def html_like_tag_end_def ass_override_tag_end_def split: option.splits if_splits)
  then have "i < length t" "t ! i = c" by (auto simp: find_char_Some)
  moreover have "t \<noteq> []" "hd t = d" using i(4) by (auto simp: prefix_def)
  ultimately show ?thesis using i by (simp add: bracketed_def last_conv_nth hd_take)
qed

lemma bracketed_tag_like: "bracketed t \<Longrightarrow> key_free t \<Longrightarrow> tag_like t"
  by (auto simp: bracketed_def tag_like_def fmt_key_def)

lemma protect_from_spec:
  "\<exists>a r tok. prompt_text (protect_from cue t c) = prompt_text c @ render (placeholder cue) a r
    \<and> markers (protect_from cue t c)
        = markers c @ map (\<lambda>j. (placeholder cue j, tok j)) [length (markers c)..<length (markers c) + length r]
    \<and> map fst r = [length (markers c)..<length (markers c) + length r]
    \<and> t = render tok a r \<and> (\<forall>j \<in> set (map fst r). bracketed (tok j))"
proof (induction cue t c rule: protect_from.induct)
  case (1 cue t c)
  consider "t = []" | e where "t \<noteq> []" "tag_end t = Some e" | "t \<noteq> []" "tag_end t = None" by auto
  then show ?case
  proof cases
    case 1
    then show ?thesis
      by (intro exI [of _ "[]"] exI [of _ "[]"] exI [of _ "\<lambda>_. []"]) (simp add: protect_from.simps)
  next
    case (2 e)
    let ?n = "length (markers c)"
    have "\<exists>a r tok. (prompt_text (protect_from cue (drop e t) (push_format_marker cue (take e t) c)) = prompt_text c @ placeholder cue ?n @ render (placeholder cue) a r)
      \<and> (markers (protect_from cue (drop e t) (push_format_marker cue (take e t) c)) = markers c @ [(placeholder cue ?n, take e t)] @ map (\<lambda>j. (placeholder cue j, tok j)) [Suc ?n..<Suc ?n + length r])
      \<and> (map fst r = [Suc ?n..<Suc ?n + length r])
      \<and> (drop e t = render tok a r)
      \<and> (\<forall>j \<in> set (map fst r). bracketed (tok j))"
      using "1.IH"(2) [OF 2] by (simp add: push_format_marker_def Let_def del: upt_Suc)
    then obtain a r tok where ih:
      "prompt_text (protect_from cue (drop e t) (push_format_marker cue (take e t) c))
        = prompt_text c @ placeholder cue ?n @ render (placeholder cue) a r"
      "markers (protect_from cue (drop e t) (push_format_marker cue (take e t) c))
        = markers c @ [(placeholder cue ?n, take e t)] @ map (\<lambda>j. (placeholder cue j, tok j)) [Suc ?n..<Suc ?n + length r]"
      "map fst r = [Suc ?n..<Suc ?n + length r]" "drop e t = render tok a r"
      "\<forall>j \<in> set (map fst r). bracketed (tok j)" by blast
    have new: "render (tok(?n := take e t)) a r = render tok a r"
    proof (rule render_cong)
      fix j assume "j \<in> set (map fst r)"
      then have "?n < j" unfolding ih(3) by (simp del: upt_Suc)
      then show "(tok(?n := take e t)) j = tok j" by simp
    qed
    have run: "protect_from cue t c = protect_from cue (drop e t) (push_format_marker cue (take e t) c)"
      using 2 by (simp add: protect_from.simps [of cue t])
    have up: "[?n..<?n + length ((?n, a) # r)] = ?n # [Suc ?n..<Suc ?n + length r]"
      by (simp add: upt_conv_Cons del: upt_Suc)
    have same: "map (\<lambda>j. (placeholder cue j, (tok(?n := take e t)) j)) [Suc ?n..<m]
        = map (\<lambda>j. (placeholder cue j, tok j)) [Suc ?n..<m]" for m
      by (rule map_cong) auto
    show ?thesis
    proof (intro exI conjI)
      show "prompt_text (protect_from cue t c) = prompt_text c @ render (placeholder cue) [] ((?n, a) # r)"
        by (simp add: run ih(1))
      show "markers (protect_from cue t c) = markers c @ map (\<lambda>j. (placeholder cue j, (tok(?n := take e t)) j))
          [?n..<?n + length ((?n, a) # r)]"
        using up same [of "Suc ?n + length r"] by (simp only: run ih(2) list.map fun_upd_same append_Cons append_Nil)
      show "map fst ((?n, a) # r) = [?n..<?n + length ((?n, a) # r)]"
        using up by (simp only: ih(3) list.map fst_conv)
      show "t = render (tok(?n := take e t)) [] ((?n, a) # r)"
        using ih(4) by (simp add: new) (metis append_take_drop_id)
      show "\<forall>j \<in> set (map fst ((?n, a) # r)). bracketed ((tok(?n := take e t)) j)"
        using ih(3,5) tag_end_bracketed [OF 2(2)] by auto
    qed
  next
    case 3
    let ?c = "c\<lparr>prompt_text := prompt_text c @ [hd t], visible_text := visible_text c @ [hd t]\<rparr>"
    have "\<exists>a r tok. prompt_text (protect_from cue (tl t) ?c) = prompt_text c @ hd t # render (placeholder cue) a r
      \<and> markers (protect_from cue (tl t) ?c)
        = markers c @ map (\<lambda>j. (placeholder cue j, tok j)) [length (markers c)..<length (markers c) + length r]
      \<and> map fst r = [length (markers c)..<length (markers c) + length r]
      \<and> tl t = render tok a r \<and> (\<forall>j \<in> set (map fst r). bracketed (tok j))"
      using "1.IH"(1) [OF 3] by simp
    then obtain a r tok where ih:
      "prompt_text (protect_from cue (tl t) ?c) = prompt_text c @ hd t # render (placeholder cue) a r"
      "markers (protect_from cue (tl t) ?c)
        = markers c @ map (\<lambda>j. (placeholder cue j, tok j)) [length (markers c)..<length (markers c) + length r]"
      "map fst r = [length (markers c)..<length (markers c) + length r]"
      "tl t = render tok a r" "\<forall>j \<in> set (map fst r). bracketed (tok j)"
      by blast
    have run: "protect_from cue t c = protect_from cue (tl t) ?c"
      using 3 by (simp add: protect_from.simps [of cue t])
    have cons: "render f (hd t # a) r = hd t # render f a r" for f using render_append [of f "[hd t]"] by simp
    have "t = render tok (hd t # a) r" using 3(1) ih(4) by (metis cons list.collapse)
    then show ?thesis
      unfolding run using ih(1,2,3,5) cons by (intro exI [of _ "hd t # a"] exI [of _ r] exI [of _ tok] conjI) simp_all
  qed
qed

lemma render_texts:
  assumes "x \<in> set (texts a r) \<or> (\<exists>j \<in> set (map fst r). x = f j)"
  shows "sublist x (render f a r)"
  using assms
proof (induction f a r rule: render.induct)
  case (2 f a j b r)
  consider "x = a" | "x = f j" | "x \<in> set (texts b r) \<or> (\<exists>j \<in> set (map fst r). x = f j)"
    using 2(2) by (auto simp: texts_def)
  then show ?case
  proof cases
    case 2
    then show ?thesis by (auto simp: sublist_def)
  next
    case 3
    then have "sublist x (render f b r)" by (rule "2.IH")
    moreover have "sublist (render f b r) (render f a ((j, b) # r))"
      using sublist_append_leftI [of "render f b r" "a @ f j"] by simp
    ultimately show ?thesis by (rule sublist_order.order.trans)
  qed simp
qed (simp add: texts_def)

text \<open>A protected cue: its prompt, its markers and its pieces.\<close>

lemma protected_cue:
  assumes "key_free t"
  obtains a r tok where "prompt_text (protect_inline_formatting t cue) = render (placeholder cue) a r"
    "markers (protect_inline_formatting t cue) = map (\<lambda>j. (placeholder cue j, tok j)) [0..<length r]"
    "map fst r = [0..<length r]" "t = render tok a r" "\<forall>j < length r. tag_like (tok j)"
    "list_all key_free (texts a r)"
proof -
  have "\<exists>a r tok. prompt_text (protect_inline_formatting t cue) = render (placeholder cue) a r
    \<and> markers (protect_inline_formatting t cue) = map (\<lambda>j. (placeholder cue j, tok j)) [0..<length r]
    \<and> map fst r = [0..<length r] \<and> t = render tok a r \<and> (\<forall>j \<in> set (map fst r). bracketed (tok j))"
    using protect_from_spec [of cue t "\<lparr>prompt_text = [], visible_text = [], markers = []\<rparr>"]
    unfolding protect_inline_formatting_def by simp
  then obtain a r tok where p: "prompt_text (protect_inline_formatting t cue) = render (placeholder cue) a r"
    "markers (protect_inline_formatting t cue) = map (\<lambda>j. (placeholder cue j, tok j)) [0..<length r]"
    "map fst r = [0..<length r]" "t = render tok a r" "\<forall>j \<in> set (map fst r). bracketed (tok j)"
    by blast
  have free: "key_free x" if "x \<in> set (texts a r) \<or> (\<exists>j \<in> set (map fst r). x = tok j)" for x
    using render_texts [OF that] assms p(4) sublist_order.order.trans by metis
  have "\<forall>j < length r. tag_like (tok j)"
  proof (intro allI impI)
    fix j assume "j < length r"
    then have "j \<in> set (map fst r)" by (simp add: p(3))
    then show "tag_like (tok j)" using p(5) free bracketed_tag_like by blast
  qed
  moreover have "list_all key_free (texts a r)" using free by (auto simp: list_all_iff)
  ultimately show ?thesis using that p by blast
qed

lemma protect_restore:
  assumes "key_free t"
  shows "restore_inline_formatting (prompt_text (protect_inline_formatting t cue)) (protect_inline_formatting t cue)
    = Inr t"
proof -
  obtain a r tok where p: "prompt_text (protect_inline_formatting t cue) = render (placeholder cue) a r"
    "markers (protect_inline_formatting t cue) = map (\<lambda>j. (placeholder cue j, tok j)) [0..<length r]"
    "map fst r = [0..<length r]" "t = render tok a r" "\<forall>j < length r. tag_like (tok j)"
    "list_all key_free (texts a r)" by (rule protected_cue [OF assms])
  have "render (placeholder cue) a r = render (replaced cue 0 tok) a r"
    by (rule render_cong) (simp add: replaced_def)
  then have "restore_inline_formatting (prompt_text (protect_inline_formatting t cue)) (protect_inline_formatting t cue)
      = restored cue (length r) tok a r [0..<length r]"
    using restore_from [OF p(6,5), of 0 cue] by (simp add: restore_inline_formatting_def p(1,2))
  moreover have "List.find (\<lambda>j. count_list (map fst r) j \<noteq> 1) [0..<length r] = None"
    unfolding p(3) by (simp add: find_None_iff count_list_distinct)
  moreover have "render (replaced cue (length r) tok) a r = render tok a r"
    by (rule render_cong) (simp add: p(3) replaced_def)
  ultimately show ?thesis using p(4) by (simp add: restored_def)
qed

lemma prompt_no_newline:
  "LF \<notin> set t \<Longrightarrow> LF \<notin> set (prompt_text c) \<Longrightarrow> LF \<notin> set (prompt_text (protect_from cue t c))"
proof (induction cue t c rule: protect_from.induct)
  case (1 cue t c)
  have "LF \<notin> set (placeholder cue n)" for n
    using list_all_digit_show_nat [of cue] list_all_digit_show_nat [of n]
    by (auto simp: placeholder_def list_all_iff is_digit_def)
  moreover have "t = [] \<or> LF \<noteq> hd t \<and> LF \<notin> set (tl t)" using "1.prems"(1) by (cases t) auto
  ultimately show ?case
    using 1 by (cases "t = []"; cases "tag_end t")
      (auto simp: protect_from.simps [of cue t] protect_from.simps [of cue "[]"] push_format_marker_def Let_def
        dest: in_set_dropD)
qed

section \<open>Properties\<close>

text \<open>
   Protecting a cue and restoring its own prompt gives the cue back, whatever tags it has, provided
  it does not contain the key of the placeholders itself.
\<close>

theorem protect_restore_roundtrip:
  assumes "key_free t"
  shows "restore_inline_formatting (prompt_text (protect_inline_formatting t cue)) (protect_inline_formatting t cue)
    = Inr t"
  by (rule protect_restore [OF assms])

theorem protect_restore_roundtrip_witness:
  "let t = ''<i>Hi</i> {'' @ [CHR 0x5C] @ ''i1}you''
   in restore_inline_formatting (prompt_text (protect_inline_formatting t 7)) (protect_inline_formatting t 7) = Inr t"
  unfolding Let_def by (rule protect_restore_roundtrip) code_simp



end
