(* ===== verification/Uuid_Generator.thy ===== *)
theory Uuid_Generator
  imports "HOL-Library.Word" SubX_Prelude
begin

unbundle bit_operations_syntax

text \<open>
  The UUIDv7 generator of \<open>src/core/uuidv7.rs\<close>.  The identifiers of the \<open>uuid\<close> crate and the
  sleeping of the thread are calls on a world that is an argument of the model; the loop of
  \<open>next_id\<close> may run for ever, when the clock stands still.
\<close>

section \<open>Model\<close>

type_synonym uuid = "8 word list"

record 'w uuid_world =
  now_v7 :: "'w \<Rightarrow> uuid \<times> 'w"
  sleep_ms :: "64 word \<Rightarrow> 'w \<Rightarrow> 'w"

definition byte_at :: "uuid \<Rightarrow> nat \<Rightarrow> 64 word" where
  "byte_at u i = ucast (u ! i)"

definition unix_time_ms :: "uuid \<Rightarrow> 64 word" where
  "unix_time_ms u =
     push_bit 40 (byte_at u 0) OR push_bit 32 (byte_at u 1) OR push_bit 24 (byte_at u 2)
     OR push_bit 16 (byte_at u 3) OR push_bit 8 (byte_at u 4) OR byte_at u 5"

definition saturating_sub :: "64 word \<Rightarrow> 64 word \<Rightarrow> 64 word" where
  "saturating_sub a b = (if a < b then 0 else a - b)"

definition saturating_add :: "64 word \<Rightarrow> 64 word \<Rightarrow> 64 word" where
  "saturating_add a b = (if a + b < a then - 1 else a + b)"

partial_function (option) next_id ::
    "'w uuid_world \<Rightarrow> 64 word option \<Rightarrow> 'w \<Rightarrow> (uuid \<times> 64 word option \<times> 'w) option" where
  "next_id env prev w =
     (let (u, w') = now_v7 env w; ts = unix_time_ms u
      in case prev of
           Some l \<Rightarrow>
             if ts \<le> l
             then next_id env prev (sleep_ms env (saturating_add (saturating_sub l ts) 1) w')
             else Some (u, Some ts, w')
         | None \<Rightarrow> Some (u, Some ts, w'))"

text \<open>The loop of \<open>generate_ids\<close> from a generator on.\<close>

fun generate_from ::
    "'w uuid_world \<Rightarrow> nat \<Rightarrow> 64 word option \<Rightarrow> 'w \<Rightarrow> (uuid list \<times> 'w) option" where
  "generate_from env 0 prev w = Some ([], w)"
| "generate_from env (Suc n) prev w =
     (case next_id env prev w of
        None \<Rightarrow> None
      | Some (u, prev', w') \<Rightarrow>
          map_option (\<lambda>(us, w''). (u # us, w'')) (generate_from env n prev' w'))"

definition generate_ids :: "'w uuid_world \<Rightarrow> nat \<Rightarrow> 'w \<Rightarrow> (uuid list \<times> 'w) option" where
  "generate_ids env n w = generate_from env n None w"

section \<open>The timestamp\<close>

lemma unat_byte: "unat (b :: 8 word) < 256"
  using unsigned_less [of b, where ?'a = nat] by simp

lemma unat_byte_at: "unat (byte_at u i) = unat (u ! i)"
proof -
  have "unat (u ! i) < 2 ^ 64" using unat_byte [of "u ! i"] by simp
  then show ?thesis by (simp add: byte_at_def unsigned_ucast_eq take_bit_nat_eq_self)
qed

lemma unat_push_byte:
  assumes "k \<le> 56"
  shows "unat (push_bit k (byte_at u i)) = unat (u ! i) * 2 ^ k"
proof -
  have "(2::nat) ^ k \<le> 2 ^ 56" using assms by (rule power_increasing) simp
  then have "unat (u ! i) * 2 ^ k \<le> 255 * 2 ^ 56"
    using unat_byte [of "u ! i"] by (intro mult_le_mono) simp_all
  then have "unat (u ! i) * 2 ^ k < 2 ^ 64" by simp
  then show ?thesis
    unfolding unsigned_push_bit_eq unat_byte_at by (simp add: push_bit_eq_mult take_bit_nat_eq_self)
qed

text \<open>Joining a shifted byte with a number below the shift adds them.\<close>

lemma unat_or_low:
  fixes a b :: "64 word"
  assumes "unat a = x * 2 ^ k" "unat b < 2 ^ k"
  shows "unat (a OR b) = unat a + unat b"
proof -
  have "unat a AND unat b = 0"
  proof (rule bit_eqI)
    fix n
    have "bit (unat b) n \<Longrightarrow> n < k"
      using assms(2) by (metis bit_take_bit_iff take_bit_nat_eq_self_iff)
    then show "bit (unat a AND unat b) n = bit 0 n"
      unfolding assms(1) by (auto simp: bit_and_iff push_bit_eq_mult [symmetric] bit_push_bit_iff)
  qed
  then show ?thesis by (simp add: unsigned_or_eq disjunctive_add_eq_or)
qed

text \<open>The timestamp is the big-endian number of the first six bytes.\<close>

definition be_value :: "uuid \<Rightarrow> nat" where
  "be_value u = foldl (\<lambda>n b. n * 256 + unat b) 0 (take 6 u)"

lemma unix_time_value:
  assumes "6 \<le> length u"
  shows "unat (unix_time_ms u) = be_value u"
proof -
  obtain b0 b1 b2 b3 b4 b5 us where u: "u = b0 # b1 # b2 # b3 # b4 # b5 # us"
    using assms by (auto simp: Suc_le_length_iff numeral_eq_Suc)
  have v: "unat (byte_at u 5) = unat b5" by (simp add: u unat_byte_at)
  have nth: "u ! 0 = b0" "u ! Suc 0 = b1" "u ! 2 = b2" "u ! 3 = b3" "u ! 4 = b4" by (simp_all add: u)
  note lts = unat_byte [of b0] unat_byte [of b1] unat_byte [of b2] unat_byte [of b3] unat_byte [of b4] unat_byte [of b5]
  have s: "unat (push_bit 8 (byte_at u 4) OR byte_at u 5) = unat b4 * 2 ^ 8 + unat b5"
    using unat_or_low [of "push_bit 8 (byte_at u 4)" "unat b4" 8 "byte_at u 5"] lts
    by (simp add: unat_push_byte v nth)
  have s: "unat (push_bit 16 (byte_at u 3) OR (push_bit 8 (byte_at u 4) OR byte_at u 5))
      = unat b3 * 2 ^ 16 + (unat b4 * 2 ^ 8 + unat b5)"
    using unat_or_low [of "push_bit 16 (byte_at u 3)" "unat b3" 16] s lts by (simp add: unat_push_byte v nth)
  have s: "unat (push_bit 24 (byte_at u 2) OR (push_bit 16 (byte_at u 3) OR (push_bit 8 (byte_at u 4) OR byte_at u 5)))
      = unat b2 * 2 ^ 24 + (unat b3 * 2 ^ 16 + (unat b4 * 2 ^ 8 + unat b5))"
    using unat_or_low [of "push_bit 24 (byte_at u 2)" "unat b2" 24] s lts by (simp add: unat_push_byte v nth)
  have s: "unat (push_bit 32 (byte_at u 1) OR (push_bit 24 (byte_at u 2) OR (push_bit 16 (byte_at u 3)
        OR (push_bit 8 (byte_at u 4) OR byte_at u 5))))
      = unat b1 * 2 ^ 32 + (unat b2 * 2 ^ 24 + (unat b3 * 2 ^ 16 + (unat b4 * 2 ^ 8 + unat b5)))"
    using unat_or_low [of "push_bit 32 (byte_at u 1)" "unat b1" 32] s lts by (simp add: unat_push_byte v nth)
  have "unat (unix_time_ms u)
      = unat b0 * 2 ^ 40 + (unat b1 * 2 ^ 32 + (unat b2 * 2 ^ 24 + (unat b3 * 2 ^ 16 + (unat b4 * 2 ^ 8 + unat b5))))"
    using unat_or_low [of "push_bit 40 (byte_at u 0)" "unat b0" 40] s lts
    by (simp add: unat_push_byte v nth unix_time_ms_def or.assoc)
  then show ?thesis by (simp add: u be_value_def algebra_simps)
qed

section \<open>The generator\<close>

definition good_id :: "'w uuid_world \<Rightarrow> 64 word option \<Rightarrow> uuid \<times> 64 word option \<times> 'w \<Rightarrow> bool" where
  "good_id env prev r \<longleftrightarrow>
     fst (snd r) = Some (unix_time_ms (fst r)) \<and> (prev = None \<or> the prev < unix_time_ms (fst r))
     \<and> (\<exists>v. fst r = fst (now_v7 env v))"

lemma next_id_good:
  assumes "next_id env prev w = Some r"
  shows "good_id env prev r"
  using assms
proof (rule next_id.raw_induct [where P = "\<lambda>env prev w r. good_id env prev r", rotated])
  fix rec env prev w r
  assume ih: "\<And>env prev w r. rec env prev w = Some r \<Longrightarrow> good_id env prev r"
    and body: "(let (u, w') = now_v7 env w; ts = unix_time_ms u
      in case prev of
           Some l \<Rightarrow>
             if ts \<le> l
             then rec env prev (sleep_ms env (saturating_add (saturating_sub l ts) 1) w')
             else Some (u, Some ts, w')
         | None \<Rightarrow> Some (u, Some ts, w')) = Some r"
  obtain u1 w1 where now: "now_v7 env w = (u1, w1)" by fastforce
  have u1: "\<exists>v. u1 = fst (now_v7 env v)" using now by (metis fst_conv)
  show "good_id env prev r"
  proof (cases "prev = None \<or> the prev < unix_time_ms u1")
    case True
    then have "r = (u1, Some (unix_time_ms u1), w1)"
      using body now by (auto simp: Let_def split: option.splits if_splits)
    then show ?thesis using True u1 by (simp add: good_id_def)
  next
    case False
    then obtain l where l: "prev = Some l" "unix_time_ms u1 \<le> l" by auto
    have "rec env prev (sleep_ms env (saturating_add (saturating_sub l (unix_time_ms u1)) 1) w1) = Some r"
      using body [unfolded now l(1) Let_def] l(2) by (simp add: l(1))
    then show ?thesis by (rule ih)
  qed
qed

lemma next_id_result:
  "next_id env prev w = Some (u, prev', w') \<Longrightarrow>
   prev' = Some (unix_time_ms u) \<and> (prev = None \<or> the prev < unix_time_ms u) \<and> (\<exists>v. u = fst (now_v7 env v))"
  using next_id_good [of env prev w "(u, prev', w')"] by (simp add: good_id_def)

lemma generate_from_increases:
  "generate_from env n prev w = Some (us, w') \<Longrightarrow>
   length us = n \<and> sorted_wrt (<) (map unix_time_ms us)
   \<and> (prev = None \<or> (\<forall>u \<in> set us. the prev < unix_time_ms u))"
proof (induction n arbitrary: prev w us)
  case (Suc n)
  then obtain u prev1 w1 us1 where u: "next_id env prev w = Some (u, prev1, w1)"
    "generate_from env n prev1 w1 = Some (us1, w')" "us = u # us1"
    by (auto split: option.splits)
  show ?case using next_id_result [OF u(1)] Suc.IH [OF u(2)] u(3) by fastforce
qed simp

text \<open>A clock that moves forward, by at most \<open>d\<close> milliseconds more than asked for, and is read faithfully.\<close>

definition steady :: "'w uuid_world \<Rightarrow> ('w \<Rightarrow> nat) \<Rightarrow> nat \<Rightarrow> bool" where
  "steady env clock d \<longleftrightarrow>
     (\<forall>w. (if clock w < 2 ^ 48 then unat (unix_time_ms (fst (now_v7 env w))) = clock w else True)
        \<and> clock (snd (now_v7 env w)) \<in> {clock w .. clock w + d}
        \<and> (\<forall>k. clock (sleep_ms env k w) \<in> {clock w + unat k .. clock w + unat k + d}))"

lemma steady_next_id:
  assumes "steady env clock d" "clock w + (3 * d + 1) < 2 ^ 48" "prev = None \<or> unat (the prev) \<le> clock w"
  shows "\<exists>u w'. next_id env prev w = Some (u, Some (unix_time_ms u), w')
    \<and> unat (unix_time_ms u) \<le> clock w' \<and> clock w' \<le> clock w + (3 * d + 1)"
proof -
  have read: "unat (unix_time_ms (fst (now_v7 env v))) = clock v" if "clock v < 2 ^ 48" for v
    using assms(1) that by (auto simp: steady_def)
  have move: "clock v \<le> clock (snd (now_v7 env v))" "clock (snd (now_v7 env v)) \<le> clock v + d"
    "clock v + unat k \<le> clock (sleep_ms env k v)" "clock (sleep_ms env k v) \<le> clock v + unat k + d" for k v
    using assms(1) by (auto simp: steady_def)
  obtain u w1 where now: "now_v7 env w = (u, w1)" by fastforce
  have u: "unat (unix_time_ms u) = clock w" using read [of w] assms(2) now by simp
  have w1: "clock w \<le> clock w1" "clock w1 \<le> clock w + d" using move(1,2) [of w] now by simp_all
  show ?thesis
  proof (cases "prev = None \<or> the prev < unix_time_ms u")
    case True
    then have "next_id env prev w = Some (u, Some (unix_time_ms u), w1)"
      by (subst next_id.simps) (auto simp: now Let_def split: option.splits)
    then show ?thesis using u w1 by auto
  next
    case False
    then obtain l where l: "prev = Some l" "unix_time_ms u \<le> l" by auto
    then have "unat l = clock w" using assms(3) u by (simp add: word_le_nat_alt)
    then have eq: "l = unix_time_ms u" using u by (simp add: word_unat_eq_iff)
    define w2 where "w2 = sleep_ms env (saturating_add (saturating_sub l (unix_time_ms u)) 1) w1"
    have wait: "saturating_add (saturating_sub l (unix_time_ms u)) 1 = 1"
      by (simp add: eq saturating_sub_def saturating_add_def)
    have w2: "clock w1 + 1 \<le> clock w2" "clock w2 \<le> clock w1 + 1 + d"
      using move(3,4) [where v = w1 and k = 1] unfolding w2_def wait by simp_all
    obtain u2 w3 where now2: "now_v7 env w2 = (u2, w3)" by fastforce
    have u2: "unat (unix_time_ms u2) = clock w2" using read [of w2] assms(2) now2 w1 w2 by simp
    have w3: "clock w2 \<le> clock w3" "clock w3 \<le> clock w2 + d" using move(1,2) [of w2] now2 by simp_all
    have "next_id env prev w = next_id env prev w2"
      by (subst next_id.simps) (simp add: now Let_def l w2_def)
    also have "\<dots> = Some (u2, Some (unix_time_ms u2), w3)"
    proof -
      have "\<not> unix_time_ms u2 \<le> l" using u2 w1 w2 u by (simp add: word_le_nat_alt eq)
      then show ?thesis by (subst next_id.simps) (simp add: now2 Let_def l)
    qed
    finally show ?thesis using u2 w1 w2 w3 by auto
  qed
qed

lemma steady_generate:
  assumes "steady env clock d" "clock w + n * (3 * d + 1) < 2 ^ 48" "prev = None \<or> unat (the prev) \<le> clock w"
  shows "\<exists>r. generate_from env n prev w = Some r"
  using assms(2,3)
proof (induction n arbitrary: prev w)
  case (Suc n)
  obtain u w' where u: "next_id env prev w = Some (u, Some (unix_time_ms u), w')"
    "unat (unix_time_ms u) \<le> clock w'" "clock w' \<le> clock w + (3 * d + 1)"
    using steady_next_id [OF assms(1) _ Suc.prems(2)] Suc.prems(1) by auto
  then have "\<exists>r. generate_from env n (Some (unix_time_ms u)) w' = Some r"
    using Suc.prems(1) by (intro Suc.IH) auto
  then show ?case using u(1) by auto
qed simp

section \<open>Properties\<close>

text \<open>
  C38.  Under a clock that moves forward and is read faithfully, generating \<open>n\<close> identifiers returns, and
  their millisecond timestamps strictly increase, so no two identifiers are equal.  The clock must
  stay below 48 bits, the width of the timestamp field.
\<close>

theorem ids_strictly_increase:
  assumes "steady env clock d" "clock w + n * (3 * d + 1) < 2 ^ 48"
  shows "\<exists>us w'. generate_ids env n w = Some (us, w') \<and> length us = n
    \<and> sorted_wrt (<) (map unix_time_ms us) \<and> distinct us"
proof -
  obtain us w' where g: "generate_from env n None w = Some (us, w')"
    using steady_generate [OF assms, of None] by auto
  have inc: "length us = n" "sorted_wrt (<) (map unix_time_ms us)"
    using generate_from_increases [OF g] by simp_all
  then have "distinct us" using strict_sorted_iff distinct_map by blast
  then show ?thesis using g inc by (simp add: generate_ids_def)
qed

text \<open>A world whose state is the time.\<close>

definition bytes_of_time :: "nat \<Rightarrow> uuid" where
  "bytes_of_time t = map (\<lambda>i. word_of_nat (t div 256 ^ (5 - i))) [0..<6]"

definition ticking :: "nat uuid_world" where
  "ticking = \<lparr>now_v7 = (\<lambda>t. (bytes_of_time t, t)), sleep_ms = (\<lambda>k t. t + unat k)\<rparr>"

lemma bytes_of_time_value:
  assumes "t < 2 ^ 48"
  shows "unat (unix_time_ms (bytes_of_time t)) = t"
proof -
  have step: "t div (k * 256) * 256 + t div k mod 256 = t div k" for k :: nat
    by (simp add: div_mult2_eq)
  have "t div 2 ^ 40 mod 256 = t div 2 ^ 40" using assms by (simp add: less_mult_imp_div_less)
  then have "be_value (bytes_of_time t) =
      ((((t div 2 ^ 40 * 256 + t div 2 ^ 32 mod 256) * 256 + t div 2 ^ 24 mod 256) * 256
        + t div 2 ^ 16 mod 256) * 256 + t div 2 ^ 8 mod 256) * 256 + t mod 256"
    by (simp add: be_value_def bytes_of_time_def upt_rec unsigned_of_nat take_bit_eq_mod)
  also have "\<dots> = t"
    using step [of "2 ^ 32"] step [of "2 ^ 24"] step [of "2 ^ 16"] step [of "2 ^ 8"] step [of 1] by simp
  finally show ?thesis by (subst unix_time_value) (simp_all add: bytes_of_time_def)
qed

lemma ids_strictly_increase_witness:
  "\<exists>us w'. generate_ids ticking 3 1700000000000 = Some (us, w') \<and> length us = 3
    \<and> sorted_wrt (<) (map unix_time_ms us) \<and> distinct us"
proof (rule ids_strictly_increase)
  show "steady ticking (\<lambda>t. t) 0" by (simp add: steady_def ticking_def bytes_of_time_value)
qed simp

text \<open>
   When the clock stands still, as after the last millisecond the field can hold, the second
  identifier is never returned: the loop sleeps and retries for ever.
\<close>

theorem stopped_clock_never_returns:
  assumes "\<forall>w. unix_time_ms (fst (now_v7 env w)) = c" "2 \<le> n"
  shows "generate_ids env n w = None"
proof -
  have later: "next_id env (Some c) v = None" for v
  proof (rule ccontr)
    assume "next_id env (Some c) v \<noteq> None"
    then obtain u prev' v' where "next_id env (Some c) v = Some (u, prev', v')" by auto
    then have "c < unix_time_ms u \<and> (\<exists>v. u = fst (now_v7 env v))"
      using next_id_result [of env "Some c" v u prev' v'] by simp
    then show False using assms(1) by auto
  qed
  obtain m where n: "n = Suc (Suc m)" using assms(2) by (metis Suc_le_D numeral_2_eq_2 Suc_le_mono)
  obtain u w1 where now: "now_v7 env w = (u, w1)" by fastforce
  then have "next_id env None w = Some (u, Some c, w1)"
    using assms(1) by (subst next_id.simps) (metis (no_types, lifting) case_prod_conv fst_conv option.case(1))
  then show ?thesis by (simp add: generate_ids_def n later)
qed

lemma stopped_clock_never_returns_witness:
  "generate_ids (ticking\<lparr>now_v7 := (\<lambda>t. (bytes_of_time 7, t))\<rparr>) 2 0 = None"
  by (rule stopped_clock_never_returns [where c = "unix_time_ms (bytes_of_time 7)"]) simp_all

end
