(* ===== verification/Subtitle_Types.thy ===== *)
theory Subtitle_Types
  imports Complex_Main "HOL-Library.Multiset" SubX_Error
begin

text \<open>
  The format-independent subtitle model of \<open>src/core/formats/types.rs\<close>: format types,
  entries, metadata, styling, and the operations on them.  A \<open>Duration\<close> is its number of
  nanoseconds; a frame rate is the rational number the \<open>f32\<close> holds.
\<close>

datatype SubtitleFormatType = Srt | Ass | Vtt | Sub

fun format_as_str :: "SubtitleFormatType \<Rightarrow> str" where
  "format_as_str Srt = ''srt''"
| "format_as_str Ass = ''ass''"
| "format_as_str Vtt = ''vtt''"
| "format_as_str Sub = ''sub''"

definition supports_basic_timing :: "SubtitleFormatType \<Rightarrow> bool" where
  "supports_basic_timing f = True"

definition supports_advanced_styling :: "SubtitleFormatType \<Rightarrow> bool" where
  "supports_advanced_styling f = (case f of Ass \<Rightarrow> True | Vtt \<Rightarrow> True | _ \<Rightarrow> False)"

definition uses_frame_timing :: "SubtitleFormatType \<Rightarrow> bool" where
  "uses_frame_timing f = (case f of Sub \<Rightarrow> True | _ \<Rightarrow> False)"

section \<open>Durations\<close>

type_synonym duration = nat

definition from_millis :: "u64 \<Rightarrow> duration" where
  "from_millis ms = unat ms * 1000000"

definition as_millis :: "duration \<Rightarrow> nat" where
  "as_millis d = d div 1000000"

text \<open>Nat subtraction is \<open>Duration::saturating_sub\<close>.\<close>

lemma as_millis_from_millis [simp]: "as_millis (from_millis ms) = unat ms"
  by (simp add: as_millis_def from_millis_def)

section \<open>Styling\<close>

record StylingInfo =
  font_name :: "str option"
  font_size :: "nat option"
  color :: "str option"
  bold :: bool
  italic :: bool
  underline :: bool

definition styling_new :: "bool \<Rightarrow> bool \<Rightarrow> bool \<Rightarrow> StylingInfo" where
  "styling_new b i u =
     \<lparr>font_name = None, font_size = None, color = None, bold = b, italic = i, underline = u\<rparr>"

definition styling_default :: StylingInfo where
  "styling_default = styling_new False False False"

definition has_font_styling :: "StylingInfo \<Rightarrow> bool" where
  "has_font_styling s \<longleftrightarrow> font_name s \<noteq> None \<or> font_size s \<noteq> None \<or> color s \<noteq> None"

definition has_text_decoration :: "StylingInfo \<Rightarrow> bool" where
  "has_text_decoration s \<longleftrightarrow> bold s \<or> italic s \<or> underline s"

definition has_any_styling :: "StylingInfo \<Rightarrow> bool" where
  "has_any_styling s \<longleftrightarrow> has_font_styling s \<or> has_text_decoration s"

definition css_parts :: "StylingInfo \<Rightarrow> str list" where
  "css_parts s =
     (case font_name s of None \<Rightarrow> [] | Some f \<Rightarrow> [''font-family: '' @ f])
     @ (case font_size s of None \<Rightarrow> [] | Some n \<Rightarrow> [''font-size: '' @ show_nat n @ ''pt''])
     @ (case color s of None \<Rightarrow> [] | Some c \<Rightarrow> [''color: '' @ c])
     @ (if bold s then [''font-weight: bold''] else [])
     @ (if italic s then [''font-style: italic''] else [])
     @ (if underline s then [''text-decoration: underline''] else [])"

definition to_css :: "StylingInfo \<Rightarrow> str" where
  "to_css s = join ''; '' (css_parts s)"

section \<open>Entries\<close>

record SubtitleEntry =
  entry_index :: nat
  start_time :: duration
  end_time :: duration
  entry_text :: str
  styling :: "StylingInfo option"

text \<open>\<open>SubtitleEntry::new\<close> panics unless the start lies before the end: then there is no value.\<close>

definition entry_new :: "nat \<Rightarrow> duration \<Rightarrow> duration \<Rightarrow> str \<Rightarrow> SubtitleEntry option" where
  "entry_new i s e t =
     (if s < e
      then Some \<lparr>entry_index = i, start_time = s, end_time = e, entry_text = t, styling = None\<rparr>
      else None)"

definition entry_duration :: "SubtitleEntry \<Rightarrow> duration" where
  "entry_duration e = end_time e - start_time e"

definition is_valid_timing :: "SubtitleEntry \<Rightarrow> bool" where
  "is_valid_timing e \<longleftrightarrow> start_time e < end_time e"

definition overlaps_with :: "SubtitleEntry \<Rightarrow> SubtitleEntry \<Rightarrow> bool" where
  "overlaps_with a b \<longleftrightarrow> start_time a < end_time b \<and> start_time b < end_time a"

text \<open>\<open>str::split_whitespace\<close>.\<close>

definition at_ws :: "str \<Rightarrow> bool" where
  "at_ws s \<longleftrightarrow> list_ex (\<lambda>e. prefix e s) utf8_ws"

fun word_span :: "str \<Rightarrow> str \<times> str" where
  "word_span [] = ([], [])"
| "word_span (c # s) =
     (if at_ws (c # s) then ([], c # s) else (let (w, r) = word_span s in (c # w, r)))"

lemma word_span_append: "fst (word_span s) @ snd (word_span s) = s"
  by (induction s) (auto simp: Let_def split: prod.splits)

lemma at_ws_trim_start: "\<not> at_ws (trim_start s)"
  using trim_with_none [of _ utf8_ws s] utf8_ws_hd
  by (auto simp: at_ws_def trim_start_def list_ex_iff)

function split_whitespace :: "str \<Rightarrow> str list" where
  "split_whitespace s =
     (if trim_start s = [] then []
      else fst (word_span (trim_start s)) # split_whitespace (snd (word_span (trim_start s))))"
  by pat_completeness auto
termination
proof (relation "measure length", goal_cases)
  case (2 s)
  let ?t = "trim_start s"
  obtain c r where c: "?t = c # r" using 2 by (cases ?t) auto
  have "fst (word_span ?t) \<noteq> []"
    using at_ws_trim_start [of s] c by (auto simp: Let_def split: prod.splits)
  moreover have "length ?t = length (fst (word_span ?t)) + length (snd (word_span ?t))"
    by (metis length_append word_span_append)
  moreover have "length ?t \<le> length s"
    using trim_with_suffix [of utf8_ws s] by (simp add: trim_start_def suffix_length_le)
  ultimately show ?case by (cases "fst (word_span ?t)") auto
qed simp

declare split_whitespace.simps [simp del]

definition plain_tags :: "str list" where
  "plain_tags =
     [''<b>'', ''</b>'', ''<i>'', ''</i>'', ''<u>'', ''</u>'', ''<font[^>]*>'', ''</font>'', ''<br>'', ''<br/>'']"

definition plain_text :: "SubtitleEntry \<Rightarrow> str" where
  "plain_text e =
     join '' '' (split_whitespace
       (fold (\<lambda>tag t. if CHR ''['' \<in> set tag then replace_str tag [] t else replace_str tag '' '' t)
         plain_tags (entry_text e)))"

section \<open>Metadata and subtitles\<close>

record SubtitleMetadata =
  title :: "str option"
  language :: "str option"
  encoding :: str
  frame_rate :: "rat option"
  original_format :: SubtitleFormatType

definition metadata_new :: "SubtitleFormatType \<Rightarrow> SubtitleMetadata" where
  "metadata_new f =
     \<lparr>title = None, language = None, encoding = ''UTF-8'', frame_rate = None, original_format = f\<rparr>"

definition metadata_default :: SubtitleMetadata where
  "metadata_default = metadata_new Srt"

definition is_frame_based :: "SubtitleMetadata \<Rightarrow> bool" where
  "is_frame_based m = uses_frame_timing (original_format m)"

definition is_complete :: "SubtitleMetadata \<Rightarrow> bool" where
  "is_complete m \<longleftrightarrow>
     title m \<noteq> None \<and> language m \<noteq> None \<and> (\<not> is_frame_based m \<or> frame_rate m \<noteq> None)"

record Subtitle =
  entries :: "SubtitleEntry list"
  metadata :: SubtitleMetadata
  sub_format :: SubtitleFormatType

definition subtitle_new :: "SubtitleFormatType \<Rightarrow> SubtitleMetadata \<Rightarrow> Subtitle" where
  "subtitle_new f m = \<lparr>entries = [], metadata = m, sub_format = f\<rparr>"

definition total_duration :: "Subtitle \<Rightarrow> duration" where
  "total_duration s =
     (if entries s = [] then 0 else end_time (last (entries s)) - start_time (hd (entries s)))"

fun overlaps_from :: "SubtitleEntry list \<Rightarrow> bool" where
  "overlaps_from (a # b # es) = (start_time b < end_time a \<or> overlaps_from (b # es))"
| "overlaps_from _ = False"

definition has_overlaps :: "Subtitle \<Rightarrow> bool" where
  "has_overlaps s = overlaps_from (entries s)"

definition reindex :: "SubtitleEntry list \<Rightarrow> SubtitleEntry list" where
  "reindex es = map (\<lambda>(i, e). e\<lparr>entry_index := i + 1\<rparr>) (enumerate 0 es)"

text \<open>\<open>slice::sort_by_key\<close> is a stable sort, as \<open>sort_key\<close> is.\<close>

definition sort_entries :: "Subtitle \<Rightarrow> Subtitle" where
  "sort_entries s = s\<lparr>entries := reindex (sort_key start_time (entries s))\<rparr>"

section \<open>Sorting and overlaps\<close>

lemma length_reindex [simp]: "length (reindex es) = length es"
  by (simp add: reindex_def)

lemma nth_reindex [simp]: "i < length es \<Longrightarrow> reindex es ! i = (es ! i)\<lparr>entry_index := i + 1\<rparr>"
  by (simp add: reindex_def nth_enumerate_eq)

lemma map_reindex:
  "(\<And>e i. f (e\<lparr>entry_index := i\<rparr>) = f e) \<Longrightarrow> map f (reindex es) = map f es"
  by (rule nth_equalityI) simp_all

lemma index_reindex: "map entry_index (reindex es) = [1..<Suc (length es)]"
  by (rule nth_equalityI) (simp_all del: upt_Suc)

lemma overlaps_from_nth:
  "overlaps_from es \<longleftrightarrow> (\<exists>i. Suc i < length es \<and> start_time (es ! Suc i) < end_time (es ! i))"
proof (induction es rule: overlaps_from.induct)
  case (1 a b es)
  have "(\<exists>i. P i) \<longleftrightarrow> P 0 \<or> (\<exists>i. P (Suc i))" for P :: "nat \<Rightarrow> bool"
    by (metis not0_implies_Suc)
  from this [of "\<lambda>i. Suc i < length (a # b # es) \<and>
      start_time ((a # b # es) ! Suc i) < end_time ((a # b # es) ! i)"]
  show ?case using 1 by simp
qed simp_all

lemma overlaps_from_reindex [simp]: "overlaps_from (reindex es) = overlaps_from es"
  by (auto simp: overlaps_from_nth)

lemma overlaps_from_iff:
  assumes "sorted (map start_time es)" "\<forall>e \<in> set es. is_valid_timing e"
  shows "overlaps_from es \<longleftrightarrow> (\<exists>i j. i < j \<and> j < length es \<and> overlaps_with (es ! i) (es ! j))"
  using assms
proof (induction es rule: overlaps_from.induct)
  case (1 a b es)
  let ?P = "\<lambda>xs. \<exists>i j. i < j \<and> j < length xs \<and> overlaps_with (xs ! i) (xs ! j)"
  have IH: "overlaps_from (b # es) \<longleftrightarrow> ?P (b # es)" using 1 by auto
  have ab: "start_time a \<le> start_time b" using 1 by auto
  have step: "?P (a # b # es) \<longleftrightarrow> (\<exists>j < length (b # es). overlaps_with a ((b # es) ! j)) \<or> ?P (b # es)"
    (is "?L \<longleftrightarrow> ?R")
  proof
    assume ?L
    then obtain i j where "i < j" "j < length (a # b # es)"
      "overlaps_with ((a # b # es) ! i) ((a # b # es) ! j)" by blast
    then show ?R by (cases i; cases j) force+
  next
    assume ?R
    then show ?L
    proof
      assume "\<exists>j < length (b # es). overlaps_with a ((b # es) ! j)"
      then obtain j where "j < length (b # es)" "overlaps_with a ((b # es) ! j)" by blast
      then show ?L by (intro exI [of _ 0] exI [of _ "Suc j"]) simp
    next
      assume "?P (b # es)"
      then obtain i j where "i < j" "j < length (b # es)" "overlaps_with ((b # es) ! i) ((b # es) ! j)"
        by blast
      then show ?L by (intro exI [of _ "Suc i"] exI [of _ "Suc j"]) simp
    qed
  qed
  have first: "(\<exists>j < length (b # es). overlaps_with a ((b # es) ! j)) \<longleftrightarrow> start_time b < end_time a"
    (is "?E \<longleftrightarrow> ?B")
  proof
    assume ?E
    then obtain j where j: "j < length (b # es)" "overlaps_with a ((b # es) ! j)" by blast
    have "start_time b \<le> start_time ((b # es) ! j)"
      using 1(2) j(1) by (cases j) auto
    with j(2) show ?B by (simp add: overlaps_with_def)
  next
    assume ?B
    moreover have "start_time a < end_time b"
      using ab 1(3) by (simp add: is_valid_timing_def)
    ultimately show ?E by (intro exI [of _ 0]) (simp add: overlaps_with_def)
  qed
  show ?case by (simp only: overlaps_from.simps step first IH)
qed auto

lemma overlaps_with_index [simp]:
  "overlaps_with (a\<lparr>entry_index := i\<rparr>) (b\<lparr>entry_index := j\<rparr>) = overlaps_with a b"
  by (simp add: overlaps_with_def)

definition payload :: "SubtitleEntry \<Rightarrow> duration \<times> duration \<times> str \<times> StylingInfo option" where
  "payload e = (start_time e, end_time e, entry_text e, styling e)"

lemma payload_update [simp]: "payload (e\<lparr>entry_index := i\<rparr>) = payload e"
  by (simp add: payload_def)

lemma filter_reindex:
  assumes "\<And>e i. P (e\<lparr>entry_index := i\<rparr>) = P e"
  shows "map payload (filter P (reindex es)) = map payload (filter P es)"
proof -
  have "map payload (filter P (map (\<lambda>(i, e). e\<lparr>entry_index := i + 1\<rparr>) (enumerate n es)))
      = map payload (filter P es)" for n
    using assms by (induction es arbitrary: n) auto
  then show ?thesis by (simp add: reindex_def)
qed

text \<open>
   Sorting the entries of a subtitle orders them by start time, keeps every cue with its
  times, text and styling, keeps cues with equal start times in their order, and numbers the
  entries consecutively from 1.
\<close>

theorem sort_entries_correct:
  "sorted (map start_time (entries (sort_entries s)))
   \<and> mset (map payload (entries (sort_entries s))) = mset (map payload (entries s))
   \<and> map payload (filter (\<lambda>e. start_time e = t) (entries (sort_entries s)))
       = map payload (filter (\<lambda>e. start_time e = t) (entries s))
   \<and> map entry_index (entries (sort_entries s)) = [1..<Suc (length (entries s))]
   \<and> metadata (sort_entries s) = metadata s \<and> sub_format (sort_entries s) = sub_format s"
proof -
  have "sorted (map start_time (reindex (sort_key start_time (entries s))))"
    by (simp add: map_reindex)
  moreover have "mset (map payload (reindex (sort_key start_time (entries s)))) =
      mset (map payload (entries s))"
    by (metis map_reindex mset_map mset_sort payload_update)
  moreover have "map payload (filter (\<lambda>e. start_time e = t) (reindex (sort_key start_time (entries s))))
      = map payload (filter (\<lambda>e. start_time e = t) (entries s))"
    using sort_key_stable [of start_time t "entries s"] by (subst filter_reindex) auto
  ultimately show ?thesis
    by (simp add: sort_entries_def index_reindex del: upt_Suc)
qed

text \<open>
   After sorting, the linear scan of \<open>has_overlaps\<close> over neighbours decides whether any two
  cues of the file overlap, provided every cue has a valid timing.
\<close>

theorem has_overlaps_sorted:
  assumes "\<forall>e \<in> set (entries s). is_valid_timing e"
  shows "has_overlaps (sort_entries s) \<longleftrightarrow>
    (\<exists>i j. i < j \<and> j < length (entries s)
       \<and> overlaps_with (entries (sort_entries s) ! i) (entries (sort_entries s) ! j))"
proof -
  let ?es = "sort_key start_time (entries s)"
  have "sorted (map start_time ?es)" by simp
  moreover have "\<forall>e \<in> set ?es. is_valid_timing e" using assms by simp
  ultimately have "overlaps_from ?es \<longleftrightarrow>
      (\<exists>i j. i < j \<and> j < length ?es \<and> overlaps_with (?es ! i) (?es ! j))"
    by (rule overlaps_from_iff)
  then have "overlaps_from ?es \<longleftrightarrow>
      (\<exists>i j. i < j \<and> j < length ?es \<and> overlaps_with (reindex ?es ! i) (reindex ?es ! j))"
    by (simp cong: conj_cong)
  then show ?thesis
    by (simp add: has_overlaps_def sort_entries_def)
qed

definition demo_entry :: "nat \<Rightarrow> duration \<Rightarrow> duration \<Rightarrow> str \<Rightarrow> SubtitleEntry" where
  "demo_entry i s e t =
     \<lparr>entry_index = i, start_time = s, end_time = e, entry_text = t, styling = None\<rparr>"

lemma has_overlaps_sorted_witness:
  "let s = (subtitle_new Srt metadata_default)
             \<lparr>entries := [demo_entry 1 50 90 ''b'', demo_entry 2 10 60 ''a'']\<rparr>
   in has_overlaps (sort_entries s) \<and> (\<exists>i j. i < j \<and> j < length (entries s)
       \<and> overlaps_with (entries (sort_entries s) ! i) (entries (sort_entries s) ! j))"
proof -
  define s where "s = (subtitle_new Srt metadata_default)
             \<lparr>entries := [demo_entry 1 50 90 ''b'', demo_entry 2 10 60 ''a'']\<rparr>"
  have valid: "\<forall>e \<in> set (entries s). is_valid_timing e"
    by (simp add: s_def demo_entry_def is_valid_timing_def)
  have "has_overlaps (sort_entries s)"
    by (simp add: s_def demo_entry_def has_overlaps_def sort_entries_def)
  with has_overlaps_sorted [OF valid] show ?thesis by (simp add: s_def Let_def)
qed

end
