(* ===== verification/Time_Text.thy ===== *)
theory Time_Text
  imports Regex_Engine Subtitle_Types
begin

text \<open>
  What the SRT and VTT timestamp helpers share: capture groups read as \<open>u64\<close>, the fixed-width
  clock text \<open>HH:MM:SS\<close> with milliseconds after a separator, and the facts by which a timing
  pattern matches that text and its groups give the time back.
\<close>

definition group_u64 :: "(int_error \<Rightarrow> SubXError) \<Rightarrow> (nat \<times> str) list \<Rightarrow> nat \<Rightarrow> u64 res" where
  "group_u64 err caps k = map_sum id of_nat (map_err err (parse_uint (2 ^ 64) (cap caps k)))"

definition clock :: "char \<Rightarrow> duration \<Rightarrow> str" where
  "clock sep d =
     (let total_ms = as_millis d;
          hours = total_ms div 3600000;
          minutes = (total_ms mod 3600000) div 60000;
          seconds = (total_ms mod 60000) div 1000;
          millis = total_ms mod 1000
      in pad0 2 (show_nat hours) @ '':'' @ pad0 2 (show_nat minutes) @ '':''
         @ pad0 2 (show_nat seconds) @ [sep] @ pad0 3 (show_nat millis))"

definition clock_rx :: "nat \<Rightarrow> char \<Rightarrow> rx_item list" where
  "clock_rx g sep =
     [digits g 2, lit CHR '':'', digits (g + 1) 2, lit CHR '':'', digits (g + 2) 2, lit sep,
      digits (g + 3) 3]"

section \<open>Two and three digit numbers\<close>

lemma digit_char_0: "digit_char 0 = CHR ''0''"
  by (simp add: digit_char_def char_of_eq_iff)

lemma show_nat_small: "n < 10 \<Longrightarrow> show_nat n = [digit_char n]"
  by (subst show_nat.simps) simp

lemma show_nat_large: "10 \<le> n \<Longrightarrow> show_nat n = show_nat (n div 10) @ [digit_char (n mod 10)]"
  by (subst show_nat.simps) simp

lemma length_show_nat_u64: "n < 2 ^ 64 \<Longrightarrow> length (show_nat n) \<le> 20"
  using length_show_nat_le [of n 20] by simp

lemma show_nat_chars: "c \<in> set (show_nat n) \<Longrightarrow> is_digit c"
  using list_all_digit_show_nat [of n] by (simp add: list_all_iff)

lemma show_nat_no_newline [simp]: "LF \<notin> set (show_nat n)" "CR \<notin> set (show_nat n)"
  using show_nat_chars [of LF n] show_nat_chars [of CR n] by auto

lemma show_nat_trim [simp]: "trim (show_nat n) = show_nat n"
  using list_all_digit_show_nat [of n] is_graphic_digit
  by (intro trim_all_graphic) (auto simp: list_all_iff)

lemma item_lens_digits:
  assumes "list_all is_digit ds" "length ds = n"
  shows "item_lens nd (digits g n) (ds @ s) = [n]"
proof -
  have "rep_lens nd CDigit (length ds) (ds @ s) = [0..<Suc (length ds)]" if "list_all is_digit ds" for ds
    using that
  proof (induction ds)
    case (Cons d ds)
    then have "map Suc (rep_lens nd CDigit (length ds) (ds @ s)) = [1..<Suc (Suc (length ds))]"
      by (simp add: map_Suc_upt del: upt_Suc)
    moreover have "(+) (Suc 0) = Suc" by auto
    ultimately show ?case using Cons.prems by (simp add: upt_conv_Cons del: upt_Suc)
  qed simp
  from this [OF assms(1)] assms(2) have "rep_lens nd CDigit n (ds @ s) = [0..<Suc n]" by simp
  then show ?thesis
    by (simp add: item_lens_def digits_def drop_upt del: upt_Suc) simp
qed

lemma group_digits [simp]: "group (digits g n) = g"
  by (simp add: digits_def)

lemma rx_items_digits:
  "list_all is_digit ds \<Longrightarrow> length ds = n \<Longrightarrow>
   rx_items nd (digits g n # its) (ds @ s) =
     map_option (\<lambda>(ms, post). ((g, ds) # ms, post)) (rx_items nd its s)"
  by (simp add: rx_items.simps(2) item_lens_digits split: option.split)

lemma item_lens_digits_plus_none:
  assumes "\<forall>e \<in> set nd. e \<noteq> [] \<and> 128 \<le> code (hd e)" "\<not> is_digit x" "code x < 128"
  shows "item_lens nd (digits_plus g) (x # s) = []"
  using cset_len_no_digit [OF assms] by (simp add: item_lens_def digits_plus_def)

lemma rx_items_none: "item_lens nd it s = [] \<Longrightarrow> rx_items nd (it # its) s = None"
  by (simp add: rx_items.simps(2))

lemma digit_not_char [simp]:
  "is_digit d \<Longrightarrow> d \<noteq> CHR ''-''" "is_digit d \<Longrightarrow> d \<noteq> CHR '':''" "is_digit d \<Longrightarrow> d \<noteq> LF"
  "is_digit d \<Longrightarrow> d \<noteq> CR" "is_digit d \<Longrightarrow> d \<noteq> CHR '',''" "is_digit d \<Longrightarrow> d \<noteq> CHR ''.''"
  by (auto simp: is_digit_def)

section \<open>Clock times\<close>

text \<open>Times the text can express: whole milliseconds below 100 hours.\<close>

definition hms_time :: "duration \<Rightarrow> bool" where
  "hms_time d \<longleftrightarrow> d mod 1000000 = 0 \<and> d div 1000000 < 360000000"

lemma hms_digits:
  assumes "hms_time d"
  shows "as_millis d div 3600000 < 100" "as_millis d mod 3600000 div 60000 < 100"
    "as_millis d mod 60000 div 1000 < 100" "as_millis d mod 1000 < 1000"
  using assms by (auto simp: hms_time_def as_millis_def)

lemma hms_sum:
  fixes t :: nat
  shows "t div 3600000 * 3600000 + t mod 3600000 div 60000 * 60000 + t mod 60000 div 1000 * 1000
         + t mod 1000 = t"
proof -
  have "t mod 3600000 mod 60000 = t mod 60000" "t mod 60000 mod 1000 = t mod 1000"
    by (simp_all add: mod_mod_cancel)
  then show ?thesis
    using div_mult_mod_eq [of t 3600000] div_mult_mod_eq [of "t mod 3600000" 60000]
      div_mult_mod_eq [of "t mod 60000" 1000] by linarith
qed

lemma from_millis_hms:
  assumes "hms_time d"
  shows "from_millis (of_nat (as_millis d div 3600000) * 3600000
      + of_nat (as_millis d mod 3600000 div 60000) * 60000
      + of_nat (as_millis d mod 60000 div 1000) * 1000 + of_nat (as_millis d mod 1000)) = d"
proof -
  let ?t = "as_millis d"
  have "of_nat (?t div 3600000) * 3600000 + of_nat (?t mod 3600000 div 60000) * 60000
      + of_nat (?t mod 60000 div 1000) * 1000 + of_nat (?t mod 1000) = (of_nat ?t :: u64)"
    using arg_cong [OF hms_sum [of ?t], of "of_nat :: nat \<Rightarrow> u64"] by simp
  moreover have "?t < 2 ^ 64" "?t * 1000000 = d"
    using assms by (auto simp: hms_time_def as_millis_def)
  ultimately show ?thesis
    by (simp add: from_millis_def unat_of_nat)
qed

text \<open>The groups that the clock pattern captures.\<close>

definition clock_groups :: "nat \<Rightarrow> char \<Rightarrow> duration \<Rightarrow> (nat \<times> str) list" where
  "clock_groups g sep d =
     [(g, pad0 2 (show_nat (as_millis d div 3600000))), (0, '':''),
      (g + 1, pad0 2 (show_nat (as_millis d mod 3600000 div 60000))), (0, '':''),
      (g + 2, pad0 2 (show_nat (as_millis d mod 60000 div 1000))), (0, [sep]),
      (g + 3, pad0 3 (show_nat (as_millis d mod 1000)))]"

lemma rx_items_clock:
  assumes "hms_time d"
  shows "rx_items nd (clock_rx g sep @ its) (clock sep d @ s) =
    map_option (\<lambda>(ms, post). (clock_groups g sep d @ ms, post)) (rx_items nd its s)"
proof -
  note small = hms_digits [OF assms]
  have 2: "rx_items nd (digits k 2 # js) (pad0 2 (show_nat n) @ r) =
      map_option (\<lambda>(ms, post). ((k, pad0 2 (show_nat n)) # ms, post)) (rx_items nd js r)"
    if "n < 100" for k n js r
    using that by (intro rx_items_digits) (simp_all add: length_pad0_show_nat del: length_pad0)
  have 3: "rx_items nd (digits k 3 # js) (pad0 3 (show_nat n) @ r) =
      map_option (\<lambda>(ms, post). ((k, pad0 3 (show_nat n)) # ms, post)) (rx_items nd js r)"
    if "n < 1000" for k n js r
    using that by (intro rx_items_digits) (simp_all add: length_pad0_show_nat del: length_pad0)
  show ?thesis
    by (simp add: clock_rx_def clock_def clock_groups_def Let_def rx_items_lit 2 [OF small(1)]
        2 [OF small(2)] 2 [OF small(3)] 3 [OF small(4)])
      (cases "rx_items nd its s"; auto)
qed

lemma group_u64_num:
  "cap caps k = pad0 w (show_nat n) \<Longrightarrow> n < 2 ^ 64 \<Longrightarrow> group_u64 err caps k = Inr (of_nat n)"
  by (simp add: group_u64_def)

lemma group_u64_clock:
  assumes "hms_time d"
    and "cap caps k0 = pad0 2 (show_nat (as_millis d div 3600000))"
    and "cap caps k1 = pad0 2 (show_nat (as_millis d mod 3600000 div 60000))"
    and "cap caps k2 = pad0 2 (show_nat (as_millis d mod 60000 div 1000))"
    and "cap caps k3 = pad0 3 (show_nat (as_millis d mod 1000))"
  shows "group_u64 err caps k0 = Inr (of_nat (as_millis d div 3600000))"
    "group_u64 err caps k1 = Inr (of_nat (as_millis d mod 3600000 div 60000))"
    "group_u64 err caps k2 = Inr (of_nat (as_millis d mod 60000 div 1000))"
    "group_u64 err caps k3 = Inr (of_nat (as_millis d mod 1000))"
proof -
  have small: "n < 1000 \<Longrightarrow> n < 2 ^ 64" for n :: nat by simp
  have "as_millis d div 3600000 < 2 ^ 64" "as_millis d mod 3600000 div 60000 < 2 ^ 64"
    "as_millis d mod 60000 div 1000 < 2 ^ 64" "as_millis d mod 1000 < 2 ^ 64"
    using hms_digits [OF assms(1)] by (auto intro!: small)
  note groups = group_u64_num [OF assms(2) this(1)] group_u64_num [OF assms(3) this(2)]
    group_u64_num [OF assms(4) this(3)] group_u64_num [OF assms(5) this(4)]
  show "group_u64 err caps k0 = Inr (of_nat (as_millis d div 3600000))"
    "group_u64 err caps k1 = Inr (of_nat (as_millis d mod 3600000 div 60000))"
    "group_u64 err caps k2 = Inr (of_nat (as_millis d mod 60000 div 1000))"
    "group_u64 err caps k3 = Inr (of_nat (as_millis d mod 1000))"
    by (rule groups)+
qed

lemma clock_chars:
  assumes "hms_time d"
  shows "length (clock sep d) = 12" "is_digit (hd (clock sep d))"
    "c \<in> set (clock sep d) \<Longrightarrow> is_digit c \<or> c = CHR '':'' \<or> c = sep"
proof -
  note small = hms_digits [OF assms]
  let ?p = "\<lambda>w n. pad0 w (show_nat n)"
  have d: "is_digit (hd (?p w n))" "c \<in> set (?p w n) \<Longrightarrow> is_digit c" for w n c
    using list_all_digit_pad0 [of w n] by (cases "?p w n"; auto simp: list_all_iff)+
  show "length (clock sep d) = 12"
    using length_pad0_show_nat [of _ 2] length_pad0_show_nat [of _ 3] small
    by (simp add: clock_def Let_def del: length_pad0)
  show "is_digit (hd (clock sep d))"
    using d(1) by (simp add: clock_def Let_def)
  show "c \<in> set (clock sep d) \<Longrightarrow> is_digit c \<or> c = CHR '':'' \<or> c = sep"
    using d(2) by (auto simp: clock_def Let_def)
qed

section \<open>Timing lines\<close>

text \<open>\<open>start --> end\<close>, and how the two-time pattern matches it.\<close>

definition timing_line :: "char \<Rightarrow> duration \<Rightarrow> duration \<Rightarrow> str" where
  "timing_line sep s e = clock sep s @ '' --> '' @ clock sep e"

definition timing_rx :: "anchor \<Rightarrow> char \<Rightarrow> rx" where
  "timing_rx a sep = [(a, clock_rx 1 sep @ lits '' --> '' @ clock_rx 5 sep)]"

definition timing_groups :: "char \<Rightarrow> duration \<Rightarrow> duration \<Rightarrow> (nat \<times> str) list" where
  "timing_groups sep s e =
     clock_groups 1 sep s @ map (\<lambda>c. (0, [c])) '' --> '' @ clock_groups 5 sep e"

lemma rx_items_lits:
  "rx_items nd (lits p @ its) (p @ s) =
     map_option (\<lambda>(ms, post). (map (\<lambda>c. (0, [c])) p @ ms, post)) (rx_items nd its s)"
proof (induction p)
  case (Cons c p)
  then show ?case
    by (simp add: lits_def rx_items_lit option.map_comp comp_def case_prod_beta)
qed (simp add: lits_def option.map_ident case_prod_beta)

lemma timing_rx_match:
  assumes "hms_time s" "hms_time e"
  shows "rx_search nd (timing_rx a sep) (timing_line sep s e) = Some ([], timing_groups sep s e, [])"
proof -
  have "rx_items nd (clock_rx 5 sep @ []) (clock sep e @ []) = Some (clock_groups 5 sep e, [])"
    by (simp only: rx_items_clock [OF assms(2)]) simp
  then have "rx_items nd (clock_rx 1 sep @ lits '' --> '' @ clock_rx 5 sep) (timing_line sep s e)
      = Some (timing_groups sep s e, [])"
    by (simp add: timing_line_def timing_groups_def rx_items_clock [OF assms(1)] rx_items_lits
        del: append.simps)
  moreover have "anchor_ok a []" by (cases a) simp_all
  ultimately have "rx_at nd (timing_rx a sep) [] (timing_line sep s e)
      = Some ([], timing_groups sep s e, [])"
    by (simp add: rx_at_def timing_rx_def)
  then show ?thesis
    by (cases "timing_line sep s e") (simp_all add: rx_search_def)
qed

lemma timing_groups_cap:
  "cap (timing_groups sep s e) 1 = pad0 2 (show_nat (as_millis s div 3600000))"
  "cap (timing_groups sep s e) 2 = pad0 2 (show_nat (as_millis s mod 3600000 div 60000))"
  "cap (timing_groups sep s e) 3 = pad0 2 (show_nat (as_millis s mod 60000 div 1000))"
  "cap (timing_groups sep s e) 4 = pad0 3 (show_nat (as_millis s mod 1000))"
  "cap (timing_groups sep s e) 5 = pad0 2 (show_nat (as_millis e div 3600000))"
  "cap (timing_groups sep s e) 6 = pad0 2 (show_nat (as_millis e mod 3600000 div 60000))"
  "cap (timing_groups sep s e) 7 = pad0 2 (show_nat (as_millis e mod 60000 div 1000))"
  "cap (timing_groups sep s e) 8 = pad0 3 (show_nat (as_millis e mod 1000))"
  by (simp_all add: cap_def timing_groups_def clock_groups_def)

lemma timing_line_facts:
  assumes "hms_time s" "hms_time e" "sep = CHR '','' \<or> sep = CHR ''.''"
  shows "LF \<notin> set (timing_line sep s e)" "CR \<notin> set (timing_line sep s e)"
    "length (timing_line sep s e) = 29" "timing_line sep s e \<noteq> []"
    "is_digit (hd (timing_line sep s e))"
proof -
  note f = clock_chars(1,2) [OF assms(1), of sep] clock_chars(1,2) [OF assms(2), of sep]
  note g = clock_chars(3) [OF assms(1), where sep = sep] clock_chars(3) [OF assms(2), where sep = sep]
  have ne: "clock sep s \<noteq> []" using f(1) by auto
  have "LF \<notin> set (clock sep s)" "CR \<notin> set (clock sep s)" "LF \<notin> set (clock sep e)"
    "CR \<notin> set (clock sep e)"
    using g(1) [of LF] g(1) [of CR] g(2) [of LF] g(2) [of CR] assms(3) by auto
  with f ne show "LF \<notin> set (timing_line sep s e)" "CR \<notin> set (timing_line sep s e)"
    "length (timing_line sep s e) = 29" "timing_line sep s e \<noteq> []"
    "is_digit (hd (timing_line sep s e))"
    by (simp_all add: timing_line_def)
qed

section \<open>No negative time on a timing line\<close>

lemma rx_from_none:
  "\<forall>u p. t = p @ u \<longrightarrow> rx_at nd r (pre @ p) u = None \<Longrightarrow> rx_from nd r pre t = None"
proof (induction t arbitrary: pre)
  case Nil
  then show ?case by simp
next
  case (Cons c t)
  have "rx_at nd r pre (c # t) = None" using Cons.prems by (metis append_Nil append_Nil2)
  moreover have "rx_from nd r (pre @ [c]) t = None"
    using Cons.prems by (intro Cons.IH) (metis append.assoc append_Cons append_Nil)
  ultimately show ?case by simp
qed

lemma timing_line_minus:
  assumes "hms_time s" "hms_time e" "sep \<noteq> CHR ''-''" "suffix (CHR ''-'' # q) (timing_line sep s e)"
  shows "q \<noteq> [] \<and> \<not> is_digit (hd q) \<and> code (hd q) < 128"
proof -
  have no: "CHR ''-'' \<notin> set (clock sep d)" if "hms_time d" for d
    using clock_chars(3) [OF that, of "CHR ''-''" sep] assms(3) by auto
  have skip: "suffix (c # u) z" if "suffix (c # u) (x @ z)" "c \<notin> set x" for c :: char and u x z
    using that(2) that(1) by (induction x) (auto simp: suffix_Cons)
  have "suffix (CHR ''-'' # q) ('' --> '' @ clock sep e)"
    using skip [OF assms(4) [unfolded timing_line_def] no [OF assms(1)]] .
  moreover have "\<not> suffix (CHR ''-'' # q) (clock sep e)"
    using no [OF assms(2)] by (auto simp: suffix_def)
  ultimately show ?thesis by (auto simp: suffix_Cons)
qed

lemma rx_items_minus_digit:
  assumes "\<forall>e \<in> set nd. e \<noteq> [] \<and> 128 \<le> code (hd e)" "hms_time s" "hms_time e" "sep \<noteq> CHR ''-''"
    and "suffix u (timing_line sep s e)"
  shows "rx_items nd (lit CHR ''-'' # digits_plus g # its) u = None"
proof (cases u)
  case (Cons c q)
  show ?thesis
  proof (cases "c = CHR ''-''")
    case True
    then obtain x r where "q = x # r" "\<not> is_digit x" "code x < 128"
      using timing_line_minus [OF assms(2-4), of q] assms(5) Cons by (cases q) auto
    then show ?thesis
      using True Cons rx_items_none [OF item_lens_digits_plus_none [OF assms(1)]]
      by (simp add: rx_items_lit)
  qed (simp add: Cons rx_items_lit)
qed (simp add: rx_items_lit)

section \<open>Cues that survive a round trip\<close>

text \<open>
  The cue texts that survive: non-empty, without carriage returns or blank lines, not beginning or
  ending with a line feed, and small enough that the cue stays below the cap.
\<close>

definition cue_text_ok :: "str \<Rightarrow> bool" where
  "cue_text_ok t \<longleftrightarrow>
     t \<noteq> [] \<and> CR \<notin> set t \<and> no_blank t \<and> hd t \<noteq> LF \<and> last t \<noteq> LF \<and> length t \<le> MAX_CUE_BYTES - 64"

text \<open>The cue a parser gives for the \<open>i\<close>-th cue written.\<close>

definition reread :: "nat \<Rightarrow> SubtitleEntry \<Rightarrow> SubtitleEntry" where
  "reread i e = e\<lparr>entry_index := i + 1, styling := None\<rparr>"

text \<open>A written cue without its blank line: the number, the timing line and the text.\<close>

definition cue_block :: "nat \<Rightarrow> str \<Rightarrow> str \<Rightarrow> str" where
  "cue_block n line t = show_nat n @ [LF] @ line @ [LF] @ t"

lemma cue_block_facts:
  assumes "hms_time s" "hms_time e" "cue_text_ok t" "sep = CHR '','' \<or> sep = CHR ''.''" "n < 2 ^ 64"
  defines "b \<equiv> cue_block n (timing_line sep s e) t"
  shows "no_blank b" "last b \<noteq> LF" "CR \<notin> set b" "length b \<le> MAX_CUE_BYTES"
    "str_lines b = show_nat n # timing_line sep s e # split_str [LF] t" "trim b \<noteq> []" "b \<noteq> []"
    "is_digit (hd b)"
proof -
  have t: "t \<noteq> []" "CR \<notin> set t" "no_blank t" "hd t \<noteq> LF" "last t \<noteq> LF" "length t \<le> MAX_CUE_BYTES - 64"
    using assms(3) by (auto simp: cue_text_ok_def)
  note line = timing_line_facts [OF assms(1,2,4)]
  have "no_blank (timing_line sep s e @ LF # t)"
    using t line by (simp add: no_blank_line)
  moreover have "hd (timing_line sep s e) \<noteq> LF" using line(5) by auto
  ultimately show nb: "no_blank b"
    using line(4) by (simp add: b_def cue_block_def no_blank_line)
  show last: "last b \<noteq> LF" using t by (simp add: b_def cue_block_def)
  show cr: "CR \<notin> set b" using t line by (simp add: b_def cue_block_def)
  have "length b \<le> 20 + 1 + 29 + 1 + (MAX_CUE_BYTES - 64)"
    using t line length_show_nat_u64 [OF assms(5)] by (simp add: b_def cue_block_def)
  then show "length b \<le> MAX_CUE_BYTES" by (simp add: MAX_CUE_BYTES_def)
  have "str_lines b = split_str [LF] b"
    using cr last by (intro str_lines_split) (auto simp: b_def cue_block_def)
  then show "str_lines b = show_nat n # timing_line sep s e # split_str [LF] t"
    using line by (simp add: b_def cue_block_def split_char_append)
  obtain d r where dr: "show_nat n = d # r" by (cases "show_nat n") auto
  then have d: "is_digit d" using show_nat_chars [of d n] by simp
  have "d \<in> set (trim b)"
    using d dr by (intro trim_keeps_graphic) (auto simp: b_def cue_block_def is_graphic_digit)
  then show "trim b \<noteq> []" by auto
  show "b \<noteq> []" "is_digit (hd b)" using dr d by (simp_all add: b_def cue_block_def)
qed

lemma split_blocks:
  "\<forall>b \<in> set bs. no_blank b \<and> last b \<noteq> LF \<Longrightarrow>
   split_str [LF, LF] (concat (map (\<lambda>b. b @ [LF, LF]) bs)) = bs @ [[]]"
  by (induction bs) (auto simp: split_blank_append)

end
