(* ===== verification/Line_Endings.thy ===== *)
theory Line_Endings
  imports SubX_Error
begin

text \<open>
  Line-ending normalization (\<open>src/core/formats/line_endings.rs\<close>): the collapse of CRLF and bare
  CR to LF, and the iterator that yields the cue blocks of the raw buffer.
\<close>

definition normalize_line_endings :: "str \<Rightarrow> str" where
  "normalize_line_endings content =
     (if CR \<notin> set content then content
      else replace_str [CR] [LF] (replace_str [CR, LF] [LF] content))"

definition term_len_at :: "str \<Rightarrow> nat \<Rightarrow> nat" where
  "term_len_at bytes i =
     (if bytes ! i = CR then (if i + 1 < length bytes \<and> bytes ! (i + 1) = LF then 2 else 1)
      else if bytes ! i = LF then 1 else 0)"

record RawBlocks =
  rb_src :: str
  rb_pos :: nat
  rb_done :: bool

definition raw_blocks :: "str \<Rightarrow> RawBlocks" where
  "raw_blocks content = \<lparr>rb_src = content, rb_pos = 0, rb_done = False\<rparr>"

text \<open>
  The loop of \<open>RawBlocks::next\<close>: where the block ends and where the next one starts, or
  \<open>None\<close> when the loop reaches the end of the buffer.
\<close>

function rb_scan :: "str \<Rightarrow> nat \<Rightarrow> (nat \<times> nat) option" where
  "rb_scan bytes i =
     (if i < length bytes then
        (let first_term = term_len_at bytes i in
         if first_term = 0 then rb_scan bytes (i + 1)
         else
           (let after_first = i + first_term;
                second_term = (if after_first < length bytes then term_len_at bytes after_first else 0)
            in if 0 < second_term then Some (i, after_first + second_term)
               else rb_scan bytes after_first))
      else None)"
  by pat_completeness auto
termination
  by (relation "measure (\<lambda>(b, i). length b - i)") (auto simp: term_len_at_def split: if_splits)

declare rb_scan.simps [simp del]

definition rb_next :: "RawBlocks \<Rightarrow> str option \<times> RawBlocks" where
  "rb_next st =
     (if rb_done st then (None, st)
      else case rb_scan (rb_src st) (rb_pos st) of
             Some (i, p) \<Rightarrow> (Some (take (i - rb_pos st) (drop (rb_pos st) (rb_src st))), st\<lparr>rb_pos := p\<rparr>)
           | None \<Rightarrow> (Some (drop (rb_pos st) (rb_src st)), st\<lparr>rb_done := True\<rparr>))"

lemma rb_scan_bounds: "rb_scan b i = Some (j, p) \<Longrightarrow> i \<le> j \<and> j < p \<and> j < length b"
proof (induction b i rule: rb_scan.induct)
  case (1 b i)
  note step = 1(3) [unfolded rb_scan.simps [of b i]]
  show ?case
    using step 1(1,2) by (fastforce simp: Let_def split: if_splits)
qed

text \<open>Draining the iterator.\<close>

function rb_collect :: "RawBlocks \<Rightarrow> str list" where
  "rb_collect st = (case rb_next st of (None, _) \<Rightarrow> [] | (Some b, st') \<Rightarrow> b # rb_collect st')"
  by pat_completeness auto
termination
proof (relation "measure (\<lambda>st. if rb_done st then 0 else Suc (length (rb_src st) - rb_pos st))",
    goal_cases)
  case (2 st x y b)
  then show ?case
    using rb_scan_bounds [of "rb_src st" "rb_pos st"]
    by (fastforce simp: rb_next_def split: if_splits option.splits)
qed simp

declare rb_collect.simps [simp del]

section \<open>The blocks of the remaining text\<close>

text \<open>The same two functions as recursions on what is left of the text.\<close>

fun norm :: "str \<Rightarrow> str" where
  "norm [] = []"
| "norm (c # s) =
     (if c = CR then LF # norm (if s \<noteq> [] \<and> hd s = LF then tl s else s) else c # norm s)"

definition tlen :: "str \<Rightarrow> nat" where
  "tlen s = (if s = [] then 0 else term_len_at s 0)"

function blocks :: "str \<Rightarrow> str list" where
  "blocks s =
     (if s = [] then [[]]
      else if tlen s = 0 then cons_head (hd s) (blocks (tl s))
      else let r = drop (tlen s) s in
        if 0 < tlen r then [] # blocks (drop (tlen r) r)
        else (take (tlen s) s @ hd (blocks r)) # tl (blocks r))"
  by pat_completeness auto
termination
  by (relation "measure length") (auto simp: Let_def)

declare blocks.simps [simp del]

lemma norm_no_cr: "CR \<notin> set s \<Longrightarrow> norm s = s"
  by (induction s) auto

lemma cr_notin_norm: "CR \<notin> set (norm s)"
  by (induction s rule: norm.induct) auto

lemma norm_length: "length (norm s) \<le> length s"
  by (induction s rule: norm.induct) (auto simp: neq_Nil_conv)

lemma norm_replace: "replace_str [CR] [LF] (replace_str [CR, LF] [LF] s) = norm s"
proof (induction s rule: norm.induct)
  case (2 c s)
  show ?case
  proof (cases "c = CR \<and> s \<noteq> [] \<and> hd s = LF")
    case True
    then obtain r where r: "s = LF # r" by (cases s) auto
    from replace_str_sep [of "[CR, LF]" "[LF]" r]
    have "replace_str [CR, LF] [LF] (CR # LF # r) = LF # replace_str [CR, LF] [LF] r" by simp
    with 2 True r show ?thesis by simp
  next
    case False
    then have "\<not> prefix [CR, LF] (c # s)" by (cases s) auto
    then have "replace_str [CR, LF] [LF] (c # s) = c # replace_str [CR, LF] [LF] s"
      by (simp add: replace_str_step)
    with 2 False show ?thesis by auto
  qed
qed simp

lemma normalize_norm: "normalize_line_endings = norm"
  by (rule ext) (simp add: normalize_line_endings_def norm_replace norm_no_cr)

lemma term_len_at_drop: "i < length b \<Longrightarrow> term_len_at b i = tlen (drop i b)"
  by (auto simp: term_len_at_def tlen_def hd_drop_conv_nth)

lemma tlen_Cons:
  "tlen (c # s) = (if c = CR then (if s \<noteq> [] \<and> hd s = LF then 2 else 1) else if c = LF then 1 else 0)"
  by (cases s) (auto simp: tlen_def term_len_at_def)

lemma tlen_Nil [simp]: "tlen [] = 0"
  by (simp add: tlen_def)

lemma norm_term: "0 < tlen s \<Longrightarrow> norm s = LF # norm (drop (tlen s) s)"
  by (cases s) (auto simp: tlen_Cons numeral_eq_Suc neq_Nil_conv split: if_splits)

lemma blocks_not_Nil [simp]: "blocks s \<noteq> []"
  by (subst blocks.simps) (auto simp: Let_def)

lemma blocks_other:
  "tlen (c # s) = 0 \<Longrightarrow> blocks (c # s) = cons_head c (blocks s)"
  by (subst blocks.simps) simp

lemma hd_blocks_other: "tlen s = 0 \<Longrightarrow> hd (blocks s) = [] \<or> hd (hd (blocks s)) \<noteq> LF"
proof (cases s)
  case Nil
  then show ?thesis by (simp add: blocks.simps)
next
  case (Cons c r)
  assume "tlen s = 0"
  with Cons have "c \<noteq> LF" "blocks s = cons_head c (blocks r)"
    by (auto simp: tlen_Cons blocks_other split: if_splits)
  then show ?thesis by (cases "blocks r") auto
qed

lemma norm_term_block:
  assumes "0 < tlen s" "tlen (drop (tlen s) s) = 0" "b = [] \<or> hd b \<noteq> LF"
  shows "norm (take (tlen s) s @ b) = LF # norm b"
  using assms by (cases s; cases b; cases "tl s") (auto simp: tlen_Cons split: if_splits)

lemma blocks_split: "map norm (blocks s) = split_str [LF, LF] (norm s)"
proof (induction s rule: blocks.induct)
  case (1 s)
  consider "s = []" | "s \<noteq> []" "tlen s = 0" | "s \<noteq> []" "0 < tlen s" by blast
  then show ?case
  proof cases
    case 1
    then show ?thesis by (simp add: blocks.simps)
  next
    case 2
    then obtain c r where c: "s = c # r" by (cases s) auto
    with 2 have c': "c \<noteq> CR" "c \<noteq> LF" by (auto simp: tlen_Cons split: if_splits)
    have "split_str [LF, LF] (norm s) = cons_head c (split_str [LF, LF] (norm r))"
      using c c' by (simp add: split_str_step)
    moreover have "map norm (blocks s) = cons_head c (map norm (blocks r))"
      using 2 c c' by (cases "blocks r") (auto simp: blocks_other)
    ultimately show ?thesis using "1.IH"(1) 2 c by simp
  next
    case 3
    let ?r = "drop (tlen s) s"
    show ?thesis
    proof (cases "0 < tlen ?r")
      case True
      then have "norm s = [LF, LF] @ norm (drop (tlen ?r) ?r)"
        using 3 by (simp add: norm_term)
      then have "split_str [LF, LF] (norm s) = [] # split_str [LF, LF] (norm (drop (tlen ?r) ?r))"
        by (metis list.distinct(1) split_str_sep)
      moreover have "blocks s = [] # blocks (drop (tlen ?r) ?r)"
        using 3 True by (subst blocks.simps) (simp add: Let_def)
      ultimately show ?thesis using "1.IH"(2) 3 True by simp
    next
      case False
      have ns: "norm s = LF # norm ?r" using 3 by (simp add: norm_term)
      have "norm ?r = [] \<or> hd (norm ?r) \<noteq> LF"
        using False by (cases ?r) (auto simp: tlen_Cons split: if_splits)
      then have "\<not> prefix [LF, LF] (norm s)" using ns by (cases "norm ?r") auto
      then have "split_str [LF, LF] (norm s) = cons_head LF (split_str [LF, LF] (norm ?r))"
        using ns by (simp add: split_str_step)
      moreover have "blocks s = (take (tlen s) s @ hd (blocks ?r)) # tl (blocks ?r)"
        using 3 False by (subst blocks.simps) (simp add: Let_def)
      moreover have "norm (take (tlen s) s @ hd (blocks ?r)) = LF # norm (hd (blocks ?r))"
        using 3 False hd_blocks_other [of ?r] by (intro norm_term_block) auto
      moreover have "split_str [LF, LF] (norm ?r) = map norm (blocks ?r)"
        using "1.IH"(3) 3 False by simp
      ultimately show ?thesis by (cases "blocks ?r") auto
    qed
  qed
qed

lemma rb_scan_blocks:
  "blocks (drop i b) =
     (case rb_scan b i of
        None \<Rightarrow> [drop i b]
      | Some (j, p) \<Rightarrow> take (j - i) (drop i b) # blocks (drop p b))"
proof (induction b i rule: rb_scan.induct)
  case (1 b i)
  show ?case
  proof (cases "i < length b")
    case False
    then show ?thesis by (simp add: rb_scan.simps [of b i] blocks.simps)
  next
    case True
    let ?t = "term_len_at b i"
    let ?r = "drop (i + ?t) b"
    have t: "tlen (drop i b) = ?t" using True by (simp add: term_len_at_drop)
    have dropt: "drop ?t (drop i b) = ?r" by (simp add: add.commute)
    have r: "(if i + ?t < length b then term_len_at b (i + ?t) else 0) = tlen ?r"
      using term_len_at_drop [of "i + ?t" b] by auto
    have later: "take (j - i) (drop i b) = take n (drop i b) @ take (j - (i + n)) (drop (i + n) b)"
      if "rb_scan b (i + n) = Some (j, p)" for n j p
    proof -
      have "j - i = n + (j - (i + n))" using rb_scan_bounds [OF that] by simp
      then show ?thesis by (metis add.commute drop_drop take_add)
    qed
    show ?thesis
    proof (cases "?t = 0")
      case z: True
      have "drop i b = b ! i # drop (i + 1) b" using True by (simp add: Cons_nth_drop_Suc)
      with z t have "blocks (drop i b) = cons_head (b ! i) (blocks (drop (i + 1) b))"
        by (simp add: blocks_other)
      moreover have "rb_scan b i = rb_scan b (i + 1)"
        using True z by (subst rb_scan.simps) simp
      moreover have "take 1 (drop i b) = [b ! i]" "drop i b = b ! i # drop (i + 1) b"
        using \<open>drop i b = _\<close> by simp_all
      ultimately show ?thesis
        using "1.IH"(1) True z later [of 1] by (auto split: option.splits)
    next
      case nz: False
      show ?thesis
      proof (cases "0 < tlen ?r")
        case s: True
        then have "rb_scan b i = Some (i, i + ?t + tlen ?r)"
          using True nz r by (subst rb_scan.simps) (simp add: Let_def split: if_splits)
        moreover have "blocks (drop i b) = [] # blocks (drop (i + ?t + tlen ?r) b)"
          using True nz s t dropt by (subst blocks.simps) (simp add: Let_def add.commute)
        ultimately show ?thesis by simp
      next
        case s: False
        then have scan: "rb_scan b i = rb_scan b (i + ?t)"
          using True nz r by (subst rb_scan.simps) (simp add: Let_def)
        have "blocks (drop i b) = (take ?t (drop i b) @ hd (blocks ?r)) # tl (blocks ?r)"
          using True nz s t dropt by (subst blocks.simps) (simp add: Let_def)
        moreover have "drop i b = take ?t (drop i b) @ ?r"
          using dropt by (metis append_take_drop_id)
        ultimately show ?thesis
          using "1.IH"(2) True nz s r scan later [of ?t]
          by (auto simp: Let_def split: option.splits)
      qed
    qed
  qed
qed

lemma rb_collect_blocks:
  "rb_collect st = (if rb_done st then [] else blocks (drop (rb_pos st) (rb_src st)))"
proof (induction st rule: rb_collect.induct)
  case (1 st)
  show ?case
  proof (cases "rb_done st")
    case True
    then show ?thesis by (subst rb_collect.simps) (simp add: rb_next_def)
  next
    case False
    with 1 show ?thesis
      by (subst rb_collect.simps)
        (auto simp: rb_next_def rb_scan_blocks [of "rb_pos st" "rb_src st"] split: option.splits)
  qed
qed

text \<open>
  C15.  The iterator over the raw buffer and the split of the normalized text see the same cue
  blocks: normalizing the blocks of the raw buffer, in order, gives exactly the parts that
  \<open>split("\n\n")\<close> yields on the normalized text, whatever mix of line endings the input uses.
\<close>

theorem raw_blocks_refine_split:
  "map normalize_line_endings (rb_collect (raw_blocks content))
     = split_str [LF, LF] (normalize_line_endings content)"
  by (simp add: rb_collect_blocks raw_blocks_def normalize_norm blocks_split)

text \<open>
  Normalization leaves no carriage return, is idempotent, never lengthens a text, and is the
  identity on texts without a carriage return.
\<close>

theorem normalize_correct:
  "CR \<notin> set (normalize_line_endings s)
   \<and> normalize_line_endings (normalize_line_endings s) = normalize_line_endings s
   \<and> length (normalize_line_endings s) \<le> length s
   \<and> (if CR \<in> set s then True else normalize_line_endings s = s)"
  by (simp add: normalize_norm cr_notin_norm norm_no_cr norm_length)

text \<open>A block of the normalized text is no longer than the raw block it comes from.\<close>

lemma split_normalized:
  "split_str [LF, LF] (normalize_line_endings content) = map norm (rb_collect (raw_blocks content))"
  by (simp add: rb_collect_blocks raw_blocks_def normalize_norm blocks_split)

lemma normalized_block_length:
  assumes "b \<in> set (split_str [LF, LF] (normalize_line_endings content))"
  shows "\<exists>rb \<in> set (rb_collect (raw_blocks content)).
           b = normalize_line_endings rb \<and> length b \<le> length rb"
  using assms unfolding split_normalized by (auto simp: normalize_norm norm_length)

lemma set_blocks: "b \<in> set (blocks s) \<Longrightarrow> set b \<subseteq> set s"
proof (induction s arbitrary: b rule: blocks.induct)
  case (1 s)
  have head: "hd (blocks r) \<in> set (blocks r)" "set (tl (blocks r)) \<subseteq> set (blocks r)" for r
    using blocks_not_Nil [of r] by (cases "blocks r"; auto)+
  consider "s = []" | "s \<noteq> []" "tlen s = 0" | "s \<noteq> []" "0 < tlen s" by blast
  then show ?case
  proof cases
    case 1
    then show ?thesis using "1.prems" by (simp add: blocks.simps)
  next
    case 2
    then obtain c r where c: "s = c # r" by (cases s) auto
    obtain h t where h: "blocks r = h # t" by (cases "blocks r") auto
    with "1.prems" 2 c have "b = c # h \<or> b \<in> set t" by (simp add: blocks_other)
    with "1.IH"(1) [of h] "1.IH"(1) [of b] 2 c h show ?thesis by auto
  next
    case 3
    let ?r = "drop (tlen s) s"
    have sub: "set (drop n s) \<subseteq> set s" "set (take n s) \<subseteq> set s" for n
      by (simp_all add: set_drop_subset set_take_subset)
    show ?thesis
    proof (cases "0 < tlen ?r")
      case True
      let ?q = "drop (tlen ?r) ?r"
      have IH: "b \<in> set (blocks ?q) \<Longrightarrow> set b \<subseteq> set ?q"
        using "1.IH"(2) [of ?r b] 3 True by blast
      have eq: "blocks s = [] # blocks ?q"
        using 3 True by (subst blocks.simps) (simp add: Let_def)
      have q: "set ?q \<subseteq> set s" by (metis drop_drop sub(1))
      from "1.prems" eq have "b = [] \<or> b \<in> set (blocks ?q)" by simp
      then show ?thesis using IH q by (metis empty_subsetI list.set(1) subset_trans)
    next
      case False
      have IH: "c \<in> set (blocks ?r) \<Longrightarrow> set c \<subseteq> set ?r" for c
        using "1.IH"(3) [of ?r c] 3 False by blast
      have eq: "blocks s = (take (tlen s) s @ hd (blocks ?r)) # tl (blocks ?r)"
        using 3 False by (subst blocks.simps) (simp add: Let_def)
      from "1.prems" eq head(2) [of ?r]
      have "b = take (tlen s) s @ hd (blocks ?r) \<or> b \<in> set (blocks ?r)" by auto
      then show ?thesis
      proof
        assume "b = take (tlen s) s @ hd (blocks ?r)"
        then have "set b = set (take (tlen s) s) \<union> set (hd (blocks ?r))" by simp
        then show ?thesis using IH [OF head(1)] sub by (metis Un_least subset_trans)
      next
        assume "b \<in> set (blocks ?r)"
        then show ?thesis using IH sub(1) by (metis subset_trans)
      qed
    qed
  qed
qed

lemma rb_collect_no_cr:
  assumes "CR \<notin> set s"
  shows "rb_collect (raw_blocks s) = split_str [LF, LF] s"
proof -
  have "map norm (blocks s) = blocks s"
    using set_blocks assms by (intro map_idI norm_no_cr) blast
  then show ?thesis
    using blocks_split [of s] assms by (simp add: rb_collect_blocks raw_blocks_def norm_no_cr)
qed

end
