(* ===== verification/Srt_Format.thy ===== *)
theory Srt_Format
  imports Time_Text Line_Endings
begin

text \<open>
  SubRip (\<open>src/core/formats/srt\<close>): the timestamp helpers, the parser with its size cap and its
  skip-and-continue rules, the serializer and the detector.
\<close>

section \<open>Timestamps\<close>

definition srt_time_error :: "int_error \<Rightarrow> SubXError" where
  "srt_time_error e = SubtitleFormat ''SRT'' (''Time value parsing failed: '' @ int_error_msg e)"

definition srt_parse_time :: "(nat \<times> str) list \<Rightarrow> nat \<Rightarrow> duration res" where
  "srt_parse_time caps start_group =
     bind_res (group_u64 srt_time_error caps start_group) (\<lambda>hours.
     bind_res (group_u64 srt_time_error caps (start_group + 1)) (\<lambda>minutes.
     bind_res (group_u64 srt_time_error caps (start_group + 2)) (\<lambda>seconds.
     bind_res (group_u64 srt_time_error caps (start_group + 3)) (\<lambda>milliseconds.
       Inr (from_millis (hours * 3600000 + minutes * 60000 + seconds * 1000 + milliseconds))))))"

definition srt_format_duration :: "duration \<Rightarrow> str" where
  "srt_format_duration duration =
     (let total_ms = as_millis duration;
          hours = total_ms div 3600000;
          minutes = (total_ms mod 3600000) div 60000;
          seconds = (total_ms mod 60000) div 1000;
          milliseconds = total_ms mod 1000
      in pad0 2 (show_nat hours) @ '':'' @ pad0 2 (show_nat minutes) @ '':''
         @ pad0 2 (show_nat seconds) @ '','' @ pad0 3 (show_nat milliseconds))"

definition srt_format_time_range :: "duration \<Rightarrow> duration \<Rightarrow> str" where
  "srt_format_time_range s e =
     srt_format_duration s @ '' --> '' @ srt_format_duration e @ [LF]"

section \<open>Parser\<close>

text \<open>The patterns \<open>-\d+:\d{2}:\d{2},\d{3}\<close> and
  \<open>(\d{2}):(\d{2}):(\d{2}),(\d{3}) --> (\d{2}):(\d{2}):(\d{2}),(\d{3})\<close>.\<close>

definition srt_neg_rx :: rx where
  "srt_neg_rx =
     [(NoAnchor, [lit CHR ''-'', digits_plus 0, lit CHR '':'', digits 0 2, lit CHR '':'', digits 0 2,
                  lit CHR '','', digits 0 3])]"

definition srt_time_rx :: rx where
  "srt_time_rx =
     [(NoAnchor,
        [digits 1 2, lit CHR '':'', digits 2 2, lit CHR '':'', digits 3 2, lit CHR '','', digits 4 3]
        @ lits '' --> ''
        @ [digits 5 2, lit CHR '':'', digits 6 2, lit CHR '':'', digits 7 2, lit CHR '','', digits 8 3])]"

definition timing_line_has_negative :: "regex_crate \<Rightarrow> str \<Rightarrow> bool" where
  "timing_line_has_negative eng line = is_match eng srt_neg_rx line"

definition srt_cap_error :: "nat \<Rightarrow> SubXError" where
  "srt_cap_error n =
     SubtitleFormat ''SRT''
       (''Single cue block exceeds '' @ show_nat MAX_CUE_BYTES @ ''-byte cap (got '' @ show_nat n
        @ '' bytes)'')"

text \<open>The body of the loop over the blocks.\<close>

definition srt_block :: "regex_crate \<Rightarrow> SubtitleEntry list \<Rightarrow> str \<Rightarrow> SubtitleEntry list res" where
  "srt_block eng es block =
     (if trim block = [] then Inr es
      else if MAX_CUE_BYTES < length block then Inl (srt_cap_error (length block))
      else
        (let lines = str_lines block in
         if length lines < 3 then Inr es
         else
           (case parse_uint (2 ^ 64) (trim (lines ! 0)) of
              Inl _ \<Rightarrow> Inr es
            | Inr index \<Rightarrow>
                if timing_line_has_negative eng (lines ! 1) then Inr es
                else
                  (case captures eng srt_time_rx (lines ! 1) of
                     None \<Rightarrow> Inr es
                   | Some (_, caps, _) \<Rightarrow>
                       bind_res (srt_parse_time caps 1) (\<lambda>s.
                       bind_res (srt_parse_time caps 5) (\<lambda>e.
                         Inr (es @ [\<lparr>entry_index = index, start_time = s, end_time = e,
                                     entry_text = join [LF] (drop 2 lines), styling = None\<rparr>])))))))"

definition srt_subtitle :: "SubtitleEntry list \<Rightarrow> Subtitle" where
  "srt_subtitle es =
     \<lparr>entries = es,
      metadata = \<lparr>title = None, language = None, encoding = ''utf-8'', frame_rate = None,
                  original_format = Srt\<rparr>,
      sub_format = Srt\<rparr>"

definition srt_parse :: "regex_crate \<Rightarrow> str \<Rightarrow> Subtitle res" where
  "srt_parse eng content0 =
     (let content = strip_bom content0 in
      if content = [] then Inl (SubtitleFormat ''SRT'' ''Input is empty after BOM stripping'')
      else
        (case List.find (\<lambda>b. MAX_CUE_BYTES < length b) (rb_collect (raw_blocks content)) of
           Some b \<Rightarrow> Inl (srt_cap_error (length b))
         | None \<Rightarrow>
             map_sum id srt_subtitle
               (fold_res (srt_block eng) []
                 (split_str [LF, LF] (normalize_line_endings content)))))"

section \<open>Serializer and detector\<close>

definition srt_cue :: "nat \<Rightarrow> SubtitleEntry \<Rightarrow> str" where
  "srt_cue i e =
     show_nat (i + 1) @ [LF] @ srt_format_time_range (start_time e) (end_time e) @ entry_text e
     @ [LF, LF]"

definition srt_serialize :: "Subtitle \<Rightarrow> str res" where
  "srt_serialize s = Inr (concat (map (\<lambda>(i, e). srt_cue i e) (enumerate 0 (entries s))))"

definition srt_detect :: "regex_crate \<Rightarrow> str \<Rightarrow> bool" where
  "srt_detect eng content = is_match eng srt_time_rx content"

section \<open>Round trip\<close>

lemma srt_format_clock: "srt_format_duration d = clock (CHR '','') d"
  by (simp add: srt_format_duration_def clock_def Let_def)

lemma srt_time_rx_timing: "srt_time_rx = timing_rx NoAnchor (CHR '','')"
  by (simp add: srt_time_rx_def timing_rx_def clock_rx_def del: One_nat_def)

lemma srt_parse_time_groups:
  assumes "hms_time s" "hms_time e"
  shows "srt_parse_time (timing_groups (CHR '','') s e) 1 = Inr s"
    "srt_parse_time (timing_groups (CHR '','') s e) 5 = Inr e"
  using group_u64_clock [OF assms(1) timing_groups_cap(1-4)]
    group_u64_clock [OF assms(2) timing_groups_cap(5-8)]
    from_millis_hms [OF assms(1)] from_millis_hms [OF assms(2)]
  by (simp_all add: srt_parse_time_def del: One_nat_def)

lemma srt_timing_not_negative:
  assumes "\<forall>e \<in> set nd. e \<noteq> [] \<and> 128 \<le> code (hd e)" "hms_time d" "hms_time e"
  shows "rx_search nd srt_neg_rx (timing_line (CHR '','') d e) = None"
  unfolding rx_search_def
proof (intro rx_from_none allI impI)
  fix u p
  assume "timing_line (CHR '','') d e = p @ u"
  then have "suffix u (timing_line (CHR '','') d e)" by (simp add: suffix_def)
  then show "rx_at nd srt_neg_rx ([] @ p) u = None"
    using rx_items_minus_digit [OF assms, of "CHR '',''" u] by (simp add: rx_at_def srt_neg_rx_def)
qed

definition srt_entry_ok :: "SubtitleEntry \<Rightarrow> bool" where
  "srt_entry_ok e \<longleftrightarrow> hms_time (start_time e) \<and> hms_time (end_time e) \<and> cue_text_ok (entry_text e)"

definition srt_cue_block :: "nat \<Rightarrow> SubtitleEntry \<Rightarrow> str" where
  "srt_cue_block i e =
     cue_block (i + 1) (timing_line (CHR '','') (start_time e) (end_time e)) (entry_text e)"

lemma srt_cue_split: "srt_cue i e = srt_cue_block i e @ [LF, LF]"
  by (simp add: srt_cue_def srt_cue_block_def cue_block_def srt_format_time_range_def timing_line_def
      srt_format_clock)

lemma srt_cue_block_facts:
  assumes "srt_entry_ok e" "i + 1 < 2 ^ 64"
  shows "no_blank (srt_cue_block i e)" "last (srt_cue_block i e) \<noteq> LF"
    "CR \<notin> set (srt_cue_block i e)" "length (srt_cue_block i e) \<le> MAX_CUE_BYTES"
    "str_lines (srt_cue_block i e) = show_nat (i + 1)
       # timing_line (CHR '','') (start_time e) (end_time e) # split_str [LF] (entry_text e)"
    "trim (srt_cue_block i e) \<noteq> []" "srt_cue_block i e \<noteq> []"
  using cue_block_facts [of "start_time e" "end_time e" "entry_text e" "CHR '',''" "i + 1"] assms
  by (simp_all add: srt_cue_block_def srt_entry_ok_def)

context regex_engine
begin

lemma srt_block_reread:
  assumes "srt_entry_ok e" "i + 1 < 2 ^ 64"
  shows "srt_block eng es (srt_cue_block i e) = Inr (es @ [reread i e])"
proof -
  note facts = srt_cue_block_facts [OF assms]
  have times: "hms_time (start_time e)" "hms_time (end_time e)"
    using assms(1) by (auto simp: srt_entry_ok_def)
  let ?caps = "timing_groups (CHR '','') (start_time e) (end_time e)"
  have caps: "captures eng srt_time_rx (timing_line (CHR '','') (start_time e) (end_time e)) = Some ([], ?caps, [])"
    using timing_rx_match [OF times] by (simp add: captures_search srt_time_rx_timing)
  have neg: "\<not> timing_line_has_negative eng (timing_line (CHR '','') (start_time e) (end_time e))"
    using srt_timing_not_negative [OF nonascii_digits times]
    by (simp add: captures_search timing_line_has_negative_def is_match_def)
  have "\<not> length (str_lines (srt_cue_block i e)) < 3"
    using facts(5) by (cases "split_str [LF] (entry_text e)") auto
  then show ?thesis
    using facts assms(2) caps neg srt_parse_time_groups [OF times]
    by (simp add: srt_block_def reread_def join_split_str)
qed

end

context regex_engine
begin

lemma srt_fold_reread:
  "\<forall>e \<in> set es. srt_entry_ok e \<Longrightarrow> n + length es < 2 ^ 64 \<Longrightarrow>
   fold_res (srt_block eng) acc (map (\<lambda>(i, e). srt_cue_block i e) (enumerate n es))
     = Inr (acc @ map (\<lambda>(i, e). reread i e) (enumerate n es))"
proof (induction es arbitrary: n acc)
  case (Cons e es)
  then have "srt_block eng acc (srt_cue_block n e) = Inr (acc @ [reread n e])"
    by (intro srt_block_reread) auto
  with Cons show ?case by simp
qed simp

lemma srt_reread_all:
  assumes "entries s \<noteq> []" "\<forall>e \<in> set (entries s). srt_entry_ok e" "length (entries s) < 2 ^ 64"
  shows "bind_res (srt_serialize s) (srt_parse eng) =
    Inr (srt_subtitle (map (\<lambda>(i, e). reread i e) (enumerate 0 (entries s))))"
proof -
  let ?es = "enumerate 0 (entries s)"
  define c where "c = concat (map (\<lambda>(i, e). srt_cue i e) ?es)"
  have ok: "srt_entry_ok e \<and> i + 1 < 2 ^ 64" if "(i, e) \<in> set ?es" for i e
    using that assms by (auto simp: in_set_enumerate_eq)
  have "c = concat (map (\<lambda>b. b @ [LF, LF]) (map (\<lambda>(i, e). srt_cue_block i e) ?es))"
    by (simp add: c_def srt_cue_split comp_def case_prod_unfold)
  then have split: "split_str [LF, LF] c = map (\<lambda>(i, e). srt_cue_block i e) ?es @ [[]]"
    using srt_cue_block_facts(1,2) ok by (simp only:) (rule split_blocks, auto)
  have cr: "CR \<notin> set c"
    using srt_cue_block_facts(3) ok by (fastforce simp: c_def srt_cue_split)
  obtain d r where d: "c = d # r" "is_digit d"
  proof -
    obtain e es where e: "entries s = e # es" using assms(1) by (cases "entries s") auto
    obtain d r where dr: "show_nat 1 = d # r" by (cases "show_nat 1") auto
    then have "is_digit d" using show_nat_chars [of d 1] by simp
    with e dr that show thesis by (simp add: c_def srt_cue_def)
  qed
  then have bom: "strip_bom c = c" by (simp add: is_digit_code)
  have small: "List.find (\<lambda>b. MAX_CUE_BYTES < length b) (rb_collect (raw_blocks c)) = None"
    unfolding rb_collect_no_cr [OF cr] split find_None_iff
    using srt_cue_block_facts(4) ok by (fastforce simp: not_less)
  have "srt_block eng es [] = Inr es" for es by (simp add: srt_block_def)
  then have "fold_res (srt_block eng) [] (split_str [LF, LF] c)
      = Inr (map (\<lambda>(i, e). reread i e) ?es)"
    using srt_fold_reread [of "entries s" 0 "[]"] assms by (simp add: split fold_res_append)
  then have "srt_parse eng c = Inr (srt_subtitle (map (\<lambda>(i, e). reread i e) ?es))"
    using bom small d(1) cr by (simp add: srt_parse_def Let_def normalize_line_endings_def)
  then show ?thesis by (simp add: srt_serialize_def c_def)
qed

end

text \<open>
  C4.  Writing a subtitle as SRT and reading it back gives every cue with its times and its text,
  numbered from 1 and without styling: for a non-empty subtitle whose times are whole
  milliseconds below 100 hours and whose texts are non-empty, free of carriage returns and blank
  lines, do not begin or end with a line feed, and stay below the cue cap.
\<close>

theorem srt_roundtrip:
  assumes "regex_engine eng nd"
    and "entries s \<noteq> []" "\<forall>e \<in> set (entries s). srt_entry_ok e" "length (entries s) < 2 ^ 64"
  shows "bind_res (srt_serialize s) (srt_parse eng) =
    Inr (srt_subtitle (map (\<lambda>(i, e). reread i e) (enumerate 0 (entries s))))"
  using assms by (rule regex_engine.srt_reread_all)

lemma srt_roundtrip_witness:
  "bind_res (srt_serialize (srt_subtitle [demo_entry 7 1000000000 2500000000 ''Hi'',
        demo_entry 9 359999999000000 61001000000 (''a'' @ [LF] @ ''b'')])) (srt_parse (ref_engine []))
   = Inr (srt_subtitle [demo_entry 1 1000000000 2500000000 ''Hi'',
        demo_entry 2 359999999000000 61001000000 (''a'' @ [LF] @ ''b'')])"
proof -
  let ?s = "srt_subtitle [demo_entry 7 1000000000 2500000000 ''Hi'',
        demo_entry 9 359999999000000 61001000000 (''a'' @ [LF] @ ''b'')]"
  have "entries ?s \<noteq> []" "length (entries ?s) < 2 ^ 64" by (simp_all add: srt_subtitle_def)
  moreover have "\<forall>e \<in> set (entries ?s). srt_entry_ok e"
    by (simp add: srt_subtitle_def demo_entry_def srt_entry_ok_def hms_time_def cue_text_ok_def
        no_blank_Cons MAX_CUE_BYTES_def)
  ultimately have "bind_res (srt_serialize ?s) (srt_parse (ref_engine [])) =
      Inr (srt_subtitle (map (\<lambda>(i, e). reread i e) (enumerate 0 (entries ?s))))"
    by (intro srt_roundtrip [OF ascii_engine.regex_engine_axioms])
  then show ?thesis
    by (simp add: srt_subtitle_def demo_entry_def reread_def)
qed

section \<open>The size cap and line endings\<close>

lemma srt_time_errors: "srt_parse_time caps k = Inl e \<Longrightarrow> \<exists>m. e = srt_time_error m"
  by (auto simp: srt_parse_time_def group_u64_def bind_res_def map_err_def split: sum.splits)

lemma srt_block_errors:
  "length b \<le> MAX_CUE_BYTES \<Longrightarrow> srt_block eng es b = Inl e \<Longrightarrow> \<exists>m. e = srt_time_error m"
  using srt_time_errors
  by (auto simp: srt_block_def Let_def bind_res_def split: if_splits sum.splits option.splits)

lemma srt_fold_errors:
  "\<forall>b \<in> set bs. length b \<le> MAX_CUE_BYTES \<Longrightarrow> fold_res (srt_block eng) es bs = Inl e \<Longrightarrow>
   \<exists>m. e = srt_time_error m"
proof (induction bs arbitrary: es)
  case (Cons b bs)
  then show ?case by (cases "srt_block eng es b") (auto dest: srt_block_errors)
qed simp

lemma srt_cap_error_neq [simp]: "srt_time_error m \<noteq> srt_cap_error n" "srt_cap_error n \<noteq> srt_time_error m"
  by (simp_all add: srt_time_error_def srt_cap_error_def)

lemma capped_blocks:
  assumes "List.find (\<lambda>b. MAX_CUE_BYTES < length b) (rb_collect (raw_blocks c)) = None"
  shows "\<forall>b \<in> set (split_str [LF, LF] (normalize_line_endings c)). length b \<le> MAX_CUE_BYTES"
  using assms normalized_block_length [of _ c] by (fastforce simp: find_None_iff)

text \<open>
   The parser rejects a file for an oversized cue exactly when some block of the raw buffer is
  larger than the cap, carriage returns counted: neither padding with carriage returns nor the
  second check after normalization changes the outcome.
\<close>

theorem srt_cap_exact:
  "(\<exists>n. srt_parse eng c = Inl (srt_cap_error n)) \<longleftrightarrow>
     strip_bom c \<noteq> [] \<and> (\<exists>b \<in> set (rb_collect (raw_blocks (strip_bom c))). MAX_CUE_BYTES < length b)"
proof (cases "List.find (\<lambda>b. MAX_CUE_BYTES < length b) (rb_collect (raw_blocks (strip_bom c)))")
  case None
  let ?r = "fold_res (srt_block eng) [] (split_str [LF, LF] (normalize_line_endings (strip_bom c)))"
  have "?r \<noteq> Inl (srt_cap_error n)" for n
    using srt_fold_errors [OF capped_blocks [OF None]] by fastforce
  then have "srt_parse eng c \<noteq> Inl (srt_cap_error n)" for n
    using None by (cases ?r) (auto simp: srt_parse_def Let_def srt_cap_error_def)
  moreover have "\<not> (\<exists>b \<in> set (rb_collect (raw_blocks (strip_bom c))). MAX_CUE_BYTES < length b)"
    using None by (auto simp: find_None_iff)
  ultimately show ?thesis by blast
next
  case (Some b)
  then have "b \<in> set (rb_collect (raw_blocks (strip_bom c))) \<and> MAX_CUE_BYTES < length b"
    by (auto simp: find_Some_iff)
  with Some show ?thesis
    by (auto simp: srt_parse_def Let_def srt_cap_error_def)
qed

lemma strip_bom_norm: "strip_bom (norm c) = norm (strip_bom c)"
proof (cases "prefix bom c")
  case True
  then obtain r where "c = bom @ r" by (auto simp: prefix_def)
  then show ?thesis by (simp add: strip_bom_def bom_def)
next
  case False
  have "prefix bom c" if "prefix bom (norm c)"
  proof (cases c)
    case (Cons x xs)
    then show ?thesis
      using that by (cases xs; cases "tl xs") (auto simp: bom_def split: if_splits)
  qed (use that in simp)
  with False show ?thesis by (auto simp: strip_bom_def)
qed

text \<open>
   A file parses the same whatever its line endings: the parser gives the same result on the
  raw text and on the text with its line endings normalized, when no raw block exceeds the cap.
\<close>

theorem srt_line_endings_irrelevant:
  assumes "\<forall>b \<in> set (rb_collect (raw_blocks (strip_bom c))). length b \<le> MAX_CUE_BYTES"
  shows "srt_parse eng (normalize_line_endings c) = srt_parse eng c"
proof -
  let ?b = "strip_bom c"
  have 1: "List.find (\<lambda>b. MAX_CUE_BYTES < length b) (rb_collect (raw_blocks ?b)) = None"
    using assms by (auto simp: find_None_iff)
  have "rb_collect (raw_blocks (norm ?b)) = split_str [LF, LF] (normalize_line_endings ?b)"
    by (simp add: rb_collect_no_cr cr_notin_norm normalize_norm)
  then have 2: "List.find (\<lambda>b. MAX_CUE_BYTES < length b) (rb_collect (raw_blocks (norm ?b))) = None"
    using capped_blocks [OF 1] by (auto simp: find_None_iff)
  have "norm ?b = [] \<longleftrightarrow> ?b = []" by (cases ?b) auto
  then show ?thesis
    using 1 2 by (simp add: srt_parse_def Let_def strip_bom_norm normalize_norm norm_no_cr cr_notin_norm)
qed

lemma srt_line_endings_witness:
  "srt_parse (ref_engine []) (normalize_line_endings (''1'' @ [CR, LF] @ ''x'' @ [CR, CR, LF] @ ''2''))
     = srt_parse (ref_engine []) (''1'' @ [CR, LF] @ ''x'' @ [CR, CR, LF] @ ''2'')"
proof -
  have "rb_collect (raw_blocks (strip_bom (''1'' @ [CR, LF] @ ''x'' @ [CR, CR, LF] @ ''2'')))
      = [''1'' @ [CR, LF] @ ''x'', ''2'']"
    by code_simp
  then show ?thesis
    by (intro srt_line_endings_irrelevant) (simp add: MAX_CUE_BYTES_def)
qed

end
