(* ===== verification/Vtt_Format.thy ===== *)
theory Vtt_Format
  imports Time_Text Line_Endings
begin

text \<open>
  WebVTT (\<open>src/core/formats/vtt\<close>): the timestamp helpers, the parser with the exempt header, note
  and style blocks, the serializer and the detector.
\<close>

section \<open>Timestamps\<close>

definition vtt_error :: "str \<Rightarrow> SubXError" where
  "vtt_error m = SubtitleFormat ''VTT'' m"

definition vtt_int_error :: "int_error \<Rightarrow> SubXError" where
  "vtt_int_error e = vtt_error (int_error_msg e)"

definition parse_vtt_time :: "(nat \<times> str) list \<Rightarrow> nat \<Rightarrow> duration res" where
  "parse_vtt_time caps start =
     bind_res (group_u64 vtt_int_error caps start) (\<lambda>hours.
     bind_res (group_u64 vtt_int_error caps (start + 1)) (\<lambda>minutes.
     bind_res (group_u64 vtt_int_error caps (start + 2)) (\<lambda>seconds.
     bind_res (group_u64 vtt_int_error caps (start + 3)) (\<lambda>millis.
       Inr (from_millis (hours * 3600 * 1000 + minutes * 60 * 1000 + seconds * 1000 + millis))))))"

definition format_vtt_time :: "duration \<Rightarrow> str" where
  "format_vtt_time duration =
     (let total_ms = as_millis duration;
          hours = total_ms div 3600000;
          minutes = (total_ms mod 3600000) div 60000;
          seconds = (total_ms mod 60000) div 1000;
          millis = total_ms mod 1000
      in pad0 2 (show_nat hours) @ '':'' @ pad0 2 (show_nat minutes) @ '':''
         @ pad0 2 (show_nat seconds) @ ''.'' @ pad0 3 (show_nat millis))"

definition format_vtt_time_range :: "duration \<Rightarrow> duration \<Rightarrow> str" where
  "format_vtt_time_range s e = format_vtt_time s @ '' --> '' @ format_vtt_time e @ [LF]"

section \<open>Parser\<close>

text \<open>The patterns \<open>(?m)^(\d{2}):(\d{2}):(\d{2})\.(\d{3}) --> (\d{2}):(\d{2}):(\d{2})\.(\d{3})\<close> and
  \<open>(^|\s|>)-\d{1,}:\d{2}:\d{2}\.\d{3}\<close>.\<close>

definition vtt_time_rx :: rx where
  "vtt_time_rx =
     [(LineStart,
        [digits 1 2, lit CHR '':'', digits 2 2, lit CHR '':'', digits 3 2, lit CHR ''.'', digits 4 3]
        @ lits '' --> ''
        @ [digits 5 2, lit CHR '':'', digits 6 2, lit CHR '':'', digits 7 2, lit CHR ''.'', digits 8 3])]"

definition vtt_neg_items :: "rx_item list" where
  "vtt_neg_items =
     [lit CHR ''-'', digits_plus 0, lit CHR '':'', digits 0 2, lit CHR '':'', digits 0 2,
      lit CHR ''.'', digits 0 3]"

definition vtt_neg_rx :: rx where
  "vtt_neg_rx =
     [(TextStart, vtt_neg_items),
      (NoAnchor, \<lparr>group = 1, rep_min = 1, rep_max = Some 1, cls = CSpace\<rparr> # vtt_neg_items),
      (NoAnchor, \<lparr>group = 1, rep_min = 1, rep_max = Some 1, cls = CLit CHR ''>''\<rparr> # vtt_neg_items)]"

definition vtt_cap_error :: "nat \<Rightarrow> SubXError" where
  "vtt_cap_error n =
     vtt_error (''cue block of '' @ show_nat n @ '' bytes exceeds per-cue cap of ''
                @ show_nat MAX_CUE_BYTES @ '' bytes'')"

definition vtt_body_error :: "nat \<Rightarrow> SubXError" where
  "vtt_body_error n =
     vtt_error (''cue body of '' @ show_nat n @ '' bytes exceeds per-cue cap of ''
                @ show_nat MAX_CUE_BYTES @ '' bytes'')"

text \<open>Blocks that are no cues; the argument is the trimmed block.\<close>

definition vtt_exempt :: "str \<Rightarrow> bool" where
  "vtt_exempt block \<longleftrightarrow>
     block = [] \<or> prefix ''WEBVTT'' block \<or> prefix ''NOTE'' block \<or> prefix ''STYLE'' block"

text \<open>The cue of a block: \<open>idx\<close> is the line that should hold the timing.\<close>

definition vtt_cue_at ::
    "regex_crate \<Rightarrow> SubtitleEntry list \<Rightarrow> str list \<Rightarrow> nat \<Rightarrow> SubtitleEntry list res" where
  "vtt_cue_at eng es lines idx =
     (let marker_line = lines ! idx in
      if is_match eng vtt_neg_rx marker_line then Inr es
      else
        (case captures eng vtt_time_rx marker_line of
           None \<Rightarrow> Inr es
         | Some (_, caps, _) \<Rightarrow>
             bind_res (parse_vtt_time caps 1) (\<lambda>s.
             bind_res (parse_vtt_time caps 5) (\<lambda>e.
               let text = join [LF] (drop (idx + 1) lines) in
               if MAX_CUE_BYTES < length text then Inl (vtt_body_error (length text))
               else Inr (es @ [\<lparr>entry_index = length es + 1, start_time = s, end_time = e,
                                entry_text = text, styling = None\<rparr>])))))"

definition vtt_block :: "regex_crate \<Rightarrow> SubtitleEntry list \<Rightarrow> str \<Rightarrow> SubtitleEntry list res" where
  "vtt_block eng es block0 =
     (let block = trim block0 in
      if vtt_exempt block then Inr es
      else if MAX_CUE_BYTES < length block then Inl (vtt_cap_error (length block))
      else
        (let lines = str_lines block in
         if \<not> is_match eng vtt_time_rx (lines ! 0)
         then (if length lines \<le> 1 then Inr es else vtt_cue_at eng es lines 1)
         else vtt_cue_at eng es lines 0))"

definition vtt_subtitle :: "SubtitleEntry list \<Rightarrow> Subtitle" where
  "vtt_subtitle es =
     \<lparr>entries = es,
      metadata = \<lparr>title = None, language = None, encoding = ''utf-8'', frame_rate = None,
                  original_format = Vtt\<rparr>,
      sub_format = Vtt\<rparr>"

definition vtt_parse :: "regex_crate \<Rightarrow> str \<Rightarrow> Subtitle res" where
  "vtt_parse eng content0 =
     (if content0 = [] then Inl (vtt_error ''empty input'')
      else
        (let content = strip_bom content0 in
         if \<not> prefix ''WEBVTT'' (trim_start content) then Inl (vtt_error ''missing WEBVTT signature'')
         else
           (case List.find (\<lambda>b. \<not> vtt_exempt (trim b) \<and> MAX_CUE_BYTES < length b)
                   (rb_collect (raw_blocks content)) of
              Some b \<Rightarrow> Inl (vtt_cap_error (length b))
            | None \<Rightarrow>
                map_sum id vtt_subtitle
                  (fold_res (vtt_block eng) []
                    (split_str [LF, LF] (normalize_line_endings content))))))"

section \<open>Serializer and detector\<close>

definition vtt_cue :: "SubtitleEntry \<Rightarrow> str" where
  "vtt_cue e =
     show_nat (entry_index e) @ [LF] @ format_vtt_time_range (start_time e) (end_time e)
     @ entry_text e @ [LF, LF]"

definition vtt_serialize :: "Subtitle \<Rightarrow> str res" where
  "vtt_serialize s = Inr (''WEBVTT'' @ [LF, LF] @ concat (map vtt_cue (entries s)))"

definition vtt_detect :: "str \<Rightarrow> bool" where
  "vtt_detect content = prefix ''WEBVTT'' (trim_start (strip_bom content))"

section \<open>Round trip\<close>

lemma vtt_format_clock: "format_vtt_time d = clock (CHR ''.'') d"
  by (simp add: format_vtt_time_def clock_def Let_def)

lemma vtt_time_rx_timing: "vtt_time_rx = timing_rx LineStart (CHR ''.'')"
  by (simp add: vtt_time_rx_def timing_rx_def clock_rx_def del: One_nat_def)

lemma parse_vtt_time_groups:
  assumes "hms_time s" "hms_time e"
  shows "parse_vtt_time (timing_groups (CHR ''.'') s e) 1 = Inr s"
    "parse_vtt_time (timing_groups (CHR ''.'') s e) 5 = Inr e"
  using group_u64_clock [OF assms(1) timing_groups_cap(1-4)]
    group_u64_clock [OF assms(2) timing_groups_cap(5-8)]
    from_millis_hms [OF assms(1)] from_millis_hms [OF assms(2)]
  by (simp_all add: parse_vtt_time_def mult.assoc del: One_nat_def)

lemma vtt_timing_not_negative:
  assumes "\<forall>e \<in> set nd. e \<noteq> [] \<and> 128 \<le> code (hd e)" "hms_time d" "hms_time e"
  shows "rx_search nd vtt_neg_rx (timing_line (CHR ''.'') d e) = None"
  unfolding rx_search_def
proof (intro rx_from_none allI impI)
  fix u p
  assume "timing_line (CHR ''.'') d e = p @ u"
  then have u: "suffix (drop l u) (timing_line (CHR ''.'') d e)" for l
    by (metis suffix_drop suffix_order.trans suffixI)
  then have "rx_items nd vtt_neg_items (drop l u) = None" for l
    using rx_items_minus_digit [OF assms, of "CHR ''.''" "drop l u"] by (simp add: vtt_neg_items_def)
  from this this [of 0] have none: "rx_items nd vtt_neg_items (drop l u) = None"
    "rx_items nd vtt_neg_items u = None" for l
    by simp_all
  have "rx_items nd (it # vtt_neg_items) u = None" for it
    using none(1) by (simp add: rx_items.simps(2))
  then show "rx_at nd vtt_neg_rx ([] @ p) u = None"
    using none(2) by (simp add: rx_at_def vtt_neg_rx_def)
qed

text \<open>A number alone on a line is no timing line.\<close>

lemma vtt_number_no_timing: "rx_search nd vtt_time_rx (show_nat n) = None"
proof -
  have "rx_items nd (digits 1 2 # lit CHR '':'' # its) u = None"
    if u: "list_all is_digit u" for u its
  proof -
    have "CHR '':'' \<notin> set u" using u by (auto simp: list_all_iff)
    then have "CHR '':'' \<notin> set (drop l u)" for l by (metis in_set_dropD)
    then have "rx_items nd (lit CHR '':'' # its) (drop l u) = None" for l
      by (cases "drop l u") (auto simp: rx_items_lit, metis list.set_intros(1))
    then show ?thesis by (simp add: rx_items.simps(2))
  qed
  moreover have "list_all is_digit u" if "show_nat n = p @ u" for p u
    using list_all_digit_show_nat [of n] that by simp
  ultimately show ?thesis
    unfolding rx_search_def by (intro rx_from_none) (auto simp: rx_at_def vtt_time_rx_def)
qed

definition vtt_entry_ok :: "SubtitleEntry \<Rightarrow> bool" where
  "vtt_entry_ok e \<longleftrightarrow>
     hms_time (start_time e) \<and> hms_time (end_time e) \<and> cue_text_ok (entry_text e)
     \<and> trim_end (entry_text e) = entry_text e \<and> entry_index e < 2 ^ 64"

definition vtt_cue_block :: "SubtitleEntry \<Rightarrow> str" where
  "vtt_cue_block e =
     cue_block (entry_index e) (timing_line (CHR ''.'') (start_time e) (end_time e)) (entry_text e)"

lemma vtt_cue_split: "vtt_cue e = vtt_cue_block e @ [LF, LF]"
  by (simp add: vtt_cue_def vtt_cue_block_def cue_block_def format_vtt_time_range_def timing_line_def
      vtt_format_clock)

lemma vtt_cue_block_facts:
  assumes "vtt_entry_ok e"
  shows "no_blank (vtt_cue_block e)" "last (vtt_cue_block e) \<noteq> LF"
    "CR \<notin> set (vtt_cue_block e)" "length (vtt_cue_block e) \<le> MAX_CUE_BYTES"
    "str_lines (vtt_cue_block e) = show_nat (entry_index e)
       # timing_line (CHR ''.'') (start_time e) (end_time e) # split_str [LF] (entry_text e)"
    "trim (vtt_cue_block e) = vtt_cue_block e" "\<not> vtt_exempt (vtt_cue_block e)"
    "length (entry_text e) \<le> MAX_CUE_BYTES"
proof -
  have ok: "hms_time (start_time e)" "hms_time (end_time e)" "cue_text_ok (entry_text e)"
    "trim_end (entry_text e) = entry_text e" "entry_index e < 2 ^ 64"
    using assms by (auto simp: vtt_entry_ok_def)
  note facts = cue_block_facts [OF ok(1-3) disjI2 [OF refl] ok(5), folded vtt_cue_block_def]
  show "no_blank (vtt_cue_block e)" "last (vtt_cue_block e) \<noteq> LF"
    "CR \<notin> set (vtt_cue_block e)" "length (vtt_cue_block e) \<le> MAX_CUE_BYTES"
    "str_lines (vtt_cue_block e) = show_nat (entry_index e)
       # timing_line (CHR ''.'') (start_time e) (end_time e) # split_str [LF] (entry_text e)"
    by (rule facts)+
  show "length (entry_text e) \<le> MAX_CUE_BYTES"
    using ok(3) unfolding cue_text_ok_def by linarith
  obtain c r where c: "vtt_cue_block e = c # r" "is_digit c"
    using facts(7,8) by (cases "vtt_cue_block e") auto
  have "c \<noteq> CHR ''W''" "c \<noteq> CHR ''N''" "c \<noteq> CHR ''S''" using c(2) by (auto simp: is_digit_def)
  then show "\<not> vtt_exempt (vtt_cue_block e)" using c(1) by (simp add: vtt_exempt_def)
  let ?p = "show_nat (entry_index e) @ [LF] @ timing_line (CHR ''.'') (start_time e) (end_time e) @ [LF]"
  have "trim_end (?p @ entry_text e) = ?p @ entry_text e"
    using ok by (intro trim_end_append) (auto simp: cue_text_ok_def)
  then have "trim_end (vtt_cue_block e) = vtt_cue_block e"
    by (simp add: vtt_cue_block_def cue_block_def)
  then show "trim (vtt_cue_block e) = vtt_cue_block e"
    using c by (simp add: trim_def is_graphic_digit)
qed

context regex_engine
begin

lemma vtt_block_reread:
  assumes "vtt_entry_ok e"
  shows "vtt_block eng es (vtt_cue_block e) = Inr (es @ [reread (length es) e])"
proof -
  note facts = vtt_cue_block_facts [OF assms]
  have times: "hms_time (start_time e)" "hms_time (end_time e)"
    using assms by (auto simp: vtt_entry_ok_def)
  let ?line = "timing_line (CHR ''.'') (start_time e) (end_time e)"
  have caps: "captures eng vtt_time_rx ?line
      = Some ([], timing_groups (CHR ''.'') (start_time e) (end_time e), [])"
    using timing_rx_match [OF times] by (simp add: captures_search vtt_time_rx_timing)
  have neg: "\<not> is_match eng vtt_neg_rx ?line"
    using vtt_timing_not_negative [OF nonascii_digits times]
    by (simp add: captures_search is_match_def)
  have idx: "\<not> is_match eng vtt_time_rx (show_nat n)" for n
    by (simp add: captures_search is_match_def vtt_number_no_timing)
  have "vtt_cue_at eng es (str_lines (vtt_cue_block e)) 1 = Inr (es @ [reread (length es) e])"
    using facts(5,8) caps neg parse_vtt_time_groups [OF times]
    by (simp add: vtt_cue_at_def reread_def join_split_str del: One_nat_def)
  then show ?thesis
    using facts idx by (simp add: vtt_block_def Let_def)
qed

lemma vtt_fold_reread:
  "\<forall>e \<in> set es. vtt_entry_ok e \<Longrightarrow>
   fold_res (vtt_block eng) acc (map vtt_cue_block es)
     = Inr (acc @ map (\<lambda>(i, e). reread i e) (enumerate (length acc) es))"
proof (induction es arbitrary: acc)
  case (Cons e es)
  then have "vtt_block eng acc (vtt_cue_block e) = Inr (acc @ [reread (length acc) e])"
    by (intro vtt_block_reread) auto
  with Cons show ?case by simp
qed simp

lemma vtt_reread_all:
  assumes "\<forall>e \<in> set (entries s). vtt_entry_ok e"
  shows "bind_res (vtt_serialize s) (vtt_parse eng) =
    Inr (vtt_subtitle (map (\<lambda>(i, e). reread i e) (enumerate 0 (entries s))))"
proof -
  let ?bs = "''WEBVTT'' # map vtt_cue_block (entries s)"
  define c where "c = ''WEBVTT'' @ [LF, LF] @ concat (map vtt_cue (entries s))"
  have header: "vtt_exempt ''WEBVTT''" "trim ''WEBVTT'' = ''WEBVTT''"
    by (simp_all add: vtt_exempt_def trim_graphic is_graphic_def)
  have "vtt_cue = (\<lambda>e. vtt_cue_block e @ [LF, LF])" by (rule ext) (rule vtt_cue_split)
  then have c: "c = concat (map (\<lambda>b. b @ [LF, LF]) ?bs)"
    by (simp add: c_def comp_def)
  have split: "split_str [LF, LF] c = ?bs @ [[]]"
    unfolding c using vtt_cue_block_facts(1,2) assms
    by (intro split_blocks) (auto simp: no_blank_Cons)
  have "CR \<notin> set (vtt_cue e)" if "e \<in> set (entries s)" for e
    using vtt_cue_block_facts(3) assms that by (auto simp: vtt_cue_split)
  then have cr: "CR \<notin> set c" by (auto simp: c_def)
  have bom: "strip_bom c = c" and sig: "prefix ''WEBVTT'' (trim_start c)"
    by (simp_all add: c_def is_graphic_def)
  have small: "List.find (\<lambda>b. \<not> vtt_exempt (trim b) \<and> MAX_CUE_BYTES < length b)
      (rb_collect (raw_blocks c)) = None"
    unfolding rb_collect_no_cr [OF cr] split find_None_iff
    using vtt_cue_block_facts(4) assms header by (fastforce simp: not_less vtt_exempt_def)
  have "vtt_block eng es b = Inr es" if "b = [] \<or> b = ''WEBVTT''" for es b
    using that header by (auto simp: vtt_block_def vtt_exempt_def)
  then have "fold_res (vtt_block eng) [] (split_str [LF, LF] c)
      = Inr (map (\<lambda>(i, e). reread i e) (enumerate 0 (entries s)))"
    using vtt_fold_reread [of "entries s" "[]"] assms by (simp add: split fold_res_append)
  then have "vtt_parse eng c
      = Inr (vtt_subtitle (map (\<lambda>(i, e). reread i e) (enumerate 0 (entries s))))"
    using bom small sig cr
    by (simp add: vtt_parse_def Let_def normalize_line_endings_def) (simp add: c_def)
  then show ?thesis by (simp add: vtt_serialize_def c_def)
qed

end

text \<open>
  C16.  Writing a subtitle as WebVTT and reading it back gives every cue with its times and its text,
  numbered from 1 and without styling: for times in whole milliseconds below 100 hours and texts as
  for SRT that moreover do not end in white space, which the parser trims.  An empty subtitle is
  covered: its file is the bare header.
\<close>

theorem vtt_roundtrip:
  assumes "regex_engine eng nd" and "\<forall>e \<in> set (entries s). vtt_entry_ok e"
  shows "bind_res (vtt_serialize s) (vtt_parse eng) =
    Inr (vtt_subtitle (map (\<lambda>(i, e). reread i e) (enumerate 0 (entries s))))"
  using assms by (rule regex_engine.vtt_reread_all)

lemma vtt_roundtrip_witness:
  "bind_res (vtt_serialize (vtt_subtitle [demo_entry 7 1000000000 2500000000 ''Hi'',
        demo_entry 9 0 61001000000 (''a'' @ [LF] @ ''b.'')])) (vtt_parse (ref_engine []))
   = Inr (vtt_subtitle [demo_entry 1 1000000000 2500000000 ''Hi'',
        demo_entry 2 0 61001000000 (''a'' @ [LF] @ ''b.'')])"
proof -
  let ?s = "vtt_subtitle [demo_entry 7 1000000000 2500000000 ''Hi'',
        demo_entry 9 0 61001000000 (''a'' @ [LF] @ ''b.'')]"
  have "trim_end ''Hi'' = ''Hi''" "trim_end [CHR ''a'', LF, CHR ''b'', CHR ''.''] = [CHR ''a'', LF, CHR ''b'', CHR ''.'']"
    using trim_end_graphic [of "CHR ''i''" "''H''"] trim_end_graphic [of "CHR ''.''" "[CHR ''a'', LF, CHR ''b'']"]
    by (simp_all add: is_graphic_def)
  then have "\<forall>e \<in> set (entries ?s). vtt_entry_ok e"
    by (simp add: vtt_subtitle_def demo_entry_def vtt_entry_ok_def hms_time_def cue_text_ok_def
        no_blank_Cons MAX_CUE_BYTES_def)
  then have "bind_res (vtt_serialize ?s) (vtt_parse (ref_engine [])) =
      Inr (vtt_subtitle (map (\<lambda>(i, e). reread i e) (enumerate 0 (entries ?s))))"
    by (rule vtt_roundtrip [OF ascii_engine.regex_engine_axioms])
  then show ?thesis
    by (simp add: vtt_subtitle_def demo_entry_def reread_def)
qed

end
