(* ===== verification/Ass_Format.thy ===== *)
theory Ass_Format
  imports Time_Text
begin

text \<open>
  ASS/SSA (\<open>src/core/formats/ass\<close>): timestamps with checked arithmetic, the line-by-line parser
  with its section state, the canonical serializer and the detector.
\<close>

section \<open>Timestamps\<close>

definition ass_error :: "str \<Rightarrow> SubXError" where
  "ass_error m = SubtitleFormat ''ASS'' m"

text \<open>\<open>str::split\<close> with a set of ASCII characters.\<close>

fun split_chars :: "str \<Rightarrow> str \<Rightarrow> str list" where
  "split_chars cs [] = [[]]"
| "split_chars cs (c # s) =
     (if c \<in> set cs then [] # split_chars cs s else cons_head c (split_chars cs s))"

definition ass_u64 :: "str \<Rightarrow> u64 res" where
  "ass_u64 s = map_sum id of_nat (map_err (\<lambda>e. ass_error (int_error_msg e)) (parse_uint (2 ^ 64) s))"

definition ok_or :: "'e \<Rightarrow> 'a option \<Rightarrow> 'e + 'a" where
  "ok_or e x = (case x of None \<Rightarrow> Inl e | Some a \<Rightarrow> Inr a)"

definition ass_total_ms :: "SubXError \<Rightarrow> u64 \<Rightarrow> u64 \<Rightarrow> u64 \<Rightarrow> u64 \<Rightarrow> u64 res" where
  "ass_total_ms overflow hours minutes seconds centi =
     bind_res (ok_or overflow (checked_mul hours 3600000)) (\<lambda>h.
     bind_res (ok_or overflow (checked_mul minutes 60000)) (\<lambda>m.
     bind_res (ok_or overflow (checked_add h m)) (\<lambda>hm.
     bind_res (ok_or overflow (checked_mul seconds 1000)) (\<lambda>s.
     bind_res (ok_or overflow (checked_add hm s)) (\<lambda>hms.
     bind_res (ok_or overflow (checked_mul centi 10)) (\<lambda>c.
       ok_or overflow (checked_add hms c)))))))"

definition parse_ass_time :: "str \<Rightarrow> duration res" where
  "parse_ass_time time =
     (let parts = split_chars '':.'' time in
      if length parts \<noteq> 4 then Inl (ass_error (''Invalid time format: '' @ time))
      else
        bind_res (ass_u64 (parts ! 0)) (\<lambda>hours.
        bind_res (ass_u64 (parts ! 1)) (\<lambda>minutes.
        bind_res (ass_u64 (parts ! 2)) (\<lambda>seconds.
        bind_res (ass_u64 (parts ! 3)) (\<lambda>centi.
        bind_res (ass_total_ms (ass_error (''Timestamp arithmetic overflow: '' @ time))
                    hours minutes seconds centi)
          (\<lambda>total_ms. Inr (from_millis total_ms)))))))"

definition format_ass_time :: "duration \<Rightarrow> str" where
  "format_ass_time duration =
     (let total_ms = as_millis duration;
          hours = total_ms div 3600000;
          minutes = (total_ms mod 3600000) div 60000;
          seconds = (total_ms mod 60000) div 1000;
          centi = (total_ms mod 1000) div 10
      in show_nat hours @ '':'' @ pad0 2 (show_nat minutes) @ '':'' @ pad0 2 (show_nat seconds)
         @ ''.'' @ pad0 2 (show_nat centi))"

section \<open>Parser\<close>

text \<open>The variables of the loop over the lines.\<close>

record ass_state =
  ass_entries :: "SubtitleEntry list"
  in_events :: bool
  saw_events_header :: bool
  format_fields :: "str list"

definition ass_init :: ass_state where
  "ass_init = \<lparr>ass_entries = [], in_events = False, saw_events_header = False, format_fields = []\<rparr>"

text \<open>
  \<open>l.to_lowercase().starts_with(p)\<close> for the prefixes \<open>format:\<close> and \<open>dialogue:\<close>: no character
  outside ASCII has a lower-case mapping that continues such a prefix, so lowering the ASCII
  letters decides it.
\<close>

definition lower_starts_with :: "str \<Rightarrow> str \<Rightarrow> bool" where
  "lower_starts_with l p \<longleftrightarrow> prefix p (ascii_lower l)"

fun position :: "('a \<Rightarrow> bool) \<Rightarrow> 'a list \<Rightarrow> nat option" where
  "position p [] = None"
| "position p (x # xs) = (if p x then Some 0 else map_option Suc (position p xs))"

definition field_index :: "str \<Rightarrow> str \<Rightarrow> str list \<Rightarrow> nat res" where
  "field_index shown name fs =
     ok_or (ass_error (''Missing '' @ [CHR 0x27] @ shown @ [CHR 0x27] @ '' field in Format declaration''))
       (position (\<lambda>f. eq_ignore_ascii_case f name) fs)"

definition backslash_N :: str where
  "backslash_N = [backslash, CHR ''N'']"

text \<open>The branch for a \<open>Dialogue:\<close> row once its columns are split.\<close>

definition ass_cap_error :: "nat \<Rightarrow> SubXError" where
  "ass_cap_error n =
     ass_error (''Dialogue text exceeds per-cue byte cap ('' @ show_nat n @ '' > ''
                @ show_nat MAX_CUE_BYTES @ '')'')"

definition ass_row :: "ass_state \<Rightarrow> str list \<Rightarrow> ass_state res" where
  "ass_row st parts =
     bind_res (field_index ''Start'' ''start'' (format_fields st)) (\<lambda>start_index.
     bind_res (field_index ''End'' ''end'' (format_fields st)) (\<lambda>end_index.
     bind_res (field_index ''Text'' ''text'' (format_fields st)) (\<lambda>text_index.
       let s = trim (parts ! start_index); e = trim (parts ! end_index) in
       if prefix ''-'' s \<or> prefix ''-'' e then Inr st
       else
         (let text = replace_str backslash_N [LF] (join '','' (drop text_index parts)) in
          if MAX_CUE_BYTES < length text then Inl (ass_cap_error (length text))
          else
            bind_res (parse_ass_time s) (\<lambda>start_time.
            bind_res (parse_ass_time e) (\<lambda>end_time.
              Inr (st\<lparr>ass_entries := ass_entries st @
                     [\<lparr>entry_index = length (ass_entries st) + 1, start_time = start_time,
                       end_time = end_time, entry_text = text, styling = None\<rparr>]\<rparr>)))))))"

definition ass_line :: "ass_state \<Rightarrow> str \<Rightarrow> ass_state res" where
  "ass_line st line =
     (let l = trim_start line in
      if eq_ignore_ascii_case l ''[events]'' then Inr (st\<lparr>in_events := True, saw_events_header := True\<rparr>)
      else if \<not> in_events st then Inr st
      else if prefix ''['' l \<and> suffix '']'' l then Inr (st\<lparr>in_events := False\<rparr>)
      else if lower_starts_with l ''format:'' then
        Inr (st\<lparr>format_fields := map trim (split_str '','' (drop 7 l))\<rparr>)
      else if lower_starts_with l ''dialogue:'' then
        (if format_fields st = [] then Inr st
         else
           (let parts = splitn_char (length (format_fields st)) (CHR '','') (trim (drop 9 l)) in
            if length parts \<noteq> length (format_fields st) then Inr st else ass_row st parts))
      else Inr st)"

definition ass_subtitle :: "SubtitleEntry list \<Rightarrow> Subtitle" where
  "ass_subtitle es =
     \<lparr>entries = es,
      metadata = \<lparr>title = None, language = None, encoding = ''utf-8'', frame_rate = None,
                  original_format = Ass\<rparr>,
      sub_format = Ass\<rparr>"

definition ass_parse :: "str \<Rightarrow> Subtitle res" where
  "ass_parse content0 =
     (let content = strip_bom content0 in
      if trim content = [] then Inl (ass_error ''Empty input'')
      else
        bind_res (fold_res ass_line ass_init (str_lines content)) (\<lambda>st.
          if saw_events_header st then Inr (ass_subtitle (ass_entries st))
          else Inl (ass_error ''Missing [Events] section'')))"

section \<open>Serializer and detector\<close>

definition ass_header_lines :: "str list" where
  "ass_header_lines =
     [''[Script Info]'', ''; Script generated by SubX'', ''ScriptType: v4.00+'', [],
      ''[V4+ Styles]'',
      ''Format: Name,Fontname,Fontsize,PrimaryColour,SecondaryColour,OutlineColour,BackColour,Bold,Italic,Underline,StrikeOut,ScaleX,ScaleY,Spacing,Angle,BorderStyle,Outline,Shadow,Alignment,MarginL,MarginR,MarginV,Encoding'',
      ''Style: Default,Arial,20,&H00FFFFFF,&H000000FF,&H00000000,&H00000000,0,0,0,0,100,100,0,0,1,2,0,2,10,10,10,1'',
      [], ''[Events]'',
      ''Format: Layer,Start,End,Style,Name,MarginL,MarginR,MarginV,Effect,Text'']"

definition ass_escape :: "str \<Rightarrow> str" where
  "ass_escape t = replace_str [LF] backslash_N t"

definition ass_dialogue :: "SubtitleEntry \<Rightarrow> str" where
  "ass_dialogue e =
     ''Dialogue: 0,'' @ format_ass_time (start_time e) @ '','' @ format_ass_time (end_time e)
     @ '',Default,,0000,0000,0000,,'' @ ass_escape (entry_text e)"

definition ass_serialize :: "Subtitle \<Rightarrow> str res" where
  "ass_serialize s =
     Inr (concat (map (\<lambda>l. l @ [LF]) (ass_header_lines @ map ass_dialogue (entries s))))"

definition ass_detect :: "str \<Rightarrow> bool" where
  "ass_detect content \<longleftrightarrow>
     contains_str content ''[Script Info]'' \<or> contains_str content ''Dialogue:''"

section \<open>Times\<close>

lemma split_chars_append:
  "set a \<inter> set cs = {} \<Longrightarrow> c \<in> set cs \<Longrightarrow> split_chars cs (a @ c # b) = a # split_chars cs b"
  by (induction a) auto

lemma split_chars_absent: "set a \<inter> set cs = {} \<Longrightarrow> split_chars cs a = [a]"
  by (induction a) auto

lemma ass_u64_num [simp]:
  "n < 2 ^ 64 \<Longrightarrow> ass_u64 (show_nat n) = Inr (of_nat n)"
  "n < 2 ^ 64 \<Longrightarrow> ass_u64 (pad0 w (show_nat n)) = Inr (of_nat n)"
  by (simp_all add: ass_u64_def)

text \<open>Checked arithmetic: the total is exact or the overflow error is reported.\<close>

lemma ass_total_ms_exact:
  "ass_total_ms ov h m s c =
     (let t = unat h * 3600000 + unat m * 60000 + unat s * 1000 + unat c * 10 in
      if t < 2 ^ 64 then Inr (of_nat t) else Inl ov)"
proof -
  define u :: "nat \<Rightarrow> u64" where "u n = of_nat n" for n
  have unat: "unat (u n) = n" if "n < 18446744073709551616" for n
    using that by (simp add: u_def unat_of_nat)
  have mul: "checked_mul (u n) k = (if n * unat k < 18446744073709551616 then Some (u (n * unat k)) else None)"
    if "n < 18446744073709551616" for n k
    by (simp add: checked_mul_def unat [OF that]) (simp add: u_def)
  have add: "checked_add (u n) (u k) = (if n + k < 18446744073709551616 then Some (u (n + k)) else None)"
    if "n < 18446744073709551616" "k < 18446744073709551616" for n k
    by (simp add: checked_add_def unat [OF that(1)] unat [OF that(2)]) (simp add: u_def)
  have main: "ass_total_ms ov (u H) (u M) (u S) (u C) =
     (let t = H * 3600000 + M * 60000 + S * 1000 + C * 10 in
      if t < 18446744073709551616 then Inr (u t) else Inl ov)"
    if "H < 18446744073709551616" "M < 18446744073709551616" "S < 18446744073709551616"
      "C < 18446744073709551616" for H M S C
    using that by (simp add: ass_total_ms_def ok_or_def Let_def mul add)
  have "unat w < 18446744073709551616" for w :: u64
    using unsigned_less [of w, where 'a = nat] by simp
  with main [of "unat h" "unat m" "unat s" "unat c"] show ?thesis by (simp add: u_def Let_def)
qed

text \<open>Times the format can express: whole centiseconds of at most 64 bits of milliseconds.\<close>

definition centi_time :: "duration \<Rightarrow> bool" where
  "centi_time d \<longleftrightarrow> d mod 10000000 = 0 \<and> as_millis d < 2 ^ 64"

lemma format_ass_time_chars:
  "c \<in> set (format_ass_time d) \<Longrightarrow> is_digit c \<or> c = CHR '':'' \<or> c = CHR ''.''"
  using list_all_digit_show_nat list_all_digit_pad0
  by (auto simp: format_ass_time_def Let_def list_all_iff)

lemma digits_disjoint:
  "set (show_nat n) \<inter> set '':.'' = {}" "set (pad0 w (show_nat n)) \<inter> set '':.'' = {}"
  using list_all_digit_show_nat [of n] list_all_digit_pad0 [of w n]
  by (auto simp: list_all_iff)

lemma parse_format_ass_time:
  assumes "centi_time d"
  shows "parse_ass_time (format_ass_time d) = Inr d"
proof -
  let ?t = "as_millis d"
  have split: "split_chars '':.'' (format_ass_time d) =
     [show_nat (?t div 3600000), pad0 2 (show_nat (?t mod 3600000 div 60000)),
      pad0 2 (show_nat (?t mod 60000 div 1000)), pad0 2 (show_nat (?t mod 1000 div 10))]"
    unfolding format_ass_time_def Let_def
    using digits_disjoint by (simp add: split_chars_append split_chars_absent)
  obtain k where "d = 10000000 * k" using assms by (auto simp: centi_time_def mod_eq_0_iff_dvd elim: dvdE)
  then have "?t = 10 * k" by (simp add: as_millis_def)
  then have ten: "?t mod 1000 mod 10 = 0" by (simp add: mod_mod_cancel)
  have "?t div 3600000 < 2 ^ 64" "?t mod 3600000 div 60000 < 2 ^ 64" "?t mod 60000 div 1000 < 2 ^ 64"
    "?t mod 1000 div 10 < 2 ^ 64"
    using assms by (auto simp: centi_time_def)
  moreover have "?t div 3600000 * 3600000 + ?t mod 3600000 div 60000 * 60000
      + ?t mod 60000 div 1000 * 1000 + ?t mod 1000 div 10 * 10 = ?t"
    using hms_sum [of ?t] mult_div_mod_eq [of 10 "?t mod 1000"] ten by simp
  moreover have "from_millis (of_nat ?t) = d"
    using assms by (auto simp: centi_time_def from_millis_def as_millis_def unat_of_nat)
  ultimately show ?thesis
    using assms by (simp add: parse_ass_time_def split ass_total_ms_exact unat_of_nat centi_time_def)
qed

section \<open>Round trip\<close>

lemma ass_unescape:
  "\<not> sublist backslash_N t \<Longrightarrow> replace_str backslash_N [LF] (ass_escape t) = t"
proof (induction t)
  case (Cons c t)
  have sub: "\<not> sublist backslash_N t" using Cons.prems by (auto simp: sublist_Cons_right)
  show ?case
  proof (cases "c = LF")
    case True
    then have "ass_escape (c # t) = backslash_N @ ass_escape t" by (simp add: ass_escape_def)
    with Cons.IH [OF sub] True replace_str_sep [of backslash_N "[LF]" "ass_escape t"] show ?thesis
      by (simp add: backslash_N_def)
  next
    case False
    then have esc: "ass_escape (c # t) = c # ass_escape t" by (simp add: ass_escape_def)
    have "\<not> prefix backslash_N (c # ass_escape t)"
      using Cons.prems by (cases t) (auto simp: backslash_N_def ass_escape_def sublist_Cons_right split: if_splits)
    with Cons.IH [OF sub] esc show ?thesis
      by (simp add: replace_str_step backslash_N_def)
  qed
qed (simp add: ass_escape_def)

lemma lf_notin_escape: "LF \<notin> set (ass_escape t)"
  by (induction t) (auto simp: ass_escape_def backslash_N_def)

definition ass_text_ok :: "str \<Rightarrow> bool" where
  "ass_text_ok t \<longleftrightarrow>
     \<not> sublist backslash_N t \<and> trim_end (ass_escape t) = ass_escape t \<and> length t \<le> MAX_CUE_BYTES"

definition ass_entry_ok :: "SubtitleEntry \<Rightarrow> bool" where
  "ass_entry_ok e \<longleftrightarrow> centi_time (start_time e) \<and> centi_time (end_time e) \<and> ass_text_ok (entry_text e)"

text \<open>The state after the header that the serializer writes.\<close>

definition ass_ready :: "SubtitleEntry list \<Rightarrow> ass_state" where
  "ass_ready es =
     \<lparr>ass_entries = es, in_events = True, saw_events_header = True,
      format_fields = [''Layer'', ''Start'', ''End'', ''Style'', ''Name'', ''MarginL'', ''MarginR'',
                       ''MarginV'', ''Effect'', ''Text'']\<rparr>"

lemma ass_header_read: "fold_res ass_line ass_init ass_header_lines = Inr (ass_ready [])"
  by code_simp

lemma ass_field_indices:
  "field_index ''Start'' ''start'' (format_fields (ass_ready es)) = Inr 1"
  "field_index ''End'' ''end'' (format_fields (ass_ready es)) = Inr 2"
  "field_index ''Text'' ''text'' (format_fields (ass_ready es)) = Inr 9"
proof -
  have "map (\<lambda>n. position (\<lambda>f. eq_ignore_ascii_case f n)
     [''Layer'', ''Start'', ''End'', ''Style'', ''Name'', ''MarginL'', ''MarginR'', ''MarginV'',
      ''Effect'', ''Text'']) [''start'', ''end'', ''text''] = [Some 1, Some 2, Some 9]"
    by code_simp
  then show "field_index ''Start'' ''start'' (format_fields (ass_ready es)) = Inr 1"
    "field_index ''End'' ''end'' (format_fields (ass_ready es)) = Inr 2"
    "field_index ''Text'' ''text'' (format_fields (ass_ready es)) = Inr 9"
    by (simp_all add: field_index_def ass_ready_def ok_or_def)
qed

lemma trim_time [simp]: "trim (format_ass_time d) = format_ass_time d"
proof -
  have "is_graphic c" if "c \<in> set (format_ass_time d)" for c
    using format_ass_time_chars [OF that] by (auto simp: is_graphic_def is_digit_def)
  then show ?thesis by (intro trim_all_graphic) (simp add: list_all_iff)
qed

lemma time_no_minus: "\<not> prefix ''-'' (format_ass_time d)"
  using format_ass_time_chars [of "CHR ''-''" d] by (auto simp: prefix_def)

lemma ass_columns:
  "splitn_char 10 (CHR '','')
     (''0,'' @ format_ass_time s @ '','' @ format_ass_time e @ '',Default,,0000,0000,0000,,'' @ t)
   = [''0'', format_ass_time s, format_ass_time e, ''Default'', [], ''0000'', ''0000'', ''0000'', [], t]"
proof -
  have 10: "(10::nat) = Suc (Suc (Suc (Suc (Suc (Suc (Suc (Suc (Suc (Suc 0)))))))))" by simp
  have "CHR '','' \<notin> set (format_ass_time d)" for d
    using format_ass_time_chars [of "CHR '',''" d] by auto
  then have time: "CHR '','' \<notin> set (format_ass_time d)" for d .
  have fixed: "CHR '','' \<notin> set ''0''" "CHR '','' \<notin> set ''Default''" "CHR '','' \<notin> set []"
    "CHR '','' \<notin> set ''0000''" by simp_all
  have row: "''0,'' @ format_ass_time s @ '','' @ format_ass_time e @ '',Default,,0000,0000,0000,,'' @ t
    = ''0'' @ CHR '','' # format_ass_time s @ CHR '','' # format_ass_time e @ CHR '','' #
      ''Default'' @ CHR '','' # [] @ CHR '','' # ''0000'' @ CHR '','' # ''0000'' @ CHR '','' #
      ''0000'' @ CHR '','' # [] @ CHR '','' # t"
    by simp
  show ?thesis
    unfolding 10 row splitn_char_Cons [OF time] splitn_char_Cons [OF fixed(1)]
      splitn_char_Cons [OF fixed(2)] splitn_char_Cons [OF fixed(3)] splitn_char_Cons [OF fixed(4)]
      splitn_char.simps(2) ..
qed

lemma ass_dialogue_read:
  assumes "ass_entry_ok e"
  shows "ass_line (ass_ready es) (ass_dialogue e) = Inr (ass_ready (es @ [reread (length es) e]))"
proof -
  let ?t = "ass_escape (entry_text e)"
  let ?data = "''0,'' @ format_ass_time (start_time e) @ '','' @ format_ass_time (end_time e)
     @ '',Default,,0000,0000,0000,,'' @ ?t"
  let ?parts = "[''0'', format_ass_time (start_time e), format_ass_time (end_time e), ''Default'', [],
     ''0000'', ''0000'', ''0000'', [], ?t]"
  have ok: "centi_time (start_time e)" "centi_time (end_time e)" "\<not> sublist backslash_N (entry_text e)"
    "trim_end ?t = ?t" "length (entry_text e) \<le> MAX_CUE_BYTES"
    using assms by (auto simp: ass_entry_ok_def ass_text_ok_def)
  have l: "ass_dialogue e = ''Dialogue: '' @ ?data" by (simp add: ass_dialogue_def)
  have start: "trim_start (ass_dialogue e) = ass_dialogue e"
    by (simp add: ass_dialogue_def is_graphic_def)
  have "trim_end ?data = ?data"
  proof (cases "?t = []")
    case True
    let ?p = "''0,'' @ format_ass_time (start_time e) @ '','' @ format_ass_time (end_time e)
     @ '',Default,,0000,0000,0000,''"
    have "trim_end (?p @ [CHR '','']) = ?p @ [CHR '','']"
      by (rule trim_end_graphic) (simp add: is_graphic_def)
    with True show ?thesis by simp
  next
    case False
    have "trim_end ((''0,'' @ format_ass_time (start_time e) @ '','' @ format_ass_time (end_time e)
     @ '',Default,,0000,0000,0000,,'') @ ?t) = (''0,'' @ format_ass_time (start_time e) @ '','' @ format_ass_time (end_time e)
     @ '',Default,,0000,0000,0000,,'') @ ?t"
      using ok(4) False by (intro trim_end_append) auto
    then show ?thesis by simp
  qed
  then have data: "trim (drop 9 (ass_dialogue e)) = ?data"
    by (simp add: l trim_def is_graphic_def)
  have kind: "\<not> eq_ignore_ascii_case (ass_dialogue e) ''[events]''" "\<not> prefix ''['' (ass_dialogue e)"
    "\<not> lower_starts_with (ass_dialogue e) ''format:''" "lower_starts_with (ass_dialogue e) ''dialogue:''"
    by (simp_all add: l eq_ignore_ascii_case_def lower_starts_with_def ascii_lower_def
        ascii_lower_char_def eq_char_of_iff)
  have len: "length (format_fields (ass_ready es)) = 10" by (simp add: ass_ready_def)
  have row: "ass_row (ass_ready es) ?parts = Inr (ass_ready (es @ [reread (length es) e]))"
    unfolding ass_row_def ass_field_indices
    using ok time_no_minus parse_format_ass_time
    by (simp add: Let_def ass_unescape numeral_eq_Suc) (simp add: ass_ready_def reread_def)
  show ?thesis
    unfolding ass_line_def start Let_def data len ass_columns
    using kind row by (simp add: ass_ready_def)
qed

lemma ass_fold_read:
  "\<forall>e \<in> set es. ass_entry_ok e \<Longrightarrow>
   fold_res ass_line (ass_ready acc) (map ass_dialogue es)
     = Inr (ass_ready (acc @ map (\<lambda>(i, e). reread i e) (enumerate (length acc) es)))"
proof (induction es arbitrary: acc)
  case (Cons e es)
  then have "ass_line (ass_ready acc) (ass_dialogue e) = Inr (ass_ready (acc @ [reread (length acc) e]))"
    by (intro ass_dialogue_read) auto
  with Cons show ?case by simp
qed simp

lemma ass_dialogue_line:
  assumes "ass_entry_ok e"
  shows "LF \<notin> set (ass_dialogue e)" "strip_cr (ass_dialogue e) = ass_dialogue e"
proof -
  have time: "LF \<notin> set (format_ass_time d)" for d
    using format_ass_time_chars [of LF d] by auto
  then show "LF \<notin> set (ass_dialogue e)" using lf_notin_escape by (simp add: ass_dialogue_def)
  have "trim_end (ass_escape (entry_text e)) = ass_escape (entry_text e)"
    using assms by (simp add: ass_entry_ok_def ass_text_ok_def)
  then have "ass_escape (entry_text e) \<noteq> [] \<Longrightarrow> last (ass_escape (entry_text e)) \<noteq> CR"
    by (rule trim_end_last) (simp_all add: utf8_ws_def)
  then have "last (ass_dialogue e) \<noteq> CR" by (auto simp: ass_dialogue_def)
  then show "strip_cr (ass_dialogue e) = ass_dialogue e" by (simp add: strip_cr_def)
qed

lemma ass_reread_all:
  assumes "\<forall>e \<in> set (entries s). ass_entry_ok e"
  shows "bind_res (ass_serialize s) ass_parse =
    Inr (ass_subtitle (map (\<lambda>(i, e). reread i e) (enumerate 0 (entries s))))"
proof -
  let ?ls = "ass_header_lines @ map ass_dialogue (entries s)"
  define c where "c = concat (map (\<lambda>l. l @ [LF]) ?ls)"
  have "\<forall>l \<in> set ass_header_lines. LF \<notin> set l \<and> strip_cr l = l" by code_simp
  then have lines: "str_lines c = ?ls"
    unfolding c_def using ass_dialogue_line assms by (intro str_lines_concat) auto
  obtain r where c: "c = CHR ''['' # r" by (simp add: c_def ass_header_lines_def)
  then have "strip_bom c = c" by simp
  moreover have "CHR ''['' \<in> set (trim c)"
    using c by (intro trim_keeps_graphic) (simp_all add: is_graphic_def)
  then have "trim c \<noteq> []" by auto
  moreover have "fold_res ass_line ass_init (str_lines c)
      = Inr (ass_ready (map (\<lambda>(i, e). reread i e) (enumerate 0 (entries s))))"
    using ass_fold_read [of "entries s" "[]"] assms
    by (simp add: lines fold_res_append ass_header_read)
  ultimately have "ass_parse c = Inr (ass_subtitle (map (\<lambda>(i, e). reread i e) (enumerate 0 (entries s))))"
    by (simp add: ass_parse_def Let_def ass_ready_def)
  then show ?thesis by (simp add: ass_serialize_def c_def)
qed

text \<open>
  C17.  Writing a subtitle as ASS and reading it back gives every cue with its times and its text,
  line breaks included, numbered from 1 and without styling: for times in whole centiseconds whose
  milliseconds fit 64 bits and texts without a literal \<open>\N\<close> whose escaped form does not end in
  white space.
\<close>

theorem ass_roundtrip:
  assumes "\<forall>e \<in> set (entries s). ass_entry_ok e"
  shows "bind_res (ass_serialize s) ass_parse =
    Inr (ass_subtitle (map (\<lambda>(i, e). reread i e) (enumerate 0 (entries s))))"
  using assms by (rule ass_reread_all)

lemma ass_roundtrip_witness:
  "bind_res (ass_serialize (ass_subtitle [demo_entry 3 1000000000 2500000000 (''a'' @ [LF] @ ''b, c''),
       demo_entry 3 0 360000010000000 []])) ass_parse
   = Inr (ass_subtitle [demo_entry 1 1000000000 2500000000 (''a'' @ [LF] @ ''b, c''),
       demo_entry 2 0 360000010000000 []])"
proof -
  let ?s = "ass_subtitle [demo_entry 3 1000000000 2500000000 (''a'' @ [LF] @ ''b, c''),
       demo_entry 3 0 360000010000000 []]"
  have "ass_text_ok (''a'' @ [LF] @ ''b, c'')" "ass_text_ok []"
    by (simp_all add: ass_text_ok_def ass_escape_def backslash_N_def MAX_CUE_BYTES_def
        sublist_Cons_right) (simp_all add: is_graphic_def trim_end_graphic [of "CHR ''c''" "''a'' @ [backslash] @ ''Nb, ''", simplified])
  then have "\<forall>e \<in> set (entries ?s). ass_entry_ok e"
    by (simp add: ass_subtitle_def demo_entry_def ass_entry_ok_def centi_time_def as_millis_def)
  from ass_roundtrip [OF this] show ?thesis
    by (simp add: ass_subtitle_def demo_entry_def reread_def)
qed

text \<open>
   Parsing a timestamp never wraps around: for any four numbers that fit 64 bits the result is
  the exact number of milliseconds, or the overflow error when that number needs more than 64 bits.
\<close>

theorem parse_ass_time_no_wrap:
  "parse_ass_time (show_nat (unat (h :: u64)) @ '':'' @ show_nat (unat (m :: u64)) @ '':''
       @ show_nat (unat (s :: u64)) @ ''.'' @ show_nat (unat (c :: u64)))
   = (let t = unat h * 3600000 + unat m * 60000 + unat s * 1000 + unat c * 10 in
      if t < 2 ^ 64 then Inr (t * 1000000)
      else Inl (ass_error (''Timestamp arithmetic overflow: '' @ show_nat (unat h) @ '':''
              @ show_nat (unat m) @ '':'' @ show_nat (unat s) @ ''.'' @ show_nat (unat c))))"
proof -
  let ?p = "show_nat (unat h) @ '':'' @ show_nat (unat m) @ '':'' @ show_nat (unat s) @ ''.''
    @ show_nat (unat c)"
  have split: "split_chars '':.'' ?p
      = [show_nat (unat h), show_nat (unat m), show_nat (unat s), show_nat (unat c)]"
    using digits_disjoint(1) by (simp add: split_chars_append split_chars_absent)
  have lt: "unat w < 2 ^ 64" for w :: u64 using unsigned_less [of w, where 'a = nat] by simp
  have num: "ass_u64 (show_nat (unat w)) = Inr w" for w using ass_u64_num(1) [OF lt [of w]] by simp
  have ms: "from_millis (of_nat t) = t * 1000000" if "t < 2 ^ 64" for t
    using that by (simp add: from_millis_def unat_of_nat)
  show ?thesis
    unfolding parse_ass_time_def split Let_def
    by (simp add: num ass_total_ms_exact Let_def ms del: of_nat_add of_nat_mult)
qed

end
