(* ===== verification/Sub_Format.thy ===== *)
theory Sub_Format
  imports Time_Text
begin

text \<open>
  MicroDVD SUB (\<open>src/core/formats/sub\<close>): frame and time conversion, the line parser, the serializer
  and the detector.  The \<open>f64\<close> arithmetic of the conversions is taken as exact: at the 25 frames
  per second the parser uses, products below \<open>2 ^ 53\<close> are exact in \<open>f64\<close>, and larger ones lie beyond
  the 24-hour limit either way.
\<close>

definition DEFAULT_SUB_FPS :: rat where
  "DEFAULT_SUB_FPS = 25"

definition MAX_DURATION_MS :: nat where
  "MAX_DURATION_MS = 86400000"

text \<open>\<open>f64::round\<close> of a non-negative number and the saturating cast to \<open>u64\<close>.\<close>

definition round_u64 :: "rat \<Rightarrow> nat" where
  "round_u64 x = min (nat \<lfloor>x + 1 / 2\<rfloor>) (2 ^ 64 - 1)"

definition frame_to_ms :: "nat \<Rightarrow> rat \<Rightarrow> nat" where
  "frame_to_ms frame fps = round_u64 (of_nat frame * 1000 / fps)"

definition duration_to_frame :: "duration \<Rightarrow> rat \<Rightarrow> nat" where
  "duration_to_frame d fps = round_u64 (of_nat d / 1000000000 * fps)"

definition frame_to_duration :: "nat \<Rightarrow> rat \<Rightarrow> duration" where
  "frame_to_duration frame fps = from_millis (of_nat (frame_to_ms frame fps))"

section \<open>Parser\<close>

text \<open>The patterns \<open>^\{(\d+)\}\{(\d+)\}(.*)\<close> and \<open>^\{\d+\}\{\d+\}\<close>.\<close>

definition sub_rx :: rx where
  "sub_rx =
     [(TextStart,
        [lit CHR ''{'', digits_plus 1, lit CHR ''}'', lit CHR ''{'', digits_plus 2, lit CHR ''}'',
         star 3 (CNot [LF])])]"

definition sub_detect_rx :: rx where
  "sub_detect_rx =
     [(TextStart,
        [lit CHR ''{'', digits_plus 0, lit CHR ''}'', lit CHR ''{'', digits_plus 0, lit CHR ''}''])]"

definition sub_error :: "str \<Rightarrow> SubXError" where
  "sub_error m = SubtitleFormat ''SUB'' m"

definition sub_body_error :: "nat \<Rightarrow> SubXError" where
  "sub_body_error n =
     sub_error (''cue body of '' @ show_nat n @ '' bytes exceeds per-cue cap of ''
                @ show_nat MAX_CUE_BYTES @ '' bytes'')"

definition sub_frame :: "str \<Rightarrow> nat res" where
  "sub_frame s = map_err (\<lambda>e. sub_error (int_error_msg e)) (parse_uint (2 ^ 64) s)"

definition sub_line :: "regex_crate \<Rightarrow> SubtitleEntry list \<Rightarrow> str \<Rightarrow> SubtitleEntry list res" where
  "sub_line eng es line =
     (let l = trim line; fps = DEFAULT_SUB_FPS in
      if l = [] then Inr es
      else
        (case captures eng sub_rx l of
           None \<Rightarrow> Inr es
         | Some (_, caps, _) \<Rightarrow>
             (let raw_text = cap caps 3 in
              if MAX_CUE_BYTES < length raw_text then Inl (sub_body_error (length raw_text))
              else
                bind_res (sub_frame (cap caps 1)) (\<lambda>start_frame.
                bind_res (sub_frame (cap caps 2)) (\<lambda>end_frame.
                  if MAX_DURATION_MS < frame_to_ms start_frame fps
                     \<or> MAX_DURATION_MS < frame_to_ms end_frame fps then Inr es
                  else Inr (es @ [\<lparr>entry_index = length es + 1,
                                   start_time = frame_to_duration start_frame fps,
                                   end_time = frame_to_duration end_frame fps,
                                   entry_text = replace_str ''|'' [LF] raw_text,
                                   styling = None\<rparr>]))))))"

definition sub_subtitle :: "SubtitleEntry list \<Rightarrow> Subtitle" where
  "sub_subtitle es =
     \<lparr>entries = es,
      metadata = \<lparr>title = None, language = None, encoding = ''utf-8'',
                  frame_rate = Some DEFAULT_SUB_FPS, original_format = Sub\<rparr>,
      sub_format = Sub\<rparr>"

definition sub_parse :: "regex_crate \<Rightarrow> str \<Rightarrow> Subtitle res" where
  "sub_parse eng content =
     (if content = [] then Inl (sub_error ''empty input'')
      else map_sum id sub_subtitle (fold_res (sub_line eng) [] (str_lines content)))"

definition sub_detect :: "regex_crate \<Rightarrow> str \<Rightarrow> bool" where
  "sub_detect eng content = is_match eng sub_detect_rx (trim_start content)"

section \<open>Serializer\<close>

definition sub_cue :: "rat \<Rightarrow> SubtitleEntry \<Rightarrow> str" where
  "sub_cue fps e =
     ''{'' @ show_nat (duration_to_frame (start_time e) fps) @ ''}{''
     @ show_nat (duration_to_frame (end_time e) fps) @ ''}'' @ replace_str [LF] ''|'' (entry_text e)"

definition sub_serialize :: "Subtitle \<Rightarrow> str res" where
  "sub_serialize s =
     (let fps = (case frame_rate (metadata s) of None \<Rightarrow> DEFAULT_SUB_FPS | Some r \<Rightarrow> r)
      in Inr (concat (map (\<lambda>e. sub_cue fps e @ [LF]) (entries s))))"

section \<open>Frames\<close>

lemma round_u64_nat [simp]: "n < 2 ^ 64 \<Longrightarrow> round_u64 (of_nat n) = n"
proof -
  have "\<lfloor>of_nat n + 1 / 2 :: rat\<rfloor> = int n" by (simp add: floor_eq_iff)
  then show "n < 2 ^ 64 \<Longrightarrow> round_u64 (of_nat n) = n" by (simp add: round_u64_def)
qed

lemma frame_to_ms_25: "n < 2 ^ 58 \<Longrightarrow> frame_to_ms n 25 = 40 * n"
proof -
  assume "n < 2 ^ 58"
  then have "40 * n < 2 ^ 64" by simp
  moreover have "of_nat n * 1000 / 25 = (of_nat (40 * n) :: rat)" by simp
  ultimately show ?thesis unfolding frame_to_ms_def by (simp only: round_u64_nat)
qed

lemma duration_to_frame_25: "n < 2 ^ 64 \<Longrightarrow> duration_to_frame (40000000 * n) 25 = n"
proof -
  assume n: "n < 2 ^ 64"
  have "of_nat (40000000 * n) / 1000000000 * 25 = (of_nat n :: rat)" by simp
  with n show ?thesis unfolding duration_to_frame_def by (simp only: round_u64_nat)
qed

text \<open>Times on the frame grid, up to 24 hours.\<close>

definition frame_time :: "duration \<Rightarrow> bool" where
  "frame_time d \<longleftrightarrow> d mod 40000000 = 0 \<and> d div 1000000 \<le> MAX_DURATION_MS"

lemma frame_time_cases:
  assumes "frame_time d"
  obtains n where "d = 40000000 * n" "n \<le> 2160000"
proof -
  obtain n where "d = 40000000 * n" using assms by (auto simp: frame_time_def mod_eq_0_iff_dvd elim: dvdE)
  moreover from this have "n \<le> 2160000" using assms by (simp add: frame_time_def MAX_DURATION_MS_def)
  ultimately show thesis using that by blast
qed

lemma frame_roundtrip:
  assumes "frame_time d"
  shows "duration_to_frame d 25 < 2 ^ 64" "frame_to_duration (duration_to_frame d 25) 25 = d"
    "frame_to_ms (duration_to_frame d 25) 25 \<le> MAX_DURATION_MS"
  using assms
  by (auto elim!: frame_time_cases simp: duration_to_frame_25 frame_to_duration_def frame_to_ms_25
      from_millis_def unat_of_nat MAX_DURATION_MS_def)

section \<open>Matching a cue line\<close>

lemma item_lens_digits_plus:
  assumes "\<forall>e \<in> set nd. e \<noteq> [] \<and> 128 \<le> code (hd e)"
    and "list_all is_digit ds" "ds \<noteq> []" "\<not> is_digit x" "code x < 128"
  shows "\<exists>ls. item_lens nd (digits_plus g) (ds @ x # s) = length ds # ls"
proof -
  have rep: "rep_lens nd CDigit (length ds + k) (ds @ x # s) = [0..<Suc (length ds)]"
    if "list_all is_digit ds" for ds k
    using that
  proof (induction ds)
    case Nil
    show ?case by (cases k) (simp_all add: cset_len_no_digit [OF assms(1,4,5)])
  next
    case (Cons d ds)
    then have "map Suc (rep_lens nd CDigit (length ds + k) (ds @ x # s)) = [1..<Suc (Suc (length ds))]"
      by (simp add: map_Suc_upt del: upt_Suc)
    moreover have "(+) (Suc 0) = Suc" by auto
    ultimately show ?case using Cons.prems by (simp add: upt_conv_Cons del: upt_Suc)
  qed
  from rep [OF assms(2), of "Suc (length s)"]
  have "item_lens nd (digits_plus g) (ds @ x # s) = rev (drop 1 [0..<Suc (length ds)])"
    by (simp add: item_lens_def digits_plus_def del: upt_Suc)
  moreover have "drop 1 [0..<Suc (length ds)] = [1..<Suc (length ds)]"
    by (simp add: drop_upt del: upt_Suc)
  moreover have "[1..<Suc (length ds)] = [1..<length ds] @ [length ds]"
    using assms(3) by (cases ds) simp_all
  ultimately show ?thesis by simp
qed

lemma rx_items_digits_plus:
  assumes "\<forall>e \<in> set nd. e \<noteq> [] \<and> 128 \<le> code (hd e)"
    and "rx_items nd its (CHR ''}'' # s) = Some (ms, post)"
  shows "rx_items nd (digits_plus g # its) (show_nat n @ CHR ''}'' # s) = Some ((g, show_nat n) # ms, post)"
proof -
  obtain ls where "item_lens nd (digits_plus g) (show_nat n @ CHR ''}'' # s) = length (show_nat n) # ls"
    using item_lens_digits_plus [OF assms(1) list_all_digit_show_nat show_nat_not_Nil] by fastforce
  then show ?thesis
    using assms(2) by (simp add: rx_items.simps(2)) (simp add: digits_plus_def)
qed

lemma rx_items_rest_of_line:
  assumes "LF \<notin> set t"
  shows "rx_items nd [star g (CNot [LF])] t = Some ([(g, t)], [])"
proof -
  have "rep_lens nd (CNot [LF]) (length t) t = [0..<Suc (length t)]" if "LF \<notin> set t" for t
    using that
  proof (induction t)
    case (Cons c t)
    then have "map Suc (rep_lens nd (CNot [LF]) (length t) t) = [1..<Suc (Suc (length t))]"
      by (simp add: map_Suc_upt del: upt_Suc)
    moreover have "(+) (Suc 0) = Suc" by auto
    moreover have "c \<noteq> LF" using Cons.prems by auto
    ultimately show ?case by (simp add: upt_conv_Cons del: upt_Suc)
  qed simp
  with assms show ?thesis
    by (simp add: rx_items.simps(2) item_lens_def star_def)
qed

lemma sub_rx_match:
  assumes "\<forall>e \<in> set nd. e \<noteq> [] \<and> 128 \<le> code (hd e)" "LF \<notin> set t"
  shows "\<exists>ms. rx_search nd sub_rx (''{'' @ show_nat a @ ''}{'' @ show_nat b @ ''}'' @ t) = Some ([], ms, [])
    \<and> cap ms 1 = show_nat a \<and> cap ms 2 = show_nat b \<and> cap ms 3 = t"
proof -
  have "rx_items nd [lit CHR ''}'', star 3 (CNot [LF])] (CHR ''}'' # t)
      = Some ([(0, ''}''), (3, t)], [])"
    by (simp add: rx_items_lit rx_items_rest_of_line [OF assms(2)])
  from rx_items_digits_plus [OF assms(1) this, of 2 b]
  have "rx_items nd [lit CHR ''}'', lit CHR ''{'', digits_plus 2, lit CHR ''}'', star 3 (CNot [LF])]
      (CHR ''}'' # CHR ''{'' # show_nat b @ CHR ''}'' # t)
      = Some ([(0, ''}''), (0, ''{''), (2, show_nat b), (0, ''}''), (3, t)], [])"
    by (simp add: rx_items_lit)
  from rx_items_digits_plus [OF assms(1) this, of 1 a]
  have "rx_search nd sub_rx (''{'' @ show_nat a @ ''}{'' @ show_nat b @ ''}'' @ t)
      = Some ([], [(0, ''{''), (1, show_nat a), (0, ''}''), (0, ''{''), (2, show_nat b), (0, ''}''), (3, t)], [])"
    by (simp add: rx_search_def rx_at_def sub_rx_def rx_items_lit)
  then show ?thesis by (auto simp: cap_def)
qed

section \<open>Round trip\<close>

definition sub_text_ok :: "str \<Rightarrow> bool" where
  "sub_text_ok t \<longleftrightarrow>
     CHR ''|'' \<notin> set t \<and> trim_end (replace_str [LF] ''|'' t) = replace_str [LF] ''|'' t
     \<and> length t \<le> MAX_CUE_BYTES"

definition sub_entry_ok :: "SubtitleEntry \<Rightarrow> bool" where
  "sub_entry_ok e \<longleftrightarrow>
     frame_time (start_time e) \<and> frame_time (end_time e) \<and> sub_text_ok (entry_text e)"

lemma sub_unescape:
  "CHR ''|'' \<notin> set t \<Longrightarrow> replace_str ''|'' [LF] (replace_str [LF] ''|'' t) = t"
  by (induction t) auto

lemma sub_escape_facts:
  "LF \<notin> set (replace_str [LF] ''|'' t)" "length (replace_str [LF] ''|'' t) = length t"
  by (induction t) auto

lemma sub_cue_line:
  assumes "sub_entry_ok e"
  shows "trim (sub_cue 25 e) = sub_cue 25 e" "LF \<notin> set (sub_cue 25 e)"
    "strip_cr (sub_cue 25 e) = sub_cue 25 e" "sub_cue 25 e \<noteq> []"
proof -
  let ?t = "replace_str [LF] ''|'' (entry_text e)"
  let ?p = "''{'' @ show_nat (duration_to_frame (start_time e) 25) @ ''}{''
     @ show_nat (duration_to_frame (end_time e) 25)"
  have t: "trim_end ?t = ?t" using assms by (simp add: sub_entry_ok_def sub_text_ok_def)
  have cue: "sub_cue 25 e = (?p @ ''}'') @ ?t" by (simp add: sub_cue_def)
  have "trim_end ((?p @ ''}'') @ ?t) = (?p @ ''}'') @ ?t"
  proof (cases "?t = []")
    case True
    have "trim_end (?p @ [CHR ''}'']) = ?p @ [CHR ''}'']"
      by (rule trim_end_graphic) (simp add: is_graphic_def)
    with True show ?thesis by simp
  next
    case False
    with t show ?thesis by (intro trim_end_append) auto
  qed
  then have te: "trim_end (sub_cue 25 e) = sub_cue 25 e" by (simp only: cue)
  show ne: "sub_cue 25 e \<noteq> []" by (simp add: sub_cue_def)
  have "trim_start (sub_cue 25 e) = sub_cue 25 e" by (simp add: sub_cue_def is_graphic_def)
  with te show "trim (sub_cue 25 e) = sub_cue 25 e" by (simp add: trim_def)
  show "LF \<notin> set (sub_cue 25 e)" using sub_escape_facts by (simp add: sub_cue_def)
  have "last (sub_cue 25 e) \<noteq> CR" by (rule trim_end_last [OF te ne]) (simp add: utf8_ws_def)
  then show "strip_cr (sub_cue 25 e) = sub_cue 25 e" by (simp add: strip_cr_def)
qed

context regex_engine
begin

lemma sub_line_read:
  assumes "sub_entry_ok e"
  shows "sub_line eng es (sub_cue 25 e) = Inr (es @ [reread (length es) e])"
proof -
  have ok: "frame_time (start_time e)" "frame_time (end_time e)" "CHR ''|'' \<notin> set (entry_text e)"
    "length (entry_text e) \<le> MAX_CUE_BYTES"
    using assms by (auto simp: sub_entry_ok_def sub_text_ok_def)
  obtain ms where ms: "captures eng sub_rx (sub_cue 25 e) = Some ([], ms, [])"
    "cap ms 1 = show_nat (duration_to_frame (start_time e) 25)"
    "cap ms 2 = show_nat (duration_to_frame (end_time e) 25)"
    "cap ms 3 = replace_str [LF] ''|'' (entry_text e)"
    using sub_rx_match [OF nonascii_digits sub_escape_facts(1)]
    unfolding captures_search sub_cue_def by blast
  show ?thesis
    using sub_cue_line [OF assms] ms ok frame_roundtrip [OF ok(1)] frame_roundtrip [OF ok(2)]
    by (simp add: sub_line_def DEFAULT_SUB_FPS_def sub_frame_def sub_escape_facts sub_unescape
        reread_def not_less)
qed

lemma sub_fold_read:
  "\<forall>e \<in> set es. sub_entry_ok e \<Longrightarrow>
   fold_res (sub_line eng) acc (map (sub_cue 25) es)
     = Inr (acc @ map (\<lambda>(i, e). reread i e) (enumerate (length acc) es))"
proof (induction es arbitrary: acc)
  case (Cons e es)
  then have "sub_line eng acc (sub_cue 25 e) = Inr (acc @ [reread (length acc) e])"
    by (intro sub_line_read) auto
  with Cons show ?case by simp
qed simp

lemma sub_reread_all:
  assumes "entries s \<noteq> []" "\<forall>e \<in> set (entries s). sub_entry_ok e"
    and "frame_rate (metadata s) = None \<or> frame_rate (metadata s) = Some 25"
  shows "bind_res (sub_serialize s) (sub_parse eng) =
    Inr (sub_subtitle (map (\<lambda>(i, e). reread i e) (enumerate 0 (entries s))))"
proof -
  let ?ls = "map (sub_cue 25) (entries s)"
  define c where "c = concat (map (\<lambda>l. l @ [LF]) ?ls)"
  have lines: "str_lines c = ?ls"
    unfolding c_def using sub_cue_line assms(2) by (intro str_lines_concat) auto
  have "c \<noteq> []" using assms(1) by (cases "entries s") (auto simp: c_def)
  moreover have "sub_serialize s = Inr c"
    using assms(3) by (auto simp: sub_serialize_def c_def DEFAULT_SUB_FPS_def comp_def)
  ultimately show ?thesis
    using sub_fold_read [of "entries s" "[]"] assms(2) by (simp add: sub_parse_def lines)
qed

end



end
