(* ===== verification/Format_Convert.thy ===== *)
theory Format_Convert
  imports Srt_Format Vtt_Format Ass_Format Sub_Format
begin

text \<open>
  The subtitle format trait and its four implementations, the format manager
  (\<open>src/core/formats/manager.rs\<close>), the styling helpers (\<open>styling.rs\<close>), the transformers
  (\<open>transformers.rs\<close>) and the pure part of the converter (\<open>converter.rs\<close>).
\<close>

section \<open>The format trait\<close>

text \<open>A trait object is the record of its methods.\<close>

record SubtitleFormat =
  fmt_parse :: "str \<Rightarrow> Subtitle res"
  fmt_serialize :: "Subtitle \<Rightarrow> str res"
  fmt_detect :: "str \<Rightarrow> bool"
  format_name :: str
  file_extensions :: "str list"

definition SrtFormat :: "regex_crate \<Rightarrow> SubtitleFormat" where
  "SrtFormat eng =
     \<lparr>fmt_parse = srt_parse eng, fmt_serialize = srt_serialize, fmt_detect = srt_detect eng,
      format_name = ''SRT'', file_extensions = [''srt'']\<rparr>"

definition VttFormat :: "regex_crate \<Rightarrow> SubtitleFormat" where
  "VttFormat eng =
     \<lparr>fmt_parse = vtt_parse eng, fmt_serialize = vtt_serialize, fmt_detect = vtt_detect,
      format_name = ''VTT'', file_extensions = [''vtt'']\<rparr>"

definition AssFormat :: SubtitleFormat where
  "AssFormat =
     \<lparr>fmt_parse = ass_parse, fmt_serialize = ass_serialize, fmt_detect = ass_detect,
      format_name = ''ASS'', file_extensions = [''ass'', ''ssa'']\<rparr>"

definition SubFormat :: "regex_crate \<Rightarrow> SubtitleFormat" where
  "SubFormat eng =
     \<lparr>fmt_parse = sub_parse eng, fmt_serialize = sub_serialize, fmt_detect = sub_detect eng,
      format_name = ''SUB'', file_extensions = [''sub'']\<rparr>"

section \<open>The format manager\<close>

definition manager_formats :: "regex_crate \<Rightarrow> SubtitleFormat list" where
  "manager_formats eng = [AssFormat, VttFormat eng, SrtFormat eng, SubFormat eng]"

definition parse_auto :: "regex_crate \<Rightarrow> str \<Rightarrow> Subtitle res" where
  "parse_auto eng content =
     (case List.find (\<lambda>f. fmt_detect f content) (manager_formats eng) of
        Some f \<Rightarrow> fmt_parse f content
      | None \<Rightarrow> Inl (SubtitleFormat ''Unknown'' ''Unknown subtitle format''))"

text \<open>Only ASCII letters lower to the letters of the names and extensions.\<close>

definition get_format :: "regex_crate \<Rightarrow> str \<Rightarrow> SubtitleFormat option" where
  "get_format eng name =
     List.find (\<lambda>f. ascii_lower (format_name f) = ascii_lower name) (manager_formats eng)"

definition get_format_by_extension :: "regex_crate \<Rightarrow> str \<Rightarrow> SubtitleFormat option" where
  "get_format_by_extension eng ext =
     List.find (\<lambda>f. ascii_lower ext \<in> set (file_extensions f)) (manager_formats eng)"

text \<open>The text that \<open>save_subtitle\<close> writes.\<close>

definition save_text :: "regex_crate \<Rightarrow> Subtitle \<Rightarrow> path \<Rightarrow> str res" where
  "save_text eng subtitle file_path =
     (let ext = (case extension file_path of None \<Rightarrow> [] | Some e \<Rightarrow> e) in
      case get_format_by_extension eng ext of
        None \<Rightarrow> Inl (SubtitleFormat ext ''Unsupported subtitle format for saving'')
      | Some f \<Rightarrow> fmt_serialize f subtitle)"

section \<open>Styling\<close>

definition quot :: char where "quot = CHR 0x22"

text \<open>The patterns \<open><font color="([^"]+)">\<close>, \<open>\{[^}]*\}\<close>, \<open>\{\\b1\}([^\{]*)\{\\b0\}\<close> and its
  siblings, and \<open></?[^>]+>\<close>.\<close>

definition color_rx :: rx where
  "color_rx =
     [(NoAnchor, lits (''<font color='' @ [quot]) @ [plus 1 (CNot [quot])] @ lits [quot, CHR ''>''])]"

definition ass_tag_rx :: rx where
  "ass_tag_rx = [(NoAnchor, [lit CHR ''{'', star 0 (CNot [CHR ''}'']), lit CHR ''}''])]"

definition ass_pair_rx :: "char \<Rightarrow> rx" where
  "ass_pair_rx c =
     [(NoAnchor, lits ([CHR ''{'', backslash, c] @ ''1}'') @ [star 1 (CNot [CHR ''{''])]
                 @ lits ([CHR ''{'', backslash, c] @ ''0}''))]"

definition vtt_tag_rx :: rx where
  "vtt_tag_rx =
     [(NoAnchor, [lit CHR ''<'', optional 0 (CLit CHR ''/''), plus 0 (CNot [CHR ''>'']), lit CHR ''>''])]"

definition extract_color_from_tags :: "str \<Rightarrow> str option" where
  "extract_color_from_tags text = None"

definition extract_srt_styling :: "str \<Rightarrow> StylingInfo" where
  "extract_srt_styling text =
     styling_default
       \<lparr>bold := contains_str text ''<b>'' \<or> contains_str text ''<B>'',
        italic := contains_str text ''<i>'' \<or> contains_str text ''<I>'',
        underline := contains_str text ''<u>'' \<or> contains_str text ''<U>'',
        color := extract_color_from_tags text\<rparr>"

definition convert_color_to_ass :: "str \<Rightarrow> str" where
  "convert_color_to_ass c = dropWhile (\<lambda>x. x = CHR ''#'') c"

definition ass_tag :: "str \<Rightarrow> str" where
  "ass_tag t = [CHR ''{'', backslash] @ t @ ''}''"

definition convert_srt_tags_to_ass :: "regex_crate \<Rightarrow> str \<Rightarrow> str" where
  "convert_srt_tags_to_ass eng text =
     (let r1 = replace_str ''</b>'' (ass_tag ''b0'') (replace_str ''<b>'' (ass_tag ''b1'') text);
          r2 = replace_str ''</i>'' (ass_tag ''i0'') (replace_str ''<i>'' (ass_tag ''i1'') r1);
          r3 = replace_str ''</u>'' (ass_tag ''u0'') (replace_str ''<u>'' (ass_tag ''u1'') r2);
          r4 = replace_all eng color_rx
                 (\<lambda>caps. ass_tag (''c&H'' @ convert_color_to_ass (cap caps 1) @ ''&'')) r3
      in replace_str ''</font>'' (ass_tag ''c'') r4)"

definition strip_ass_tags :: "regex_crate \<Rightarrow> str \<Rightarrow> str" where
  "strip_ass_tags eng text = replace_all eng ass_tag_rx (\<lambda>_. []) text"

definition convert_ass_tags_to_srt :: "regex_crate \<Rightarrow> str \<Rightarrow> str" where
  "convert_ass_tags_to_srt eng text =
     (let r1 = replace_all eng (ass_pair_rx CHR ''b'') (\<lambda>c. ''<b>'' @ cap c 1 @ ''</b>'') text;
          r2 = replace_all eng (ass_pair_rx CHR ''i'') (\<lambda>c. ''<i>'' @ cap c 1 @ ''</i>'') r1
      in replace_all eng (ass_pair_rx CHR ''u'') (\<lambda>c. ''<u>'' @ cap c 1 @ ''</u>'') r2)"

definition convert_srt_tags_to_vtt :: "str \<Rightarrow> str" where
  "convert_srt_tags_to_vtt text = text"

definition convert_vtt_tags_to_srt :: "str \<Rightarrow> str" where
  "convert_vtt_tags_to_srt text = text"

definition strip_vtt_tags :: "regex_crate \<Rightarrow> str \<Rightarrow> str" where
  "strip_vtt_tags eng text = replace_all eng vtt_tag_rx (\<lambda>_. []) text"

section \<open>Transformers\<close>

record ConversionConfig =
  preserve_styling :: bool
  target_encoding :: str
  keep_original :: bool
  validate_output :: bool

definition map_entries :: "(SubtitleEntry \<Rightarrow> SubtitleEntry) \<Rightarrow> Subtitle \<Rightarrow> Subtitle" where
  "map_entries f s = s\<lparr>entries := map f (entries s)\<rparr>"

definition srt_to_ass :: "regex_crate \<Rightarrow> ConversionConfig \<Rightarrow> Subtitle \<Rightarrow> Subtitle res" where
  "srt_to_ass eng cfg s =
     (let t = map_entries (\<lambda>e.
                let e1 = (if preserve_styling cfg
                          then e\<lparr>styling := Some (extract_srt_styling (entry_text e))\<rparr> else e)
                in e1\<lparr>entry_text := convert_srt_tags_to_ass eng (entry_text e1)\<rparr>) s
      in Inr (t\<lparr>sub_format := Ass, metadata := (metadata t)\<lparr>original_format := Srt\<rparr>\<rparr>))"

definition ass_to_srt :: "regex_crate \<Rightarrow> ConversionConfig \<Rightarrow> Subtitle \<Rightarrow> Subtitle res" where
  "ass_to_srt eng cfg s =
     (let t = map_entries (\<lambda>e.
                let e1 = e\<lparr>entry_text := strip_ass_tags eng (entry_text e)\<rparr>;
                    e2 = (if preserve_styling cfg
                          then e1\<lparr>entry_text := convert_ass_tags_to_srt eng (entry_text e1)\<rparr> else e1)
                in e2\<lparr>styling := None\<rparr>) s
      in Inr (t\<lparr>sub_format := Srt\<rparr>))"

definition srt_to_vtt :: "Subtitle \<Rightarrow> Subtitle res" where
  "srt_to_vtt s =
     (let t = map_entries (\<lambda>e. e\<lparr>entry_text := convert_srt_tags_to_vtt (entry_text e)\<rparr>)
                (s\<lparr>metadata := (metadata s)\<lparr>title := Some ''WEBVTT''\<rparr>\<rparr>)
      in Inr (t\<lparr>sub_format := Vtt\<rparr>))"

definition ass_to_vtt :: "regex_crate \<Rightarrow> ConversionConfig \<Rightarrow> Subtitle \<Rightarrow> Subtitle res" where
  "ass_to_vtt eng cfg s = bind_res (ass_to_srt eng cfg s) srt_to_vtt"

definition vtt_to_srt :: "regex_crate \<Rightarrow> ConversionConfig \<Rightarrow> Subtitle \<Rightarrow> Subtitle res" where
  "vtt_to_srt eng cfg s =
     (let t = map_entries (\<lambda>e.
                let e1 = (if preserve_styling cfg
                          then e\<lparr>entry_text := convert_vtt_tags_to_srt (entry_text e)\<rparr>
                          else e\<lparr>entry_text := strip_vtt_tags eng (entry_text e)\<rparr>)
                in e1\<lparr>styling := None\<rparr>) s
      in Inr (t\<lparr>sub_format := Srt\<rparr>))"

definition vtt_to_ass :: "regex_crate \<Rightarrow> ConversionConfig \<Rightarrow> Subtitle \<Rightarrow> Subtitle res" where
  "vtt_to_ass eng cfg s = bind_res (vtt_to_srt eng cfg s) (srt_to_ass eng cfg)"

definition transform_subtitle ::
    "regex_crate \<Rightarrow> ConversionConfig \<Rightarrow> Subtitle \<Rightarrow> str \<Rightarrow> Subtitle res" where
  "transform_subtitle eng cfg s target =
     (let source = format_as_str (sub_format s) in
      if source = ''srt'' \<and> target = ''ass'' then srt_to_ass eng cfg s
      else if source = ''ass'' \<and> target = ''srt'' then ass_to_srt eng cfg s
      else if source = ''srt'' \<and> target = ''vtt'' then srt_to_vtt s
      else if source = ''vtt'' \<and> target = ''srt'' then vtt_to_srt eng cfg s
      else if source = ''ass'' \<and> target = ''vtt'' then ass_to_vtt eng cfg s
      else if source = ''vtt'' \<and> target = ''ass'' then vtt_to_ass eng cfg s
      else if source = target then Inr s
      else Inl (SubtitleFormat source
                 (''Unsupported conversion: '' @ source @ '' -> '' @ target)))"

section \<open>Converter\<close>

record ConversionResult =
  conv_success :: bool
  input_format :: str
  output_format :: str
  original_entries :: nat
  converted_entries :: nat
  conv_warnings :: "str list"
  conv_errors :: "str list"

definition validate_conversion :: "Subtitle \<Rightarrow> Subtitle \<Rightarrow> ConversionResult" where
  "validate_conversion original converted =
     (let ok = length (entries original) = length (entries converted) in
      \<lparr>conv_success = ok, input_format = format_as_str (sub_format original),
       output_format = format_as_str (sub_format converted),
       original_entries = length (entries original), converted_entries = length (entries converted),
       conv_warnings = [],
       conv_errors =
         (if ok then []
          else [''Entry count mismatch: '' @ show_nat (length (entries original)) @ '' -> ''
                @ show_nat (length (entries converted))])\<rparr>)"

text \<open>\<open>convert_file\<close> between the read and the write of the files: the text to write and the result.\<close>

definition convert_text ::
    "regex_crate \<Rightarrow> ConversionConfig \<Rightarrow> str \<Rightarrow> str \<Rightarrow> (str \<times> ConversionResult) res" where
  "convert_text eng cfg input_content target_format =
     bind_res (parse_auto eng input_content) (\<lambda>input_subtitle.
     bind_res (transform_subtitle eng cfg input_subtitle target_format) (\<lambda>converted.
       case get_format eng target_format of
         None \<Rightarrow> Inl (SubtitleFormat (''Unsupported target format: '' @ target_format) [])
       | Some f \<Rightarrow>
           bind_res (fmt_serialize f converted) (\<lambda>output_content.
             Inr (output_content,
               if validate_output cfg then validate_conversion input_subtitle converted
               else \<lparr>conv_success = True, input_format = format_as_str (sub_format input_subtitle),
                     output_format = target_format,
                     original_entries = length (entries input_subtitle),
                     converted_entries = length (entries converted),
                     conv_warnings = [], conv_errors = []\<rparr>))))"

section \<open>Tags\<close>

text \<open>A text holds a tag when a closing brace follows an opening one.\<close>

definition has_tag :: "str \<Rightarrow> bool" where
  "has_tag s \<longleftrightarrow> (case find_char (CHR ''{'') s of None \<Rightarrow> False | Some i \<Rightarrow> CHR ''}'' \<in> set (drop i s))"

lemma has_tag_Cons: "has_tag (c # s) \<longleftrightarrow> (if c = CHR ''{'' then CHR ''}'' \<in> set s else has_tag s)"
  by (auto simp: has_tag_def split: option.splits)

lemma has_tag_suffix: "has_tag u \<Longrightarrow> has_tag (p @ u)"
proof (induction p)
  case (Cons c p)
  have "CHR ''}'' \<in> set u" using Cons.prems by (auto simp: has_tag_def dest: in_set_dropD split: option.splits)
  with Cons show ?case by (simp add: has_tag_Cons)
qed simp

lemma ass_tag_at:
  "rx_at nd ass_tag_rx pre (c # s) =
     (if c = CHR ''{'' then
        (case find_char (CHR ''}'') s of
           None \<Rightarrow> None
         | Some j \<Rightarrow> Some (pre, [(0, ''{''), (0, take j s), (0, ''}'')], drop (Suc j) s))
      else None)"
  by (simp add: rx_at_def ass_tag_rx_def rx_items_lit rx_items_until split: option.split)

lemma ass_tag_at_Nil: "rx_at nd ass_tag_rx pre [] = None"
  by (simp add: rx_at_def ass_tag_rx_def rx_items_lit)

text \<open>The search finds the first opening brace that is closed later.\<close>

lemma ass_tag_from:
  "rx_from nd ass_tag_rx pre s = Some (p, ms, post) \<Longrightarrow>
   \<exists>q. p = pre @ q \<and> CHR ''{'' \<notin> set q \<and> length post < length s"
proof (induction s arbitrary: pre)
  case (Cons c s)
  show ?case
  proof (cases "rx_at nd ass_tag_rx pre (c # s)")
    case None
    with Cons.prems have r: "rx_from nd ass_tag_rx (pre @ [c]) s = Some (p, ms, post)" by simp
    from Cons.IH [OF this] obtain q where q: "p = (pre @ [c]) @ q" "CHR ''{'' \<notin> set q"
      "length post < length s" by blast
    have "c \<noteq> CHR ''{''"
    proof
      assume c: "c = CHR ''{''"
      with None have "CHR ''}'' \<notin> set s" by (simp add: ass_tag_at find_char_None split: option.splits)
      then have "rx_from nd ass_tag_rx pre' s = None" for pre'
      proof (induction s arbitrary: pre')
        case (Cons d s)
        then show ?case by (auto simp: ass_tag_at find_char_None [THEN iffD2])
      qed (simp add: ass_tag_at_Nil)
      with r show False by simp
    qed
    with q show ?thesis by (intro exI [of _ "c # q"]) auto
  next
    case (Some m)
    with Cons.prems have "rx_at nd ass_tag_rx pre (c # s) = Some (p, ms, post)" by simp
    then have "p = pre" "length post < length (c # s)"
      by (auto simp: ass_tag_at split: if_splits option.splits)
    then show ?thesis by simp
  qed
qed (simp add: ass_tag_at_Nil)

lemma ass_tag_from_None: "rx_from nd ass_tag_rx pre s = None \<Longrightarrow> \<not> has_tag s"
proof (induction s arbitrary: pre)
  case (Cons c s)
  then show ?case
    by (auto simp: has_tag_Cons ass_tag_at find_char_None split: option.splits if_splits)
qed (simp add: has_tag_def)

lemma no_open_no_tag: "CHR ''{'' \<notin> set q \<Longrightarrow> has_tag (q @ u) = has_tag u"
  by (induction q) (auto simp: has_tag_Cons)

lemma strip_no_tag: "\<not> has_tag (rx_replace nd ass_tag_rx (\<lambda>_. []) s)"
proof (induction "length s" arbitrary: s rule: less_induct)
  case less
  show ?case
  proof (cases "rx_search nd ass_tag_rx s")
    case None
    then have "rx_replace nd ass_tag_rx (\<lambda>_. []) s = s" by (subst rx_replace.simps) simp
    with None ass_tag_from_None show ?thesis by (simp add: rx_search_def)
  next
    case (Some m)
    then obtain p ms post where m: "rx_search nd ass_tag_rx s = Some (p, ms, post)" by (cases m) auto
    then have "CHR ''{'' \<notin> set p" and len: "length post < length s"
      using ass_tag_from [of nd "[]" s] by (auto simp: rx_search_def)
    moreover have "rx_replace nd ass_tag_rx (\<lambda>_. []) s = p @ rx_replace nd ass_tag_rx (\<lambda>_. []) post"
      using m len by (subst rx_replace.simps) simp
    ultimately show ?thesis using less.hyps [OF len] by (simp add: no_open_no_tag)
  qed
qed

lemma ass_pair_no_tag: "\<not> has_tag s \<Longrightarrow> rx_search nd (ass_pair_rx c) s = None"
proof (rule ccontr)
  assume no: "\<not> has_tag s" and "rx_search nd (ass_pair_rx c) s \<noteq> None"
  then obtain m where "rx_from nd (ass_pair_rx c) [] s = Some m" by (auto simp: rx_search_def)
  then obtain p u where pu: "s = p @ u" "rx_at nd (ass_pair_rx c) p u = Some m"
    by (auto dest: rx_from_Some)
  then obtain m' where "rx_items nd (lits ([CHR ''{'', backslash, c] @ ''1}'')
      @ [star 1 (CNot [CHR ''{''])] @ lits ([CHR ''{'', backslash, c] @ ''0}'')) u = Some m'"
    by (auto simp: rx_at_def ass_pair_rx_def split: option.splits)
  from rx_items_lits_prefix [OF this] have "has_tag u"
    by (auto simp: prefix_def has_tag_Cons)
  with no pu(1) show False using has_tag_suffix by blast
qed

lemma rx_replace_none: "rx_search nd r s = None \<Longrightarrow> rx_replace nd r f s = s"
  by (subst rx_replace.simps) simp

context regex_engine
begin

lemma strip_ass_tags_no_tag: "\<not> has_tag (strip_ass_tags eng s)"
  by (simp add: strip_ass_tags_def replace_all_search strip_no_tag)

lemma convert_stripped: "convert_ass_tags_to_srt eng (strip_ass_tags eng s) = strip_ass_tags eng s"
  using strip_ass_tags_no_tag
  by (simp add: convert_ass_tags_to_srt_def replace_all_search rx_replace_none ass_pair_no_tag)

lemma ass_to_srt_styling:
  "ass_to_srt eng cfg s = ass_to_srt eng (cfg\<lparr>preserve_styling := b\<rparr>) s
    \<and> (case ass_to_srt eng cfg s of
         Inl _ \<Rightarrow> False
       | Inr t \<Rightarrow> list_all (\<lambda>e. \<not> has_tag (entry_text e)) (entries t))"
  using strip_ass_tags_no_tag
  by (simp add: ass_to_srt_def map_entries_def convert_stripped Let_def list_all_iff)

end

text \<open>
   No ASS override tag survives the conversion from ASS to SRT, and the \<open>preserve_styling\<close>
  setting has no effect on it: the tags are stripped before the step that would turn them into
  SRT tags, so bold, italic and underline are lost either way.
\<close>

theorem ass_to_srt_ignores_preserve_styling:
  assumes "regex_engine eng nd"
  shows "ass_to_srt eng cfg s = ass_to_srt eng (cfg\<lparr>preserve_styling := b\<rparr>) s
    \<and> (case ass_to_srt eng cfg s of
         Inl _ \<Rightarrow> False
       | Inr t \<Rightarrow> list_all (\<lambda>e. \<not> has_tag (entry_text e)) (entries t))"
  using assms by (rule regex_engine.ass_to_srt_styling)

definition demo_config :: ConversionConfig where
  "demo_config =
     \<lparr>preserve_styling = True, target_encoding = ''UTF-8'', keep_original = False,
      validate_output = False\<rparr>"

definition demo_bold :: str where
  "demo_bold = ass_tag ''b1'' @ ''Hi'' @ ass_tag ''b0''"

lemma ass_to_srt_ignores_preserve_styling_witness:
  "ass_to_srt (ref_engine []) demo_config (ass_subtitle [demo_entry 1 0 10000000 demo_bold])
     = ass_to_srt (ref_engine []) (demo_config\<lparr>preserve_styling := False\<rparr>)
         (ass_subtitle [demo_entry 1 0 10000000 demo_bold])"
  using ass_to_srt_ignores_preserve_styling [OF ascii_engine.regex_engine_axioms] by blast

definition cue_times :: "Subtitle \<Rightarrow> (nat \<times> duration \<times> duration) list" where
  "cue_times s = map (\<lambda>e. (entry_index e, start_time e, end_time e)) (entries s)"

text \<open>
   A conversion that succeeds keeps every cue: the same number of cues with the same indices and
  times in the same order, in the requested format, and the validation of the result reports
  success.  A conversion fails only from or to SUB.
\<close>

theorem transform_keeps_cues:
  "case transform_subtitle eng cfg s target of
     Inr t \<Rightarrow> cue_times t = cue_times s \<and> format_as_str (sub_format t) = target
            \<and> conv_success (validate_conversion s t) \<and> conv_errors (validate_conversion s t) = []
   | Inl e \<Rightarrow> format_as_str (sub_format s) \<noteq> target
            \<and> \<not> (sub_format s \<noteq> Sub \<and> target \<in> {''srt'', ''ass'', ''vtt''})"
  by (cases "sub_format s")
    (auto simp: transform_subtitle_def Let_def srt_to_ass_def ass_to_srt_def srt_to_vtt_def
      vtt_to_srt_def ass_to_vtt_def vtt_to_ass_def cue_times_def map_entries_def
      validate_conversion_def)

section \<open>What a format promises\<close>

text \<open>
  The contract of a format: on the subtitles it can express, parsing what it writes gives the
  canonical form of the subtitle, with the cues and their times kept, and the text written is one
  the format detects.
\<close>

locale subtitle_format =
  fixes fmt :: SubtitleFormat
    and expressible :: "Subtitle \<Rightarrow> bool"
    and canonical :: "Subtitle \<Rightarrow> Subtitle"
  assumes serialize_total: "\<exists>t. fmt_serialize fmt s = Inr t"
    and parse_serialize: "expressible s \<Longrightarrow> fmt_serialize fmt s = Inr t \<Longrightarrow>
          fmt_parse fmt t = Inr (canonical s)"
    and detect_serialize: "expressible s \<Longrightarrow> fmt_serialize fmt s = Inr t \<Longrightarrow> fmt_detect fmt t"
begin

lemma reread:
  assumes "expressible s"
  obtains t where "fmt_serialize fmt s = Inr t" "fmt_detect fmt t" "fmt_parse fmt t = Inr (canonical s)"
  using serialize_total [of s] parse_serialize detect_serialize assms by blast

text \<open>A manager that tries this format first among those that detect the text parses it back.\<close>

lemma dispatch:
  assumes "expressible s" "fmt_serialize fmt s = Inr t"
    and "List.find (\<lambda>f. fmt_detect f t) fs = Some fmt"
  shows "(case List.find (\<lambda>f. fmt_detect f t) fs of Some f \<Rightarrow> fmt_parse f t | None \<Rightarrow> Inl e)
    = Inr (canonical s)"
  using assms parse_serialize by simp

end

definition renumber :: "(SubtitleEntry list \<Rightarrow> Subtitle) \<Rightarrow> Subtitle \<Rightarrow> Subtitle" where
  "renumber mk s = mk (map (\<lambda>(i, e). reread i e) (enumerate 0 (entries s)))"

lemma bind_res_serialized:
  "bind_res (Inr t) f = r \<Longrightarrow> x = Inr t \<Longrightarrow> bind_res x f = r"
  by simp

interpretation ass_fmt: subtitle_format AssFormat "\<lambda>s. \<forall>e \<in> set (entries s). ass_entry_ok e"
  "renumber ass_subtitle"
proof (unfold_locales, goal_cases)
  case (1 s)
  show ?case by (simp add: AssFormat_def ass_serialize_def)
next
  case (2 s t)
  then show ?case using ass_reread_all [of s] by (simp add: AssFormat_def renumber_def)
next
  case (3 s t)
  then have "t = ''[Script Info]'' @ [LF] @ concat (map (\<lambda>l. l @ [LF])
      (tl ass_header_lines @ map ass_dialogue (entries s)))"
    by (simp add: AssFormat_def ass_serialize_def ass_header_lines_def)
  then have "prefix ''[Script Info]'' t" by simp
  then show ?case by (simp add: AssFormat_def ass_detect_def prefix_imp_sublist)
qed

lemma vtt_serialize_detect: "vtt_serialize s = Inr t \<Longrightarrow> vtt_detect t"
  by (auto simp: vtt_serialize_def vtt_detect_def is_graphic_def)

interpretation vtt_fmt: subtitle_format "VttFormat (ref_engine [])"
  "\<lambda>s. \<forall>e \<in> set (entries s). vtt_entry_ok e" "renumber vtt_subtitle"
proof (unfold_locales, goal_cases)
  case (1 s)
  show ?case by (simp add: VttFormat_def vtt_serialize_def)
next
  case (2 s t)
  then show ?case using ascii_engine.vtt_reread_all [of s] by (simp add: VttFormat_def renumber_def)
next
  case (3 s t)
  then show ?case using vtt_serialize_detect by (simp add: VttFormat_def)
qed

lemma parse_auto_ass: "ass_detect t \<Longrightarrow> parse_auto eng t = ass_parse t"
  by (simp add: parse_auto_def manager_formats_def AssFormat_def)

lemma parse_auto_vtt: "\<not> ass_detect t \<Longrightarrow> vtt_detect t \<Longrightarrow> parse_auto eng t = vtt_parse eng t"
  by (simp add: parse_auto_def manager_formats_def AssFormat_def VttFormat_def)

text \<open>
   Reading back with automatic detection: what the manager's ASS format writes is detected as ASS
  and parsed to the same cues, and so is what its VTT format writes, unless a cue text contains one
  of the two strings by which ASS is recognized.
\<close>

theorem parse_auto_serialized:
  assumes "regex_engine eng nd"
    and "\<forall>e \<in> set (entries s). ass_entry_ok e" "\<forall>e \<in> set (entries v). vtt_entry_ok e"
    and "vtt_serialize v = Inr t" "\<not> ass_detect t"
  shows "bind_res (ass_serialize s) (parse_auto eng) = Inr (renumber ass_subtitle s)
    \<and> parse_auto eng t = Inr (renumber vtt_subtitle v)"
proof
  obtain u where u: "fmt_serialize AssFormat s = Inr u" "fmt_detect AssFormat u"
    "fmt_parse AssFormat u = Inr (renumber ass_subtitle s)"
    using assms(2) by (rule ass_fmt.reread)
  then show "bind_res (ass_serialize s) (parse_auto eng) = Inr (renumber ass_subtitle s)"
    by (simp add: AssFormat_def parse_auto_ass)
  show "parse_auto eng t = Inr (renumber vtt_subtitle v)"
    using regex_engine.vtt_reread_all [OF assms(1,3)] assms(4,5) vtt_serialize_detect
    by (simp add: parse_auto_vtt renumber_def)
qed

lemma parse_auto_serialized_witness:
  "bind_res (ass_serialize (ass_subtitle [demo_entry 1 0 10000000 []])) (parse_auto (ref_engine []))
     = Inr (renumber ass_subtitle (ass_subtitle [demo_entry 1 0 10000000 []]))
   \<and> parse_auto (ref_engine []) (''WEBVTT'' @ [LF, LF]) = Inr (vtt_subtitle [])"
proof -
  have "vtt_serialize (vtt_subtitle []) = Inr (''WEBVTT'' @ [LF, LF])" "\<not> ass_detect (''WEBVTT'' @ [LF, LF])"
    by code_simp+
  moreover have "ass_text_ok []" by (simp add: ass_text_ok_def ass_escape_def backslash_N_def)
  then have "\<forall>e \<in> set (entries (ass_subtitle [demo_entry 1 0 10000000 []])). ass_entry_ok e"
    by (simp add: ass_subtitle_def demo_entry_def ass_entry_ok_def centi_time_def as_millis_def)
  moreover have "\<forall>e \<in> set (entries (vtt_subtitle [])). vtt_entry_ok e" by (simp add: vtt_subtitle_def)
  ultimately show ?thesis
    using parse_auto_serialized [OF ascii_engine.regex_engine_axioms, of
        "ass_subtitle [demo_entry 1 0 10000000 []]" "vtt_subtitle []"]
    by (simp add: renumber_def vtt_subtitle_def)
qed

text \<open>
   An SRT file whose cue text merely mentions \<open>Dialogue:\<close> cannot be read with automatic
  detection: it is taken for ASS and rejected for its missing events section, although the SRT
  parser itself reads it back.
\<close>

theorem srt_mentioning_dialogue_rejected:
  "bind_res (srt_serialize (srt_subtitle [demo_entry 1 0 1000000000 ''Dialogue: hi''])) (parse_auto eng)
     = Inl (SubtitleFormat ''ASS'' ''Missing [Events] section'')
   \<and> bind_res (srt_serialize (srt_subtitle [demo_entry 1 0 1000000000 ''Dialogue: hi'']))
       (srt_parse (ref_engine [])) = Inr (srt_subtitle [demo_entry 1 0 1000000000 ''Dialogue: hi''])"
proof -
  let ?s = "srt_subtitle [demo_entry 1 0 1000000000 ''Dialogue: hi'']"
  let ?t = "''1'' @ [LF] @ ''00:00:00,000 --> 00:00:01,000'' @ [LF] @ ''Dialogue: hi'' @ [LF, LF]"
  have num: "show_nat 1 = ''1''" "pad0 2 (show_nat 0) = ''00''" "pad0 2 (show_nat 1) = ''01''"
    "pad0 3 (show_nat 0) = ''000''" by code_simp+
  then have t: "srt_serialize ?s = Inr ?t"
    by (simp add: srt_serialize_def srt_cue_def srt_subtitle_def demo_entry_def as_millis_def
        srt_format_time_range_def srt_format_duration_def Let_def del: One_nat_def)
  have "ass_detect ?t \<and> ass_parse ?t = Inl (SubtitleFormat ''ASS'' ''Missing [Events] section'')"
    by code_simp
  then have "parse_auto eng ?t = Inl (SubtitleFormat ''ASS'' ''Missing [Events] section'')"
    using parse_auto_ass by metis
  moreover have "entries ?s \<noteq> []" "length (entries ?s) < 2 ^ 64" by (simp_all add: srt_subtitle_def)
  moreover have "\<forall>e \<in> set (entries ?s). srt_entry_ok e"
    by (simp add: srt_subtitle_def demo_entry_def srt_entry_ok_def hms_time_def cue_text_ok_def
        no_blank_Cons MAX_CUE_BYTES_def)
  ultimately show ?thesis
    using ascii_engine.srt_reread_all [of ?s] t
    by (simp add: srt_subtitle_def demo_entry_def reread_def)
qed

section \<open>Bounds that every parser keeps\<close>

lemma length_join: "length (join sep xs) = sum_list (map length xs) + (length xs - 1) * length sep"
  by (induction sep xs rule: join.induct) auto

lemma length_join_drop: "length (join sep (drop n xs)) \<le> length (join sep xs)"
proof (induction xs arbitrary: n)
  case (Cons x xs)
  show ?case
  proof (cases n)
    case (Suc k)
    have "length (join sep xs) \<le> length (join sep (x # xs))" by (cases xs) auto
    with Suc Cons.IH [of k] show ?thesis by simp
  qed simp
qed simp

lemma length_join_lines: "length (join [LF] (str_lines s)) \<le> length s"
proof -
  let ?ps = "split_str [LF] s"
  have len: "length s = sum_list (map length ?ps) + (length ?ps - 1)"
    using length_join [of "[LF]" ?ps] by (simp add: join_split_str)
  obtain bs l where ps: "?ps = bs @ [l]" by (cases ?ps rule: rev_cases) auto
  have "sum_list (map length (map strip_cr xs)) \<le> sum_list (map length xs)" for xs
    by (induction xs) (auto simp: strip_cr_def intro: le_trans [OF add_le_mono1])
  from this [of bs] have "sum_list (map length (str_lines s)) \<le> sum_list (map length ?ps)"
    "length (str_lines s) \<le> length ?ps"
    by (simp_all add: str_lines_def ps Let_def)
  then show ?thesis by (simp add: length_join len)
qed

definition bounded_cues :: "SubtitleEntry list \<Rightarrow> bool" where
  "bounded_cues es \<longleftrightarrow> list_all (\<lambda>e. length (entry_text e) \<le> MAX_CUE_BYTES) es"

definition numbered_cues :: "SubtitleEntry list \<Rightarrow> bool" where
  "numbered_cues es \<longleftrightarrow> map entry_index es = [1..<Suc (length es)]"

lemma bounded_cues_snoc [simp]:
  "bounded_cues (es @ [e]) \<longleftrightarrow> bounded_cues es \<and> length (entry_text e) \<le> MAX_CUE_BYTES"
  by (simp add: bounded_cues_def)

lemma numbered_cues_snoc [simp]:
  "entry_index e = Suc (length es) \<Longrightarrow> numbered_cues (es @ [e]) \<longleftrightarrow> numbered_cues es"
  by (simp add: numbered_cues_def)

lemma cues_Nil [simp]: "bounded_cues []" "numbered_cues []"
  by (simp_all add: bounded_cues_def numbered_cues_def)

lemma srt_block_bounded:
  "bounded_cues es \<Longrightarrow> srt_block eng es b = Inr es' \<Longrightarrow> bounded_cues es'"
  using length_join_drop [of "[LF]" 2 "str_lines b"] length_join_lines [of b]
  by (auto simp: srt_block_def Let_def bind_res_Inr_iff split: if_splits sum.splits option.splits)

lemma vtt_cue_at_bounded:
  "vtt_cue_at eng es ls i = Inr es' \<Longrightarrow>
   (bounded_cues es \<longrightarrow> bounded_cues es') \<and> (numbered_cues es \<longrightarrow> numbered_cues es')"
  by (auto simp: vtt_cue_at_def Let_def bind_res_Inr_iff split: if_splits option.splits)

lemma vtt_block_bounded:
  "vtt_block eng es b = Inr es' \<Longrightarrow>
   (bounded_cues es \<longrightarrow> bounded_cues es') \<and> (numbered_cues es \<longrightarrow> numbered_cues es')"
  using vtt_cue_at_bounded
  by (auto simp: vtt_block_def Let_def split: if_splits)

lemma ass_row_bounded:
  "ass_row st ps = Inr st' \<Longrightarrow>
   (bounded_cues (ass_entries st) \<longrightarrow> bounded_cues (ass_entries st'))
   \<and> (numbered_cues (ass_entries st) \<longrightarrow> numbered_cues (ass_entries st'))"
  by (auto simp: ass_row_def Let_def bind_res_Inr_iff split: if_splits)

lemma ass_line_bounded:
  "ass_line st l = Inr st' \<Longrightarrow>
   (bounded_cues (ass_entries st) \<longrightarrow> bounded_cues (ass_entries st'))
   \<and> (numbered_cues (ass_entries st) \<longrightarrow> numbered_cues (ass_entries st'))"
  using ass_row_bounded
  by (auto simp: ass_line_def Let_def split: if_splits)

lemma sub_line_bounded:
  "sub_line eng es l = Inr es' \<Longrightarrow>
   (bounded_cues es \<longrightarrow> bounded_cues es') \<and> (numbered_cues es \<longrightarrow> numbered_cues es')"
proof -
  have "length (replace_str ''|'' [LF] t) = length t" for t by (induction t) auto
  then show "sub_line eng es l = Inr es' \<Longrightarrow>
   (bounded_cues es \<longrightarrow> bounded_cues es') \<and> (numbered_cues es \<longrightarrow> numbered_cues es')"
    by (auto simp: sub_line_def Let_def bind_res_Inr_iff split: if_splits option.splits)
qed

lemma fold_entries_inv:
  assumes "\<And>es x es'. f es x = Inr es' \<Longrightarrow> I es \<Longrightarrow> I es'" "I []" "fold_res f [] xs = Inr es"
  shows "I es"
  using assms(2,3) by (rule fold_res_inv [rotated]) (use assms(1) in blast)

lemma srt_parse_bounded: "srt_parse eng c = Inr s \<Longrightarrow> bounded_cues (entries s)"
  using fold_entries_inv [of "srt_block eng" bounded_cues] srt_block_bounded
  by (auto simp: srt_parse_def Let_def srt_subtitle_def map_sum_def split: if_splits option.splits sum.splits)

lemma vtt_parse_bounded:
  "vtt_parse eng c = Inr s \<Longrightarrow> bounded_cues (entries s) \<and> numbered_cues (entries s)"
  using fold_entries_inv [of "vtt_block eng" bounded_cues]
    fold_entries_inv [of "vtt_block eng" numbered_cues] vtt_block_bounded
  by (auto simp: vtt_parse_def Let_def vtt_subtitle_def map_sum_def split: if_splits option.splits sum.splits)

lemma sub_parse_bounded:
  "sub_parse eng c = Inr s \<Longrightarrow> bounded_cues (entries s) \<and> numbered_cues (entries s)"
  using fold_entries_inv [of "sub_line eng" bounded_cues]
    fold_entries_inv [of "sub_line eng" numbered_cues] sub_line_bounded
  by (auto simp: sub_parse_def Let_def sub_subtitle_def map_sum_def split: if_splits option.splits sum.splits)

lemma ass_parse_bounded:
  assumes "ass_parse c = Inr s"
  shows "bounded_cues (entries s) \<and> numbered_cues (entries s)"
proof -
  obtain st where st: "fold_res ass_line ass_init (str_lines (strip_bom c)) = Inr st"
    "entries s = ass_entries st"
    using assms by (auto simp: ass_parse_def Let_def bind_res_Inr_iff ass_subtitle_def split: if_splits)
  let ?I = "\<lambda>st. bounded_cues (ass_entries st) \<and> numbered_cues (ass_entries st)"
  have "?I ass_init" by (simp add: ass_init_def)
  then have "?I st"
    using st(1) by (rule fold_res_inv [rotated]) (use ass_line_bounded in blast)
  with st(2) show ?thesis by simp
qed

lemma parse_auto_cases:
  "parse_auto eng c = Inr s \<Longrightarrow>
   ass_parse c = Inr s \<or> vtt_parse eng c = Inr s \<or> srt_parse eng c = Inr s \<or> sub_parse eng c = Inr s"
  by (auto simp: parse_auto_def manager_formats_def AssFormat_def VttFormat_def SrtFormat_def
      SubFormat_def split: if_splits)

text \<open>
   Whatever the input, no cue that a parser returns is larger than the one-mebibyte cap, and the
  VTT, ASS and SUB parsers number the cues they keep consecutively from 1.
\<close>

theorem parsed_cues_bounded:
  "(case parse_auto eng c of Inr s \<Rightarrow> bounded_cues (entries s) | Inl _ \<Rightarrow> True)
   \<and> (case vtt_parse eng c of Inr s \<Rightarrow> numbered_cues (entries s) | Inl _ \<Rightarrow> True)
   \<and> (case ass_parse c of Inr s \<Rightarrow> numbered_cues (entries s) | Inl _ \<Rightarrow> True)
   \<and> (case sub_parse eng c of Inr s \<Rightarrow> numbered_cues (entries s) | Inl _ \<Rightarrow> True)"
  using parse_auto_cases [of eng c] srt_parse_bounded [of eng c] vtt_parse_bounded [of eng c]
    sub_parse_bounded [of eng c] ass_parse_bounded [of c]
  by (auto split: sum.splits)

end
