(* ===== verification/Translation.thy ===== *)
theory Translation
  imports Translation_Prompts Inline_Format Uuid_Generator Format_Convert
begin

text \<open>
  The translation engine (\<open>src/core/translation/engine.rs\<close> and \<open>request.rs\<close>): terminology, batches of
  cues, the retries and the texts put back into the subtitle.  The AI provider, the JSON library, the
  text of an identifier and the reporter are fields of the record \<open>translator\<close>; they act on a world
  \<open>'w\<close> that every call threads.  \<open>None\<close> is a call that does not return.
\<close>

section \<open>Requests and results\<close>

type_synonym TerminologyMap = "(str \<times> str) list"

record GlossaryEntry =
  glossary_source :: str
  glossary_target :: str

record TranslationRequest =
  target_language :: str
  source_language :: "str option"
  glossary_text :: "str option"
  request_context :: "str option"
  glossary_entries :: "GlossaryEntry list"

record TranslationOutcome =
  effective_terminology :: TerminologyMap
  translated_cue_count :: nat
  batch_count :: nat

record TranslationResult =
  translated_subtitle :: Subtitle
  outcome :: TranslationOutcome

definition outcome_default :: TranslationOutcome where
  "outcome_default = \<lparr>effective_terminology = [], translated_cue_count = 0, batch_count = 0\<rparr>"

definition merge_terminology :: "TerminologyMap \<Rightarrow> GlossaryEntry list \<Rightarrow> TerminologyMap" where
  "merge_terminology generated glossary =
     fold (\<lambda>e m. let s = trim (glossary_source e); t = trim (glossary_target e)
                in if s = [] \<or> t = [] then m else btree_insert s t m) glossary generated"

section \<open>Glossary files\<close>

text \<open>\<open>splitn(2, sep)\<close> of a line that contains the separator.\<close>

definition split_once :: "str \<Rightarrow> str \<Rightarrow> str \<times> str" where
  "split_once sep s = (hd (split_str sep s), join sep (tl (split_str sep s)))"

definition glossary_line :: "str \<Rightarrow> GlossaryEntry option" where
  "glossary_line raw_line =
     (let line = trim raw_line
      in if line = [] \<or> prefix ''#'' line then None
         else if \<not> contains_str line ''->'' \<and> \<not> contains_str line ''='' then None
         else
           (let sep = (if contains_str line ''->'' then ''->'' else ''='');
                s = trim (fst (split_once sep line)); t = trim (snd (split_once sep line))
            in if s = [] \<or> t = [] then None else Some \<lparr>glossary_source = s, glossary_target = t\<rparr>))"

definition parse_glossary_text :: "str \<Rightarrow> GlossaryEntry list" where
  "parse_glossary_text t = List.map_filter glossary_line (str_lines t)"

section \<open>Batches\<close>

text \<open>
  The loop of \<open>chunk_ranges\<close>; with a batch size of 0 it would not end.  The sum does not overflow: from
  the second round on the batch size is below the number of cues.
\<close>

partial_function (option) chunks_from :: "nat \<Rightarrow> nat \<Rightarrow> nat \<Rightarrow> nat list list option" where
  "chunks_from n b start =
     (if start < n
      then (let stop = min (start + b) n
            in Option.bind (chunks_from n b stop) (\<lambda>cs. Some ([start..<stop] # cs)))
      else Some [])"

definition chunk_ranges :: "nat \<Rightarrow> nat \<Rightarrow> nat list list option" where
  "chunk_ranges n batch_size = chunks_from n batch_size 0"

definition missing_translation_indices :: "str list \<Rightarrow> (str \<times> str) list \<Rightarrow> nat list" where
  "missing_translation_indices cue_ids translations =
     filter (\<lambda>i. map_of translations (cue_ids ! i) = None) [0..<length cue_ids]"

definition format_translation_progress :: "nat \<Rightarrow> nat \<Rightarrow> str" where
  "format_translation_progress processed all_cues =
     [CHR 0xF0, CHR 0x9F, CHR 0x93, CHR 0x8A] @ '' Translation Progress:'' @ LF # ''   Processed cues: ''
     @ show_nat processed @ ''/'' @ show_nat all_cues"

definition retry_notice :: str where
  "retry_notice =
     [CHR 0xE2, CHR 0x9A, CHR 0xA0]
     @ '' Translation response contained an unknown cue ID; discarding the batch response and ''
     @ ''retrying once.''"

section \<open>Requests to the provider\<close>

record 'w translator =
  tr_uuids :: "'w uuid_world"
  tr_uuid_text :: "uuid \<Rightarrow> str"
  tr_json :: json_reader
  tr_chat :: "(str \<times> str) list \<Rightarrow> 'w \<Rightarrow> str res \<times> 'w"
  tr_progress :: "str \<Rightarrow> 'w \<Rightarrow> 'w"
  tr_batch_size :: nat

text \<open>\<open>TranslationEngine::new\<close> checks the batch size.\<close>

definition engine_new :: "'w translator \<Rightarrow> 'w translator res" where
  "engine_new env =
     (if tr_batch_size env = 0 then Inl (Config ''Translation batch size must be greater than 0'')
      else Inr env)"

definition extract_terminology ::
    "'w translator \<Rightarrow> TranslationRequest \<Rightarrow> str list \<Rightarrow> 'w \<Rightarrow> TerminologyMap res \<times> 'w" where
  "extract_terminology env rq cue_texts w =
     (let prompt = build_terminology_prompt (target_language rq) (source_language rq) cue_texts
                     (glossary_text rq) (request_context rq);
          (r, w') = tr_chat env [(''system'', TERMINOLOGY_SYSTEM_MESSAGE), (''user'', prompt)] w
      in (bind_res r (parse_terminology_response (tr_json env)), w'))"

definition translation_messages ::
    "TranslationRequest \<Rightarrow> TerminologyMap \<Rightarrow> (str \<times> str) list \<Rightarrow> (str \<times> str) list" where
  "translation_messages rq terms cues =
     [(''system'', TRANSLATION_SYSTEM_MESSAGE),
      (''user'', build_translation_prompt (target_language rq) (source_language rq) terms
                   (glossary_text rq) (request_context rq) cues)]"

definition translate_batch_once ::
    "'w translator \<Rightarrow> TranslationRequest \<Rightarrow> TerminologyMap \<Rightarrow> (str \<times> str) list \<Rightarrow> str list \<Rightarrow> 'w
     \<Rightarrow> (str \<times> str) list res \<times> 'w" where
  "translate_batch_once env rq terms cues ids w =
     (let (r, w') = tr_chat env (translation_messages rq terms cues) w
      in (bind_res r (\<lambda>response.
            bind_res (parse_translation_response_partial (tr_json env) response ids) (\<lambda>m.
              Inr (btree_extend [] m))), w'))"

definition translate_batch_with_unknown_retry ::
    "'w translator \<Rightarrow> TranslationRequest \<Rightarrow> TerminologyMap \<Rightarrow> (str \<times> str) list \<Rightarrow> str list \<Rightarrow> 'w
     \<Rightarrow> ((str \<times> str) list \<times> nat) res \<times> 'w" where
  "translate_batch_with_unknown_retry env rq terms cues ids w =
     (case translate_batch_once env rq terms cues ids w of
        (Inr m, w1) \<Rightarrow> (Inr (m, 1), w1)
      | (Inl err, w1) \<Rightarrow>
          if is_unknown_cue_id_error err
          then
            (case translate_batch_once env rq terms cues ids (tr_progress env retry_notice w1) of
               (Inr m, w2) \<Rightarrow> (Inr (m, 2), w2)
             | (Inl retry_err, w2) \<Rightarrow>
                 if is_unknown_cue_id_error retry_err
                 then (Inl (AiService (''Translation response still contained an unknown cue ID after ''
                              @ ''retry; failing this file: '' @ error_display retry_err)), w2)
                 else (Inl retry_err, w2))
          else (Inl err, w1))"

section \<open>Translating a subtitle\<close>

definition batch_cues :: "str list \<Rightarrow> ProtectedCueText list \<Rightarrow> nat list \<Rightarrow> (str \<times> str) list" where
  "batch_cues cue_ids cues is = map (\<lambda>i. (cue_ids ! i, prompt_text (cues ! i))) is"

text \<open>The loop over the chunks, with the translations and the number of requests so far.\<close>

fun translate_chunks ::
    "'w translator \<Rightarrow> TranslationRequest \<Rightarrow> TerminologyMap \<Rightarrow> str list \<Rightarrow> ProtectedCueText list
     \<Rightarrow> nat list list \<Rightarrow> (str \<times> str) list \<times> nat \<Rightarrow> 'w \<Rightarrow> ((str \<times> str) list \<times> nat) res \<times> 'w" where
  "translate_chunks env rq terms cue_ids cues [] acc w = (Inr acc, w)"
| "translate_chunks env rq terms cue_ids cues (c # cs) acc w =
     (case translate_batch_with_unknown_retry env rq terms (batch_cues cue_ids cues c) (map ((!) cue_ids) c) w of
        (Inl err, w1) \<Rightarrow> (Inl err, w1)
      | (Inr (m, issued), w1) \<Rightarrow>
          (let translations = btree_extend (fst acc) m
           in translate_chunks env rq terms cue_ids cues cs (translations, snd acc + issued)
                (tr_progress env (format_translation_progress (length translations) (length cue_ids)) w1)))"

text \<open>
  The second phase: the cues without a translation are asked for once more, and those still missing
  get the empty text.
\<close>

definition fill_missing ::
    "'w translator \<Rightarrow> TranslationRequest \<Rightarrow> TerminologyMap \<Rightarrow> str list \<Rightarrow> ProtectedCueText list
     \<Rightarrow> (str \<times> str) list \<times> nat \<Rightarrow> 'w \<Rightarrow> ((str \<times> str) list \<times> nat \<times> str list) res \<times> 'w" where
  "fill_missing env rq terms cue_ids cues acc w =
     (let missing = missing_translation_indices cue_ids (fst acc)
      in if missing = [] then (Inr (fst acc, snd acc, []), w)
         else
           (case translate_batch_with_unknown_retry env rq terms (batch_cues cue_ids cues missing)
                   (map ((!) cue_ids) missing) w of
              (Inl err, w1) \<Rightarrow> (Inl err, w1)
            | (Inr (m, issued), w1) \<Rightarrow>
                (let retried = btree_extend (fst acc) m;
                     empty_ids = map ((!) cue_ids) (missing_translation_indices cue_ids retried);
                     translations = btree_extend retried (map (\<lambda>i. (i, [])) empty_ids)
                 in (Inr (translations, snd acc + issued, empty_ids),
                     tr_progress env (format_translation_progress (length translations) (length cue_ids)) w1))))"

text \<open>The texts of the entries, in order; the first text that cannot be restored is the error.\<close>

fun reapply ::
    "(str \<times> str) list \<Rightarrow> str list \<Rightarrow> (SubtitleEntry \<times> str \<times> ProtectedCueText) list
     \<Rightarrow> SubtitleEntry list res" where
  "reapply translations empty_ids [] = Inr []"
| "reapply translations empty_ids ((e, cid, c) # r) =
     bind_res
       (case map_of translations cid of
          None \<Rightarrow> Inr e
        | Some t \<Rightarrow>
            if cid \<in> set empty_ids then Inr (e\<lparr>entry_text := []\<rparr>)
            else bind_res (restore_inline_formatting t c) (\<lambda>s. Inr (e\<lparr>entry_text := s\<rparr>)))
       (\<lambda>e'. bind_res (reapply translations empty_ids r) (\<lambda>es. Inr (e' # es)))"

definition protected_cues :: "Subtitle \<Rightarrow> ProtectedCueText list" where
  "protected_cues s =
     map (\<lambda>i. protect_inline_formatting (entry_text (entries s ! i)) i) [0..<length (entries s)]"

text \<open>What follows the terminology: the batches, the missing cues and the texts.\<close>

definition translate_cues ::
    "'w translator \<Rightarrow> TranslationRequest \<Rightarrow> Subtitle \<Rightarrow> str list \<Rightarrow> TerminologyMap \<Rightarrow> nat list list \<Rightarrow> 'w
     \<Rightarrow> TranslationResult res \<times> 'w" where
  "translate_cues env rq s cue_ids terms chunks w =
     (case translate_chunks env rq terms cue_ids (protected_cues s) chunks ([], 0) w of
        (Inl err, w1) \<Rightarrow> (Inl err, w1)
      | (Inr acc, w1) \<Rightarrow>
          (case fill_missing env rq terms cue_ids (protected_cues s) acc w1 of
             (Inl err, w2) \<Rightarrow> (Inl err, w2)
           | (Inr (translations, batches, empty_ids), w2) \<Rightarrow>
               (bind_res (reapply translations empty_ids (zip (entries s) (zip cue_ids (protected_cues s)))) (\<lambda>es.
                  Inr \<lparr>translated_subtitle = s\<lparr>entries := es\<rparr>,
                       outcome = \<lparr>effective_terminology = terms, translated_cue_count = length es,
                                  batch_count = batches\<rparr>\<rparr>), w2)))"

definition translate_subtitle ::
    "'w translator \<Rightarrow> Subtitle \<Rightarrow> TranslationRequest \<Rightarrow> 'w \<Rightarrow> (TranslationResult res \<times> 'w) option" where
  "translate_subtitle env s rq w =
     (if trim (target_language rq) = []
      then Some (Inl (Config ''Translation target language must be provided''), w)
      else if entries s = [] then Some (Inr \<lparr>translated_subtitle = s, outcome = outcome_default\<rparr>, w)
      else
        (case generate_ids (tr_uuids env) (length (entries s)) w of
           None \<Rightarrow> None
         | Some (uuids, w1) \<Rightarrow>
             (case extract_terminology env rq (map visible_text (protected_cues s)) w1 of
                (Inl err, w2) \<Rightarrow> Some (Inl err, w2)
              | (Inr generated, w2) \<Rightarrow>
                  (case chunk_ranges (length (entries s)) (tr_batch_size env) of
                     None \<Rightarrow> None
                   | Some chunks \<Rightarrow>
                       Some (translate_cues env rq s (map (tr_uuid_text env) uuids)
                               (merge_terminology generated (glossary_entries rq)) chunks w2)))))"

definition translate_content ::
    "regex_crate \<Rightarrow> 'w translator \<Rightarrow> str \<Rightarrow> TranslationRequest \<Rightarrow> 'w \<Rightarrow> (TranslationResult res \<times> 'w) option" where
  "translate_content eng env content rq w =
     (case parse_auto eng content of
        Inl err \<Rightarrow> Some (Inl err, w)
      | Inr s \<Rightarrow> translate_subtitle env s rq w)"

end
