(* ===== verification/Translation_Properties.thy ===== *)
theory Translation_Properties
  imports Translation
begin

text \<open>
  What the translation engine keeps of a subtitle, how often it asks the provider, and what it
  yields with a provider that answers every request.
\<close>

section \<open>Batches\<close>

lemma chunks_from_end [simp]: "n \<le> start \<Longrightarrow> chunks_from n b start = Some []"
  by (subst chunks_from.simps) simp

lemma chunks_from_zero:
  assumes "chunks_from n b start = Some cs"
  shows "0 < b \<or> n \<le> start"
  using assms
proof (rule chunks_from.raw_induct [where P = "\<lambda>n b start cs. 0 < b \<or> n \<le> start", rotated])
  fix rec n b start cs
  assume ih: "\<And>n b start cs. rec n b start = Some cs \<Longrightarrow> 0 < b \<or> n \<le> start"
    and body: "(if start < n
      then (let stop = min (start + b) n in Option.bind (rec n b stop) (\<lambda>cs. Some ([start..<stop] # cs)))
      else Some []) = Some cs"
  show "0 < b \<or> n \<le> start"
  proof (cases "start < n")
    case True
    then obtain cs' where "rec n b (min (start + b) n) = Some cs'"
      using body by (auto simp: Let_def bind_eq_Some_conv)
    from ih [OF this] show ?thesis by auto
  qed simp
qed

lemma chunks_from_spec:
  assumes "0 < b" "start \<le> n"
  shows "\<exists>cs. chunks_from n b start = Some cs \<and> concat cs = [start..<n]
    \<and> list_all (\<lambda>c. 0 < length c \<and> length c \<le> b) cs \<and> length cs = (n - start + b - 1) div b"
  using assms(2)
proof (induction "n - start" arbitrary: start rule: less_induct)
  case less
  show ?case
  proof (cases "start < n")
    case False
    then show ?thesis using less.prems assms(1) by simp
  next
    case True
    define stop where "stop = min (start + b) n"
    have stop: "start < stop" "stop \<le> n" using True assms(1) by (auto simp: stop_def)
    have "n - stop < n - start" using stop by simp
    then obtain cs where cs: "chunks_from n b stop = Some cs" "concat cs = [stop..<n]"
      "list_all (\<lambda>c. 0 < length c \<and> length c \<le> b) cs" "length cs = (n - stop + b - 1) div b"
      using less.hyps [OF _ stop(2)] by blast
    have "chunks_from n b start = Some ([start..<stop] # cs)"
      by (subst chunks_from.simps) (simp add: True Let_def cs(1) flip: stop_def)
    moreover have "[start..<stop] @ [stop..<n] = [start..<n]"
      using stop by (metis le_add_diff_inverse less_imp_le_nat upt_add_eq_append)
    moreover have "Suc ((n - stop + b - 1) div b) = (n - start + b - 1) div b"
    proof (cases "start + b \<le> n")
      case True
      then have "n - start + b - 1 = (n - stop + b - 1) + b" using stop assms(1) by (simp add: stop_def)
      then have "(n - start + b - 1) div b = Suc ((n - stop + b - 1) div b)"
        using assms(1) by (simp only: div_add_self2)
      then show ?thesis by simp
    next
      case False
      then have "n - stop + b - 1 = b - 1" "n - start + b - 1 = b + (n - start - 1)" "n - start - 1 < b"
        using True assms(1) by (auto simp: stop_def)
      then have "(n - start + b - 1) div b = Suc 0" "(n - stop + b - 1) div b = 0"
        using assms(1) by (simp_all only: div_add_self1 div_less) simp_all
      then show ?thesis by simp
    qed
    moreover have "stop - start \<le> b" by (simp add: stop_def)
    ultimately show ?thesis using stop cs(2-4) by simp
  qed
qed

text \<open>The number of batches.\<close>

definition batches :: "nat \<Rightarrow> nat \<Rightarrow> nat" where
  "batches n b = (n + b - 1) div b"

section \<open>One batch\<close>

text \<open>\<open>t\<close> is what some answer of the provider gives for the cue.\<close>

definition answered :: "'w translator \<Rightarrow> TranslationRequest \<Rightarrow> TerminologyMap \<Rightarrow> str \<Rightarrow> str \<Rightarrow> bool" where
  "answered env rq terms cid t \<longleftrightarrow>
     (\<exists>cues ids v response m. fst (tr_chat env (translation_messages rq terms cues) v) = Inr response
        \<and> parse_translation_response_partial (tr_json env) response ids = Inr m \<and> map_of m cid = Some t)"

lemma map_of_rev_distinct:
  assumes "distinct (map fst m)"
  shows "map_of (rev m) = map_of m"
proof
  fix k
  have "map_of (rev m) k = Some v \<longleftrightarrow> map_of m k = Some v" for v
    using assms by (simp add: map_of_eq_Some_iff flip: rev_map)
  then show "map_of (rev m) k = map_of m k" by (cases "map_of m k"; cases "map_of (rev m) k") auto
qed

lemma map_of_extend:
  assumes "distinct (map fst m)"
  shows "map_of (btree_extend tr m) = map_of tr ++ map_of m"
  using assms by (simp add: map_of_btree_extend map_of_rev_distinct)

lemma batch_once_answers:
  assumes "translate_batch_once env rq terms cues ids w = (Inr m, w')" "map_of m cid = Some t"
  shows "answered env rq terms cid t \<and> cid \<in> set ids"
proof -
  obtain response w1 where chat: "tr_chat env (translation_messages rq terms cues) w = (Inr response, w1)"
    using assms(1) by (cases "tr_chat env (translation_messages rq terms cues) w"; cases "fst (tr_chat env (translation_messages rq terms cues) w)")
      (auto simp: translate_batch_once_def)
  then obtain m0 where m0: "parse_translation_response_partial (tr_json env) response ids = Inr m0"
    "m = btree_extend [] m0"
    using assms(1) by (auto simp: translate_batch_once_def bind_res_Inr_iff)
  have ok: "answer_ok ids m0" using accepted_entries [OF m0(1)] .
  then have "map_of m0 cid = Some t" using assms(2) m0(2) by (simp add: map_of_extend answer_ok_def)
  moreover have "cid \<in> set ids" using ok calculation map_of_SomeD by (fastforce simp: answer_ok_def)
  ultimately show ?thesis unfolding answered_def using chat m0(1) by (metis fst_conv)
qed

lemma batch_from_once:
  assumes "translate_batch_with_unknown_retry env rq terms cues ids w = (Inr (m, k), w')"
  obtains v where "translate_batch_once env rq terms cues ids v = (Inr m, w')"
  using assms by (auto simp: translate_batch_with_unknown_retry_def split: prod.splits sum.splits if_splits)

lemma batch_answers:
  assumes "translate_batch_with_unknown_retry env rq terms cues ids w = (Inr (m, k), w')" "map_of m cid = Some t"
  shows "answered env rq terms cid t \<and> cid \<in> set ids"
  by (rule batch_from_once [OF assms(1)]) (rule batch_once_answers [OF _ assms(2)])

lemma batch_requests:
  assumes "translate_batch_with_unknown_retry env rq terms cues ids w = (Inr (m, k), w')"
  shows "k = 1 \<or> k = 2"
  using assms by (auto simp: translate_batch_with_unknown_retry_def split: prod.splits sum.splits if_splits)

section \<open>The phases\<close>

definition all_answered ::
    "'w translator \<Rightarrow> TranslationRequest \<Rightarrow> TerminologyMap \<Rightarrow> (str \<times> str) list \<Rightarrow> bool" where
  "all_answered env rq terms tr \<longleftrightarrow> (\<forall>cid t. map_of tr cid = Some t \<longrightarrow> answered env rq terms cid t)"

lemma batch_ok:
  assumes "translate_batch_with_unknown_retry env rq terms cues ids w = (Inr (m, k), w')"
  shows "btree_ok m"
  by (rule batch_from_once [OF assms])
    (auto simp: translate_batch_once_def bind_res_Inr_iff split: prod.splits)

lemma all_answered_extend:
  assumes "all_answered env rq terms tr"
    and "translate_batch_with_unknown_retry env rq terms cues ids w = (Inr (m, k), w')"
  shows "all_answered env rq terms (btree_extend tr m)"
  using assms(1) batch_answers [OF assms(2)] map_of_extend [OF btree_distinct [OF batch_ok [OF assms(2)]]]
  by (auto simp: all_answered_def map_add_Some_iff)

lemma translate_chunks_answers:
  "translate_chunks env rq terms cue_ids cues cs acc w = (Inr acc', w') \<Longrightarrow>
   all_answered env rq terms (fst acc) \<Longrightarrow>
   all_answered env rq terms (fst acc') \<and> snd acc + length cs \<le> snd acc'
   \<and> snd acc' \<le> snd acc + 2 * length cs"
proof (induction env rq terms cue_ids cues cs acc w rule: translate_chunks.induct)
  case (2 env rq terms cue_ids cues c cs acc w)
  obtain m k w1 where b: "translate_batch_with_unknown_retry env rq terms (batch_cues cue_ids cues c)
      (map ((!) cue_ids) c) w = (Inr (m, k), w1)"
    using "2.prems"(1) by (auto split: prod.splits sum.splits)
  have "translate_chunks env rq terms cue_ids cues cs (btree_extend (fst acc) m, snd acc + k)
      (tr_progress env (format_translation_progress (length (btree_extend (fst acc) m)) (length cue_ids)) w1)
    = (Inr acc', w')"
    using "2.prems"(1) by (simp add: b Let_def)
  from "2.IH" [OF b [symmetric] refl refl refl this] all_answered_extend [OF "2.prems"(2) b] batch_requests [OF b]
  show ?case by auto
qed simp

lemma fill_missing_answers:
  assumes "fill_missing env rq terms cue_ids cues acc w = (Inr (tr, k, empty_ids), w')"
    and "all_answered env rq terms (fst acc)"
  shows "snd acc \<le> k \<and> k \<le> snd acc + 2 \<and> set cue_ids \<subseteq> dom (map_of tr)
    \<and> (\<forall>cid. cid \<in> set empty_ids \<or> (\<forall>t. map_of tr cid = Some t \<longrightarrow> answered env rq terms cid t))"
proof (cases "missing_translation_indices cue_ids (fst acc) = []")
  case True
  then have "set cue_ids \<subseteq> dom (map_of (fst acc))"
    by (fastforce simp: missing_translation_indices_def filter_empty_conv in_set_conv_nth)
  then show ?thesis
    using True assms by (auto simp: fill_missing_def Let_def all_answered_def)
next
  case False
  let ?miss = "missing_translation_indices cue_ids (fst acc)"
  obtain m i w1 where b: "translate_batch_with_unknown_retry env rq terms (batch_cues cue_ids cues ?miss)
      (map ((!) cue_ids) ?miss) w = (Inr (m, i), w1)"
    using assms(1) False by (auto simp: fill_missing_def Let_def split: prod.splits sum.splits)
  define retried where "retried = btree_extend (fst acc) m"
  have r: "k = snd acc + i" "empty_ids = map ((!) cue_ids) (missing_translation_indices cue_ids retried)"
    "tr = btree_extend retried (map (\<lambda>i. (i, [])) empty_ids)"
    using assms(1) False by (auto simp: fill_missing_def Let_def b retried_def)
  have ans: "all_answered env rq terms retried"
    unfolding retried_def by (rule all_answered_extend [OF assms(2) b])
  have keys: "set (map fst tr) = set (map fst retried) \<union> set empty_ids"
    unfolding r(3) keys_btree_extend by simp
  have old: "map_of tr cid = map_of retried cid" if "cid \<notin> set empty_ids" for cid
  proof -
    have "map_of (rev (map (\<lambda>i. (i, [] :: str)) empty_ids)) cid = None"
      using that by (auto simp: map_of_eq_None_iff)
    then show ?thesis by (simp only: r(3) map_of_btree_extend map_add_def option.case)
  qed
  have "cid \<in> dom (map_of tr)" if "cid \<in> set cue_ids" for cid
  proof (cases "map_of retried cid")
    case None
    then have "cid \<in> set empty_ids"
      using that by (auto simp: r(2) missing_translation_indices_def in_set_conv_nth)
    then have "cid \<in> set (map fst tr)" by (simp only: keys) simp
    then show ?thesis by (simp add: dom_map_of_conv_image_fst)
  next
    case (Some t)
    then have "cid \<in> set (map fst retried)" using map_of_SomeD [OF Some] by force
    then have "cid \<in> set (map fst tr)" unfolding keys by blast
    then show ?thesis by (simp add: dom_map_of_conv_image_fst)
  qed
  then show ?thesis
    using r(1) batch_requests [OF b] ans old by (auto simp: all_answered_def)
qed

text \<open>An entry with another text.\<close>

abbreviation with_text :: "str \<Rightarrow> SubtitleEntry \<Rightarrow> SubtitleEntry" where
  "with_text t e \<equiv> e\<lparr>entry_text := t\<rparr>"

lemma reapply_spec:
  "reapply tr empty_ids cues = Inr es \<Longrightarrow> fst ` set (map snd cues) \<subseteq> dom (map_of tr) \<Longrightarrow>
   list_all2 (\<lambda>(e, cid, c) e'. \<exists>t. e' = with_text t e
     \<and> (if cid \<in> set empty_ids then t = []
        else restore_inline_formatting (the (map_of tr cid)) c = Inr t)) cues es"
proof (induction tr empty_ids cues arbitrary: es rule: reapply.induct)
  case (2 tr empty_ids e cid c r)
  obtain t where t: "map_of tr cid = Some t" using "2.prems"(2) by auto
  obtain e' es' where e': "(if cid \<in> set empty_ids then Inr (with_text [] e)
      else bind_res (restore_inline_formatting t c) (\<lambda>s. Inr (with_text s e))) = Inr e'"
    "reapply tr empty_ids r = Inr es'" "es = e' # es'"
    using "2.prems"(1) by (auto simp: t bind_res_Inr_iff)
  have "list_all2 (\<lambda>(e, cid, c) e'. \<exists>t. e' = with_text t e
     \<and> (if cid \<in> set empty_ids then t = []
        else restore_inline_formatting (the (map_of tr cid)) c = Inr t)) r es'"
    using "2.IH" e'(2) "2.prems"(2) by auto
  then show ?case using e'(1) by (auto simp: e'(3) t bind_res_Inr_iff split: if_splits)
qed simp

text \<open>A translated subtitle: its parts and where its texts come from.\<close>

lemma translate_cues_spec:
  assumes "translate_cues env rq s cue_ids terms chunks w = (Inr r, w')"
    and "length cue_ids = length (entries s)"
  shows "\<exists>es. translated_subtitle r = s\<lparr>entries := es\<rparr> \<and> effective_terminology (outcome r) = terms
    \<and> translated_cue_count (outcome r) = length (entries s) \<and> length es = length (entries s)
    \<and> length chunks \<le> batch_count (outcome r) \<and> batch_count (outcome r) \<le> 2 * length chunks + 2
    \<and> list_all (\<lambda>i. \<exists>t. es ! i = with_text t (entries s ! i)
        \<and> (t = [] \<or> (\<exists>a. answered env rq terms (cue_ids ! i) a
             \<and> restore_inline_formatting a (protected_cues s ! i) = Inr t))) [0..<length (entries s)]"
proof -
  let ?n = "length (entries s)"
  obtain acc w1 where a: "translate_chunks env rq terms cue_ids (protected_cues s) chunks ([], 0) w = (Inr acc, w1)"
    using assms(1) by (auto simp: translate_cues_def split: prod.splits sum.splits)
  obtain tr k empty_ids w2 where
    f: "fill_missing env rq terms cue_ids (protected_cues s) acc w1 = (Inr (tr, k, empty_ids), w2)"
    using assms(1) by (auto simp: translate_cues_def a split: prod.splits sum.splits)
  obtain es where es: "reapply tr empty_ids (zip (entries s) (zip cue_ids (protected_cues s))) = Inr es"
    and r: "r = \<lparr>translated_subtitle = s\<lparr>entries := es\<rparr>,
      outcome = \<lparr>effective_terminology = terms, translated_cue_count = length es, batch_count = k\<rparr>\<rparr>"
    using assms(1) by (auto simp: translate_cues_def a f bind_res_Inr_iff)
  have c: "all_answered env rq terms (fst acc)" "length chunks \<le> snd acc" "snd acc \<le> 2 * length chunks"
    using translate_chunks_answers [OF a] by (auto simp: all_answered_def)
  have m: "snd acc \<le> k" "k \<le> snd acc + 2" and sub: "set cue_ids \<subseteq> dom (map_of tr)"
    and from_answer: "cid \<in> set empty_ids \<or> (\<forall>t. map_of tr cid = Some t \<longrightarrow> answered env rq terms cid t)" for cid
    using fill_missing_answers [OF f c(1)] by simp_all
  have len: "length (protected_cues s) = ?n" by (simp add: protected_cues_def)
  have "fst ` set (map snd (zip (entries s) (zip cue_ids (protected_cues s)))) \<subseteq> dom (map_of tr)"
    using sub assms(2) len by (simp flip: set_map)
  note all2 = reapply_spec [OF es this]
  have n: "length es = ?n" using list_all2_lengthD [OF all2] assms(2) len by simp
  have "\<exists>t. es ! i = with_text t (entries s ! i) \<and> (t = [] \<or> (\<exists>a. answered env rq terms (cue_ids ! i) a
      \<and> restore_inline_formatting a (protected_cues s ! i) = Inr t))" if i: "i < ?n" for i
  proof -
    have "cue_ids ! i \<in> set cue_ids" using i assms(2) by simp
    then obtain a where a: "map_of tr (cue_ids ! i) = Some a" using sub by blast
    moreover obtain t where "es ! i = with_text t (entries s ! i)"
      "if cue_ids ! i \<in> set empty_ids then t = []
       else restore_inline_formatting (the (map_of tr (cue_ids ! i))) (protected_cues s ! i) = Inr t"
      using list_all2_nthD [OF all2, of i] i assms(2) len by auto
    ultimately show ?thesis using from_answer [of "cue_ids ! i"] by (auto split: if_splits)
  qed
  then show ?thesis using r c m n by (auto simp: list_all_iff)
qed

lemma translate_subtitle_runs:
  assumes "translate_subtitle env s rq w = Some (Inr r, w')" "entries s \<noteq> []"
  obtains uuids w1 generated w2 chunks where
    "generate_ids (tr_uuids env) (length (entries s)) w = Some (uuids, w1)"
    "extract_terminology env rq (map visible_text (protected_cues s)) w1 = (Inr generated, w2)"
    "chunk_ranges (length (entries s)) (tr_batch_size env) = Some chunks"
    "translate_cues env rq s (map (tr_uuid_text env) uuids) (merge_terminology generated (glossary_entries rq)) chunks w2
      = (Inr r, w')"
  using assms by (auto simp: translate_subtitle_def split: if_splits option.splits prod.splits sum.splits)

lemma chunk_ranges_length:
  assumes "chunk_ranges n b = Some cs" "0 < n"
  shows "length cs = batches n b"
proof -
  have "0 < b" using chunks_from_zero [of n b 0 cs] assms by (simp add: chunk_ranges_def)
  from chunks_from_spec [OF this, of 0 n] show ?thesis
    using assms(1) by (simp add: chunk_ranges_def batches_def)
qed

text \<open>What the calls on the clock keep, \<open>next_id\<close> keeps.\<close>

definition clock_keeps :: "'w uuid_world \<Rightarrow> ('w \<Rightarrow> nat) \<Rightarrow> bool" where
  "clock_keeps u f \<longleftrightarrow> (\<forall>w. f (snd (now_v7 u w)) = f w) \<and> (\<forall>k w. f (sleep_ms u k w) = f w)"

lemma next_id_keeps:
  assumes "next_id u prev w = Some x"
  shows "clock_keeps u f \<longrightarrow> f (snd (snd x)) = f w"
  using assms
proof (rule next_id.raw_induct [where P = "\<lambda>u prev w x. clock_keeps u f \<longrightarrow> f (snd (snd x)) = f w", rotated])
  fix rec u prev w x
  assume ih: "\<And>u prev w x. rec u prev w = Some x \<Longrightarrow> clock_keeps u f \<longrightarrow> f (snd (snd x)) = f w"
    and body: "(let (i, w') = now_v7 u w; ts = unix_time_ms i
      in case prev of
           Some l \<Rightarrow>
             if ts \<le> l
             then rec u prev (sleep_ms u (saturating_add (saturating_sub l ts) 1) w')
             else Some (i, Some ts, w')
         | None \<Rightarrow> Some (i, Some ts, w')) = Some x"
  obtain i w1 where i: "now_v7 u w = (i, w1)" by fastforce
  show "clock_keeps u f \<longrightarrow> f (snd (snd x)) = f w"
  proof
    assume keeps: "clock_keeps u f"
    then have w1: "f w1 = f w" "f (sleep_ms u k w1) = f w" for k using i unfolding clock_keeps_def by (metis snd_conv)+
    have "x = (i, Some (unix_time_ms i), w1) \<or> (\<exists>k. rec u prev (sleep_ms u k w1) = Some x)"
      using body by (auto simp: i Let_def split: option.splits if_splits)
    then show "f (snd (snd x)) = f w" using w1 ih [THEN mp, OF _ keeps] by (metis snd_conv)
  qed
qed

lemma generate_from_keeps:
  assumes "clock_keeps u f"
  shows "generate_from u n prev w = Some (us, w') \<Longrightarrow> f w' = f w"
proof (induction n arbitrary: prev w us)
  case (Suc n)
  then obtain i prev1 w1 us1 where "next_id u prev w = Some (i, prev1, w1)" "generate_from u n prev1 w1 = Some (us1, w')"
    by (auto split: option.splits)
  with Suc.IH next_id_keeps assms show ?case by fastforce
qed simp

text \<open>A world in which the requests to the provider are counted.\<close>

definition counts_requests :: "'w translator \<Rightarrow> ('w \<Rightarrow> nat) \<Rightarrow> bool" where
  "counts_requests env requests \<longleftrightarrow>
     (\<forall>msgs w. requests (snd (tr_chat env msgs w)) = Suc (requests w))
     \<and> (\<forall>t w. requests (tr_progress env t w) = requests w)
     \<and> clock_keeps (tr_uuids env) requests"

lemma batch_once_counts:
  assumes "counts_requests env f" "translate_batch_once env rq terms cues ids w = (x, w')"
  shows "f w' = Suc (f w)"
  using assms by (auto simp: translate_batch_once_def counts_requests_def split: prod.splits) (metis snd_conv)

lemma batch_counts:
  assumes "counts_requests env f" "translate_batch_with_unknown_retry env rq terms cues ids w = (Inr (m, k), w')"
  shows "f w' = f w + k"
  using assms(2) batch_once_counts [OF assms(1)] assms(1)
  by (fastforce simp: translate_batch_with_unknown_retry_def counts_requests_def
      split: prod.splits sum.splits if_splits)

lemma chunks_step:
  assumes "translate_chunks env rq terms cue_ids cues (c # cs) acc w = (Inr acc', w')"
  obtains m k w1 where
    "translate_batch_with_unknown_retry env rq terms (batch_cues cue_ids cues c) (map ((!) cue_ids) c) w = (Inr (m, k), w1)"
    "translate_chunks env rq terms cue_ids cues cs (btree_extend (fst acc) m, snd acc + k)
       (tr_progress env (format_translation_progress (length (btree_extend (fst acc) m)) (length cue_ids)) w1)
     = (Inr acc', w')"
  using assms by (auto simp: Let_def split: prod.splits sum.splits)

lemma translate_chunks_counts:
  assumes "counts_requests env f"
  shows "translate_chunks env rq terms cue_ids cues cs acc w = (Inr acc', w') \<Longrightarrow> f w' + snd acc = f w + snd acc'"
proof (induction cs arbitrary: acc w)
  case (Cons c cs)
  obtain m k w1 where
    b: "translate_batch_with_unknown_retry env rq terms (batch_cues cue_ids cues c) (map ((!) cue_ids) c) w = (Inr (m, k), w1)"
    and rest: "translate_chunks env rq terms cue_ids cues cs (btree_extend (fst acc) m, snd acc + k)
       (tr_progress env (format_translation_progress (length (btree_extend (fst acc) m)) (length cue_ids)) w1)
     = (Inr acc', w')" by (rule chunks_step [OF Cons.prems])
  have "f (tr_progress env t w1) = f w1" for t using assms by (simp add: counts_requests_def)
  then show ?case using Cons.IH [OF rest] batch_counts [OF assms b] by simp
qed simp

lemma fill_missing_counts:
  assumes "counts_requests env f" "fill_missing env rq terms cue_ids cues acc w = (Inr (tr, k, e), w')"
  shows "f w' + snd acc = f w + k"
  using assms(2) batch_counts [OF assms(1)] assms(1)
  by (fastforce simp: fill_missing_def counts_requests_def Let_def split: prod.splits sum.splits if_splits)

lemma translate_cues_counts:
  assumes "counts_requests env f" "translate_cues env rq s cue_ids terms chunks w = (Inr r, w')"
  shows "f w' = f w + batch_count (outcome r)"
proof -
  obtain acc w1 where a: "translate_chunks env rq terms cue_ids (protected_cues s) chunks ([], 0) w = (Inr acc, w1)"
    using assms(2) by (auto simp: translate_cues_def split: prod.splits sum.splits)
  obtain tr k e w2 where f: "fill_missing env rq terms cue_ids (protected_cues s) acc w1 = (Inr (tr, k, e), w2)"
    using assms(2) by (auto simp: translate_cues_def a split: prod.splits sum.splits)
  have "w' = w2" "batch_count (outcome r) = k" using assms(2) by (auto simp: translate_cues_def a f bind_res_Inr_iff)
  then show ?thesis using translate_chunks_counts [OF assms(1) a] fill_missing_counts [OF assms(1) f] by simp
qed

section \<open>Properties of the engine\<close>

text \<open>
   An engine that \<open>TranslationEngine::new\<close> accepts cuts the cues into consecutive batches, none
  empty and none longer than the batch size; with the batch size it rejects, the loop that cuts them
  would never end.
\<close>

theorem accepted_engine_cuts:
  "case engine_new env of
     Inl _ \<Rightarrow> chunk_ranges (Suc n) (tr_batch_size env) = None
   | Inr env' \<Rightarrow> env' = env \<and> (\<exists>cs. chunk_ranges n (tr_batch_size env) = Some cs \<and> concat cs = [0..<n]
       \<and> list_all (\<lambda>c. 0 < length c \<and> length c \<le> tr_batch_size env) cs
       \<and> length cs = batches n (tr_batch_size env))"
proof (cases "tr_batch_size env = 0")
  case True
  then have "chunk_ranges (Suc n) (tr_batch_size env) = None"
    using chunks_from_zero [of "Suc n" 0 0] by (cases "chunk_ranges (Suc n) 0") (auto simp: chunk_ranges_def)
  then show ?thesis using True by (simp add: engine_new_def)
next
  case False
  then show ?thesis
    using chunks_from_spec [of "tr_batch_size env" 0 n] by (simp add: engine_new_def chunk_ranges_def batches_def)
qed


text \<open>
   A successful translation sends one request for the terminology and \<open>batch_count\<close> requests for
  cues: at least one and at most two per batch, and at most two for the cues that were missing.
\<close>

theorem requests_bounded:
  assumes "translate_subtitle env s rq w = Some (Inr r, w')" "entries s \<noteq> []" "counts_requests env f"
  shows "f w' = f w + 1 + batch_count (outcome r)
    \<and> batches (length (entries s)) (tr_batch_size env) \<le> batch_count (outcome r)
    \<and> batch_count (outcome r) \<le> 2 * batches (length (entries s)) (tr_batch_size env) + 2"
proof -
  obtain uuids w1 generated w2 chunks where
    g: "generate_ids (tr_uuids env) (length (entries s)) w = Some (uuids, w1)"
    and x: "extract_terminology env rq (map visible_text (protected_cues s)) w1 = (Inr generated, w2)"
    and c: "chunk_ranges (length (entries s)) (tr_batch_size env) = Some chunks"
    and t: "translate_cues env rq s (map (tr_uuid_text env) uuids)
      (merge_terminology generated (glossary_entries rq)) chunks w2 = (Inr r, w')"
    by (rule translate_subtitle_runs [OF assms(1,2)])
  have "length (map (tr_uuid_text env) uuids) = length (entries s)"
    using generate_from_increases [OF g [unfolded generate_ids_def]] by simp
  note spec = translate_cues_spec [OF t this]
  have "f w1 = f w"
    using generate_from_keeps [OF _ g [unfolded generate_ids_def]] assms(3) by (simp add: counts_requests_def)
  moreover have "f w2 = Suc (f w1)"
    using x assms(3) by (auto simp: extract_terminology_def counts_requests_def Let_def split: prod.splits)
      (metis snd_conv)
  ultimately show ?thesis
    using translate_cues_counts [OF assms(3) t] spec chunk_ranges_length [OF c] assms(2) by auto
qed

section \<open>A provider that answers every request\<close>

definition good_ids :: "str list \<Rightarrow> bool" where
  "good_ids ids \<longleftrightarrow> distinct ids \<and> list_all (\<lambda>i. i \<noteq> [] \<and> trim i = i) ids"

text \<open>
  The provider answers a terminology request with any valid answer, and each request for a batch of
  cues with a translation \<open>g\<close> of the text it was shown for each cue.
\<close>

definition serves ::
    "'w translator \<Rightarrow> TranslationRequest \<Rightarrow> nat list list \<Rightarrow> str list \<Rightarrow> ProtectedCueText list \<Rightarrow> (str \<Rightarrow> str) \<Rightarrow> bool" where
  "serves env rq chunks ids cues g \<longleftrightarrow>
     (\<forall>prompt w. \<exists>response m.
        fst (tr_chat env [(''system'', TERMINOLOGY_SYSTEM_MESSAGE), (''user'', prompt)] w) = Inr response
        \<and> parse_terminology_response (tr_json env) response = Inr m)
     \<and> (\<forall>terms w. \<forall>c \<in> set chunks.
          (\<exists>response. fst (tr_chat env (translation_messages rq terms (batch_cues ids cues c)) w) = Inr response
             \<and> parse_translation_response_partial (tr_json env) response (map ((!) ids) c)
               = Inr (map (\<lambda>j. (ids ! j, g (single_line (prompt_text (cues ! j))))) c)))"

lemma served_batch:
  assumes "serves env rq chunks ids cues g" "c \<in> set chunks"
  shows "\<exists>w'. translate_batch_with_unknown_retry env rq terms (batch_cues ids cues c) (map ((!) ids) c) w
    = (Inr (btree_extend [] (map (\<lambda>j. (ids ! j, g (single_line (prompt_text (cues ! j))))) c), 1), w')"
proof -
  obtain response where "fst (tr_chat env (translation_messages rq terms (batch_cues ids cues c)) w) = Inr response"
    "parse_translation_response_partial (tr_json env) response (map ((!) ids) c)
      = Inr (map (\<lambda>j. (ids ! j, g (single_line (prompt_text (cues ! j))))) c)"
    using assms unfolding serves_def by blast
  then show ?thesis
    by (cases "tr_chat env (translation_messages rq terms (batch_cues ids cues c)) w")
      (simp add: translate_batch_with_unknown_retry_def translate_batch_once_def)
qed

text \<open>The answers for a list of cue numbers.\<close>

lemma served_lookup:
  assumes "distinct ids" "i < length ids" "set c \<subseteq> {..<length ids}"
  shows "map_of (map (\<lambda>j. (ids ! j, F j)) c) (ids ! i) = (if i \<in> set c then Some (F i) else None)"
  using assms(3)
proof (induction c)
  case (Cons j c)
  have "ids ! i = ids ! j \<longleftrightarrow> i = j" using Cons.prems assms by (simp add: nth_eq_iff_index_eq)
  then show ?case using Cons by auto
qed simp

lemma served_chunks:
  assumes "serves env rq chunks ids cues g" "good_ids ids"
    and "F = (\<lambda>i. g (single_line (prompt_text (cues ! i))))"
  shows "list_all (\<lambda>c. c \<in> set chunks \<and> distinct c \<and> set c \<subseteq> {..<length ids}) cs \<Longrightarrow>
    \<exists>tr' w'. translate_chunks env rq terms ids cues cs (tr, k) w = (Inr (tr', k + length cs), w')
      \<and> (\<forall>i < length ids. map_of tr' (ids ! i) = (if i \<in> set (concat cs) then Some (F i) else map_of tr (ids ! i)))"
proof (induction cs arbitrary: tr k w)
  case (Cons c cs)
  have c: "distinct c" "set c \<subseteq> {..<length ids}" using Cons.prems by simp_all
  have dist: "distinct ids" using assms(2) by (simp add: good_ids_def)
  have inj: "inj_on ((!) ids) (set c)" using c dist by (auto intro: inj_on_nth)
  obtain w1 where
    b: "translate_batch_with_unknown_retry env rq terms (batch_cues ids cues c) (map ((!) ids) c) w
      = (Inr (btree_extend [] (map (\<lambda>j. (ids ! j, F j)) c), 1), w1)"
    using served_batch [OF assms(1), of c terms w] Cons.prems by (auto simp: assms(3))
  define m where "m = btree_extend [] (map (\<lambda>j. (ids ! j, F j)) c)"
  define tr1 where "tr1 = btree_extend tr m"
  define w2 where "w2 = tr_progress env (format_translation_progress (length tr1) (length ids)) w1"
  have "distinct (map fst (map (\<lambda>j. (ids ! j, F j)) c))"
    using c(1) inj by (simp add: o_def distinct_map)
  then have m: "map_of m = map_of (map (\<lambda>j. (ids ! j, F j)) c)" by (simp add: m_def map_of_extend)
  have "distinct (map fst m)" unfolding m_def by (intro btree_distinct btree_extend_ok btree_Nil_ok)
  then have one: "map_of tr1 (ids ! i) = (if i \<in> set c then Some (F i) else map_of tr (ids ! i))"
    if "i < length ids" for i
    using that c(2) by (simp add: tr1_def map_of_extend m map_add_def served_lookup [OF dist])
  from Cons.IH [of tr1 "k + 1" w2] Cons.prems obtain tr' w' where
    ih: "translate_chunks env rq terms ids cues cs (tr1, k + 1) w2 = (Inr (tr', k + 1 + length cs), w')"
    "\<forall>i < length ids. map_of tr' (ids ! i) = (if i \<in> set (concat cs) then Some (F i) else map_of tr1 (ids ! i))"
    by auto
  have "translate_chunks env rq terms ids cues (c # cs) (tr, k) w = (Inr (tr', k + length (c # cs)), w')"
    using ih(1) by (simp add: b Let_def flip: m_def) (simp add: tr1_def w2_def)
  then show ?case using ih(2) one by auto
qed simp

lemma reapply_all:
  "list_all2 (\<lambda>(e, cid, c) e'. \<exists>t s. map_of tr cid = Some t \<and> restore_inline_formatting t c = Inr s
     \<and> e' = with_text s e) cues es \<Longrightarrow> reapply tr [] cues = Inr es"
  by (induction cues es rule: list_all2_induct) auto

text \<open>The subtitle with the texts of a function of the position.\<close>

definition with_texts :: "(nat \<Rightarrow> str) \<Rightarrow> Subtitle \<Rightarrow> Subtitle" where
  "with_texts f s = s\<lparr>entries := map (\<lambda>i. with_text (f i) (entries s ! i)) [0..<length (entries s)]\<rparr>"

lemma served_cues:
  assumes "serves env rq cs ids (protected_cues s) g" "good_ids ids" "length ids = length (entries s)"
    and "chunk_ranges (length (entries s)) b = Some cs" "entries s \<noteq> []"
    and "list_all (\<lambda>i. restore_inline_formatting (g (single_line (prompt_text (protected_cues s ! i))))
        (protected_cues s ! i) = Inr (f i)) [0..<length (entries s)]"
  shows "\<exists>r w'. translate_cues env rq s ids terms cs w = (Inr r, w') \<and> translated_subtitle r = with_texts f s
    \<and> batch_count (outcome r) = batches (length (entries s)) b"
proof -
  let ?n = "length (entries s)"
  have "0 < b" using chunks_from_zero [of ?n b 0 cs] assms(4,5) by (simp add: chunk_ranges_def)
  from chunks_from_spec [OF this, of 0 ?n] assms(4) have all: "concat cs = [0..<?n]"
    by (simp add: chunk_ranges_def)
  have "distinct c \<and> set c \<subseteq> {..<length ids}" if "c \<in> set cs" for c
  proof -
    have "distinct (concat cs)" by (simp add: all)
    then have "distinct c" using that by (metis concat.simps(2) concat_append distinct_append split_list)
    moreover have "set c \<subseteq> set (concat cs)" using that by auto
    ultimately show ?thesis by (auto simp: all assms(3))
  qed
  then have "list_all (\<lambda>c. c \<in> set cs \<and> distinct c \<and> set c \<subseteq> {..<length ids}) cs" by (simp add: list_all_iff)
  from served_chunks [OF assms(1,2) refl this, of terms "[]" 0 w] obtain tr w1 where
    c: "translate_chunks env rq terms ids (protected_cues s) cs ([], 0) w = (Inr (tr, length cs), w1)"
    "\<And>i. i < ?n \<Longrightarrow> map_of tr (ids ! i) = Some (g (single_line (prompt_text (protected_cues s ! i))))"
    unfolding all assms(3) by auto
  have "missing_translation_indices ids tr = []"
    using c(2) assms(3) by (simp add: missing_translation_indices_def filter_empty_conv)
  then have f: "fill_missing env rq terms ids (protected_cues s) (tr, length cs) w1 = (Inr (tr, length cs, []), w1)"
    by (simp add: fill_missing_def)
  have "reapply tr [] (zip (entries s) (zip ids (protected_cues s))) = Inr (entries (with_texts f s))"
  proof (rule reapply_all)
    show "list_all2 (\<lambda>(e, cid, c) e'. \<exists>t s. map_of tr cid = Some t \<and> restore_inline_formatting t c = Inr s
        \<and> e' = with_text s e) (zip (entries s) (zip ids (protected_cues s))) (entries (with_texts f s))"
      using assms(3,6) c(2)
      by (simp add: list_all2_conv_all_nth with_texts_def protected_cues_def list_all_iff)
  qed
  moreover have n: "length cs = batches ?n b" using chunk_ranges_length [OF assms(4)] assms(5) by simp
  ultimately show ?thesis
    by (simp add: translate_cues_def c(1) [unfolded n] f [unfolded n] with_texts_def)
qed

text \<open>The provider serves every batch of the run that starts in \<open>w\<close>.\<close>

definition serves_run ::
    "'w translator \<Rightarrow> TranslationRequest \<Rightarrow> Subtitle \<Rightarrow> 'w \<Rightarrow> (str \<Rightarrow> str) \<Rightarrow> bool" where
  "serves_run env rq s w g \<longleftrightarrow>
     (case (generate_ids (tr_uuids env) (length (entries s)) w, chunk_ranges (length (entries s)) (tr_batch_size env)) of
        (Some (uuids, _), Some chunks) \<Rightarrow>
          good_ids (map (tr_uuid_text env) uuids)
          \<and> serves env rq chunks (map (tr_uuid_text env) uuids) (protected_cues s) g
      | _ \<Rightarrow> False)"

lemma served_subtitle:
  assumes "serves_run env rq s w g" "trim (target_language rq) \<noteq> []" "entries s \<noteq> []"
    and "list_all (\<lambda>i. restore_inline_formatting (g (single_line (prompt_text (protected_cues s ! i))))
        (protected_cues s ! i) = Inr (f i)) [0..<length (entries s)]"
  shows "\<exists>r w'. translate_subtitle env s rq w = Some (Inr r, w') \<and> translated_subtitle r = with_texts f s
    \<and> batch_count (outcome r) = batches (length (entries s)) (tr_batch_size env)"
proof -
  obtain uuids w1 cs where g: "generate_ids (tr_uuids env) (length (entries s)) w = Some (uuids, w1)"
    and cs: "chunk_ranges (length (entries s)) (tr_batch_size env) = Some cs"
    and ids: "good_ids (map (tr_uuid_text env) uuids)"
    and serve: "serves env rq cs (map (tr_uuid_text env) uuids) (protected_cues s) g"
    using assms(1) by (auto simp: serves_run_def split: option.splits)
  obtain generated w2 where x: "extract_terminology env rq (map visible_text (protected_cues s)) w1 = (Inr generated, w2)"
  proof -
    let ?p = "build_terminology_prompt (target_language rq) (source_language rq)
      (map visible_text (protected_cues s)) (glossary_text rq) (request_context rq)"
    obtain response m where "fst (tr_chat env [(''system'', TERMINOLOGY_SYSTEM_MESSAGE), (''user'', ?p)] w1) = Inr response"
      "parse_terminology_response (tr_json env) response = Inr m"
      using serve unfolding serves_def by blast
    then have "extract_terminology env rq (map visible_text (protected_cues s)) w1
      = (Inr m, snd (tr_chat env [(''system'', TERMINOLOGY_SYSTEM_MESSAGE), (''user'', ?p)] w1))"
      by (cases "tr_chat env [(''system'', TERMINOLOGY_SYSTEM_MESSAGE), (''user'', ?p)] w1")
        (simp add: extract_terminology_def)
    then show ?thesis by (rule that)
  qed
  have len: "length (map (tr_uuid_text env) uuids) = length (entries s)"
    using generate_from_increases [OF g [unfolded generate_ids_def]] by simp
  from served_cues [OF serve ids len cs assms(3,4)] show ?thesis
    using assms(2,3) by (simp add: translate_subtitle_def g x cs)
qed

lemma single_line_id: "LF \<notin> set t \<Longrightarrow> single_line t = t"
  by (simp add: single_line_def replace_char_absent)

lemma echo_restored:
  assumes "LF \<notin> set t" "key_free t"
  shows "restore_inline_formatting (single_line (prompt_text (protect_inline_formatting t i)))
    (protect_inline_formatting t i) = Inr t"
  using protect_restore [OF assms(2), of i] prompt_no_newline [OF assms(1)]
  by (simp add: single_line_id protect_inline_formatting_def)

text \<open>
  C34.  With a provider that answers every request, the translation returns, sends one request per batch
  of cues, and each text is the answer for its cue with the formatting put back.
\<close>

theorem served_translation:
  assumes "serves_run env rq s w g" "trim (target_language rq) \<noteq> []" "entries s \<noteq> []"
    and "list_all (\<lambda>i. restore_inline_formatting (g (single_line (prompt_text (protected_cues s ! i))))
        (protected_cues s ! i) = Inr (f i)) [0..<length (entries s)]"
  shows "\<exists>r w'. translate_subtitle env s rq w = Some (Inr r, w') \<and> translated_subtitle r = with_texts f s
    \<and> batch_count (outcome r) = batches (length (entries s)) (tr_batch_size env)"
  by (rule served_subtitle [OF assms])

text \<open>
   A provider that repeats what it is shown leaves the subtitle unchanged, tags included, when its
  texts are single lines and do not contain the key of the placeholders.
\<close>

theorem echo_keeps_subtitle:
  assumes "serves_run env rq s w (\<lambda>t. t)" "trim (target_language rq) \<noteq> []" "entries s \<noteq> []"
    and "list_all (\<lambda>e. LF \<notin> set (entry_text e) \<and> key_free (entry_text e)) (entries s)"
  shows "\<exists>r w'. translate_subtitle env s rq w = Some (Inr r, w') \<and> translated_subtitle r = s"
proof -
  have "list_all (\<lambda>i. restore_inline_formatting (single_line (prompt_text (protected_cues s ! i)))
      (protected_cues s ! i) = Inr (entry_text (entries s ! i))) [0..<length (entries s)]"
    using assms(4) by (auto simp: list_all_iff protected_cues_def intro!: echo_restored)
  from served_subtitle [OF assms(1-3) this] obtain r w' where
    "translate_subtitle env s rq w = Some (Inr r, w')"
    "translated_subtitle r = with_texts (\<lambda>i. entry_text (entries s ! i)) s" by blast
  moreover have "with_texts (\<lambda>i. entry_text (entries s ! i)) s = s"
    by (simp add: with_texts_def map_nth)
  ultimately show ?thesis by auto
qed

text \<open>
   The effective terminology gives a term the target of the last usable glossary entry for it, and
  only otherwise the generated one.
\<close>

theorem glossary_overrides:
  "map_of (merge_terminology generated glossary) name =
     (case List.find (\<lambda>e. trim (glossary_source e) = name \<and> name \<noteq> [] \<and> trim (glossary_target e) \<noteq> [])
             (rev glossary) of
        Some e \<Rightarrow> Some (trim (glossary_target e))
      | None \<Rightarrow> map_of generated name)"
proof (induction glossary rule: rev_induct)
  case (snoc e glossary)
  then show ?case by (auto simp: merge_terminology_def Let_def)
qed (simp add: merge_terminology_def)

section \<open>A run\<close>

definition demo_request :: TranslationRequest where
  "demo_request = \<lparr>target_language = ''fr'', source_language = None, glossary_text = None,
     request_context = None, glossary_entries = []\<rparr>"

definition demo_subtitle :: Subtitle where
  "demo_subtitle = \<lparr>entries = [demo_entry 1 0 1000000000 ''<i>Hi</i>'', demo_entry 2 2000000000 3000000000 ''Bye''],
     metadata = metadata_default, sub_format = Srt\<rparr>"

text \<open>A provider with one answer, in a world that tells the time and counts the requests.\<close>

definition demo_translator :: "(str \<times> str) list \<Rightarrow> (nat \<times> nat) translator" where
  "demo_translator answer =
     \<lparr>tr_uuids = \<lparr>now_v7 = (\<lambda>(t, k). (bytes_of_time t, (t, k))), sleep_ms = (\<lambda>d (t, k). (t + unat d, k))\<rparr>,
      tr_uuid_text = (\<lambda>u. show_nat (unat (u ! 5))),
      tr_json = \<lparr>json_value = (\<lambda>_. True), json_terms = (\<lambda>_. Inr []), json_translations = (\<lambda>_. Inr answer)\<rparr>,
      tr_chat = (\<lambda>_ (t, k). (Inr ''{}'', (t, Suc k))),
      tr_progress = (\<lambda>_ w. w),
      tr_batch_size = 2\<rparr>"

lemma demo_counts: "counts_requests (demo_translator a) snd"
  by (auto simp: counts_requests_def clock_keeps_def demo_translator_def)

lemma demo_ids: "generate_ids (tr_uuids (demo_translator a)) 2 (7, 0) = Some ([bytes_of_time 7, bytes_of_time 8], (8, 0))"
proof -
  have "unat (unix_time_ms (bytes_of_time 7)) = 7" "unat (unix_time_ms (bytes_of_time 8)) = 8"
    by (rule bytes_of_time_value; simp)+
  then have t: "unix_time_ms (bytes_of_time 7) = 7" "unix_time_ms (bytes_of_time 8) = 8"
    by (simp_all add: word_unat_eq_iff)
  let ?u = "tr_uuids (demo_translator a)"
  have first: "next_id ?u None (7, 0) = Some (bytes_of_time 7, Some 7, (7, 0))"
    by (subst next_id.simps) (simp add: demo_translator_def t)
  have stop: "next_id ?u (Some 7) (8, 0) = Some (bytes_of_time 8, Some 8, (8, 0))"
    by (subst next_id.simps) (simp add: demo_translator_def t)
  have "sleep_ms ?u (saturating_add (saturating_sub 7 7) 1) (7, 0) = (8, 0)"
    by (simp add: demo_translator_def saturating_add_def saturating_sub_def)
  then have "next_id ?u (Some 7) (7, 0) = next_id ?u (Some 7) (8, 0)"
    by (subst next_id.simps) (simp add: demo_translator_def t)
  then show ?thesis using first stop by (simp add: generate_ids_def numeral_2_eq_2)
qed

lemma demo_chunks: "chunk_ranges 2 2 = Some [[0, 1]]"
  by (simp add: chunk_ranges_def chunks_from.simps upt_rec)

lemma demo_uuid_text: "map (tr_uuid_text (demo_translator a)) [bytes_of_time 7, bytes_of_time 8] = [''7'', ''8'']"
proof -
  have "show_nat 7 = ''7''" "show_nat 8 = ''8''" by code_simp+
  then show ?thesis by (simp add: demo_translator_def bytes_of_time_def upt_rec)
qed

lemma demo_cues: "protected_cues demo_subtitle =
   [\<lparr>prompt_text = ''__SUBX_FMT_0_0__Hi__SUBX_FMT_0_1__'', visible_text = ''Hi'',
      markers = [(''__SUBX_FMT_0_0__'', ''<i>''), (''__SUBX_FMT_0_1__'', ''</i>'')]\<rparr>,
    \<lparr>prompt_text = ''Bye'', visible_text = ''Bye'', markers = []\<rparr>]"
proof -
  have "protected_cues demo_subtitle
      = [protect_inline_formatting ''<i>Hi</i>'' 0, protect_inline_formatting ''Bye'' 1]"
    by (simp add: protected_cues_def demo_subtitle_def demo_entry_def upt_rec)
  also have "\<dots> = [\<lparr>prompt_text = ''__SUBX_FMT_0_0__Hi__SUBX_FMT_0_1__'', visible_text = ''Hi'',
      markers = [(''__SUBX_FMT_0_0__'', ''<i>''), (''__SUBX_FMT_0_1__'', ''</i>'')]\<rparr>,
    \<lparr>prompt_text = ''Bye'', visible_text = ''Bye'', markers = []\<rparr>]" by code_simp
  finally show ?thesis .
qed

lemma demo_serves:
  assumes "g ''__SUBX_FMT_0_0__Hi__SUBX_FMT_0_1__'' = a" "g ''Bye'' = b"
  shows "serves_run (demo_translator [(''7'', a), (''8'', b)]) demo_request demo_subtitle (7, 0) g"
proof -
  have n: "length (entries demo_subtitle) = 2" "tr_batch_size (demo_translator x) = 2" for x
    by (simp_all add: demo_subtitle_def demo_translator_def)
  have ids: "good_ids [''7'', ''8'']" by code_simp
  have obj: "extract_json_object (tr_json (demo_translator x)) ''{}'' = Some ''{}''" for x
    by (simp add: demo_translator_def extract_json_object_def rfind_char_def)
  have "single_line ''__SUBX_FMT_0_0__Hi__SUBX_FMT_0_1__'' = ''__SUBX_FMT_0_0__Hi__SUBX_FMT_0_1__''"
    "single_line ''Bye'' = ''Bye''" by (simp_all add: single_line_id)
  moreover have "trim ''7'' = ''7''" "trim ''8'' = ''8''" by code_simp+
  then have "parse_translation_response_partial (tr_json (demo_translator [(''7'', a), (''8'', b)])) ''{}'' [''7'', ''8'']
      = Inr [(''7'', a), (''8'', b)]"
    unfolding parse_translation_response_partial_def obj
    by (simp add: demo_translator_def translation_step_def)
  moreover have "parse_terminology_response (tr_json (demo_translator x)) ''{}'' = Inr []" for x
    unfolding parse_terminology_response_def obj by (simp add: demo_translator_def)
  moreover have "fst (tr_chat (demo_translator x) msgs w) = Inr ''{}''" for x msgs w
    by (cases w) (simp add: demo_translator_def)
  ultimately show ?thesis
    unfolding serves_run_def n demo_ids demo_chunks prod.case option.case demo_uuid_text
    using assms ids by (simp add: serves_def demo_cues)
qed

abbreviation demo_answer :: "(str \<times> str) list" where
  "demo_answer \<equiv> [(''7'', ''__SUBX_FMT_0_0__Hi__SUBX_FMT_0_1__''), (''8'', ''Bye'')]"

lemma demo_runs:
  "\<exists>r w'. translate_subtitle (demo_translator demo_answer) demo_subtitle demo_request (7, 0) = Some (Inr r, w')"
proof -
  have "list_all (\<lambda>i. restore_inline_formatting (single_line (prompt_text (protected_cues demo_subtitle ! i)))
      (protected_cues demo_subtitle ! i) = Inr ([''<i>Hi</i>'', ''Bye''] ! i)) [0..<length (entries demo_subtitle)]"
  proof -
    have n: "length (entries demo_subtitle) = 2" by (simp add: demo_subtitle_def)
    show ?thesis unfolding demo_cues n by code_simp
  qed
  note restored = this
  have target: "trim (target_language demo_request) \<noteq> []"
    by (simp add: demo_request_def) code_simp
  have ne: "entries demo_subtitle \<noteq> []" by (simp add: demo_subtitle_def)
  have "serves_run (demo_translator demo_answer) demo_request demo_subtitle (7, 0) (\<lambda>t. t)"
    by (rule demo_serves) simp_all
  from served_subtitle [OF this target ne restored] show ?thesis by blast
qed


lemma requests_bounded_witness:
  "\<exists>r w'. translate_subtitle (demo_translator demo_answer) demo_subtitle demo_request (7, 0) = Some (Inr r, w')
     \<and> snd w' = 1 + batch_count (outcome r) \<and> 1 \<le> batch_count (outcome r) \<and> batch_count (outcome r) \<le> 4"
proof -
  obtain r w' where r: "translate_subtitle (demo_translator demo_answer) demo_subtitle demo_request (7, 0) = Some (Inr r, w')"
    using demo_runs by blast
  have "entries demo_subtitle \<noteq> []" by (simp add: demo_subtitle_def)
  moreover have "batches (length (entries demo_subtitle)) (tr_batch_size (demo_translator demo_answer)) = 1"
    by (simp add: demo_subtitle_def demo_translator_def batches_def)
  ultimately show ?thesis using requests_bounded [OF r _ demo_counts] r
    by (intro exI [of _ r] exI [of _ w']) simp
qed

lemma served_translation_witness:
  "\<exists>r w'. translate_subtitle (demo_translator [(''7'', ''__SUBX_FMT_0_0__Salut__SUBX_FMT_0_1__''), (''8'', ''Au revoir'')])
       demo_subtitle demo_request (7, 0) = Some (Inr r, w')
     \<and> translated_subtitle r = with_texts ((!) [''<i>Salut</i>'', ''Au revoir'']) demo_subtitle"
proof -
  let ?g = "\<lambda>t. if t = ''Bye'' then ''Au revoir'' else ''__SUBX_FMT_0_0__Salut__SUBX_FMT_0_1__''"
  have n: "length (entries demo_subtitle) = 2" by (simp add: demo_subtitle_def)
  have "\<exists>r w'. translate_subtitle (demo_translator [(''7'', ''__SUBX_FMT_0_0__Salut__SUBX_FMT_0_1__''), (''8'', ''Au revoir'')])
       demo_subtitle demo_request (7, 0) = Some (Inr r, w')
     \<and> translated_subtitle r = with_texts ((!) [''<i>Salut</i>'', ''Au revoir'']) demo_subtitle
     \<and> batch_count (outcome r) = batches (length (entries demo_subtitle))
         (tr_batch_size (demo_translator [(''7'', ''__SUBX_FMT_0_0__Salut__SUBX_FMT_0_1__''), (''8'', ''Au revoir'')]))"
  proof (rule served_translation [where g = ?g])
    show "serves_run (demo_translator [(''7'', ''__SUBX_FMT_0_0__Salut__SUBX_FMT_0_1__''), (''8'', ''Au revoir'')])
        demo_request demo_subtitle (7, 0) ?g" by (rule demo_serves) simp_all
    show "trim (target_language demo_request) \<noteq> []" by (simp add: demo_request_def) code_simp
    show "entries demo_subtitle \<noteq> []" by (simp add: demo_subtitle_def)
    show "list_all (\<lambda>i. restore_inline_formatting (?g (single_line (prompt_text (protected_cues demo_subtitle ! i))))
        (protected_cues demo_subtitle ! i) = Inr ([''<i>Salut</i>'', ''Au revoir''] ! i)) [0..<length (entries demo_subtitle)]"
      unfolding demo_cues n by code_simp
  qed
  then show ?thesis by blast
qed

lemma echo_keeps_subtitle_witness:
  "\<exists>r w'. translate_subtitle (demo_translator demo_answer) demo_subtitle demo_request (7, 0) = Some (Inr r, w')
     \<and> translated_subtitle r = demo_subtitle"
proof (rule echo_keeps_subtitle)
  show "serves_run (demo_translator demo_answer) demo_request demo_subtitle (7, 0) (\<lambda>t. t)"
    by (rule demo_serves) simp_all
  show "trim (target_language demo_request) \<noteq> []" by (simp add: demo_request_def) code_simp
  show "entries demo_subtitle \<noteq> []" by (simp add: demo_subtitle_def)
  have "key_free ''<i>Hi</i>''" "key_free ''Bye''" by code_simp+
  then show "list_all (\<lambda>e. LF \<notin> set (entry_text e) \<and> key_free (entry_text e)) (entries demo_subtitle)"
    by (simp add: demo_subtitle_def demo_entry_def)
qed

end
