(* ===== verification/Float32.thy ===== *)
theory Float32
  imports SubX_Prelude Complex_Main
begin

text \<open>
  \<open>f32\<close> as far as the configuration uses it: reading with \<open>str::parse\<close>, \<open>Display\<close> and comparison.
  A finite value is its sign and its magnitude, a rational number that 24 bits and an exponent from
  -149 to 104 represent.
\<close>

section \<open>Values\<close>

datatype f32 = NaN | Infinite bool | Finite bool rat

definition half_even :: "rat \<Rightarrow> int" where
  "half_even q =
     (let n = \<lfloor>q\<rfloor>; d = q - of_int n
      in if d < 1 / 2 then n else if 1 / 2 < d then n + 1 else if even n then n else n + 1)"

text \<open>Rounding a magnitude to the nearest value; \<open>None\<close> is an overflow to infinity.\<close>

definition exponents :: "int list" where
  "exponents = [-149..104]"

definition round_f32 :: "rat \<Rightarrow> rat option" where
  "round_f32 m =
     (case List.find (\<lambda>e. m / 2 powi e < 2 ^ 24) exponents of
        None \<Rightarrow> None
      | Some e \<Rightarrow> (let r = of_int (half_even (m / 2 powi e)) * 2 powi e in if r < 2 ^ 128 then Some r else None))"

definition representable :: "rat \<Rightarrow> bool" where
  "representable m \<longleftrightarrow> 0 \<le> m \<and> round_f32 m = Some m"

definition f32_ok :: "f32 \<Rightarrow> bool" where
  "f32_ok x \<longleftrightarrow> (case x of Finite _ m \<Rightarrow> representable m | _ \<Rightarrow> True)"

text \<open>The comparisons of IEEE 754: every one with a NaN is false.\<close>

definition signed :: "bool \<Rightarrow> rat \<Rightarrow> rat" where
  "signed neg m = (if neg then - m else m)"

fun f32_less :: "f32 \<Rightarrow> f32 \<Rightarrow> bool" where
  "f32_less (Finite a m) (Finite b n) \<longleftrightarrow> signed a m < signed b n"
| "f32_less (Infinite a) (Infinite b) \<longleftrightarrow> a \<and> \<not> b"
| "f32_less (Infinite a) (Finite _ _) \<longleftrightarrow> a"
| "f32_less (Finite _ _) (Infinite b) \<longleftrightarrow> \<not> b"
| "f32_less _ _ \<longleftrightarrow> False"

fun f32_eq :: "f32 \<Rightarrow> f32 \<Rightarrow> bool" where
  "f32_eq (Finite a m) (Finite b n) \<longleftrightarrow> signed a m = signed b n"
| "f32_eq (Infinite a) (Infinite b) \<longleftrightarrow> a = b"
| "f32_eq _ _ \<longleftrightarrow> False"

definition f32_le :: "f32 \<Rightarrow> f32 \<Rightarrow> bool" where
  "f32_le x y \<longleftrightarrow> f32_less x y \<or> f32_eq x y"

definition f32_of_rat :: "rat \<Rightarrow> f32" where
  "f32_of_rat q = (case round_f32 \<bar>q\<bar> of Some m \<Rightarrow> Finite (q < 0) m | None \<Rightarrow> Infinite (q < 0))"

section \<open>Reading\<close>

text \<open>The exponent part: absent, or \<open>e\<close>, a sign and digits.\<close>

definition split_sign :: "str \<Rightarrow> bool \<times> str" where
  "split_sign s =
     (if prefix ''-'' s then (True, tl s) else if prefix ''+'' s then (False, tl s) else (False, s))"

definition parse_exponent :: "str \<Rightarrow> int option" where
  "parse_exponent s =
     (if s = [] then Some 0
      else if hd s = CHR ''e'' \<or> hd s = CHR ''E'' then
        (let (neg, ds) = split_sign (tl s)
         in if ds \<noteq> [] \<and> list_all is_digit ds
            then Some (if neg then - int (dec_val 0 ds) else int (dec_val 0 ds)) else None)
      else None)"

definition parse_number :: "str \<Rightarrow> rat option" where
  "parse_number s =
     (let whole = takeWhile is_digit s; rest = dropWhile is_digit s;
          frac = (if prefix ''.'' rest then takeWhile is_digit (tl rest) else []);
          rest' = (if prefix ''.'' rest then dropWhile is_digit (tl rest) else rest)
      in if whole = [] \<and> frac = [] then None
         else map_option (\<lambda>e. of_nat (dec_val 0 (whole @ frac)) * 10 powi (e - int (length frac)))
                (parse_exponent rest'))"

definition parse_f32 :: "str \<Rightarrow> f32 option" where
  "parse_f32 s =
     (let (neg, body) = split_sign s; word = ascii_lower body
      in if word = ''inf'' \<or> word = ''infinity'' then Some (Infinite neg)
         else if word = ''nan'' then Some NaN
         else
           (case parse_number body of
              None \<Rightarrow> None
            | Some m \<Rightarrow> (case round_f32 m of Some r \<Rightarrow> Some (Finite neg r) | None \<Rightarrow> Some (Infinite neg))))"

section \<open>Display\<close>

text \<open>
  The shortest decimal that reads back as the value: the multiples of \<open>10 powi s\<close> next to it, for the
  largest scale \<open>s\<close> where one of them does; the closer one of two.
\<close>

definition reads_back :: "rat \<Rightarrow> int \<Rightarrow> nat \<Rightarrow> bool" where
  "reads_back m s d \<longleftrightarrow> round_f32 (of_nat d * 10 powi s) = Some m"

definition decimal_at :: "rat \<Rightarrow> int \<Rightarrow> nat option" where
  "decimal_at m s =
     (let q = m / 10 powi s; lo = nat \<lfloor>q\<rfloor>
      in if of_nat lo = q then Some lo
         else if reads_back m s lo \<and> (q - of_nat lo < 1 / 2 \<or> \<not> reads_back m s (lo + 1)) then Some lo
         else if reads_back m s (lo + 1) then Some (lo + 1)
         else None)"

definition scales :: "int list" where
  "scales = rev [-149..38]"

definition shortest_scale :: "rat \<Rightarrow> int option" where
  "shortest_scale m = List.find (\<lambda>s. decimal_at m s \<noteq> None) scales"

definition positional :: "nat \<Rightarrow> int \<Rightarrow> str" where
  "positional d s =
     (if 0 \<le> s then show_nat d @ replicate (nat s) (CHR ''0'')
      else (let k = nat (- s)
            in show_nat (d div 10 ^ k) @ ''.'' @ pad0 k (show_nat (d mod 10 ^ k))))"

definition show_magnitude :: "rat \<Rightarrow> str" where
  "show_magnitude m =
     (if m = 0 then ''0''
      else (case shortest_scale m of
              None \<Rightarrow> []
            | Some s \<Rightarrow> (case decimal_at m s of None \<Rightarrow> [] | Some d \<Rightarrow> positional d s)))"

definition show_f32 :: "f32 \<Rightarrow> str" where
  "show_f32 x =
     (case x of
        NaN \<Rightarrow> ''NaN''
      | Infinite neg \<Rightarrow> (if neg then ''-inf'' else ''inf'')
      | Finite neg m \<Rightarrow> (if neg then ''-'' else []) @ show_magnitude m)"

section \<open>Reading back what is displayed\<close>

lemma half_even_int [simp]: "half_even (of_int n) = n"
  by (simp add: half_even_def)

lemma find_upto_least:
  assumes "List.find P [a..b] = Some e"
  shows "P e \<and> a \<le> e \<and> e \<le> b \<and> (\<forall>i. a \<le> i \<and> i < e \<longrightarrow> \<not> P i)"
proof -
  obtain i where i: "i < length [a..b]" "P ([a..b] ! i)" "e = [a..b] ! i" "\<forall>j<i. \<not> P ([a..b] ! j)"
    using assms by (auto simp: find_Some_iff)
  have e: "e = a + int i" using i(1,3) by (simp add: nth_upto)
  have "\<not> P k" if "a \<le> k" "k < e" for k
  proof -
    have "nat (k - a) < i" using that e by linarith
    then have "\<not> P ([a..b] ! nat (k - a))" using i(4) by blast
    moreover have "[a..b] ! nat (k - a) = k" using that e i(1) by (subst nth_upto) auto
    ultimately show ?thesis by simp
  qed
  then show ?thesis using i e by (auto simp: nth_upto)
qed

lemma half_even_nonneg: "0 \<le> q \<Longrightarrow> 0 \<le> half_even q"
  by (auto simp: half_even_def Let_def)

lemma half_even_le:
  assumes "q \<le> of_int n"
  shows "half_even q \<le> n"
proof (cases "\<lfloor>q\<rfloor> = n")
  case True
  then have "q = of_int n" using assms by linarith
  then show ?thesis by simp
next
  case False
  then have "\<lfloor>q\<rfloor> + 1 \<le> n" using assms by linarith
  then show ?thesis by (simp add: half_even_def Let_def)
qed

lemma round_exact:
  assumes "List.find (\<lambda>e. m / 2 powi e < 2 ^ 24) exponents = Some e" "m = of_int n * 2 powi e" "m < 2 ^ 128"
  shows "round_f32 m = Some m"
proof -
  have "m / 2 powi e = of_int n" by (simp add: assms(2))
  then show ?thesis
    unfolding round_f32_def assms(1) option.case Let_def using assms(2,3) by (simp only: half_even_int if_True)
qed

lemma powi_split: "i \<le> e \<Longrightarrow> (2 :: rat) powi e = of_int (2 ^ nat (e - i)) * 2 powi i"
  using power_int_add [of "2 :: rat" "e - i" i] by (simp add: power_int_def)

lemma round_representable:
  assumes "round_f32 m = Some r" "0 \<le> m"
  shows "representable r"
proof -
  let ?P = "\<lambda>m e. m / (2 :: rat) powi e < 2 ^ 24"
  obtain e where e: "List.find (?P m) exponents = Some e"
    and r: "r = of_int (half_even (m / 2 powi e)) * 2 powi e" "r < 2 ^ 128"
    using assms(1) by (auto simp: round_f32_def Let_def split: option.splits if_splits)
  define n where "n = half_even (m / 2 powi e)"
  have e': "m / 2 powi e < 2 ^ 24" "-149 \<le> e" "e \<le> 104" using find_upto_least [OF e [unfolded exponents_def]] by blast+
  have n: "0 \<le> n" "n \<le> 2 ^ 24"
    using half_even_nonneg [of "m / 2 powi e"] half_even_le [of "m / 2 powi e" "2 ^ 24"] assms(2) e'(1)
    by (simp_all add: n_def)
  have rn: "r = of_int n * 2 powi e" by (simp add: r(1) n_def)
  have div: "r / 2 powi e = of_int n" by (simp add: rn)
  have "\<exists>i. -149 \<le> i \<and> i \<le> 104 \<and> ?P r i \<and> (i \<le> e \<or> i = e + 1 \<and> n = 2 ^ 24)"
  proof (cases "n < 2 ^ 24")
    case True
    then have "?P r e" unfolding div by (metis of_int_less_iff of_int_numeral of_int_power)
    then show ?thesis using e' by blast
  next
    case False
    then have n24: "n = 2 ^ 24" using n by simp
    have "r = 2 powi (e + 24)" unfolding rn n24 by (simp add: power_int_add)
    then have "(2 :: rat) powi (e + 24) < 2 powi 128" using r(2) by simp
    then have "e + 24 < 128" using power_int_mono_iff [of "2 :: rat"] power_int_increasing [of 128 "e + 24" "2 :: rat"]
      by (metis linorder_not_less one_le_numeral)
    moreover have "r / 2 powi (e + 1) = 2 ^ 23" unfolding rn n24 by (simp add: power_int_add)
    then have "?P r (e + 1)" by simp
    ultimately show ?thesis using e'(2) n24 by (intro exI [of _ "e + 1"]) auto
  qed
  then obtain j where j: "-149 \<le> j" "j \<le> 104" "?P r j" "j \<le> e \<or> j = e + 1 \<and> n = 2 ^ 24" by blast
  have "j \<in> set exponents" using j(1,2) by (simp only: exponents_def set_upto atLeastAtMost_iff simp_thms)
  then have "List.find (?P r) exponents \<noteq> None" using j(3) unfolding find_None_iff by blast
  then obtain i where i: "List.find (?P r) exponents = Some i" by blast
  have "i \<le> j" using find_upto_least [OF i [unfolded exponents_def]] j(1-3) by (meson linorder_not_less)
  have "\<exists>k. r = of_int k * 2 powi i"
  proof (cases "i \<le> e")
    case True
    show ?thesis unfolding rn powi_split [OF True] by (intro exI [of _ "n * 2 ^ nat (e - i)"]) simp
  next
    case False
    then have "i = e + 1" "n = 2 ^ 24" using \<open>i \<le> j\<close> j(4) by auto
    then show ?thesis by (intro exI [of _ "2 ^ 23"]) (simp add: rn power_int_add)
  qed
  then obtain k where "r = of_int k * 2 powi i" by blast
  from round_exact [OF i this r(2)] show ?thesis
    using n(1) by (simp add: representable_def) (simp add: rn)
qed

lemma dec_val_shift: "list_all is_digit s \<Longrightarrow> dec_val acc s = acc * 10 ^ length s + dec_val 0 s"
proof (induction s arbitrary: acc)
  case (Cons c s)
  then have s: "list_all is_digit s" by simp
  show ?case using Cons.IH [OF s, of "acc * 10 + digit_val c"] Cons.IH [OF s, of "digit_val c"]
    by (simp add: algebra_simps)
qed simp

lemma length_show_nat_less: "n < 10 ^ k \<Longrightarrow> 0 < k \<Longrightarrow> length (show_nat n) \<le> k"
proof (induction n arbitrary: k rule: show_nat.induct)
  case (1 n)
  show ?case
  proof (cases "n < 10")
    case False
    then obtain j where k: "k = Suc j" "0 < j" using "1.prems" by (cases k; cases "k - 1") auto
    then have "n div 10 < 10 ^ j" using "1.prems" by (simp add: less_mult_imp_div_less)
    from "1.IH" [OF False this k(2)] show ?thesis using False k by (subst show_nat.simps) simp
  qed (use "1.prems" in \<open>subst show_nat.simps, simp\<close>)
qed

lemma span_digits:
  assumes "list_all is_digit a" "\<not> (z \<noteq> [] \<and> is_digit (hd z))"
  shows "takeWhile is_digit (a @ z) = a" "dropWhile is_digit (a @ z) = z"
  using assms by (induction a) (cases z; auto)+

lemma parse_positional: "parse_number (positional d s) = Some (of_nat d * 10 powi s)"
proof (cases "0 \<le> s")
  case True
  have zeros: "list_all is_digit (replicate k (CHR ''0''))" for k by (auto simp: list_all_iff is_digit_def)
  let ?z = "show_nat d @ replicate (nat s) (CHR ''0'')"
  have val: "dec_val 0 ?z = d * 10 ^ nat s"
    using dec_val_shift [OF zeros, of d "nat s"] by (simp add: dec_val_append)
  have "list_all is_digit ?z" using zeros by simp
  then have span: "takeWhile is_digit ?z = ?z" "dropWhile is_digit ?z = []"
    using span_digits [of ?z "[]"] by (simp_all only: append_Nil2 simp_thms)
  have "positional d s = ?z" using True by (simp add: positional_def)
  then show ?thesis
    unfolding parse_number_def Let_def
    by (simp only: span val) (simp add: val parse_exponent_def True power_int_def)
next
  case False
  define k where "k = nat (- s)"
  have k: "0 < k" "s = - int k" using False by (auto simp: k_def)
  let ?frac = "pad0 k (show_nat (d mod 10 ^ k))"
  have len: "length ?frac = k"
    using length_show_nat_less [of "d mod 10 ^ k" k] k(1) by (simp add: pad0_def)
  have "dec_val 0 (show_nat (d div 10 ^ k) @ ?frac) = (d div 10 ^ k) * 10 ^ k + d mod 10 ^ k"
    using dec_val_shift [of ?frac "d div 10 ^ k", unfolded len] by (simp add: dec_val_append)
  then have val: "dec_val 0 (show_nat (d div 10 ^ k) @ ?frac) = d" by (simp only: div_mult_mod_eq)
  have "\<not> is_digit (CHR ''.'')" by (simp add: is_digit_def)
  then have span: "takeWhile is_digit (show_nat (d div 10 ^ k) @ ''.'' @ ?frac) = show_nat (d div 10 ^ k)"
    "dropWhile is_digit (show_nat (d div 10 ^ k) @ ''.'' @ ?frac) = ''.'' @ ?frac"
    using span_digits [of "show_nat (d div 10 ^ k)" "''.'' @ ?frac"] by simp_all
  have span2: "takeWhile is_digit ?frac = ?frac" "dropWhile is_digit ?frac = []"
    using span_digits [of ?frac "[]"] by simp_all
  have "positional d s = show_nat (d div 10 ^ k) @ ''.'' @ ?frac" using False by (simp add: positional_def k_def Let_def)
  then show ?thesis
    unfolding parse_number_def Let_def
    by (simp only: span) (simp add: span2 val len [simplified] parse_exponent_def k(2))
qed

lemma representable_integral:
  assumes "representable m"
  shows "\<exists>k. m * 10 ^ 149 = of_nat k"
proof -
  obtain e where e: "List.find (\<lambda>e. m / 2 powi e < 2 ^ 24) exponents = Some e"
    "m = of_int (half_even (m / 2 powi e)) * 2 powi e"
    using assms by (auto simp: representable_def round_f32_def Let_def split: option.splits if_splits)
  have "-149 \<le> e" using find_upto_least [OF e(1) [unfolded exponents_def]] by blast
  from powi_split [OF this] have "(2 :: rat) powi e * 10 ^ 149 = of_int (2 ^ nat (e + 149)) * (2 powi (- 149) * 10 ^ 149)"
    by simp
  also have "(2 :: rat) powi (- 149) * 10 ^ 149 = 5 ^ 149"
    using power_mult_distrib [of "2 :: rat" 5 149] by (simp add: power_int_def field_simps)
  finally have "m * 10 ^ 149 = of_int (half_even (m / 2 powi e) * 2 ^ nat (e + 149) * 5 ^ 149)"
    by (subst e(2)) (simp add: mult.assoc)
  moreover have "0 \<le> m * 10 ^ 149" using assms by (simp add: representable_def)
  ultimately show ?thesis by (metis of_int_0_le_iff of_int_of_nat_eq zero_le_imp_eq_int)
qed

lemma decimal_at_reads:
  assumes "decimal_at m s = Some d" "representable m"
  shows "reads_back m s d"
proof (cases "of_nat (nat \<lfloor>m / 10 powi s\<rfloor>) = m / 10 powi s")
  case True
  then have "of_nat (nat \<lfloor>m / 10 powi s\<rfloor>) * 10 powi s = m" by simp
  then have "reads_back m s (nat \<lfloor>m / 10 powi s\<rfloor>)"
    using assms(2) unfolding reads_back_def by (simp only: representable_def)
  then show ?thesis using assms(1) True by (simp add: decimal_at_def Let_def)
next
  case False
  then show ?thesis using assms(1) by (auto simp: decimal_at_def Let_def split: if_splits)
qed

lemma shortest_exists:
  assumes "representable m"
  shows "\<exists>s d. shortest_scale m = Some s \<and> decimal_at m s = Some d \<and> reads_back m s d"
proof -
  obtain k where "m * 10 ^ 149 = of_nat k" using representable_integral [OF assms] by blast
  moreover have "(10 :: rat) powi (- 149) = inverse (10 ^ 149)"
    using power_int_minus [of "10 :: rat" 149] by (simp only: power_int_numeral)
  ultimately have "m / 10 powi (- 149) = of_nat k" by (simp only: divide_inverse inverse_inverse_eq)
  then have "decimal_at m (- 149) \<noteq> None" by (simp add: decimal_at_def Let_def)
  moreover have "-149 \<in> set scales" by (simp add: scales_def)
  ultimately have "shortest_scale m \<noteq> None" by (auto simp: shortest_scale_def find_None_iff)
  then obtain s where s: "shortest_scale m = Some s" by blast
  then have "decimal_at m s \<noteq> None" unfolding shortest_scale_def by (auto simp: find_Some_iff)
  then show ?thesis using s decimal_at_reads [OF _ assms] by blast
qed

lemma positional_digit: "positional d s \<noteq> [] \<and> is_digit (hd (positional d s))"
proof -
  have "show_nat n \<noteq> [] \<and> is_digit (hd (show_nat n))" for n
    using show_nat_not_Nil [of n] list_all_digit_show_nat [of n] by (cases "show_nat n") auto
  then show ?thesis by (simp add: positional_def Let_def)
qed

lemma show_magnitude_spec:
  assumes "representable m"
  shows "\<exists>q. parse_number (show_magnitude m) = Some q \<and> round_f32 q = Some m
    \<and> show_magnitude m \<noteq> [] \<and> is_digit (hd (show_magnitude m))"
proof (cases "m = 0")
  case True
  have "show_nat 0 = ''0''" by code_simp
  then have "positional 0 0 = ''0''" by (simp add: positional_def)
  then have "parse_number ''0'' = Some 0" using parse_positional [of 0 0] by simp
  then show ?thesis using True assms by (simp add: show_magnitude_def representable_def is_digit_def)
next
  case False
  obtain s d where "shortest_scale m = Some s" "decimal_at m s = Some d" "reads_back m s d"
    using shortest_exists [OF assms] by blast
  then have "show_magnitude m = positional d s" "round_f32 (of_nat d * 10 powi s) = Some m"
    using False by (simp_all add: show_magnitude_def reads_back_def)
  then show ?thesis using parse_positional [of d s] positional_digit [of d s] by simp
qed

lemma digit_word:
  assumes "s \<noteq> []" "is_digit (hd s)"
  shows "split_sign s = (False, s)" "split_sign (''-'' @ s) = (True, s)"
    "ascii_lower s \<noteq> ''inf''" "ascii_lower s \<noteq> ''infinity''" "ascii_lower s \<noteq> ''nan''"
proof -
  obtain c t where c: "s = c # t" "is_digit c" using assms by (cases s) auto
  have "ascii_lower s = c # ascii_lower t" using c by (simp add: ascii_lower_def ascii_lower_char_def is_digit_def)
  then show "ascii_lower s \<noteq> ''inf''" "ascii_lower s \<noteq> ''infinity''" "ascii_lower s \<noteq> ''nan''"
    using c(2) by (auto simp: is_digit_def)
  show "split_sign s = (False, s)" "split_sign (''-'' @ s) = (True, s)"
    using c by (auto simp: split_sign_def is_digit_def)
qed

text \<open>A value is displayed as a text that reads back as the value.\<close>

lemma parse_show_f32:
  assumes "f32_ok x"
  shows "parse_f32 (show_f32 x) = Some x"
proof (cases x)
  case (Finite neg m)
  then have m: "representable m" using assms by (simp add: f32_ok_def)
  obtain q where q: "parse_number (show_magnitude m) = Some q" "round_f32 q = Some m"
    "show_magnitude m \<noteq> []" "is_digit (hd (show_magnitude m))"
    using show_magnitude_spec [OF m] by blast
  show ?thesis
    using q digit_word [OF q(3,4)] by (cases neg) (simp_all add: show_f32_def parse_f32_def Finite)
next
  case (Infinite neg)
  then show ?thesis by (cases neg) (simp_all add: show_f32_def parse_f32_def split_sign_def, code_simp+)
next
  case NaN
  then show ?thesis by (simp add: show_f32_def parse_f32_def split_sign_def) code_simp
qed

lemma parse_f32_ok:
  assumes "parse_f32 s = Some x"
  shows "f32_ok x"
proof -
  obtain neg body where "split_sign s = (neg, body)" by fastforce
  moreover have "representable r" if n: "parse_number body = Some m" and r: "round_f32 m = Some r" for body m r
  proof (rule round_representable [OF r])
    have pos: "map_option f x = Some m \<Longrightarrow> (\<And>e. 0 \<le> f e) \<Longrightarrow> 0 \<le> m" for f :: "int \<Rightarrow> rat" and x by auto
    show "0 \<le> m"
      using n unfolding parse_number_def Let_def by (split if_split_asm) (simp, erule pos, simp)
  qed
  ultimately show ?thesis
    using assms by (auto simp: parse_f32_def f32_ok_def Let_def split: if_splits option.splits)
qed

section \<open>Rounding of small values\<close>

lemma find_upto_eqI:
  assumes "P e" "a \<le> e" "e \<le> b" "\<And>i. a \<le> i \<Longrightarrow> i < e \<Longrightarrow> \<not> P i"
  shows "List.find P [a..b] = Some e"
proof (cases "List.find P [a..b]")
  case None
  then show ?thesis using assms(1-3) by (auto simp: find_None_iff)
next
  case (Some d)
  then have "P d" "a \<le> d" "d \<le> b" "\<forall>i. a \<le> i \<and> i < d \<longrightarrow> \<not> P i" using find_upto_least by blast+
  then show ?thesis using assms Some by (metis linorder_neqE)
qed

text \<open>Rounding with \<open>k\<close> bits after the binary point.\<close>

lemma round_f32_at:
  assumes "m * 2 ^ k < 2 ^ 24" "2 ^ 24 \<le> m * 2 ^ (k + 1)" "k \<le> 149"
  shows "round_f32 m = Some (of_int (half_even (m * 2 ^ k)) / 2 ^ k)"
proof -
  have e: "(2::rat) powi (- int k) = 1 / 2 ^ k" by (simp add: power_int_minus field_simps)
  have "List.find (\<lambda>e. m / 2 powi e < 2 ^ 24) exponents = Some (- int k)"
    unfolding exponents_def
  proof (rule find_upto_eqI)
    show "m / 2 powi (- int k) < 2 ^ 24" using assms(1) by (simp add: e)
    fix i assume "-149 \<le> i" "i < - int k"
    then have "(2::rat) powi i \<le> 2 powi (- int (k + 1))" by (intro power_int_increasing) auto
    then have le: "(2::rat) powi i \<le> 1 / 2 ^ (k + 1)"
      by (simp only: power_int_minus power_int_of_nat inverse_eq_divide)
    have "0 < (2::rat) powi i" by simp
    with le have "2 ^ (k + 1) \<le> 1 / (2::rat) powi i" by (simp add: field_simps)
    moreover have "0 \<le> m"
    proof (rule ccontr)
      assume "\<not> 0 \<le> m"
      then have "m * 2 ^ (k + 1) < 0" by (intro mult_neg_pos) simp_all
      then show False using assms(2) by simp
    qed
    ultimately have "m * 2 ^ (k + 1) \<le> m * (1 / 2 powi i)" by (intro mult_left_mono)
    then show "\<not> m / 2 powi i < 2 ^ 24" using assms(2) by simp
  qed (use assms(3) in auto)
  note found = this
  have "half_even (m * 2 ^ k) \<le> 2 ^ 24" using assms(1) by (intro half_even_le) simp
  then have "(of_int (half_even (m * 2 ^ k)) :: rat) \<le> of_int (2 ^ 24)" by (simp only: of_int_le_iff)
  moreover have "(2 ^ 24 :: rat) * 1 \<le> 2 ^ 24 * 2 ^ k" by (rule mult_left_mono) simp_all
  ultimately have "of_int (half_even (m * 2 ^ k)) \<le> (2 ^ 24 :: rat) * 2 ^ k"
    unfolding of_int_power of_int_numeral mult_1_right by (rule order_trans)
  then have "of_int (half_even (m * 2 ^ k)) / 2 ^ k \<le> (2 ^ 24 :: rat)" by (simp add: field_simps)
  then have "of_int (half_even (m * 2 ^ k)) / 2 ^ k < (2 ^ 128 :: rat)" by simp
  then show ?thesis unfolding round_f32_def found option.case Let_def e
    by (simp only: div_by_1 divide_divide_eq_right times_divide_eq_right mult_1_right if_True)
qed

lemma half_even_small:
  "half_even (67108864 / 5) = 13421773" "half_even (50331648 / 5) = 10066330"
proof -
  have "\<lfloor>67108864 / 5 :: rat\<rfloor> = 13421772" "\<lfloor>50331648 / 5 :: rat\<rfloor> = 10066329" by (simp_all add: floor_eq_iff)
  then show "half_even (67108864 / 5) = 13421773" "half_even (50331648 / 5) = 10066330"
    by (simp_all add: half_even_def)
qed

lemma round_zero: "round_f32 0 = Some 0"
proof -
  have "List.find (\<lambda>e. 0 / (2 :: rat) powi e < 2 ^ 24) exponents = Some (-149)"
    unfolding exponents_def by (rule find_upto_eqI) auto
  then show ?thesis using half_even_int [of 0] by (simp add: round_f32_def)
qed

lemma small_rounded:
  "round_f32 (1 / 10) = Some (13421773 / 134217728)" "round_f32 (1 / 4) = Some (1 / 4)"
  "round_f32 (3 / 10) = Some (5033165 / 16777216)" "round_f32 (3 / 5) = Some (5033165 / 8388608)"
  "round_f32 (4 / 5) = Some (13421773 / 16777216)" "round_f32 1 = Some 1" "round_f32 2 = Some 2"
  "round_f32 60 = Some 60" "round_f32 3600 = Some 3600"
  using round_f32_at [of "1 / 10" 27] round_f32_at [of "1 / 4" 25] round_f32_at [of "3 / 10" 25]
    round_f32_at [of "3 / 5" 24]
    round_f32_at [of "4 / 5" 24] round_f32_at [of 1 23] round_f32_at [of 2 22] round_f32_at [of 60 18]
    round_f32_at [of 3600 12] half_even_int [of "1 * 2 ^ 23"] half_even_int [of "2 ^ 23"] half_even_int [of "60 * 2 ^ 18"]
    half_even_int [of "3600 * 2 ^ 12"]
  by (simp_all add: half_even_small)

lemma small_f32:
  "f32_of_rat 0 = Finite False 0" "f32_of_rat (1 / 10) = Finite False (13421773 / 134217728)"
  "f32_of_rat (1 / 4) = Finite False (1 / 4)" "f32_of_rat (3 / 10) = Finite False (5033165 / 16777216)"
  "f32_of_rat (3 / 5) = Finite False (5033165 / 8388608)"
  "f32_of_rat (4 / 5) = Finite False (13421773 / 16777216)" "f32_of_rat 1 = Finite False 1"
  "f32_of_rat 2 = Finite False 2" "f32_of_rat 60 = Finite False 60" "f32_of_rat 3600 = Finite False 3600"
  by (simp_all add: f32_of_rat_def small_rounded round_zero)

section \<open>Monotonicity of rounding\<close>

lemma half_even_mono:
  assumes "q \<le> r"
  shows "half_even q \<le> half_even r"
proof (cases "\<lfloor>q\<rfloor> = \<lfloor>r\<rfloor>")
  case True
  then show ?thesis using assms by (auto simp: half_even_def Let_def)
next
  case False
  then have "\<lfloor>q\<rfloor> + 1 \<le> \<lfloor>r\<rfloor>" using floor_mono [OF assms] by linarith
  then show ?thesis by (auto simp: half_even_def Let_def)
qed

lemma half_even_ge: "of_int n \<le> q \<Longrightarrow> n \<le> half_even q"
  using half_even_mono [of "of_int n" q] by simp

text \<open>Rounding is monotone.\<close>

lemma found_exponent:
  assumes "List.find (\<lambda>e. m / (2 :: rat) powi e < 2 ^ 24) exponents = Some e" "0 \<le> m"
  shows "-149 \<le> e \<and> e \<le> 104 \<and> m / 2 powi e < 2 ^ 24 \<and> (e = -149 \<or> 2 ^ 23 \<le> m / 2 powi e)"
proof -
  note e = find_upto_least [OF assms(1) [unfolded exponents_def]]
  have "2 ^ 23 \<le> m / 2 powi e" if "e \<noteq> -149"
  proof -
    have "2 ^ 24 \<le> m / 2 powi (e - 1)" using e that by (simp add: not_less)
    moreover have "m / 2 powi (e - 1) = 2 * (m / 2 powi e)" by (simp add: power_int_diff)
    moreover have "(2 :: rat) ^ 24 \<le> 2 * x \<Longrightarrow> 2 ^ 23 \<le> x" for x by simp
    ultimately show ?thesis by metis
  qed
  then show ?thesis using e by blast
qed

lemma round_f32_mono:
  assumes "0 \<le> m" "m \<le> n" "round_f32 n = Some s"
  shows "\<exists>r. round_f32 m = Some r \<and> r \<le> s"
proof -
  obtain e where e: "List.find (\<lambda>e. n / (2 :: rat) powi e < 2 ^ 24) exponents = Some e"
    and s: "s = of_int (half_even (n / 2 powi e)) * 2 powi e" "s < 2 ^ 128"
    using assms(3) by (auto simp: round_f32_def Let_def split: option.splits if_splits)
  note en = found_exponent [OF e]
  have "m / 2 powi e \<le> n / 2 powi e" by (rule divide_right_mono) (simp_all add: assms(2))
  then have "m / 2 powi e < 2 ^ 24" using en assms(1,2) by linarith
  moreover have "e \<in> set exponents" using en assms(1,2) by (simp only: exponents_def set_upto atLeastAtMost_iff simp_thms)
  ultimately have "List.find (\<lambda>e. m / (2 :: rat) powi e < 2 ^ 24) exponents \<noteq> None" unfolding find_None_iff by blast
  then obtain d where d: "List.find (\<lambda>e. m / (2 :: rat) powi e < 2 ^ 24) exponents = Some d" by blast
  note dm = found_exponent [OF d assms(1)]
  define r where "r = of_int (half_even (m / 2 powi d)) * (2 :: rat) powi d"
  have "d \<le> e"
    using find_upto_least [OF d [unfolded exponents_def]] en assms(1,2) \<open>m / 2 powi e < 2 ^ 24\<close> by (meson linorder_not_less order_trans)
  have "r \<le> s"
  proof (cases "d = e")
    case True
    then show ?thesis
      using half_even_mono [OF \<open>m / 2 powi e \<le> n / 2 powi e\<close>] unfolding r_def s(1) True
      by (intro mult_right_mono) simp_all
  next
    case False
    then have d1: "d \<le> e - 1" and e1: "e \<noteq> -149" using \<open>d \<le> e\<close> dm by auto
    have "half_even (m / 2 powi d) \<le> 2 ^ 24" using dm by (intro half_even_le) simp
    then have "(of_int (half_even (m / 2 powi d)) :: rat) \<le> of_int (2 ^ 24)" by (simp only: of_int_le_iff)
    then have "r \<le> of_int (2 ^ 24) * 2 powi d" unfolding r_def by (rule mult_right_mono) simp
    also have "\<dots> \<le> of_int (2 ^ 24) * 2 powi (e - 1)"
      using d1 by (intro mult_left_mono power_int_increasing) simp_all
    also have "\<dots> = of_int (2 ^ 23) * 2 powi e" by (simp add: power_int_diff)
    also have "2 ^ 23 \<le> half_even (n / 2 powi e)" using en assms(1,2) e1 by (intro half_even_ge) simp
    then have "of_int (2 ^ 23) * 2 powi e \<le> s" unfolding s(1) by (intro mult_right_mono) (simp_all only: of_int_le_iff, simp)
    finally show ?thesis .
  qed
  then show ?thesis using d s by (simp add: round_f32_def r_def)
qed

lemma round_usize_max: "round_f32 (2 ^ 64) = Some (2 ^ 64)"
proof -
  have "List.find (\<lambda>e. (2 :: rat) ^ 64 / 2 powi e < 2 ^ 24) exponents = Some 41"
    unfolding exponents_def
  proof (rule find_upto_eqI)
    fix i :: int
    assume "i < 41"
    then have "(2 :: rat) powi i \<le> 2 powi 40" by (intro power_int_increasing) simp_all
    then have "(2 :: rat) ^ 64 / 2 powi 40 \<le> 2 ^ 64 / 2 powi i" by (intro divide_left_mono) simp_all
    then show "\<not> (2 :: rat) ^ 64 / 2 powi i < 2 ^ 24" by simp
  qed simp_all
  from round_exact [OF this, of "2 ^ 23"] show ?thesis by simp
qed

lemma round_usize:
  assumes "n < 2 ^ 64"
  shows "\<exists>a. round_f32 (of_nat n) = Some a \<and> 0 \<le> a \<and> (0 < n \<longrightarrow> 1 \<le> a)"
proof -
  have le: "of_nat n \<le> (2 ^ 64 :: rat)"
    using assms by (metis less_imp_le of_nat_le_iff of_nat_numeral of_nat_power)
  obtain a where a: "round_f32 (of_nat n) = Some a"
    using round_f32_mono [OF of_nat_0_le_iff le round_usize_max] by blast
  moreover have "0 \<le> a" using round_f32_mono [OF _ _ a, of 0] round_zero by auto
  moreover have "1 \<le> a" if "0 < n" using round_f32_mono [OF _ _ a, of 1] small_rounded(6) that by auto
  ultimately show ?thesis by blast
qed

text \<open>The small constants of the program and comparisons with them.\<close>

lemmas small_values = f32_of_rat_def small_rounded round_zero f32_le_def signed_def

end
