(* ===== verification/Config_Types.thy ===== *)
theory Config_Types
  imports Float32 Std_Path SubX_Error Scheduler
begin

text \<open>
  The configuration (\<open>src/config/mod.rs\<close>): its sections and their defaults.  The integers of the code
  are natural numbers that \<open>config_wf\<close> bounds by their width.
\<close>

section \<open>Sections\<close>

record AIConfig =
  provider :: str
  api_key :: "str option"
  model :: str
  base_url :: str
  max_sample_length :: nat
  temperature :: f32
  max_tokens :: nat
  retry_attempts :: nat
  retry_delay_ms :: nat
  request_timeout_seconds :: nat
  api_version :: "str option"

record FormatsConfig =
  default_output :: str
  preserve_styling :: bool
  default_encoding :: str
  encoding_detection_confidence :: f32

record VadConfig =
  enabled :: bool
  sensitivity :: f32
  padding_chunks :: nat
  min_speech_duration_ms :: nat

record SyncConfig =
  default_method :: str
  max_offset_seconds :: f32
  vad :: VadConfig
  correlation_threshold :: f32
  dialogue_detection_threshold :: f32
  min_dialogue_duration_ms :: nat
  dialogue_merge_gap_ms :: nat
  enable_dialogue_detection :: bool
  audio_sample_rate :: nat
  auto_detect_sample_rate :: bool

record GeneralConfig =
  cfg_backup_enabled :: bool
  max_concurrent_jobs :: nat
  task_timeout_seconds :: nat
  cfg_workspace :: path
  enable_progress_bar :: bool
  worker_idle_timeout_seconds :: nat
  max_subtitle_bytes :: nat
  max_audio_bytes :: nat

record Cfg_ParallelConfig =
  cfg_max_workers :: nat
  overflow_strategy :: OverflowStrategy
  task_queue_size :: nat
  cfg_task_priorities :: bool
  cfg_auto_balance :: bool

record TranslationConfig =
  cfg_batch_size :: nat
  default_target_language :: "str option"

record Config =
  ai :: AIConfig
  formats :: FormatsConfig
  sync :: SyncConfig
  general :: GeneralConfig
  parallel :: Cfg_ParallelConfig
  translation :: TranslationConfig
  loaded_from :: "path option"

section \<open>Defaults\<close>

definition ai_default :: AIConfig where
  "ai_default =
     \<lparr>provider = ''openai'', api_key = None, model = ''gpt-4.1-mini'',
      base_url = ''https://api.openai.com/v1'', max_sample_length = 3000,
      temperature = f32_of_rat (3 / 10), max_tokens = 10000, retry_attempts = 3,
      retry_delay_ms = 1000, request_timeout_seconds = 120, api_version = None\<rparr>"

definition formats_default :: FormatsConfig where
  "formats_default =
     \<lparr>default_output = ''srt'', preserve_styling = False, default_encoding = ''utf-8'',
      encoding_detection_confidence = f32_of_rat (8 / 10)\<rparr>"

definition vad_default :: VadConfig where
  "vad_default =
     \<lparr>enabled = True, sensitivity = f32_of_rat (1 / 4), padding_chunks = 3, min_speech_duration_ms = 300\<rparr>"

definition sync_default :: SyncConfig where
  "sync_default =
     \<lparr>default_method = ''auto'', max_offset_seconds = f32_of_rat 60, vad = vad_default,
      correlation_threshold = f32_of_rat (8 / 10), dialogue_detection_threshold = f32_of_rat (6 / 10),
      min_dialogue_duration_ms = 500, dialogue_merge_gap_ms = 200, enable_dialogue_detection = True,
      audio_sample_rate = 44100, auto_detect_sample_rate = True\<rparr>"

definition general_default :: GeneralConfig where
  "general_default =
     \<lparr>cfg_backup_enabled = False, max_concurrent_jobs = 4, task_timeout_seconds = 300,
      cfg_workspace = path_of ''.'', enable_progress_bar = True, worker_idle_timeout_seconds = 60,
      max_subtitle_bytes = 52428800, max_audio_bytes = 2147483648\<rparr>"

text \<open>The number of processors is an argument.\<close>

definition parallel_default :: "nat \<Rightarrow> Cfg_ParallelConfig" where
  "parallel_default cpus =
     \<lparr>cfg_max_workers = cpus, overflow_strategy = Block, task_queue_size = 1000,
      cfg_task_priorities = False, cfg_auto_balance = True\<rparr>"

definition translation_default :: TranslationConfig where
  "translation_default = \<lparr>cfg_batch_size = 40, default_target_language = None\<rparr>"

definition config_default :: "nat \<Rightarrow> Config" where
  "config_default cpus =
     \<lparr>ai = ai_default, formats = formats_default, sync = sync_default, general = general_default,
      parallel = parallel_default cpus, translation = translation_default, loaded_from = None\<rparr>"

section \<open>Texts of values\<close>

definition show_bool :: "bool \<Rightarrow> str" where
  "show_bool b = (if b then ''true'' else ''false'')"

definition overflow_debug :: "OverflowStrategy \<Rightarrow> str" where
  "overflow_debug s =
     (case s of Block \<Rightarrow> ''Block'' | Drop \<Rightarrow> ''Drop'' | Expand \<Rightarrow> ''Expand''
      | DropOldest \<Rightarrow> ''DropOldest'' | Reject \<Rightarrow> ''Reject'')"

section \<open>Widths\<close>

definition ai_wf :: "AIConfig \<Rightarrow> bool" where
  "ai_wf a \<longleftrightarrow> max_sample_length a < 2 ^ 64 \<and> f32_ok (temperature a) \<and> max_tokens a < 2 ^ 32
     \<and> retry_attempts a < 2 ^ 32 \<and> retry_delay_ms a < 2 ^ 64 \<and> request_timeout_seconds a < 2 ^ 64"

definition sync_wf :: "SyncConfig \<Rightarrow> bool" where
  "sync_wf s \<longleftrightarrow> f32_ok (max_offset_seconds s) \<and> f32_ok (sensitivity (vad s))
     \<and> padding_chunks (vad s) < 2 ^ 32 \<and> min_speech_duration_ms (vad s) < 2 ^ 32"

definition general_wf :: "GeneralConfig \<Rightarrow> bool" where
  "general_wf g \<longleftrightarrow> max_concurrent_jobs g < 2 ^ 64 \<and> task_timeout_seconds g < 2 ^ 64
     \<and> worker_idle_timeout_seconds g < 2 ^ 64 \<and> max_subtitle_bytes g < 2 ^ 64 \<and> max_audio_bytes g < 2 ^ 64"

definition config_wf :: "Config \<Rightarrow> bool" where
  "config_wf c \<longleftrightarrow> ai_wf (ai c) \<and> f32_ok (encoding_detection_confidence (formats c)) \<and> sync_wf (sync c)
     \<and> general_wf (general c) \<and> cfg_max_workers (parallel c) < 2 ^ 64 \<and> task_queue_size (parallel c) < 2 ^ 64
     \<and> cfg_batch_size (translation c) < 2 ^ 64"

end
