(* ===== verification/Config_Validation.thy ===== *)
theory Config_Validation
  imports Config_Types
begin

text \<open>
  The three layers of configuration checks: single values (\<open>src/config/validation.rs\<close>), sections
  (\<open>src/config/validator.rs\<close>) and the values of keys (\<open>src/config/field_validator.rs\<close>).  \<open>Url::parse\<close> of
  the \<open>url\<close> crate is an argument: the scheme of a text that is a URL.  Log messages are left out.
\<close>

section \<open>Single values\<close>

definition fail_config :: "str \<Rightarrow> 'a res" where
  "fail_config m = Inl (Config m)"

definition validate_enum :: "str \<Rightarrow> str list \<Rightarrow> unit res" where
  "validate_enum v allowed =
     (if v \<in> set allowed then Inr ()
      else fail_config (''Invalid value '' @ [CHR 0x27] @ v @ [CHR 0x27] @ ''. Allowed values: '' @ join '', '' allowed))"

text \<open>\<open>validate_range\<close> for a type with the order \<open>lt\<close> and the display \<open>shown\<close>.\<close>

definition validate_range :: "('a \<Rightarrow> 'a \<Rightarrow> bool) \<Rightarrow> ('a \<Rightarrow> str) \<Rightarrow> 'a \<Rightarrow> 'a \<Rightarrow> 'a \<Rightarrow> unit res" where
  "validate_range lt shown v lo hi =
     (if lt v lo \<or> lt hi v
      then fail_config (''Value '' @ shown v @ '' is outside allowed range ['' @ shown lo @ '', '' @ shown hi @ '']'')
      else Inr ())"

abbreviation validate_nat_range :: "nat \<Rightarrow> nat \<Rightarrow> nat \<Rightarrow> unit res" where
  "validate_nat_range \<equiv> validate_range (<) show_nat"

abbreviation validate_f32_range :: "f32 \<Rightarrow> f32 \<Rightarrow> f32 \<Rightarrow> unit res" where
  "validate_f32_range \<equiv> validate_range f32_less show_f32"

definition validate_positive_number :: "('a \<Rightarrow> 'a \<Rightarrow> bool) \<Rightarrow> ('a \<Rightarrow> str) \<Rightarrow> 'a \<Rightarrow> 'a \<Rightarrow> unit res" where
  "validate_positive_number le shown zero v =
     (if le v zero then fail_config (''Value must be positive, got: '' @ shown v) else Inr ())"

text \<open>A natural number as \<open>f64\<close> is not positive exactly when it is 0, which is displayed as \<open>0\<close>.\<close>

abbreviation validate_positive_nat :: "nat \<Rightarrow> unit res" where
  "validate_positive_nat \<equiv> validate_positive_number (\<le>) show_nat 0"

text \<open>The parsing range checks.\<close>

definition validate_parsed ::
    "(str \<Rightarrow> 'a option) \<Rightarrow> ('a \<Rightarrow> 'a \<Rightarrow> bool) \<Rightarrow> ('a \<Rightarrow> str) \<Rightarrow> str \<Rightarrow> str \<Rightarrow> 'a \<Rightarrow> 'a \<Rightarrow> 'a res" where
  "validate_parsed parse lt shown kind v lo hi =
     (case parse v of
        None \<Rightarrow> fail_config (''Invalid '' @ kind @ '' value: '' @ v)
      | Some x \<Rightarrow>
          if lt x lo \<or> lt hi x
          then fail_config (''Value '' @ shown x @ '' is out of range ['' @ shown lo @ '', '' @ shown hi @ '']'')
          else Inr x)"

text \<open>\<open>str::parse\<close> of an unsigned type with \<open>b\<close> bits.\<close>

definition parse_bits :: "nat \<Rightarrow> str \<Rightarrow> nat option" where
  "parse_bits b s = (case parse_uint (2 ^ b) s of Inl _ \<Rightarrow> None | Inr n \<Rightarrow> Some n)"

definition validate_float_range :: "str \<Rightarrow> f32 \<Rightarrow> f32 \<Rightarrow> f32 res" where
  "validate_float_range = validate_parsed parse_f32 f32_less show_f32 ''float''"

definition validate_uint_range :: "str \<Rightarrow> nat \<Rightarrow> nat \<Rightarrow> nat res" where
  "validate_uint_range = validate_parsed (parse_bits 32) (<) show_nat ''integer''"

definition validate_u64_range :: "str \<Rightarrow> nat \<Rightarrow> nat \<Rightarrow> nat res" where
  "validate_u64_range = validate_parsed (parse_bits 64) (<) show_nat ''u64''"

definition validate_usize_range :: "str \<Rightarrow> nat \<Rightarrow> nat \<Rightarrow> nat res" where
  "validate_usize_range = validate_parsed (parse_bits 64) (<) show_nat ''usize''"

definition validate_api_key :: "str \<Rightarrow> unit res" where
  "validate_api_key v =
     (if v = [] then fail_config ''API key cannot be empty''
      else if length v < 10 then fail_config ''API key is too short'' else Inr ())"

definition validate_url :: "str \<Rightarrow> unit res" where
  "validate_url v =
     (if \<not> prefix ''http://'' v \<and> \<not> prefix ''https://'' v
      then fail_config (''Invalid URL format: '' @ v @ ''. Must start with http:// or https://'') else Inr ())"

text \<open>No other character lowers to a letter of these words, so lowering ASCII letters is enough.\<close>

definition parse_bool :: "str \<Rightarrow> bool res" where
  "parse_bool v =
     (if ascii_lower v \<in> set [''true'', ''1'', ''yes'', ''on'', ''enabled''] then Inr True
      else if ascii_lower v \<in> set [''false'', ''0'', ''no'', ''off'', ''disabled''] then Inr False
      else fail_config (''Invalid boolean value: '' @ v))"

type_synonym url_crate = "str \<Rightarrow> str option"

definition validate_url_format :: "url_crate \<Rightarrow> str \<Rightarrow> unit res" where
  "validate_url_format url v =
     (if trim v = [] then Inr ()
      else case url v of None \<Rightarrow> fail_config (''Invalid URL format: '' @ v) | Some _ \<Rightarrow> Inr ())"

definition validate_non_empty_string :: "str \<Rightarrow> str \<Rightarrow> unit res" where
  "validate_non_empty_string v name =
     (if trim v = [] then fail_config (name @ '' cannot be empty'') else Inr ())"

definition validate_file_path :: "(path \<Rightarrow> bool) \<Rightarrow> str \<Rightarrow> bool \<Rightarrow> unit res" where
  "validate_file_path present v must_exist =
     (if trim v = [] then fail_config ''File path cannot be empty''
      else if must_exist \<and> \<not> present (path_of v) then fail_config (''Path does not exist: '' @ v) else Inr ())"

definition validate_temperature :: "f32 \<Rightarrow> unit res" where
  "validate_temperature t =
     map_err (\<lambda>_. Config ''AI temperature must be between 0.0 and 2.0'')
       (validate_f32_range t (f32_of_rat 0) (f32_of_rat 2))"

definition validate_ai_model :: "str \<Rightarrow> unit res" where
  "validate_ai_model m =
     bind_res (validate_non_empty_string m ''AI model'') (\<lambda>_.
       if 100 < length m then fail_config ''AI model name is too long (max 100 characters)'' else Inr ())"

fun is_power_of_two :: "nat \<Rightarrow> bool" where
  "is_power_of_two n = (if n = 0 then False else n = 1 \<or> even n \<and> is_power_of_two (n div 2))"

declare is_power_of_two.simps [simp del]

definition validate_power_of_two :: "nat \<Rightarrow> unit res" where
  "validate_power_of_two v =
     (if v = 0 \<or> \<not> is_power_of_two v then fail_config (''Value '' @ show_nat v @ '' must be a power of two'')
      else Inr ())"

section \<open>Sections\<close>

definition normalize_ai_provider :: "str \<Rightarrow> str" where
  "normalize_ai_provider v =
     (let trimmed = ascii_lower (trim v) in if trimmed = ''ollama'' then ''local'' else trimmed)"

definition local_provider_hint :: str where
  "local_provider_hint =
     ''If you intended to call an OpenAI-compatible local or LAN endpoint, set `ai.provider = ''
     @ [CHR 0x22] @ ''local'' @ [CHR 0x22]
     @ ''` (or `ollama`) and configure `ai.base_url` to your endpoint.''"

definition require_https_for_hosted_provider :: "url_crate \<Rightarrow> str \<Rightarrow> str \<Rightarrow> unit res" where
  "require_https_for_hosted_provider url base name =
     (case url base of
        None \<Rightarrow> fail_config (''Invalid URL format: '' @ base)
      | Some scheme \<Rightarrow>
          if scheme \<noteq> ''https''
          then fail_config (''ai.base_url uses unsupported scheme `'' @ scheme @ ''://` for hosted provider `'' @ name
                 @ ''`; hosted providers require HTTPS. '' @ local_provider_hint)
          else Inr ())"

text \<open>Checks in sequence: the first error is the result.\<close>

fun all_checks :: "unit res list \<Rightarrow> unit res" where
  "all_checks [] = Inr ()"
| "all_checks (c # cs) = bind_res c (\<lambda>_. all_checks cs)"

definition when_check :: "bool \<Rightarrow> unit res \<Rightarrow> unit res" where
  "when_check b c = (if b then c else Inr ())"

definition check_present_key :: "(str \<Rightarrow> unit res) \<Rightarrow> AIConfig \<Rightarrow> unit res" where
  "check_present_key extra a =
     (case api_key a of
        None \<Rightarrow> Inr ()
      | Some k \<Rightarrow> when_check (k \<noteq> []) (bind_res (validate_api_key k) (\<lambda>_. extra k)))"

definition check_hosted_url :: "url_crate \<Rightarrow> str \<Rightarrow> AIConfig \<Rightarrow> unit res" where
  "check_hosted_url url name a =
     when_check (base_url a \<noteq> [])
       (bind_res (validate_url_format url (base_url a)) (\<lambda>_.
          require_https_for_hosted_provider url (base_url a) name))"

definition check_openai :: "url_crate \<Rightarrow> AIConfig \<Rightarrow> unit res" where
  "check_openai url a =
     all_checks
       [check_present_key (\<lambda>k. if prefix ''sk-'' k then Inr ()
          else fail_config (''OpenAI API key must start with '' @ [CHR 0x27] @ ''sk-'' @ [CHR 0x27])) a,
        validate_ai_model (model a), validate_temperature (temperature a), validate_positive_nat (max_tokens a),
        check_hosted_url url ''openai'' a]"

definition check_openrouter :: "url_crate \<Rightarrow> AIConfig \<Rightarrow> unit res" where
  "check_openrouter url a =
     all_checks
       [check_present_key (\<lambda>_. Inr ()) a, validate_ai_model (model a), validate_temperature (temperature a),
        validate_positive_nat (max_tokens a), check_hosted_url url ''openrouter'' a]"

definition check_anthropic :: "AIConfig \<Rightarrow> unit res" where
  "check_anthropic a =
     all_checks [check_present_key (\<lambda>_. Inr ()) a, validate_ai_model (model a), validate_temperature (temperature a)]"

definition check_azure :: "url_crate \<Rightarrow> AIConfig \<Rightarrow> unit res" where
  "check_azure url a =
     all_checks
       [check_present_key (\<lambda>_. Inr ()) a, validate_ai_model (model a), validate_temperature (temperature a),
        validate_positive_nat (max_tokens a),
        (case api_version a of
           None \<Rightarrow> Inr ()
         | Some v \<Rightarrow> if trim v = [] then fail_config ''Azure OpenAI api_version must not be empty'' else Inr ()),
        check_hosted_url url ''azure-openai'' a]"

definition check_local :: "url_crate \<Rightarrow> AIConfig \<Rightarrow> unit res" where
  "check_local url a =
     all_checks
       [check_present_key (\<lambda>_. Inr ()) a,
        if trim (base_url a) = []
        then fail_config
         (''ai.base_url is required when ai.provider is `local` (e.g. http://localhost:11434/v1 for ''
          @ ''Ollama, http://localhost:1234/v1 for LM Studio, http://localhost:8080/v1 for llama.cpp''
          @ [CHR 0x27] @ ''s llama-server)'')
        else Inr (),
        validate_url_format url (base_url a), validate_ai_model (model a), validate_temperature (temperature a),
        validate_positive_nat (max_tokens a)]"

definition check_provider :: "url_crate \<Rightarrow> AIConfig \<Rightarrow> unit res" where
  "check_provider url a =
     (let canonical = normalize_ai_provider (provider a)
      in if canonical = ''openai'' then check_openai url a
         else if canonical = ''openrouter'' then check_openrouter url a
         else if canonical = ''anthropic'' then check_anthropic a
         else if canonical = ''azure-openai'' then check_azure url a
         else if canonical = ''local'' then check_local url a
         else fail_config (''Unsupported AI provider: '' @ provider a
                @ ''. Supported providers: openai, openrouter, anthropic, azure-openai, local''))"

text \<open>
  The numbers are compared as \<open>f64\<close> in the code; rounding to \<open>f64\<close> does not move a 64-bit number
  across these bounds.
\<close>

definition validate_ai_config :: "url_crate \<Rightarrow> AIConfig \<Rightarrow> unit res" where
  "validate_ai_config url a =
     all_checks
       [validate_non_empty_string (provider a) ''AI provider'', check_provider url a,
        validate_positive_nat (retry_attempts a),
        if 10 < retry_attempts a then fail_config ''Retry count cannot exceed 10 times'' else Inr (),
        map_err (\<lambda>_. Config ''Request timeout must be between 10 and 600 seconds'')
          (validate_nat_range (request_timeout_seconds a) 10 600)]"

definition validate_vad :: "VadConfig \<Rightarrow> unit res" where
  "validate_vad v =
     all_checks
       [if \<not> (f32_le (f32_of_rat 0) (sensitivity v) \<and> f32_le (sensitivity v) (f32_of_rat 1))
        then fail_config ''VAD sensitivity must be between 0.0 and 1.0'' else Inr (),
        if 10 < padding_chunks v then fail_config ''VAD padding_chunks must not exceed 10'' else Inr (),
        if 5000 < min_speech_duration_ms v
        then fail_config ''VAD min_speech_duration_ms must not exceed 5000ms'' else Inr ()]"

definition validate_sync_config :: "SyncConfig \<Rightarrow> unit res" where
  "validate_sync_config s =
     all_checks
       [validate_enum (default_method s) [''vad'', ''auto'', ''manual''],
        validate_positive_number f32_le show_f32 (f32_of_rat 0) (max_offset_seconds s),
        if f32_less (f32_of_rat 3600) (max_offset_seconds s)
        then fail_config (''sync.max_offset_seconds should not exceed 3600 seconds (1 hour). If a larger value is ''
               @ ''needed, please verify the sync requirements are reasonable.'')
        else Inr (),
        validate_vad (vad s)]"

definition validate_general_config :: "GeneralConfig \<Rightarrow> unit res" where
  "validate_general_config g =
     all_checks
       [validate_positive_nat (max_concurrent_jobs g),
        if 64 < max_concurrent_jobs g then fail_config ''Maximum concurrent jobs should not exceed 64'' else Inr (),
        map_err (\<lambda>_. Config ''Task timeout must be between 30 and 3600 seconds'')
          (validate_nat_range (task_timeout_seconds g) 30 3600),
        map_err (\<lambda>_. Config ''Worker idle timeout must be between 10 and 3600 seconds'')
          (validate_nat_range (worker_idle_timeout_seconds g) 10 3600)]"

definition output_formats :: "str list" where
  "output_formats = [''srt'', ''ass'', ''vtt'', ''webvtt'']"

definition encodings :: "str list" where
  "encodings = [''utf-8'', ''gbk'', ''big5'', ''shift_jis'']"

definition validate_formats_config :: "FormatsConfig \<Rightarrow> unit res" where
  "validate_formats_config f =
     all_checks
       [validate_non_empty_string (default_output f) ''Default output format'',
        validate_enum (default_output f) output_formats,
        validate_non_empty_string (default_encoding f) ''Default encoding'',
        validate_enum (default_encoding f) encodings,
        map_err (\<lambda>_. Config ''Encoding detection confidence must be between 0.0 and 1.0'')
          (validate_f32_range (encoding_detection_confidence f) (f32_of_rat 0) (f32_of_rat 1))]"

definition validate_parallel_config :: "Cfg_ParallelConfig \<Rightarrow> unit res" where
  "validate_parallel_config p =
     all_checks
       [validate_positive_nat (cfg_max_workers p),
        if 64 < cfg_max_workers p then fail_config ''Maximum workers should not exceed 64'' else Inr (),
        validate_positive_nat (task_queue_size p),
        if task_queue_size p < 100 then fail_config ''Task queue size should be at least 100'' else Inr ()]"

definition validate_translation_config :: "TranslationConfig \<Rightarrow> unit res" where
  "validate_translation_config t =
     all_checks
       [if cfg_batch_size t = 0 then fail_config ''translation.batch_size must be greater than zero'' else Inr (),
        if 1000 < cfg_batch_size t then fail_config ''translation.batch_size should not exceed 1000'' else Inr (),
        (case default_target_language t of
           None \<Rightarrow> Inr ()
         | Some l \<Rightarrow> if trim l = [] then fail_config ''translation.default_target_language must not be empty''
                    else Inr ())]"

definition validate_config_consistency :: "Config \<Rightarrow> unit res" where
  "validate_config_consistency c =
     (if provider (ai c) = ''openai'' \<and> api_key (ai c) = Some []
      then fail_config ''OpenAI provider is selected but API key is empty'' else Inr ())"

definition validate_config :: "url_crate \<Rightarrow> Config \<Rightarrow> unit res" where
  "validate_config url c =
     all_checks
       [validate_ai_config url (ai c), validate_sync_config (sync c), validate_general_config (general c),
        validate_formats_config (formats c), validate_parallel_config (parallel c),
        validate_translation_config (translation c), validate_config_consistency c]"

section \<open>The values of keys\<close>

text \<open>The arms of \<open>validate_field\<close> that parse a number and check its range.\<close>

definition check_uint :: "nat \<Rightarrow> str \<Rightarrow> nat \<Rightarrow> nat \<Rightarrow> str \<Rightarrow> unit res" where
  "check_uint b message lo hi v =
     (case parse_bits b v of None \<Rightarrow> fail_config message | Some n \<Rightarrow> validate_nat_range n lo hi)"

definition check_f32 :: "str \<Rightarrow> (f32 \<Rightarrow> unit res) \<Rightarrow> str \<Rightarrow> unit res" where
  "check_f32 message check v = (case parse_f32 v of None \<Rightarrow> fail_config message | Some x \<Rightarrow> check x)"

definition check_bool :: "str \<Rightarrow> unit res" where
  "check_bool v = bind_res (parse_bool v) (\<lambda>_. Inr ())"

definition ai_checks :: "url_crate \<Rightarrow> (str \<times> (str \<Rightarrow> unit res)) list" where
  "ai_checks url =
     [(''ai.provider'', \<lambda>v. bind_res (validate_non_empty_string v ''AI provider'') (\<lambda>_.
        validate_enum v [''openai'', ''anthropic'', ''local'', ''ollama'', ''openrouter'', ''azure-openai''])),
      (''ai.model'', validate_ai_model),
      (''ai.api_key'', \<lambda>v. when_check (v \<noteq> []) (validate_api_key v)),
      (''ai.base_url'', validate_url_format url),
      (''ai.temperature'', check_f32 ''Temperature must be a number'' validate_temperature),
      (''ai.max_tokens'', \<lambda>v. case parse_bits 32 v of
         None \<Rightarrow> fail_config ''Max tokens must be a positive integer'' | Some n \<Rightarrow> validate_positive_nat n),
      (''ai.max_sample_length'', check_uint 64 ''Max sample length must be a positive integer'' 100 10000),
      (''ai.retry_attempts'', check_uint 32 ''Retry attempts must be a positive integer'' 1 10),
      (''ai.retry_delay_ms'', check_uint 64 ''Retry delay must be a positive integer'' 100 30000),
      (''ai.request_timeout_seconds'', check_uint 64 ''Request timeout must be a positive integer'' 10 600),
      (''ai.api_version'', \<lambda>v. validate_non_empty_string v ''Azure OpenAI API version'')]"

definition sync_checks :: "(str \<times> (str \<Rightarrow> unit res)) list" where
  "sync_checks =
     [(''sync.default_method'', \<lambda>v. validate_enum v [''auto'', ''vad'', ''manual'']),
      (''sync.max_offset_seconds'', check_f32 ''Max offset must be a number''
         (\<lambda>x. validate_f32_range x (f32_of_rat (1 / 10)) (f32_of_rat 3600))),
      (''sync.vad.enabled'', check_bool),
      (''sync.vad.sensitivity'', check_f32 ''VAD sensitivity must be a number''
         (\<lambda>x. validate_f32_range x (f32_of_rat 0) (f32_of_rat 1))),
      (''sync.vad.padding_chunks'', check_uint 32 ''Padding chunks must be a non-negative integer'' 0 10),
      (''sync.vad.min_speech_duration_ms'', \<lambda>v. case parse_bits 32 v of
         None \<Rightarrow> fail_config ''Min speech duration must be a non-negative integer'' | Some _ \<Rightarrow> Inr ())]"

definition formats_checks :: "(str \<times> (str \<Rightarrow> unit res)) list" where
  "formats_checks =
     [(''formats.default_output'', \<lambda>v. validate_enum v output_formats),
      (''formats.preserve_styling'', check_bool),
      (''formats.default_encoding'', \<lambda>v. validate_enum v encodings),
      (''formats.encoding_detection_confidence'', check_f32 ''Encoding detection confidence must be a number''
         (\<lambda>x. validate_f32_range x (f32_of_rat 0) (f32_of_rat 1)))]"

definition general_checks :: "(str \<times> (str \<Rightarrow> unit res)) list" where
  "general_checks =
     [(''general.backup_enabled'', check_bool),
      (''general.max_concurrent_jobs'', check_uint 64 ''Max concurrent jobs must be a positive integer'' 1 64),
      (''general.task_timeout_seconds'', check_uint 64 ''Task timeout must be a positive integer'' 30 3600),
      (''general.enable_progress_bar'', check_bool),
      (''general.worker_idle_timeout_seconds'',
         check_uint 64 ''Worker idle timeout must be a positive integer'' 10 3600),
      (''general.max_subtitle_bytes'', check_uint 64 ''max_subtitle_bytes must be a positive integer'' 1024 1073741824),
      (''general.max_audio_bytes'', check_uint 64 ''max_audio_bytes must be a positive integer'' 1024 10737418240)]"

definition parallel_checks :: "(str \<times> (str \<Rightarrow> unit res)) list" where
  "parallel_checks =
     [(''parallel.max_workers'', check_uint 64 ''Max workers must be a positive integer'' 1 64),
      (''parallel.task_queue_size'', check_uint 64 ''Task queue size must be a positive integer'' 100 10000),
      (''parallel.enable_task_priorities'', check_bool),
      (''parallel.auto_balance_workers'', check_bool),
      (''parallel.overflow_strategy'', \<lambda>v. validate_enum v [''Block'', ''Drop'', ''Expand''])]"

definition translation_checks :: "(str \<times> (str \<Rightarrow> unit res)) list" where
  "translation_checks =
     [(''translation.batch_size'', check_uint 64 ''Translation batch size must be a positive integer'' 1 1000),
      (''translation.default_target_language'', \<lambda>v.
         when_check (v \<noteq> []) (validate_non_empty_string v ''translation.default_target_language''))]"

definition field_checks :: "url_crate \<Rightarrow> (str \<times> (str \<Rightarrow> unit res)) list" where
  "field_checks url =
     ai_checks url @ sync_checks @ formats_checks @ general_checks @ parallel_checks @ translation_checks"

definition unknown_key :: "str \<Rightarrow> 'a res" where
  "unknown_key key = fail_config (''Unknown configuration key: '' @ key)"

text \<open>The match on the key: the arms are the entries of a list.\<close>

definition validate_field :: "url_crate \<Rightarrow> str \<Rightarrow> str \<Rightarrow> unit res" where
  "validate_field url key v =
     (case map_of (field_checks url) key of None \<Rightarrow> unknown_key key | Some check \<Rightarrow> check v)"

text \<open>The keys and texts that \<open>validate_all_fields\<close> checks, in its order; a missing text is not checked.\<close>

definition field_texts :: "(str \<times> (Config \<Rightarrow> str option)) list" where
  "field_texts =
     [(''ai.provider'', \<lambda>c. Some (provider (ai c))),
      (''ai.model'', \<lambda>c. Some (model (ai c))),
      (''ai.api_key'', \<lambda>c. api_key (ai c)),
      (''ai.base_url'', \<lambda>c. Some (base_url (ai c))),
      (''ai.temperature'', \<lambda>c. Some (show_f32 (temperature (ai c)))),
      (''ai.max_tokens'', \<lambda>c. Some (show_nat (max_tokens (ai c)))),
      (''ai.max_sample_length'', \<lambda>c. Some (show_nat (max_sample_length (ai c)))),
      (''ai.retry_attempts'', \<lambda>c. Some (show_nat (retry_attempts (ai c)))),
      (''ai.retry_delay_ms'', \<lambda>c. Some (show_nat (retry_delay_ms (ai c)))),
      (''ai.request_timeout_seconds'', \<lambda>c. Some (show_nat (request_timeout_seconds (ai c)))),
      (''ai.api_version'', \<lambda>c. api_version (ai c)),
      (''sync.default_method'', \<lambda>c. Some (default_method (sync c))),
      (''sync.max_offset_seconds'', \<lambda>c. Some (show_f32 (max_offset_seconds (sync c)))),
      (''sync.vad.enabled'', \<lambda>c. Some (show_bool (enabled (vad (sync c))))),
      (''sync.vad.sensitivity'', \<lambda>c. Some (show_f32 (sensitivity (vad (sync c))))),
      (''sync.vad.padding_chunks'', \<lambda>c. Some (show_nat (padding_chunks (vad (sync c))))),
      (''sync.vad.min_speech_duration_ms'', \<lambda>c. Some (show_nat (min_speech_duration_ms (vad (sync c))))),
      (''formats.default_output'', \<lambda>c. Some (default_output (formats c))),
      (''formats.preserve_styling'', \<lambda>c. Some (show_bool (preserve_styling (formats c)))),
      (''formats.default_encoding'', \<lambda>c. Some (default_encoding (formats c))),
      (''formats.encoding_detection_confidence'', \<lambda>c. Some (show_f32 (encoding_detection_confidence (formats c)))),
      (''general.backup_enabled'', \<lambda>c. Some (show_bool (cfg_backup_enabled (general c)))),
      (''general.max_concurrent_jobs'', \<lambda>c. Some (show_nat (max_concurrent_jobs (general c)))),
      (''general.task_timeout_seconds'', \<lambda>c. Some (show_nat (task_timeout_seconds (general c)))),
      (''general.enable_progress_bar'', \<lambda>c. Some (show_bool (enable_progress_bar (general c)))),
      (''general.worker_idle_timeout_seconds'', \<lambda>c. Some (show_nat (worker_idle_timeout_seconds (general c)))),
      (''general.max_subtitle_bytes'', \<lambda>c. Some (show_nat (max_subtitle_bytes (general c)))),
      (''general.max_audio_bytes'', \<lambda>c. Some (show_nat (max_audio_bytes (general c)))),
      (''parallel.max_workers'', \<lambda>c. Some (show_nat (cfg_max_workers (parallel c)))),
      (''parallel.task_queue_size'', \<lambda>c. Some (show_nat (task_queue_size (parallel c)))),
      (''parallel.enable_task_priorities'', \<lambda>c. Some (show_bool (cfg_task_priorities (parallel c)))),
      (''parallel.auto_balance_workers'', \<lambda>c. Some (show_bool (cfg_auto_balance (parallel c)))),
      (''parallel.overflow_strategy'', \<lambda>c. Some (overflow_debug (overflow_strategy (parallel c)))),
      (''translation.batch_size'', \<lambda>c. Some (show_nat (cfg_batch_size (translation c)))),
      (''translation.default_target_language'', \<lambda>c. default_target_language (translation c))]"

definition all_fields :: "Config \<Rightarrow> (str \<times> str) list" where
  "all_fields c = List.map_filter (\<lambda>(k, f). map_option (\<lambda>t. (k, t)) (f c)) field_texts"

definition validate_all_fields :: "url_crate \<Rightarrow> Config \<Rightarrow> unit res" where
  "validate_all_fields url c = all_checks (map (\<lambda>(k, v). validate_field url k v) (all_fields c))"

definition field_descriptions :: "(str \<times> str) list" where
  "field_descriptions =
     [(''ai.provider'', ''AI service provider ('' @ [CHR 0x27] @ ''openai'' @ [CHR 0x27] @ '', '' @ [CHR 0x27]
         @ ''openrouter'' @ [CHR 0x27] @ '', '' @ [CHR 0x27] @ ''azure-openai'' @ [CHR 0x27] @ '', or ''
         @ [CHR 0x27] @ ''local'' @ [CHR 0x27] @ ''; '' @ [CHR 0x27] @ ''ollama'' @ [CHR 0x27]
         @ '' is accepted as an alias for '' @ [CHR 0x27] @ ''local'' @ [CHR 0x27] @ '')''),
      (''ai.model'', ''AI model name (e.g., '' @ [CHR 0x27] @ ''gpt-4.1-mini'' @ [CHR 0x27] @ '')''),
      (''ai.api_key'', ''API key for the AI service''),
      (''ai.base_url'', ''Custom API endpoint URL (optional)''),
      (''ai.temperature'', ''AI response randomness (0.0-2.0)''),
      (''ai.max_tokens'', ''Maximum tokens in AI response''),
      (''ai.max_sample_length'', ''Maximum sample length for AI processing''),
      (''ai.retry_attempts'', ''Number of retry attempts for AI requests''),
      (''ai.retry_delay_ms'', ''Delay between retry attempts in milliseconds''),
      (''ai.request_timeout_seconds'', ''Request timeout in seconds''),
      (''ai.api_version'', ''Azure OpenAI API version (optional, defaults to latest)''),
      (''sync.default_method'', ''Synchronization method ('' @ [CHR 0x27] @ ''auto'' @ [CHR 0x27] @ '', '' @ [CHR 0x27] @ ''vad''
         @ [CHR 0x27] @ '', or '' @ [CHR 0x27] @ ''manual'' @ [CHR 0x27] @ '')''),
      (''sync.max_offset_seconds'', ''Maximum allowed time offset in seconds''),
      (''sync.vad.enabled'', ''Enable voice activity detection''),
      (''sync.vad.sensitivity'', ''Voice activity detection threshold (0.0-1.0)''),
      (''sync.vad.chunk_size'', ''VAD processing chunk size (must be power of 2)''),
      (''sync.vad.sample_rate'', ''Audio sample rate for VAD processing''),
      (''sync.vad.padding_chunks'', ''Number of padding chunks for VAD''),
      (''sync.vad.min_speech_duration_ms'', ''Minimum speech duration in milliseconds''),
      (''formats.default_output'', ''Default output format for subtitles''),
      (''formats.preserve_styling'', ''Preserve subtitle styling information''),
      (''formats.default_encoding'', ''Default character encoding''),
      (''formats.encoding_detection_confidence'', ''Confidence threshold for encoding detection''),
      (''general.backup_enabled'', ''Enable automatic backup creation''),
      (''general.max_concurrent_jobs'', ''Maximum number of concurrent jobs''),
      (''general.task_timeout_seconds'', ''Task timeout in seconds''),
      (''general.enable_progress_bar'', ''Enable progress bar display''),
      (''general.worker_idle_timeout_seconds'', ''Worker idle timeout in seconds''),
      (''general.max_subtitle_bytes'', ''Maximum subtitle file size in bytes''),
      (''general.max_audio_bytes'', ''Maximum audio file size in bytes''),
      (''parallel.max_workers'', ''Maximum number of worker threads''),
      (''parallel.task_queue_size'', ''Size of the task queue''),
      (''parallel.enable_task_priorities'', ''Enable task priority system''),
      (''parallel.auto_balance_workers'', ''Enable automatic worker load balancing''),
      (''parallel.overflow_strategy'', ''Strategy for handling queue overflow''),
      (''translation.batch_size'', ''Maximum subtitle cues per AI translation request (1-1000)''),
      (''translation.default_target_language'', ''Default target language used when --target-language is omitted'')]"

definition get_field_description :: "str \<Rightarrow> str" where
  "get_field_description key =
     (case map_of field_descriptions key of Some d \<Rightarrow> d | None \<Rightarrow> ''Configuration field'')"

end
