(* ===== verification/Config_Service.thy ===== *)
theory Config_Service
  imports Config_Validation File_Tasks
begin

text \<open>
  The production configuration service (\<open>src/config/service.rs\<close>): loading from the sources and the
  environment, reading and setting keys, saving, repair and reset.  The \<open>config\<close> and \<open>toml\<close> crates, the
  platform's configuration directory and the environment are fields of the record \<open>config_env\<close>.
  Files are written as on Unix; permission bits are not modelled, only that setting them can fail.
\<close>

section \<open>The service\<close>

text \<open>
  \<open>ce_build\<close> is the result of building the sources: an error, or the configuration when it
  deserializes as a whole, and the strings of its section \<open>ai\<close>.
\<close>

record config_env =
  ce_os :: os
  ce_var :: "str \<Rightarrow> str option"
  ce_dir :: "path option"
  ce_cpus :: nat
  ce_url :: url_crate
  ce_to_toml :: "Config \<Rightarrow> str + str"
  ce_of_toml :: "str \<Rightarrow> str + Config"
  ce_build :: "files \<Rightarrow> str + (Config option \<times> (str \<Rightarrow> str option))"
  ce_dir_exists :: "path \<Rightarrow> bool"

record service =
  cached_config :: "Config option"
  disk :: files

definition get_config_file_path :: "config_env \<Rightarrow> path res" where
  "get_config_file_path env =
     (case ce_var env ''SUBX_CONFIG_PATH'' of
        Some p \<Rightarrow> Inr (path_of p)
      | None \<Rightarrow>
          (case ce_dir env of
             None \<Rightarrow> fail_config ''Unable to determine config directory''
           | Some d \<Rightarrow> Inr (join_name (join_name d ''subx'') ''config.toml'')))"

section \<open>Loading\<close>

definition override :: "'v option \<Rightarrow> ('v \<Rightarrow> AIConfig \<Rightarrow> AIConfig) \<Rightarrow> AIConfig \<Rightarrow> AIConfig" where
  "override v f a = (case v of None \<Rightarrow> a | Some x \<Rightarrow> f x a)"

abbreviation set_provider :: "str \<Rightarrow> AIConfig \<Rightarrow> AIConfig" where
  "set_provider v \<equiv> provider_update (\<lambda>_. v)"

abbreviation set_api_key :: "str \<Rightarrow> AIConfig \<Rightarrow> AIConfig" where
  "set_api_key v \<equiv> api_key_update (\<lambda>_. Some v)"

abbreviation set_base_url :: "str \<Rightarrow> AIConfig \<Rightarrow> AIConfig" where
  "set_base_url v \<equiv> base_url_update (\<lambda>_. v)"

abbreviation set_model :: "str \<Rightarrow> AIConfig \<Rightarrow> AIConfig" where
  "set_model v \<equiv> model_update (\<lambda>_. v)"

definition partial_load :: "(str \<Rightarrow> str option) \<Rightarrow> AIConfig \<Rightarrow> AIConfig" where
  "partial_load strings a =
     override (strings ''base_url'') set_base_url
       (override (strings ''model'') set_model
         (override (strings ''provider'') set_provider
           (override (strings ''apikey'') set_api_key a)))"

definition subx_vars :: "(str \<Rightarrow> str option) \<Rightarrow> AIConfig \<Rightarrow> AIConfig" where
  "subx_vars var a =
     override (var ''SUBX_AI_MODEL'') set_model
       (override (var ''SUBX_AI_BASE_URL'') set_base_url
         (override (var ''SUBX_AI_APIKEY'') set_api_key
           (override (var ''SUBX_AI_PROVIDER'') set_provider a)))"

definition normalize_provider :: "AIConfig \<Rightarrow> AIConfig" where
  "normalize_provider a = provider_update normalize_ai_provider a"

definition local_vars :: "(str \<Rightarrow> str option) \<Rightarrow> AIConfig \<Rightarrow> AIConfig" where
  "local_vars var a =
     (let a1 = (if var ''SUBX_AI_BASE_URL'' = None then override (var ''LOCAL_LLM_BASE_URL'') set_base_url a else a)
      in if var ''SUBX_AI_APIKEY'' = None then override (var ''LOCAL_LLM_API_KEY'') set_api_key a1 else a1)"

definition hosted_vars :: "(str \<Rightarrow> str option) \<Rightarrow> AIConfig \<Rightarrow> AIConfig" where
  "hosted_vars var a =
     (let a1 = override (var ''OPENROUTER_API_KEY'') (\<lambda>k. set_api_key k \<circ> set_provider ''openrouter'') a;
          a2 = (if api_key a1 = None then override (var ''OPENAI_API_KEY'') set_api_key a1 else a1);
          a3 = override (var ''OPENAI_BASE_URL'') set_base_url a2;
          a4 = override (var ''AZURE_OPENAI_API_KEY'') (\<lambda>k. set_api_key k \<circ> set_provider ''azure-openai'') a3;
          a5 = override (var ''AZURE_OPENAI_ENDPOINT'') set_base_url a4;
          a6 = override (var ''AZURE_OPENAI_API_VERSION'') (\<lambda>v. api_version_update (\<lambda>_. Some v)) a5;
          a7 = override (var ''AZURE_OPENAI_DEPLOYMENT_ID'') set_model a6
      in normalize_provider a7)"

definition apply_environment :: "(str \<Rightarrow> str option) \<Rightarrow> AIConfig \<Rightarrow> AIConfig" where
  "apply_environment var a =
     (let a1 = normalize_provider (subx_vars var a)
      in if provider a1 = ''local'' then local_vars var a1 else hosted_vars var a1)"

definition load_and_validate :: "config_env \<Rightarrow> files \<Rightarrow> Config res" where
  "load_and_validate env fs =
     (case ce_build env fs of
        Inl e \<Rightarrow> fail_config (''Failed to build configuration: '' @ e)
      | Inr (whole, strings) \<Rightarrow>
          (let c = (case whole of
                      Some c \<Rightarrow> c
                    | None \<Rightarrow> ai_update (partial_load strings) (config_default (ce_cpus env)));
               c1 = ai_update (apply_environment (ce_var env)) c
           in bind_res (get_config_file_path env) (\<lambda>_.
                bind_res (map_err (\<lambda>e. Config (''Configuration validation failed: '' @ error_display e))
                    (validate_config (ce_url env) c1)) (\<lambda>_. Inr c1))))"

section \<open>Setting and reading a key\<close>

definition unwrap_panic :: str where
  "unwrap_panic = ''called `Result::unwrap()` on an `Err` value''"

definition set_num :: "nat \<Rightarrow> (nat \<Rightarrow> Config \<Rightarrow> Config) \<Rightarrow> str \<Rightarrow> Config \<Rightarrow> Config res run" where
  "set_num b f v c = (case parse_bits b v of None \<Rightarrow> Panics unwrap_panic | Some n \<Rightarrow> Returns (Inr (f n c)))"

definition set_f32 :: "(f32 \<Rightarrow> Config \<Rightarrow> Config) \<Rightarrow> str \<Rightarrow> Config \<Rightarrow> Config res run" where
  "set_f32 f v c = (case parse_f32 v of None \<Rightarrow> Panics unwrap_panic | Some x \<Rightarrow> Returns (Inr (f x c)))"

definition set_bool :: "(bool \<Rightarrow> Config \<Rightarrow> Config) \<Rightarrow> str \<Rightarrow> Config \<Rightarrow> Config res run" where
  "set_bool f v c = Returns (bind_res (parse_bool v) (\<lambda>b. Inr (f b c)))"

definition set_text :: "(str \<Rightarrow> Config \<Rightarrow> Config) \<Rightarrow> str \<Rightarrow> Config \<Rightarrow> Config res run" where
  "set_text f v c = Returns (Inr (f v c))"

definition non_empty :: "str \<Rightarrow> str option" where
  "non_empty v = (if v = [] then None else Some v)"

definition set_overflow :: "str \<Rightarrow> Config \<Rightarrow> Config res run" where
  "set_overflow v c =
     (if v = ''Block'' then Returns (Inr (parallel_update (overflow_strategy_update (\<lambda>_. Block)) c))
      else if v = ''Drop'' then Returns (Inr (parallel_update (overflow_strategy_update (\<lambda>_. Drop)) c))
      else if v = ''Expand'' then Returns (Inr (parallel_update (overflow_strategy_update (\<lambda>_. Expand)) c))
      else Panics ''internal error: entered unreachable code'')"

type_synonym key_setters = "(str \<times> (str \<Rightarrow> Config \<Rightarrow> Config res run)) list"

definition ai_setters :: key_setters where
  "ai_setters =
     [(''ai.provider'', set_text (\<lambda>v. ai_update (provider_update (\<lambda>_. normalize_ai_provider v)))),
      (''ai.api_key'', set_text (\<lambda>v. ai_update (api_key_update (\<lambda>_. non_empty v)))),
      (''ai.model'', set_text (\<lambda>v. ai_update (model_update (\<lambda>_. v)))),
      (''ai.base_url'', set_text (\<lambda>v. ai_update (base_url_update (\<lambda>_. v)))),
      (''ai.max_sample_length'', set_num 64 (\<lambda>n. ai_update (max_sample_length_update (\<lambda>_. n)))),
      (''ai.temperature'', set_f32 (\<lambda>x. ai_update (temperature_update (\<lambda>_. x)))),
      (''ai.max_tokens'', set_num 32 (\<lambda>n. ai_update (max_tokens_update (\<lambda>_. n)))),
      (''ai.retry_attempts'', set_num 32 (\<lambda>n. ai_update (retry_attempts_update (\<lambda>_. n)))),
      (''ai.retry_delay_ms'', set_num 64 (\<lambda>n. ai_update (retry_delay_ms_update (\<lambda>_. n)))),
      (''ai.request_timeout_seconds'', set_num 64 (\<lambda>n. ai_update (request_timeout_seconds_update (\<lambda>_. n)))),
      (''ai.api_version'', set_text (\<lambda>v. ai_update (api_version_update (\<lambda>_. non_empty v))))]"

definition formats_setters :: key_setters where
  "formats_setters =
     [(''formats.default_output'', set_text (\<lambda>v. formats_update (default_output_update (\<lambda>_. v)))),
      (''formats.preserve_styling'', set_bool (\<lambda>b. formats_update (preserve_styling_update (\<lambda>_. b)))),
      (''formats.default_encoding'', set_text (\<lambda>v. formats_update (default_encoding_update (\<lambda>_. v)))),
      (''formats.encoding_detection_confidence'',
         set_f32 (\<lambda>x. formats_update (encoding_detection_confidence_update (\<lambda>_. x))))]"

definition sync_setters :: key_setters where
  "sync_setters =
     [(''sync.max_offset_seconds'', set_f32 (\<lambda>x. sync_update (max_offset_seconds_update (\<lambda>_. x)))),
      (''sync.default_method'', set_text (\<lambda>v. sync_update (default_method_update (\<lambda>_. v)))),
      (''sync.vad.enabled'', set_bool (\<lambda>b. sync_update (vad_update (enabled_update (\<lambda>_. b))))),
      (''sync.vad.sensitivity'', set_f32 (\<lambda>x. sync_update (vad_update (sensitivity_update (\<lambda>_. x))))),
      (''sync.vad.padding_chunks'', set_num 32 (\<lambda>n. sync_update (vad_update (padding_chunks_update (\<lambda>_. n))))),
      (''sync.vad.min_speech_duration_ms'',
         set_num 32 (\<lambda>n. sync_update (vad_update (min_speech_duration_ms_update (\<lambda>_. n)))))]"

definition general_setters :: key_setters where
  "general_setters =
     [(''general.backup_enabled'', set_bool (\<lambda>b. general_update (cfg_backup_enabled_update (\<lambda>_. b)))),
      (''general.max_concurrent_jobs'', set_num 64 (\<lambda>n. general_update (max_concurrent_jobs_update (\<lambda>_. n)))),
      (''general.task_timeout_seconds'', set_num 64 (\<lambda>n. general_update (task_timeout_seconds_update (\<lambda>_. n)))),
      (''general.enable_progress_bar'', set_bool (\<lambda>b. general_update (enable_progress_bar_update (\<lambda>_. b)))),
      (''general.worker_idle_timeout_seconds'',
         set_num 64 (\<lambda>n. general_update (worker_idle_timeout_seconds_update (\<lambda>_. n)))),
      (''general.max_subtitle_bytes'', set_num 64 (\<lambda>n. general_update (max_subtitle_bytes_update (\<lambda>_. n)))),
      (''general.max_audio_bytes'', set_num 64 (\<lambda>n. general_update (max_audio_bytes_update (\<lambda>_. n))))]"

definition parallel_setters :: key_setters where
  "parallel_setters =
     [(''parallel.max_workers'', set_num 64 (\<lambda>n. parallel_update (cfg_max_workers_update (\<lambda>_. n)))),
      (''parallel.task_queue_size'', set_num 64 (\<lambda>n. parallel_update (task_queue_size_update (\<lambda>_. n)))),
      (''parallel.enable_task_priorities'', set_bool (\<lambda>b. parallel_update (cfg_task_priorities_update (\<lambda>_. b)))),
      (''parallel.auto_balance_workers'', set_bool (\<lambda>b. parallel_update (cfg_auto_balance_update (\<lambda>_. b)))),
      (''parallel.overflow_strategy'', set_overflow)]"

definition translation_setters :: key_setters where
  "translation_setters =
     [(''translation.batch_size'', set_num 64 (\<lambda>n. translation_update (cfg_batch_size_update (\<lambda>_. n)))),
      (''translation.default_target_language'',
         set_text (\<lambda>v. translation_update (default_target_language_update (\<lambda>_. non_empty v))))]"

definition setters :: key_setters where
  "setters = ai_setters @ formats_setters @ sync_setters @ general_setters @ parallel_setters @ translation_setters"

text \<open>
  The match on the parts of the key between its dots: a key has the parts of an arm exactly when it is
  the arm's text.
\<close>

definition set_value_internal :: "str \<Rightarrow> str \<Rightarrow> Config \<Rightarrow> Config res run" where
  "set_value_internal key v c =
     (case map_of setters key of None \<Rightarrow> Returns (unknown_key key) | Some f \<Rightarrow> f v c)"

definition validate_and_set_value :: "url_crate \<Rightarrow> str \<Rightarrow> str \<Rightarrow> Config \<Rightarrow> Config res run" where
  "validate_and_set_value url key v c =
     (let v' = (if key = ''ai.provider'' then normalize_ai_provider v else v)
      in case validate_field url key v' of
           Inl e \<Rightarrow> Returns (Inl e)
         | Inr _ \<Rightarrow>
             (case set_value_internal key v' c of
                Panics m \<Rightarrow> Panics m
              | Returns (Inl e) \<Rightarrow> Returns (Inl e)
              | Returns (Inr c') \<Rightarrow> Returns (bind_res (validate_config url c') (\<lambda>_. Inr c'))))"

definition readers :: "(str \<times> (Config \<Rightarrow> str)) list" where
  "readers =
     [(''ai.provider'', \<lambda>c. provider (ai c)), (''ai.model'', \<lambda>c. model (ai c)),
      (''ai.api_key'', \<lambda>c. case api_key (ai c) of None \<Rightarrow> [] | Some k \<Rightarrow> k),
      (''ai.base_url'', \<lambda>c. base_url (ai c)),
      (''ai.max_sample_length'', \<lambda>c. show_nat (max_sample_length (ai c))),
      (''ai.temperature'', \<lambda>c. show_f32 (temperature (ai c))),
      (''ai.max_tokens'', \<lambda>c. show_nat (max_tokens (ai c))),
      (''ai.retry_attempts'', \<lambda>c. show_nat (retry_attempts (ai c))),
      (''ai.retry_delay_ms'', \<lambda>c. show_nat (retry_delay_ms (ai c))),
      (''ai.request_timeout_seconds'', \<lambda>c. show_nat (request_timeout_seconds (ai c))),
      (''formats.default_output'', \<lambda>c. default_output (formats c)),
      (''formats.default_encoding'', \<lambda>c. default_encoding (formats c)),
      (''formats.preserve_styling'', \<lambda>c. show_bool (preserve_styling (formats c))),
      (''formats.encoding_detection_confidence'', \<lambda>c. show_f32 (encoding_detection_confidence (formats c))),
      (''sync.default_method'', \<lambda>c. default_method (sync c)),
      (''sync.max_offset_seconds'', \<lambda>c. show_f32 (max_offset_seconds (sync c))),
      (''sync.vad.enabled'', \<lambda>c. show_bool (enabled (vad (sync c)))),
      (''sync.vad.sensitivity'', \<lambda>c. show_f32 (sensitivity (vad (sync c)))),
      (''sync.vad.padding_chunks'', \<lambda>c. show_nat (padding_chunks (vad (sync c)))),
      (''sync.vad.min_speech_duration_ms'', \<lambda>c. show_nat (min_speech_duration_ms (vad (sync c)))),
      (''general.backup_enabled'', \<lambda>c. show_bool (cfg_backup_enabled (general c))),
      (''general.max_concurrent_jobs'', \<lambda>c. show_nat (max_concurrent_jobs (general c))),
      (''general.task_timeout_seconds'', \<lambda>c. show_nat (task_timeout_seconds (general c))),
      (''general.enable_progress_bar'', \<lambda>c. show_bool (enable_progress_bar (general c))),
      (''general.worker_idle_timeout_seconds'', \<lambda>c. show_nat (worker_idle_timeout_seconds (general c))),
      (''general.max_subtitle_bytes'', \<lambda>c. show_nat (max_subtitle_bytes (general c))),
      (''general.max_audio_bytes'', \<lambda>c. show_nat (max_audio_bytes (general c))),
      (''parallel.max_workers'', \<lambda>c. show_nat (cfg_max_workers (parallel c))),
      (''parallel.task_queue_size'', \<lambda>c. show_nat (task_queue_size (parallel c))),
      (''parallel.enable_task_priorities'', \<lambda>c. show_bool (cfg_task_priorities (parallel c))),
      (''parallel.auto_balance_workers'', \<lambda>c. show_bool (cfg_auto_balance (parallel c))),
      (''parallel.overflow_strategy'', \<lambda>c. overflow_debug (overflow_strategy (parallel c))),
      (''translation.batch_size'', \<lambda>c. show_nat (cfg_batch_size (translation c))),
      (''translation.default_target_language'',
         \<lambda>c. case default_target_language (translation c) of None \<Rightarrow> [] | Some l \<Rightarrow> l)]"

definition read_config_value_from :: "Config \<Rightarrow> str \<Rightarrow> str res" where
  "read_config_value_from c key = (case map_of readers key of None \<Rightarrow> unknown_key key | Some f \<Rightarrow> Inr (f c))"

section \<open>Files\<close>

definition set_permissions :: "os \<Rightarrow> path \<Rightarrow> (io_error, unit) io" where
  "set_permissions os p = sys os (CallSetPermissions p) (return_io ())"

definition make_parent :: "config_env \<Rightarrow> path \<Rightarrow> (io_error, unit) io" where
  "make_parent env p =
     (case parent p of
        None \<Rightarrow> return_io ()
      | Some d \<Rightarrow>
          if (absolute d \<or> comps d \<noteq> []) \<and> \<not> ce_dir_exists env d
          then bind_io (create_dir_all (ce_os env) d) (\<lambda>_. set_permissions (ce_os env) d)
          else return_io ())"

definition secure_write_config_file :: "config_env \<Rightarrow> path \<Rightarrow> str \<Rightarrow> (io_error, unit) io" where
  "secure_write_config_file env p content =
     bind_io (make_parent env p) (\<lambda>_.
     bind_io (create_file (ce_os env) p) (\<lambda>_.
     bind_io (write_all (ce_os env) p content) (\<lambda>_. set_permissions (ce_os env) p)))"

definition save_with_config :: "config_env \<Rightarrow> path \<Rightarrow> Config \<Rightarrow> (SubXError, unit) io" where
  "save_with_config env p c =
     (case ce_to_toml env c of
        Inl e \<Rightarrow> fail_io (Config (''TOML serialization error: '' @ e))
      | Inr content \<Rightarrow>
          map_err_io (\<lambda>e. Config (''Failed to write config file: '' @ io_text e))
            (secure_write_config_file env p content))"

definition load_for_repair :: "config_env \<Rightarrow> files \<Rightarrow> Config res" where
  "load_for_repair env fs =
     bind_res (get_config_file_path env) (\<lambda>p.
       if fs p = None then Inr (config_default (ce_cpus env))
       else
         (case fst (read_to_string (ce_os env) p fs) of
            Inl e \<Rightarrow> fail_config (''Failed to read configuration file '' @ path_display p @ '': '' @ io_text e)
          | Inr content \<Rightarrow>
              (case ce_of_toml env content of
                 Inl e \<Rightarrow> fail_config (''Failed to parse configuration file '' @ path_display p @ '': '' @ e)
               | Inr c \<Rightarrow>
                   (let c1 = ai_update normalize_provider c
                    in bind_res (validate_all_fields (ce_url env) c1) (\<lambda>_. Inr c1)))))"

section \<open>The operations of the service\<close>

definition get_config :: "config_env \<Rightarrow> service \<Rightarrow> Config res \<times> service" where
  "get_config env s =
     (case cached_config s of
        Some c \<Rightarrow> (Inr c, s)
      | None \<Rightarrow>
          (case load_and_validate env (disk s) of
             Inl e \<Rightarrow> (Inl e, s)
           | Inr c \<Rightarrow> (Inr c, s\<lparr>cached_config := Some c\<rparr>)))"

definition reload :: "config_env \<Rightarrow> service \<Rightarrow> unit res \<times> service" where
  "reload env s =
     (case get_config env (s\<lparr>cached_config := None\<rparr>) of (r, s') \<Rightarrow> (bind_res r (\<lambda>_. Inr ()), s'))"

definition save_config_to_file :: "config_env \<Rightarrow> path \<Rightarrow> service \<Rightarrow> unit res \<times> service" where
  "save_config_to_file env p s =
     (case get_config env s of
        (Inl e, s') \<Rightarrow> (Inl e, s')
      | (Inr c, s') \<Rightarrow>
          (case save_with_config env p c (disk s') of (r, fs') \<Rightarrow> (r, s'\<lparr>disk := fs'\<rparr>)))"

definition save_config :: "config_env \<Rightarrow> service \<Rightarrow> unit res \<times> service" where
  "save_config env s =
     (case get_config env s of
        (Inl e, s') \<Rightarrow> (Inl e, s')
      | (Inr _, s') \<Rightarrow>
          (case get_config_file_path env of
             Inl e \<Rightarrow> (Inl e, s')
           | Inr p \<Rightarrow> save_config_to_file env p s'))"

definition get_config_value :: "config_env \<Rightarrow> str \<Rightarrow> service \<Rightarrow> str res \<times> service" where
  "get_config_value env key s =
     (case get_config env s of (r, s') \<Rightarrow> (bind_res r (\<lambda>c. read_config_value_from c key), s'))"

definition set_config_value :: "config_env \<Rightarrow> str \<Rightarrow> str \<Rightarrow> service \<Rightarrow> unit res run \<times> service" where
  "set_config_value env key v s =
     (case load_for_repair env (disk s) of
        Inl e \<Rightarrow> (Returns (Inl e), s)
      | Inr c \<Rightarrow>
          (case validate_and_set_value (ce_url env) key v c of
             Panics m \<Rightarrow> (Panics m, s)
           | Returns (Inl e) \<Rightarrow> (Returns (Inl e), s)
           | Returns (Inr c') \<Rightarrow>
               (case get_config_file_path env of
                  Inl e \<Rightarrow> (Returns (Inl e), s)
                | Inr p \<Rightarrow>
                    (case save_with_config env p c' (disk s) of
                       (Inl e, fs') \<Rightarrow> (Returns (Inl e), s\<lparr>disk := fs'\<rparr>)
                     | (Inr _, fs') \<Rightarrow> (Returns (Inr ()), s\<lparr>disk := fs', cached_config := Some c'\<rparr>)))))"

definition reset_to_defaults :: "config_env \<Rightarrow> service \<Rightarrow> unit res \<times> service" where
  "reset_to_defaults env s =
     (case get_config_file_path env of
        Inl e \<Rightarrow> (Inl e, s)
      | Inr p \<Rightarrow>
          (case save_with_config env p (config_default (ce_cpus env)) (disk s) of
             (Inl e, fs') \<Rightarrow> (Inl e, s\<lparr>disk := fs'\<rparr>)
           | (Inr _, fs') \<Rightarrow> reload env (s\<lparr>disk := fs'\<rparr>)))"

section \<open>Masking of secrets\<close>

text \<open>
  \<open>mask_sensitive_value\<close> for keys whose lower case is that of their ASCII letters; characters are the
  runs of bytes that start with a byte outside 80 to BF.
\<close>

definition mask_sensitive_value :: "str \<Rightarrow> str \<Rightarrow> str" where
  "mask_sensitive_value key v =
     (let k = ascii_lower key; cs = utf8_chars v
      in if \<not> (contains_str k ''api_key'' \<or> contains_str k ''token'' \<or> contains_str k ''secret'') then v
         else if v = [] then []
         else if length cs \<le> 4 then ''****''
         else ''****'' @ concat (drop (length cs - 4) cs))"

end
