(* ===== verification/Config_Properties.thy ===== *)
theory Config_Properties
  imports Config_Service
begin

text \<open>
  What the checks of the configuration guarantee to the service: a checked value can be set without a
  panic, is read back, and leaves a file that can be loaded again.
\<close>

section \<open>Checks that pass\<close>

lemma fail_config_Inr [simp]: "fail_config m \<noteq> Inr x" "Inr x \<noteq> fail_config m"
  by (simp_all add: fail_config_def)

lemma validate_enum_Inr [simp]: "validate_enum v allowed = Inr u \<longleftrightarrow> v \<in> set allowed"
  by (simp add: validate_enum_def)

lemma validate_range_Inr [simp]: "validate_range lt f v lo hi = Inr u \<longleftrightarrow> \<not> lt v lo \<and> \<not> lt hi v"
  by (simp add: validate_range_def)

lemma validate_positive_Inr [simp]: "validate_positive_number le f z v = Inr u \<longleftrightarrow> \<not> le v z"
  by (simp add: validate_positive_number_def)

lemma validate_non_empty_Inr [simp]: "validate_non_empty_string v m = Inr u \<longleftrightarrow> trim v \<noteq> []"
  by (simp add: validate_non_empty_string_def)

lemma validate_ai_model_Inr [simp]: "validate_ai_model m = Inr u \<longleftrightarrow> trim m \<noteq> [] \<and> length m \<le> 100"
  by (auto simp: validate_ai_model_def bind_res_Inr_iff)

lemma when_check_Inr [simp]: "when_check b c = Inr u \<longleftrightarrow> \<not> b \<or> c = Inr ()"
  by (auto simp: when_check_def)

lemma all_checks_Inr [simp]: "all_checks cs = Inr u \<longleftrightarrow> list_all (\<lambda>c. c = Inr ()) cs"
  by (induction cs) (auto simp: bind_res_Inr_iff)

lemma check_uint_Inr [simp]:
  "check_uint b m lo hi v = Inr u \<longleftrightarrow> (case parse_bits b v of None \<Rightarrow> False | Some n \<Rightarrow> lo \<le> n \<and> n \<le> hi)"
  by (auto simp: check_uint_def split: option.splits)

lemma check_f32_Inr [simp]:
  "check_f32 m check v = Inr u \<longleftrightarrow> (case parse_f32 v of None \<Rightarrow> False | Some x \<Rightarrow> check x = Inr ())"
  by (auto simp: check_f32_def split: option.splits)

lemma check_bool_Inr [simp]: "check_bool v = Inr u \<longleftrightarrow> (\<exists>b. parse_bool v = Inr b)"
  by (auto simp: check_bool_def bind_res_Inr_iff)

lemma digits_val_less: "digits_val b acc s = Inr n \<Longrightarrow> acc < b \<Longrightarrow> n < b"
  by (induction b acc s rule: digits_val.induct) (auto split: if_splits)

lemma parse_bits_less: "parse_bits b v = Some n \<Longrightarrow> n < 2 ^ b"
  unfolding parse_bits_def parse_uint_def
  by (auto split: sum.splits if_splits dest: digits_val_less [of "2 ^ b" 0])

lemma parse_bits_show [simp]: "n < 2 ^ b \<Longrightarrow> parse_bits b (show_nat n) = Some n"
  by (simp add: parse_bits_def)

lemmas check_tables = field_checks_def ai_checks_def sync_checks_def formats_checks_def general_checks_def
  parallel_checks_def translation_checks_def

lemmas setter_tables = setters_def ai_setters_def sync_setters_def formats_setters_def general_setters_def
  parallel_setters_def translation_setters_def

lemmas setter_kinds = set_num_def set_f32_def set_bool_def set_text_def set_overflow_def

text \<open>A check of a key that its setter relies on.\<close>

definition settable :: "str \<times> (str \<Rightarrow> unit res) \<Rightarrow> bool" where
  "settable e \<longleftrightarrow> (\<forall>v c. snd e v = Inr () \<longrightarrow> (\<exists>c'. set_value_internal (fst e) v c = Returns (Inr c')))"

lemma ai_settable: "list_all settable (ai_checks url)"
  by (auto simp: settable_def ai_checks_def set_value_internal_def setter_tables setter_kinds split: option.splits)

lemma sync_settable: "list_all settable sync_checks"
  by (auto simp: settable_def sync_checks_def set_value_internal_def setter_tables setter_kinds split: option.splits)

lemma formats_settable: "list_all settable formats_checks"
  by (auto simp: settable_def formats_checks_def set_value_internal_def setter_tables setter_kinds split: option.splits)

lemma general_settable: "list_all settable general_checks"
  by (auto simp: settable_def general_checks_def set_value_internal_def setter_tables setter_kinds split: option.splits)

lemma parallel_settable: "list_all settable parallel_checks"
  by (auto simp: settable_def parallel_checks_def set_value_internal_def setter_tables setter_kinds split: option.splits)

lemma translation_settable: "list_all settable translation_checks"
  by (auto simp: settable_def translation_checks_def set_value_internal_def setter_tables setter_kinds split: option.splits)

lemma validated_value_set:
  assumes "validate_field url key v = Inr ()"
  shows "\<exists>c'. set_value_internal key v c = Returns (Inr c')"
proof -
  obtain check where "(key, check) \<in> set (field_checks url)" "check v = Inr ()"
    using assms by (auto simp: validate_field_def unknown_key_def dest: map_of_SomeD split: option.splits)
  moreover have "list_all settable (field_checks url)"
    by (simp add: field_checks_def ai_settable sync_settable formats_settable general_settable parallel_settable
        translation_settable)
  ultimately show ?thesis by (auto simp: list_all_iff settable_def)
qed

section \<open>What setting a key changes\<close>

text \<open>A property of what a setter makes of its value and the configuration.\<close>

definition sets :: "(str \<Rightarrow> Config \<Rightarrow> Config \<Rightarrow> bool) \<Rightarrow> (str \<Rightarrow> Config \<Rightarrow> Config res run) \<Rightarrow> bool" where
  "sets P f \<longleftrightarrow> (\<forall>v c c'. f v c = Returns (Inr c') \<longrightarrow> P v c c')"

lemma sets_num: "(\<And>v c n. parse_bits b v = Some n \<Longrightarrow> P v c (f n c)) \<Longrightarrow> sets P (set_num b f)"
  by (auto simp: sets_def set_num_def split: option.splits)

lemma sets_f32: "(\<And>v c x. parse_f32 v = Some x \<Longrightarrow> P v c (f x c)) \<Longrightarrow> sets P (set_f32 f)"
  by (auto simp: sets_def set_f32_def split: option.splits)

lemma sets_bool: "(\<And>v c x. parse_bool v = Inr x \<Longrightarrow> P v c (f x c)) \<Longrightarrow> sets P (set_bool f)"
  by (auto simp: sets_def set_bool_def bind_res_Inr_iff)

lemma sets_text: "(\<And>v c. P v c (f v c)) \<Longrightarrow> sets P (set_text f)"
  by (auto simp: sets_def set_text_def)

lemma sets_overflow:
  "(\<And>c. P ''Block'' c (parallel_update (overflow_strategy_update (\<lambda>_. Block)) c)) \<Longrightarrow>
   (\<And>c. P ''Drop'' c (parallel_update (overflow_strategy_update (\<lambda>_. Drop)) c)) \<Longrightarrow>
   (\<And>c. P ''Expand'' c (parallel_update (overflow_strategy_update (\<lambda>_. Expand)) c)) \<Longrightarrow> sets P set_overflow"
  by (auto simp: sets_def set_overflow_def)

lemmas sets_intros = sets_num sets_f32 sets_bool sets_text sets_overflow

definition readings :: "str \<Rightarrow> Config \<Rightarrow> str list" where
  "readings key c = map (\<lambda>(k, f). if k = key then [] else f c) readers"

lemma setters_all:
  assumes "list_all (\<lambda>(k, f). sets (P k) f) ai_setters" "list_all (\<lambda>(k, f). sets (P k) f) formats_setters"
    "list_all (\<lambda>(k, f). sets (P k) f) sync_setters" "list_all (\<lambda>(k, f). sets (P k) f) general_setters"
    "list_all (\<lambda>(k, f). sets (P k) f) parallel_setters" "list_all (\<lambda>(k, f). sets (P k) f) translation_setters"
    and "set_value_internal key v c = Returns (Inr c')"
  shows "P key v c c'"
proof -
  obtain f where "(key, f) \<in> set setters" "f v c = Returns (Inr c')"
    using assms(7) by (auto simp: set_value_internal_def unknown_key_def dest: map_of_SomeD split: option.splits)
  then show ?thesis
    using assms(1-6) by (auto simp: setters_def list_all_iff sets_def)
qed

text \<open>Setting keeps the values of the other keys.\<close>

lemma ai_keep_others: "list_all (\<lambda>(k, f). sets (\<lambda>v c c'. readings k c' = readings k c) f) ai_setters"
  unfolding ai_setters_def list.pred_inject prod.case
  by (intro conjI sets_intros TrueI; simp add: readings_def readers_def)

lemma formats_keep_others: "list_all (\<lambda>(k, f). sets (\<lambda>v c c'. readings k c' = readings k c) f) formats_setters"
  unfolding formats_setters_def list.pred_inject prod.case
  by (intro conjI sets_intros TrueI; simp add: readings_def readers_def)

lemma sync_keep_others: "list_all (\<lambda>(k, f). sets (\<lambda>v c c'. readings k c' = readings k c) f) sync_setters"
  unfolding sync_setters_def list.pred_inject prod.case
  by (intro conjI sets_intros TrueI; simp add: readings_def readers_def)

lemma general_keep_others: "list_all (\<lambda>(k, f). sets (\<lambda>v c c'. readings k c' = readings k c) f) general_setters"
  unfolding general_setters_def list.pred_inject prod.case
  by (intro conjI sets_intros TrueI; simp add: readings_def readers_def)

lemma parallel_keep_others: "list_all (\<lambda>(k, f). sets (\<lambda>v c c'. readings k c' = readings k c) f) parallel_setters"
  unfolding parallel_setters_def list.pred_inject prod.case
  by (intro conjI sets_intros TrueI; simp add: readings_def readers_def)

lemma translation_keep_others: "list_all (\<lambda>(k, f). sets (\<lambda>v c c'. readings k c' = readings k c) f) translation_setters"
  unfolding translation_setters_def list.pred_inject prod.case
  by (intro conjI sets_intros TrueI; simp add: readings_def readers_def)

lemmas set_keeps_others = setters_all [OF ai_keep_others formats_keep_others sync_keep_others general_keep_others
  parallel_keep_others translation_keep_others]

text \<open>Setting keeps the numbers within their widths.\<close>

lemma bits_less: "parse_bits 64 v = Some n \<Longrightarrow> n < 18446744073709551616" "parse_bits 32 v = Some n \<Longrightarrow> n < 4294967296"
  using parse_bits_less [of 64 v n] parse_bits_less [of 32 v n] by simp_all

lemma ai_keep_widths: "list_all (\<lambda>(k, f). sets (\<lambda>v c c'. config_wf c \<longrightarrow> config_wf c') f) ai_setters"
  unfolding ai_setters_def list.pred_inject prod.case
  by (intro conjI sets_intros TrueI;
      simp add: config_wf_def ai_wf_def sync_wf_def general_wf_def bits_less parse_f32_ok)

lemma formats_keep_widths: "list_all (\<lambda>(k, f). sets (\<lambda>v c c'. config_wf c \<longrightarrow> config_wf c') f) formats_setters"
  unfolding formats_setters_def list.pred_inject prod.case
  by (intro conjI sets_intros TrueI;
      simp add: config_wf_def ai_wf_def sync_wf_def general_wf_def bits_less parse_f32_ok)

lemma sync_keep_widths: "list_all (\<lambda>(k, f). sets (\<lambda>v c c'. config_wf c \<longrightarrow> config_wf c') f) sync_setters"
  unfolding sync_setters_def list.pred_inject prod.case
  by (intro conjI sets_intros TrueI;
      simp add: config_wf_def ai_wf_def sync_wf_def general_wf_def bits_less parse_f32_ok)

lemma general_keep_widths: "list_all (\<lambda>(k, f). sets (\<lambda>v c c'. config_wf c \<longrightarrow> config_wf c') f) general_setters"
  unfolding general_setters_def list.pred_inject prod.case
  by (intro conjI sets_intros TrueI;
      simp add: config_wf_def ai_wf_def sync_wf_def general_wf_def bits_less parse_f32_ok)

lemma parallel_keep_widths: "list_all (\<lambda>(k, f). sets (\<lambda>v c c'. config_wf c \<longrightarrow> config_wf c') f) parallel_setters"
  unfolding parallel_setters_def list.pred_inject prod.case
  by (intro conjI sets_intros TrueI;
      simp add: config_wf_def ai_wf_def sync_wf_def general_wf_def bits_less parse_f32_ok)

lemma translation_keep_widths: "list_all (\<lambda>(k, f). sets (\<lambda>v c c'. config_wf c \<longrightarrow> config_wf c') f) translation_setters"
  unfolding translation_setters_def list.pred_inject prod.case
  by (intro conjI sets_intros TrueI;
      simp add: config_wf_def ai_wf_def sync_wf_def general_wf_def bits_less parse_f32_ok)

lemmas set_keeps_widths = setters_all [OF ai_keep_widths formats_keep_widths sync_keep_widths general_keep_widths
  parallel_keep_widths translation_keep_widths]

text \<open>How a value is displayed when its key is read.\<close>

definition flag_keys :: "str list" where
  "flag_keys = [''formats.preserve_styling'', ''sync.vad.enabled'', ''general.backup_enabled'',
     ''general.enable_progress_bar'', ''parallel.enable_task_priorities'', ''parallel.auto_balance_workers'']"

definition float_keys :: "str list" where
  "float_keys = [''ai.temperature'', ''formats.encoding_detection_confidence'', ''sync.max_offset_seconds'',
     ''sync.vad.sensitivity'']"

definition number_keys :: "str list" where
  "number_keys = [''ai.max_sample_length'', ''ai.max_tokens'', ''ai.retry_attempts'', ''ai.retry_delay_ms'',
     ''ai.request_timeout_seconds'', ''sync.vad.padding_chunks'', ''sync.vad.min_speech_duration_ms'',
     ''general.max_concurrent_jobs'', ''general.task_timeout_seconds'', ''general.worker_idle_timeout_seconds'',
     ''general.max_subtitle_bytes'', ''general.max_audio_bytes'', ''parallel.max_workers'',
     ''parallel.task_queue_size'', ''translation.batch_size'']"

definition canonical_text :: "str \<Rightarrow> str \<Rightarrow> str" where
  "canonical_text key v =
     (if key = ''ai.provider'' then normalize_ai_provider v
      else if key \<in> set flag_keys then (case parse_bool v of Inr b \<Rightarrow> show_bool b | Inl _ \<Rightarrow> v)
      else if key \<in> set float_keys then (case parse_f32 v of Some x \<Rightarrow> show_f32 x | None \<Rightarrow> v)
      else if key \<in> set number_keys then (case parse_bits 64 v of Some n \<Rightarrow> show_nat n | None \<Rightarrow> v)
      else v)"

lemmas canonical_defs = canonical_text_def flag_keys_def float_keys_def number_keys_def

lemma digits_val_widen: "digits_val b acc s = Inr n \<Longrightarrow> b \<le> d \<Longrightarrow> digits_val d acc s = Inr n"
  by (induction b acc s rule: digits_val.induct) (auto split: if_splits)

lemma parse_bits_widen: "parse_bits 32 v = Some n \<Longrightarrow> parse_bits 64 v = Some n"
  using digits_val_widen [of "2 ^ 32" 0 v n "2 ^ 64"] digits_val_widen [of "2 ^ 32" 0 "tl v" n "2 ^ 64"]
  by (auto simp: parse_bits_def parse_uint_def split: sum.splits if_splits)

lemma ai_read_back:
  "list_all (\<lambda>(k, f). sets (\<lambda>v c c'. read_config_value_from c' k
      = (if k = ''ai.api_version'' then unknown_key k else Inr (canonical_text k v))) f) ai_setters"
  unfolding ai_setters_def list.pred_inject prod.case
  by (intro conjI sets_intros TrueI;
      simp add: read_config_value_from_def readers_def canonical_defs non_empty_def overflow_debug_def
        parse_bits_widen)

lemma formats_read_back:
  "list_all (\<lambda>(k, f). sets (\<lambda>v c c'. read_config_value_from c' k
      = (if k = ''ai.api_version'' then unknown_key k else Inr (canonical_text k v))) f) formats_setters"
  unfolding formats_setters_def list.pred_inject prod.case
  by (intro conjI sets_intros TrueI;
      simp add: read_config_value_from_def readers_def canonical_defs non_empty_def overflow_debug_def
        parse_bits_widen)

lemma sync_read_back:
  "list_all (\<lambda>(k, f). sets (\<lambda>v c c'. read_config_value_from c' k
      = (if k = ''ai.api_version'' then unknown_key k else Inr (canonical_text k v))) f) sync_setters"
  unfolding sync_setters_def list.pred_inject prod.case
  by (intro conjI sets_intros TrueI;
      simp add: read_config_value_from_def readers_def canonical_defs non_empty_def overflow_debug_def
        parse_bits_widen)

lemma general_read_back:
  "list_all (\<lambda>(k, f). sets (\<lambda>v c c'. read_config_value_from c' k
      = (if k = ''ai.api_version'' then unknown_key k else Inr (canonical_text k v))) f) general_setters"
  unfolding general_setters_def list.pred_inject prod.case
  by (intro conjI sets_intros TrueI;
      simp add: read_config_value_from_def readers_def canonical_defs non_empty_def overflow_debug_def
        parse_bits_widen)

lemma parallel_read_back:
  "list_all (\<lambda>(k, f). sets (\<lambda>v c c'. read_config_value_from c' k
      = (if k = ''ai.api_version'' then unknown_key k else Inr (canonical_text k v))) f) parallel_setters"
  unfolding parallel_setters_def list.pred_inject prod.case
  by (intro conjI sets_intros TrueI;
      simp add: read_config_value_from_def readers_def canonical_defs non_empty_def overflow_debug_def
        parse_bits_widen)

lemma translation_read_back:
  "list_all (\<lambda>(k, f). sets (\<lambda>v c c'. read_config_value_from c' k
      = (if k = ''ai.api_version'' then unknown_key k else Inr (canonical_text k v))) f) translation_setters"
  unfolding translation_setters_def list.pred_inject prod.case
  by (intro conjI sets_intros TrueI;
      simp add: read_config_value_from_def readers_def canonical_defs non_empty_def overflow_debug_def
        parse_bits_widen)

lemmas set_reads_back = setters_all [OF ai_read_back formats_read_back sync_read_back general_read_back
  parallel_read_back translation_read_back]

text \<open>The texts that \<open>validate_all_fields\<close> checks afterwards.\<close>

definition fields_grow :: "str \<Rightarrow> str \<Rightarrow> Config \<Rightarrow> Config \<Rightarrow> bool" where
  "fields_grow k v c c' \<longleftrightarrow>
     list_all (\<lambda>(k', f). f c' = f c \<or> k' = k \<and> (f c' = None \<or> f c' = Some (canonical_text k v))) field_texts"

lemma ai_fields_grow: "list_all (\<lambda>(k, f). sets (fields_grow k) f) ai_setters"
  unfolding ai_setters_def list.pred_inject prod.case
  by (intro conjI sets_intros TrueI;
      simp add: fields_grow_def field_texts_def canonical_defs non_empty_def overflow_debug_def
        parse_bits_widen)

lemma formats_fields_grow: "list_all (\<lambda>(k, f). sets (fields_grow k) f) formats_setters"
  unfolding formats_setters_def list.pred_inject prod.case
  by (intro conjI sets_intros TrueI;
      simp add: fields_grow_def field_texts_def canonical_defs non_empty_def overflow_debug_def
        parse_bits_widen)

lemma sync_fields_grow: "list_all (\<lambda>(k, f). sets (fields_grow k) f) sync_setters"
  unfolding sync_setters_def list.pred_inject prod.case
  by (intro conjI sets_intros TrueI;
      simp add: fields_grow_def field_texts_def canonical_defs non_empty_def overflow_debug_def
        parse_bits_widen)

lemma general_fields_grow: "list_all (\<lambda>(k, f). sets (fields_grow k) f) general_setters"
  unfolding general_setters_def list.pred_inject prod.case
  by (intro conjI sets_intros TrueI;
      simp add: fields_grow_def field_texts_def canonical_defs non_empty_def overflow_debug_def
        parse_bits_widen)

lemma parallel_fields_grow: "list_all (\<lambda>(k, f). sets (fields_grow k) f) parallel_setters"
  unfolding parallel_setters_def list.pred_inject prod.case
  by (intro conjI sets_intros TrueI;
      simp add: fields_grow_def field_texts_def canonical_defs non_empty_def overflow_debug_def
        parse_bits_widen)

lemma translation_fields_grow: "list_all (\<lambda>(k, f). sets (fields_grow k) f) translation_setters"
  unfolding translation_setters_def list.pred_inject prod.case
  by (intro conjI sets_intros TrueI;
      simp add: fields_grow_def field_texts_def canonical_defs non_empty_def overflow_debug_def
        parse_bits_widen)

lemmas set_fields_grow = setters_all [OF ai_fields_grow formats_fields_grow sync_fields_grow general_fields_grow
  parallel_fields_grow translation_fields_grow]

end
