(* ===== verification/Config_Safety.thy ===== *)
theory Config_Safety
  imports Config_Properties
begin

text \<open>
  The properties of the configuration service: setting a key never panics, is read back, keeps the other
  keys and the widths, and leaves a file that loads to the stored configuration; what the two layers of
  checks accept; and which environment variables can reach the AI section.
\<close>

section \<open>Checking again what was stored\<close>

lemma map_err_Inr [simp]: "map_err f r = Inr x \<longleftrightarrow> r = Inr x"
  by (cases r) (simp_all add: map_err_def)

lemma map_filter_pairs:
  "(k, t) \<in> set (List.map_filter (\<lambda>(k, f). map_option (\<lambda>t. (k, t)) (f c)) xs) \<longleftrightarrow> (\<exists>f. (k, f) \<in> set xs \<and> f c = Some t)"
  by (induction xs) (auto simp: map_filter_simps split: option.splits)

lemma all_fields_set: "(k, t) \<in> set (all_fields c) \<longleftrightarrow> (\<exists>f. (k, f) \<in> set field_texts \<and> f c = Some t)"
  unfolding all_fields_def by (rule map_filter_pairs)

lemma validate_all_fields_Inr:
  "validate_all_fields url c = Inr () \<longleftrightarrow>
     (\<forall>(k, f) \<in> set field_texts. \<forall>t. f c = Some t \<longrightarrow> validate_field url k t = Inr ())"
  unfolding validate_all_fields_def all_checks_Inr list_all_iff set_map
  using all_fields_set by fastforce

lemma parse_show_bool [simp]: "parse_bool (show_bool b) = Inr b"
  by (cases b) (simp_all add: show_bool_def parse_bool_def ascii_lower_def ascii_lower_char_def)

text \<open>A check that accepts the displayed form of every value it accepts.\<close>

definition rechecks :: "str \<Rightarrow> (str \<Rightarrow> unit res) \<Rightarrow> bool" where
  "rechecks k check \<longleftrightarrow> (\<forall>v. check v = Inr () \<longrightarrow> check (canonical_text k v) = Inr ())"

definition text_key :: "str \<Rightarrow> bool" where
  "text_key k \<longleftrightarrow> k \<noteq> ''ai.provider'' \<and> k \<notin> set (flag_keys @ float_keys @ number_keys)"

lemma rechecks_text: "text_key k \<Longrightarrow> rechecks k check"
  by (simp add: rechecks_def canonical_text_def text_key_def)

lemma key_kinds:
  "distinct (''ai.provider'' # flag_keys @ float_keys @ number_keys)"
  by (simp add: flag_keys_def float_keys_def number_keys_def)

lemma canonical_flag: "k \<in> set flag_keys \<Longrightarrow> parse_bool v = Inr b \<Longrightarrow> canonical_text k v = show_bool b"
  using key_kinds by (auto simp: canonical_text_def)

lemma canonical_float: "k \<in> set float_keys \<Longrightarrow> parse_f32 v = Some x \<Longrightarrow> canonical_text k v = show_f32 x"
  using key_kinds by (auto simp: canonical_text_def)

lemma canonical_number: "k \<in> set number_keys \<Longrightarrow> parse_bits 64 v = Some n \<Longrightarrow> canonical_text k v = show_nat n"
  using key_kinds by (auto simp: canonical_text_def)

lemma rechecks_bool: "k \<in> set flag_keys \<Longrightarrow> rechecks k check_bool"
  by (auto simp: rechecks_def canonical_flag)

lemma rechecks_f32: "k \<in> set float_keys \<Longrightarrow> rechecks k (check_f32 m check)"
  by (auto simp: rechecks_def canonical_float parse_show_f32 parse_f32_ok split: option.splits)

lemma rechecks_bits:
  assumes "k \<in> set number_keys" "b = 32 \<or> b = 64"
  shows "rechecks k (\<lambda>v. case parse_bits b v of None \<Rightarrow> fail_config m | Some n \<Rightarrow> check n)"
proof -
  have "canonical_text k v = show_nat n \<and> n < 2 ^ b" if "parse_bits b v = Some n" for v n
    using assms that parse_bits_widen [of v n] by (auto simp: canonical_number dest: parse_bits_less)
  then show ?thesis by (auto simp: rechecks_def split: option.splits)
qed

lemma rechecks_uint: "k \<in> set number_keys \<Longrightarrow> b = 32 \<or> b = 64 \<Longrightarrow> rechecks k (check_uint b m lo hi)"
  unfolding check_uint_def by (rule rechecks_bits)

lemma provider_names [simp]:
  "normalize_ai_provider ''openai'' = ''openai''" "normalize_ai_provider ''anthropic'' = ''anthropic''"
  "normalize_ai_provider ''local'' = ''local''" "normalize_ai_provider ''ollama'' = ''local''"
  "normalize_ai_provider ''openrouter'' = ''openrouter''" "normalize_ai_provider ''azure-openai'' = ''azure-openai''"
  "trim ''openai'' = ''openai''" "trim ''anthropic'' = ''anthropic''" "trim ''local'' = ''local''"
  "trim ''openrouter'' = ''openrouter''" "trim ''azure-openai'' = ''azure-openai''"
  by code_simp+

lemma rechecks_provider:
  "rechecks ''ai.provider'' (\<lambda>v. bind_res (validate_non_empty_string v ''AI provider'') (\<lambda>_.
     validate_enum v [''openai'', ''anthropic'', ''local'', ''ollama'', ''openrouter'', ''azure-openai'']))"
  by (auto simp: rechecks_def bind_res_Inr_iff canonical_text_def)

lemmas rechecks_intros = rechecks_provider rechecks_bool rechecks_f32 rechecks_uint rechecks_bits

lemmas key_lists = float_keys_def number_keys_def flag_keys_def text_key_def

lemma ai_rechecked: "list_all (\<lambda>(k, f). rechecks k f) (ai_checks url)"
  unfolding ai_checks_def list.pred_inject prod.case
  by (intro conjI; ((rule rechecks_intros rechecks_text; simp add: key_lists; fail) | simp))

lemma sync_rechecked: "list_all (\<lambda>(k, f). rechecks k f) sync_checks"
  unfolding sync_checks_def list.pred_inject prod.case
  by (intro conjI; ((rule rechecks_intros rechecks_text; simp add: key_lists; fail) | simp))

lemma formats_rechecked: "list_all (\<lambda>(k, f). rechecks k f) formats_checks"
  unfolding formats_checks_def list.pred_inject prod.case
  by (intro conjI; ((rule rechecks_intros rechecks_text; simp add: key_lists; fail) | simp))

lemma general_rechecked: "list_all (\<lambda>(k, f). rechecks k f) general_checks"
  unfolding general_checks_def list.pred_inject prod.case
  by (intro conjI; ((rule rechecks_intros rechecks_text; simp add: key_lists; fail) | simp))

lemma parallel_rechecked: "list_all (\<lambda>(k, f). rechecks k f) parallel_checks"
  unfolding parallel_checks_def list.pred_inject prod.case
  by (intro conjI; ((rule rechecks_intros rechecks_text; simp add: key_lists; fail) | simp))

lemma translation_rechecked: "list_all (\<lambda>(k, f). rechecks k f) translation_checks"
  unfolding translation_checks_def list.pred_inject prod.case
  by (intro conjI; ((rule rechecks_intros rechecks_text; simp add: key_lists; fail) | simp))


lemma validate_field_canonical:
  assumes "validate_field url key v = Inr ()"
  shows "validate_field url key (canonical_text key v) = Inr ()"
proof -
  have "list_all (\<lambda>(k, f). rechecks k f) (field_checks url)"
    by (simp add: field_checks_def ai_rechecked sync_rechecked formats_rechecked general_rechecked parallel_rechecked
        translation_rechecked)
  then show ?thesis
    using assms by (fastforce simp: validate_field_def list_all_iff rechecks_def unknown_key_def
        dest: map_of_SomeD split: option.splits)
qed

lemma set_fields_valid:
  assumes "validate_field url key v = Inr ()" "set_value_internal key v c = Returns (Inr c')"
    "validate_all_fields url c = Inr ()"
  shows "validate_all_fields url c' = Inr ()"
  using assms(3) set_fields_grow [OF assms(2)] validate_field_canonical [OF assms(1)]
  unfolding validate_all_fields_Inr fields_grow_def list_all_iff by fastforce

section \<open>The default configuration\<close>

lemmas config_checks = validate_config_def validate_ai_config_def check_provider_def check_openai_def
  check_present_key_def check_hosted_url_def require_https_for_hosted_provider_def validate_url_format_def
  validate_sync_config_def validate_vad_def validate_general_config_def validate_formats_config_def
  validate_parallel_config_def validate_translation_config_def validate_config_consistency_def
  validate_temperature_def output_formats_def encodings_def

lemmas config_defaults = config_default_def ai_default_def formats_default_def vad_default_def sync_default_def
  general_default_def parallel_default_def translation_default_def

lemma default_texts [simp]:
  "trim ''gpt-4.1-mini'' = ''gpt-4.1-mini''" "trim ''https://api.openai.com/v1'' = ''https://api.openai.com/v1''"
  "trim ''srt'' = ''srt''" "trim ''utf-8'' = ''utf-8''"
  by code_simp+

lemma default_valid_iff:
  "validate_config url (config_default cpus) = Inr () \<longleftrightarrow>
     1 \<le> cpus \<and> cpus \<le> 64 \<and> url ''https://api.openai.com/v1'' = Some ''https''"
  by (auto simp: config_checks config_defaults bind_res_Inr_iff small_values split: option.splits)

lemma small_ok: "f32_ok (f32_of_rat q)"
proof (cases "round_f32 \<bar>q\<bar>")
  case (Some m)
  then show ?thesis using round_representable [OF Some] by (simp add: f32_of_rat_def f32_ok_def)
qed (simp add: f32_of_rat_def f32_ok_def)

lemma default_wf: "cpus < 2 ^ 64 \<Longrightarrow> config_wf (config_default cpus)"
  by (simp add: config_wf_def ai_wf_def sync_wf_def general_wf_def config_defaults small_ok)

lemma parse_show_small [simp]: "parse_f32 (show_f32 (f32_of_rat q)) = Some (f32_of_rat q)"
  by (rule parse_show_f32 [OF small_ok])

definition field_ok :: "url_crate \<Rightarrow> Config \<Rightarrow> str \<times> (Config \<Rightarrow> str option) \<Rightarrow> bool" where
  "field_ok url c e \<longleftrightarrow> (case snd e c of None \<Rightarrow> True | Some t \<Rightarrow> validate_field url (fst e) t = Inr ())"

lemma validate_all_fields_ok: "validate_all_fields url c = Inr () \<longleftrightarrow> list_all (field_ok url c) field_texts"
  unfolding validate_all_fields_Inr field_ok_def list_all_iff by (auto split: option.splits)

lemma default_fields_ok:
  assumes "1 \<le> cpus" "cpus \<le> 64" "url ''https://api.openai.com/v1'' = Some scheme"
  shows "list_all (field_ok url (config_default cpus)) field_texts"
  unfolding field_texts_def list.pred_inject field_ok_def snd_conv fst_conv option.case
  apply (intro conjI)
  apply (use assms in \<open>simp_all add: config_defaults\<close>)
  apply (simp_all add: validate_field_def check_tables)
  apply (simp_all add: bind_res_Inr_iff validate_url_format_def overflow_debug_def output_formats_def encodings_def
    validate_temperature_def)
  apply (simp_all add: small_values)
  by blast+

lemma default_fields_valid:
  assumes "1 \<le> cpus" "cpus \<le> 64" "url ''https://api.openai.com/v1'' \<noteq> None"
  shows "validate_all_fields url (config_default cpus) = Inr ()"
  using assms default_fields_ok [OF assms(1,2)] by (auto simp: validate_all_fields_ok)

section \<open>What a successful change does\<close>

text \<open>Reading the written text gives the configuration without the fields that are not serialized.\<close>

definition without_skipped :: "Config \<Rightarrow> Config" where
  "without_skipped c =
     sync_update (\<lambda>s. s\<lparr>correlation_threshold := f32_of_rat 0, dialogue_detection_threshold := f32_of_rat 0,
       min_dialogue_duration_ms := 0, dialogue_merge_gap_ms := 0, enable_dialogue_detection := False,
       audio_sample_rate := 0, auto_detect_sample_rate := False\<rparr>) c"

lemma without_skipped_readings [simp]: "read_config_value_from (without_skipped c) key = read_config_value_from c key"
  unfolding read_config_value_from_def readers_def without_skipped_def by simp

lemma bind_io_Inr:
  "bind_io m k fs = (Inr b, fs') \<longleftrightarrow> (\<exists>a fs1. m fs = (Inr a, fs1) \<and> k a fs1 = (Inr b, fs'))"
  by (auto simp: bind_io_def split: prod.splits sum.splits)

lemma sys_Inr: "sys os call m fs = (Inr a, fs') \<longleftrightarrow> fault os call fs = None \<and> m fs = (Inr a, fs')"
  by (auto simp: sys_def split: option.splits)

lemmas io_success = bind_io_Inr sys_Inr return_io_def

lemma make_parent_keeps: "make_parent env p fs = (Inr u, fs') \<Longrightarrow> fs' = fs"
  by (auto simp: make_parent_def create_dir_all_def set_permissions_def io_success split: option.splits if_splits)

lemma secure_write_stores: "secure_write_config_file env p t fs = (Inr u, fs') \<Longrightarrow> fs' = fs(p \<mapsto> t)"
  by (auto simp: secure_write_config_file_def create_file_def write_all_def set_permissions_def io_success
      split: option.splits dest!: make_parent_keeps)

lemma save_stores:
  assumes "save_with_config env p c fs = (Inr u, fs')"
  shows "\<exists>t. ce_to_toml env c = Inr t \<and> fs' = fs(p \<mapsto> t)"
  using assms by (auto simp: save_with_config_def fail_io_def map_err_io_def split: sum.splits prod.splits
      dest!: secure_write_stores)

text \<open>The value that is stored: providers are normalized first.\<close>

definition entered :: "str \<Rightarrow> str \<Rightarrow> str" where
  "entered key v = (if key = ''ai.provider'' then normalize_ai_provider v else v)"

definition changes :: "url_crate \<Rightarrow> str \<Rightarrow> str \<Rightarrow> Config \<Rightarrow> Config \<Rightarrow> bool" where
  "changes url key v c c' \<longleftrightarrow> validate_field url key (entered key v) = Inr ()
     \<and> set_value_internal key (entered key v) c = Returns (Inr c') \<and> validate_config url c' = Inr ()"

lemma validate_and_set_Inr: "validate_and_set_value url key v c = Returns (Inr c') \<longleftrightarrow> changes url key v c c'"
  by (auto simp: validate_and_set_value_def changes_def entered_def Let_def bind_res_Inr_iff
      split: sum.splits run.splits)

lemma set_config_value_Inr:
  assumes "set_config_value env key v s = (Returns (Inr u), s')"
  obtains c c' p t where "load_for_repair env (disk s) = Inr c" "changes (ce_url env) key v c c'"
    "get_config_file_path env = Inr p" "ce_to_toml env c' = Inr t"
    "s' = s\<lparr>disk := (disk s)(p \<mapsto> t), cached_config := Some c'\<rparr>"
  using assms
  by (auto simp: set_config_value_def validate_and_set_Inr split: sum.splits run.splits prod.splits dest!: save_stores)

lemma provider_entered:
  assumes "validate_field url ''ai.provider'' (normalize_ai_provider v) = Inr ()"
  shows "normalize_ai_provider (normalize_ai_provider v) = normalize_ai_provider v"
proof -
  have "normalize_ai_provider v \<in> set [''openai'', ''anthropic'', ''local'', ''ollama'', ''openrouter'', ''azure-openai'']"
    using assms by (simp add: validate_field_def field_checks_def ai_checks_def bind_res_Inr_iff)
  moreover have "normalize_ai_provider v \<noteq> ''ollama''" by (simp add: normalize_ai_provider_def Let_def)
  ultimately show ?thesis by auto
qed

lemma entered_canonical:
  "validate_field url key (entered key v) = Inr () \<Longrightarrow> canonical_text key (entered key v) = canonical_text key v"
  using provider_entered [of url v] by (auto simp: entered_def canonical_text_def)

section \<open>The service keeps a checked configuration\<close>

inductive service_step :: "config_env \<Rightarrow> service \<Rightarrow> service \<Rightarrow> bool" for env where
  getting: "service_step env s (snd (get_config env s))"
| reloading: "service_step env s (snd (reload env s))"
| saving: "service_step env s (snd (save_config env s))"
| saving_to: "service_step env s (snd (save_config_to_file env p s))"
| reading: "service_step env s (snd (get_config_value env key s))"
| setting: "service_step env s (snd (set_config_value env key v s))"
| resetting: "service_step env s (snd (reset_to_defaults env s))"
| outside: "service_step env s (s\<lparr>disk := fs\<rparr>)"

inductive service_reach :: "config_env \<Rightarrow> service \<Rightarrow> bool" for env where
  start: "service_reach env \<lparr>cached_config = None, disk = fs\<rparr>"
| step: "service_reach env s \<Longrightarrow> service_step env s s' \<Longrightarrow> service_reach env s'"

definition cache_checked :: "url_crate \<Rightarrow> service \<Rightarrow> bool" where
  "cache_checked url s \<longleftrightarrow> (case cached_config s of None \<Rightarrow> True | Some c \<Rightarrow> validate_config url c = Inr ())"

lemma load_checked: "load_and_validate env fs = Inr c \<Longrightarrow> validate_config (ce_url env) c = Inr ()"
  by (auto simp: load_and_validate_def Let_def bind_res_Inr_iff split: sum.splits prod.splits)

lemma get_checked:
  assumes "cache_checked (ce_url env) s"
  shows "cache_checked (ce_url env) (snd (get_config env s))"
    and "fst (get_config env s) = Inr c \<Longrightarrow> validate_config (ce_url env) c = Inr ()"
  using assms by (auto simp: get_config_def cache_checked_def split: option.splits sum.splits dest: load_checked)

lemma disk_checked [simp]: "cache_checked url (s\<lparr>disk := fs\<rparr>) = cache_checked url s"
  by (simp add: cache_checked_def)

lemma reload_checked: "cache_checked (ce_url env) (snd (reload env s))"
  using get_checked(1) [of env "s\<lparr>cached_config := None\<rparr>"]
  by (cases "get_config env (s\<lparr>cached_config := None\<rparr>)") (simp add: reload_def cache_checked_def)

lemma save_to_checked: "cache_checked (ce_url env) s \<Longrightarrow> cache_checked (ce_url env) (snd (save_config_to_file env p s))"
  using get_checked(1) [of env s] by (auto simp: save_config_to_file_def split: prod.splits sum.splits)

lemma save_checked: "cache_checked (ce_url env) s \<Longrightarrow> cache_checked (ce_url env) (snd (save_config env s))"
  using get_checked(1) [of env s] save_to_checked by (auto simp: save_config_def split: prod.splits sum.splits)

lemma set_checked: "cache_checked (ce_url env) s \<Longrightarrow> cache_checked (ce_url env) (snd (set_config_value env key v s))"
  by (auto simp: set_config_value_def validate_and_set_Inr changes_def cache_checked_def
      split: sum.splits run.splits prod.splits)

lemma reset_checked: "cache_checked (ce_url env) s \<Longrightarrow> cache_checked (ce_url env) (snd (reset_to_defaults env s))"
  using reload_checked by (auto simp: reset_to_defaults_def split: sum.splits prod.splits)

lemma reach_checked: "service_reach env s \<Longrightarrow> cache_checked (ce_url env) s"
proof (induction rule: service_reach.induct)
  case (start fs)
  then show ?case by (simp add: cache_checked_def)
next
  case (step s s')
  from step.hyps(2) step.IH show ?case
    by cases (auto simp: get_config_value_def intro: reload_checked save_checked save_to_checked set_checked reset_checked
        dest: get_checked(1) split: prod.splits)
qed

text \<open>What the scheduler and the translation engine are given.\<close>

definition app_config :: "Config \<Rightarrow> AppConfig" where
  "app_config c =
     \<lparr>general_max_concurrent_jobs = GeneralConfig.max_concurrent_jobs (general c),
      parallel_task_queue_size = Cfg_ParallelConfig.task_queue_size (parallel c),
      parallel_enable_task_priorities = cfg_task_priorities (parallel c),
      parallel_auto_balance_workers = cfg_auto_balance (parallel c),
      parallel_overflow_strategy = overflow_strategy (parallel c)\<rparr>"

lemma accepted_bounds:
  assumes "validate_config url c = Inr ()"
  shows "1 \<le> GeneralConfig.max_concurrent_jobs (general c) \<and> GeneralConfig.max_concurrent_jobs (general c) \<le> 64
    \<and> 100 \<le> Cfg_ParallelConfig.task_queue_size (parallel c) \<and> 1 \<le> cfg_max_workers (parallel c)
    \<and> cfg_max_workers (parallel c) \<le> 64 \<and> 1 \<le> cfg_batch_size (translation c) \<and> cfg_batch_size (translation c) \<le> 1000
    \<and> 1 \<le> retry_attempts (ai c) \<and> retry_attempts (ai c) \<le> 10"
  using assms by (simp add: validate_config_def validate_general_config_def validate_parallel_config_def
      validate_translation_config_def validate_ai_config_def bind_res_Inr_iff split: if_splits)

text \<open>
   C12.  Whatever sequence of operations the service has run, and whatever happened to the files in
  between, a configuration it hands out passed the cross-section checks; from such a configuration
  the scheduler is created with between 1 and 64 permits and a queue of at least 100 places.
\<close>

theorem handed_out_config_runs:
  assumes "service_reach env s" "fst (get_config env s) = Inr c"
  shows "validate_config (ce_url env) c = Inr ()
    \<and> (\<exists>st. new_with_config (from_app_config (app_config c)) = Inr st \<and> permits st \<in> {1..64}
          \<and> 100 \<le> ParallelConfig.task_queue_size (s_config st))
    \<and> cfg_max_workers (parallel c) \<in> {1..64} \<and> cfg_batch_size (translation c) \<in> {1..1000}"
proof -
  have ok: "validate_config (ce_url env) c = Inr ()" using get_checked(2) [OF reach_checked] assms by blast
  show ?thesis using ok accepted_bounds [OF ok]
    by (simp add: new_with_config_def from_app_config_def app_config_def parallel_config_validate_def bind_res_def)
qed

section \<open>An environment for the witnesses\<close>

text \<open>A serializer for the default configurations with any batch size.\<close>

definition with_batch :: "nat \<Rightarrow> Config" where
  "with_batch n = translation_update (cfg_batch_size_update (\<lambda>_. n)) (config_default 4)"

definition demo_os :: os where
  "demo_os = \<lparr>fault = (\<lambda>_ _. None), partial_bytes = (\<lambda>_ _. 0), canonical = (\<lambda>p. p), is_symlink = (\<lambda>_. False)\<rparr>"

definition demo_env :: config_env where
  "demo_env =
     \<lparr>ce_os = demo_os, ce_var = (\<lambda>_. None), ce_dir = Some (path_of ''/etc''), ce_cpus = 4, ce_url = (\<lambda>_. Some ''https''),
      ce_to_toml = (\<lambda>c. let n = cfg_batch_size (translation c)
         in if n < 2 ^ 64 \<and> without_skipped c = without_skipped (with_batch n) then Inr (show_nat n) else Inl ''unsupported''),
      ce_of_toml = (\<lambda>t. case parse_bits 64 t of Some n \<Rightarrow> Inr (without_skipped (with_batch n)) | None \<Rightarrow> Inl ''syntax''),
      ce_build = (\<lambda>_. Inr (Some (config_default 4), \<lambda>_. None)), ce_dir_exists = (\<lambda>_. True)\<rparr>"

definition demo_service :: service where
  "demo_service = \<lparr>cached_config = None, disk = (\<lambda>_. None)\<rparr>"

lemma demo_path: "get_config_file_path demo_env = Inr (join_name (join_name (path_of ''/etc'') ''subx'') ''config.toml'')"
  by (simp add: get_config_file_path_def demo_env_def)

lemma demo_get: "fst (get_config demo_env demo_service) = Inr (config_default 4)"
proof -
  have "ai_update (apply_environment (\<lambda>_. None)) (config_default 4) = config_default 4"
    by (simp add: apply_environment_def hosted_vars_def subx_vars_def override_def normalize_provider_def
        config_defaults)
  moreover have "validate_config (\<lambda>_. Some ''https'') (config_default 4) = Inr ()" by (simp add: default_valid_iff)
  ultimately show ?thesis
    using demo_path by (simp add: get_config_def load_and_validate_def demo_service_def demo_env_def bind_res_def map_err_def)
qed

lemma demo_write: "secure_write_config_file demo_env p t fs = (Inr (), fs(p \<mapsto> t))"
  by (simp add: secure_write_config_file_def make_parent_def create_file_def write_all_def set_permissions_def
      create_dir_all_def sys_def bind_io_def return_io_def demo_env_def demo_os_def split: option.splits)

lemma demo_toml: "n < 2 ^ 64 \<Longrightarrow> ce_to_toml demo_env (with_batch n) = Inr (show_nat n)"
  by (simp add: demo_env_def with_batch_def)

lemma demo_save: "save_with_config demo_env p (with_batch 100) fs = (Inr (), fs(p \<mapsto> show_nat 100))"
  by (simp add: save_with_config_def demo_toml map_err_io_def demo_write)

lemma with_batch_valid:
  assumes "1 \<le> n" "n \<le> 1000"
  shows "validate_config (\<lambda>_. Some ''https'') (with_batch n) = Inr ()"
proof -
  have "validate_config (\<lambda>_. Some ''https'') (config_default 4) = Inr ()" by (simp add: default_valid_iff)
  then show ?thesis
    using assms by (simp add: validate_config_def validate_translation_config_def validate_config_consistency_def
        with_batch_def config_default_def translation_default_def bind_res_Inr_iff)
qed

lemma demo_changes:
  "changes (\<lambda>_. Some ''https'') ''translation.batch_size'' ''0100'' (config_default 4) (with_batch 100)"
proof -
  have bits: "parse_bits 64 ''0100'' = Some 100"
    by (simp add: parse_bits_def parse_uint_def is_digit_def digit_val_def)
  have field: "validate_field url ''translation.batch_size'' v = check_uint 64
      ''Translation batch size must be a positive integer'' 1 1000 v" for url v
    by (simp add: validate_field_def check_tables)
  have setter: "set_value_internal ''translation.batch_size'' v c
      = set_num 64 (\<lambda>n. translation_update (cfg_batch_size_update (\<lambda>_. n))) v c" for v c
    by (simp add: set_value_internal_def setter_tables)
  show ?thesis
    by (simp add: changes_def entered_def field setter bits set_num_def with_batch_valid with_batch_def [symmetric])
qed

lemma demo_load: "load_for_repair demo_env (disk demo_service) = Inr (config_default 4)"
proof -
  have "ce_cpus demo_env = 4" "disk demo_service = (\<lambda>_. None)" by (simp_all add: demo_env_def demo_service_def)
  then show ?thesis by (simp add: load_for_repair_def demo_path bind_res_def)
qed

lemma demo_set:
  "\<exists>s'. set_config_value demo_env ''translation.batch_size'' ''0100'' demo_service = (Returns (Inr ()), s')"
proof -
  have "ce_url demo_env = (\<lambda>_. Some ''https'')" by (simp add: demo_env_def)
  then show ?thesis
    using demo_changes by (simp add: set_config_value_def demo_load validate_and_set_Inr [THEN iffD2] demo_path demo_save)
qed

text \<open>
   Setting a key never panics: the value has passed the check of its key, so the \<open>unwrap\<close> of its
  parsing and the \<open>unreachable!\<close> of the overflow strategies are not reached.
\<close>

theorem set_never_panics:
  "case fst (set_config_value env key v s) of Panics m \<Rightarrow> False | Returns r \<Rightarrow> True"
proof -
  have "validate_and_set_value url key v c \<noteq> Panics m" for url c m
  proof (cases "validate_field url key (entered key v)")
    case (Inr u)
    then obtain c' where "set_value_internal key (entered key v) c = Returns (Inr c')" using validated_value_set [of url key "entered key v" c] by auto
    then show ?thesis using Inr by (simp add: validate_and_set_value_def entered_def Let_def)
  qed (simp add: validate_and_set_value_def entered_def Let_def)
  then show ?thesis by (auto simp: set_config_value_def split: run.splits sum.splits prod.splits)
qed



text \<open>
   Setting keeps the configuration well typed: every number stays within the width of its field and
  every \<open>f32\<close> is a value of the type.
\<close>

theorem set_keeps_types:
  assumes "validate_and_set_value url key v c = Returns (Inr c')" "config_wf c"
  shows "config_wf c'"
  using assms set_keeps_widths by (auto simp: validate_and_set_Inr changes_def)

lemma set_keeps_types_witness: "config_wf (with_batch 100)"
  using set_keeps_types [OF validate_and_set_Inr [THEN iffD2, OF demo_changes]] default_wf [of 4] by simp

definition normal_provider :: "Config \<Rightarrow> bool" where
  "normal_provider c \<longleftrightarrow> normalize_ai_provider (provider (ai c)) = provider (ai c)"

lemma without_skipped_texts: "list_all (\<lambda>(k, f). f (without_skipped c) = f c) field_texts"
  unfolding field_texts_def list.pred_inject prod.case without_skipped_def by simp

lemma without_skipped_fields:
  "validate_all_fields url (without_skipped c) = Inr () \<longleftrightarrow> validate_all_fields url c = Inr ()"
  using without_skipped_texts [of c] unfolding validate_all_fields_Inr list_all_iff by fastforce

lemma without_skipped_provider:
  "normal_provider c \<Longrightarrow> ai_update normalize_provider (without_skipped c) = without_skipped c"
  by (simp add: normal_provider_def without_skipped_def normalize_provider_def)

lemma normal_of_check:
  assumes "validate_all_fields url c = Inr ()" "provider (ai c) = normalize_ai_provider x"
  shows "normal_provider c"
proof -
  have "(''ai.provider'', \<lambda>c. Some (provider (ai c))) \<in> set field_texts"
    unfolding field_texts_def list.set by (rule insertI1)
  then have "validate_field url ''ai.provider'' (provider (ai c)) = Inr ()"
    using bspec [OF assms(1) [unfolded validate_all_fields_Inr]] by fastforce
  then show ?thesis using provider_entered [of url x] assms(2) by (simp add: normal_provider_def)
qed

lemma loaded_ok:
  assumes "load_for_repair env fs = Inr c" "get_config_file_path env = Inr p"
    "fs p \<noteq> None \<or> ce_cpus env \<in> {1..64} \<and> ce_url env ''https://api.openai.com/v1'' \<noteq> None"
  shows "validate_all_fields (ce_url env) c = Inr () \<and> normal_provider c"
proof (cases "fs p")
  case None
  then have "c = config_default (ce_cpus env)" using assms(1,2) by (simp add: load_for_repair_def bind_res_def)
  then show ?thesis using assms(3) None default_fields_valid [of "ce_cpus env" "ce_url env"]
    by (simp add: normal_provider_def config_default_def ai_default_def)
next
  case (Some x)
  then obtain c1 where "validate_all_fields (ce_url env) c = Inr ()" "c = ai_update normalize_provider c1"
    using assms(1,2) by (auto simp: load_for_repair_def bind_res_Inr_iff Let_def split: sum.splits)
  then show ?thesis using normal_of_check [of "ce_url env" c "provider (ai c1)"] by (simp add: normalize_provider_def)
qed

lemma others_keep_provider:
  assumes "set_value_internal key v c = Returns (Inr c')"
  shows "key \<noteq> ''ai.provider'' \<longrightarrow> provider (ai c') = provider (ai c)"
proof -
  have "(''ai.provider'', \<lambda>c. provider (ai c)) \<in> set readers"
    unfolding readers_def list.set by (rule insertI1)
  moreover have "readings key c' = readings key c" by (rule set_keeps_others [OF assms])
  ultimately show ?thesis unfolding readings_def by auto
qed

lemma changes_keep:
  assumes "changes url key v c c'" "validate_all_fields url c = Inr () \<and> normal_provider c"
  shows "validate_all_fields url c' = Inr () \<and> normal_provider c'"
proof -
  have valid: "validate_all_fields url c' = Inr ()" using assms set_fields_valid by (auto simp: changes_def)
  have set: "set_value_internal key (entered key v) c = Returns (Inr c')" using assms(1) by (simp add: changes_def)
  show ?thesis
  proof (cases "key = ''ai.provider''")
    case True
    then have "provider (ai c') = normalize_ai_provider (normalize_ai_provider v)"
      using set by (auto simp: set_value_internal_def setter_tables set_text_def entered_def)
    then show ?thesis using valid normal_of_check by blast
  next
    case False
    then show ?thesis using valid assms(2) others_keep_provider [OF set] by (simp add: normal_provider_def)
  qed
qed

text \<open>
   C13.  A successful \<open>set_config_value\<close> leaves a file that loads again, to the configuration the service
  holds, without the deprecated fields that are not serialized; and that configuration passed the
  cross-section checks.  The TOML library is assumed to read what it has written.
\<close>

theorem stored_config_loads:
  assumes set: "set_config_value env key v s = (Returns (Inr ()), s')"
    and toml: "\<And>c t. ce_to_toml env c = Inr t \<Longrightarrow> ce_of_toml env t = Inr (without_skipped c)"
    and path: "get_config_file_path env = Inr p" "fault (ce_os env) (CallRead p) (disk s') = None"
    and start: "disk s p \<noteq> None \<or> ce_cpus env \<in> {1..64} \<and> ce_url env ''https://api.openai.com/v1'' \<noteq> None"
  shows "\<exists>c'. cached_config s' = Some c' \<and> validate_config (ce_url env) c' = Inr ()
    \<and> load_for_repair env (disk s') = Inr (without_skipped c')"
proof -
  obtain c c' t where c: "load_for_repair env (disk s) = Inr c" "changes (ce_url env) key v c c'"
    "ce_to_toml env c' = Inr t" and s': "s' = s\<lparr>disk := (disk s)(p \<mapsto> t), cached_config := Some c'\<rparr>"
    by (rule set_config_value_Inr [OF set]) (use path(1) in simp)
  have "validate_all_fields (ce_url env) c = Inr () \<and> normal_provider c" by (rule loaded_ok [OF c(1) path(1) start])
  then have "validate_all_fields (ce_url env) c' = Inr ()" "normal_provider c'"
    using changes_keep [OF c(2)] by blast+
  then have "validate_all_fields (ce_url env) (without_skipped c') = Inr ()" "ai_update normalize_provider (without_skipped c') = without_skipped c'"
    by (simp_all add: without_skipped_provider without_skipped_fields)
  then show ?thesis
    using c path s' toml [OF c(3)] by (simp add: load_for_repair_def read_to_string_def sys_def bind_res_def changes_def Let_def)
qed

lemma demo_toml_law: "ce_to_toml demo_env c = Inr t \<Longrightarrow> ce_of_toml demo_env t = Inr (without_skipped c)"
  by (auto simp: demo_env_def Let_def split: if_splits)

lemma stored_config_loads_witness:
  "\<exists>s' c'. set_config_value demo_env ''translation.batch_size'' ''0100'' demo_service = (Returns (Inr ()), s')
     \<and> load_for_repair demo_env (disk s') = Inr (without_skipped c')"
proof -
  obtain s' where s': "set_config_value demo_env ''translation.batch_size'' ''0100'' demo_service = (Returns (Inr ()), s')"
    using demo_set by blast
  show ?thesis
    using stored_config_loads [OF s' demo_toml_law demo_path] s' by (auto simp: demo_env_def demo_os_def)
qed

lemma handed_out_config_runs_witness:
  "service_reach demo_env demo_service \<and> fst (get_config demo_env demo_service) = Inr (config_default 4)
    \<and> cfg_batch_size (translation (config_default 4)) \<in> {1..1000}"
proof -
  have reach: "service_reach demo_env demo_service" unfolding demo_service_def by (rule service_reach.start)
  show ?thesis using handed_out_config_runs [OF reach demo_get] reach demo_get by simp
qed

text \<open>
   Setting a key works on the file alone: its result does not depend on the environment (beyond the
  path of the file) nor on the other sources, and afterwards the service hands out exactly that
  configuration, so the values of the environment are gone from it until the next reload.
\<close>

theorem set_drops_environment:
  assumes "var ''SUBX_CONFIG_PATH'' = ce_var env ''SUBX_CONFIG_PATH''"
  shows "set_config_value (env\<lparr>ce_var := var, ce_build := build\<rparr>) key v s = set_config_value env key v s
    \<and> (case set_config_value env key v s of
         (Returns (Inr _), s') \<Rightarrow> (\<exists>c c'. load_for_repair env (disk s) = Inr c
            \<and> validate_and_set_value (ce_url env) key v c = Returns (Inr c') \<and> get_config env s' = (Inr c', s'))
       | _ \<Rightarrow> True)"
proof
  have "secure_write_config_file (env\<lparr>ce_var := var, ce_build := build\<rparr>) p t = secure_write_config_file env p t" for p t
    by (rule ext, cases "parent p") (simp_all add: secure_write_config_file_def make_parent_def)
  then have "save_with_config (env\<lparr>ce_var := var, ce_build := build\<rparr>) p c fs = save_with_config env p c fs" for p c fs
    by (simp add: save_with_config_def cong: sum.case_cong)
  moreover have path: "get_config_file_path (env\<lparr>ce_var := var, ce_build := build\<rparr>) = get_config_file_path env"
    using assms by (simp add: get_config_file_path_def cong: option.case_cong)
  moreover have "load_for_repair (env\<lparr>ce_var := var, ce_build := build\<rparr>) fs = load_for_repair env fs" for fs
    by (simp add: load_for_repair_def path cong: if_cong sum.case_cong)
  ultimately show "set_config_value (env\<lparr>ce_var := var, ce_build := build\<rparr>) key v s = set_config_value env key v s"
    by (simp add: set_config_value_def cong: sum.case_cong run.case_cong)
  show "case set_config_value env key v s of
         (Returns (Inr _), s') \<Rightarrow> (\<exists>c c'. load_for_repair env (disk s) = Inr c
            \<and> validate_and_set_value (ce_url env) key v c = Returns (Inr c') \<and> get_config env s' = (Inr c', s'))
       | _ \<Rightarrow> True"
    by (auto simp: validate_and_set_Inr get_config_def split: prod.splits run.splits sum.splits elim!: set_config_value_Inr)
qed

lemma set_drops_environment_witness:
  "set_config_value (demo_env\<lparr>ce_var := [''OPENAI_API_KEY'' \<mapsto> ''sk-0123456789''], ce_build := (\<lambda>_. Inl ''unused'')\<rparr>)
     ''translation.batch_size'' ''0100'' demo_service
   = set_config_value demo_env ''translation.batch_size'' ''0100'' demo_service"
  using set_drops_environment [of "[''OPENAI_API_KEY'' \<mapsto> ''sk-0123456789'']" demo_env "\<lambda>_. Inl ''unused''"
      "''translation.batch_size''" "''0100''" demo_service] by (simp add: demo_env_def)

section \<open>What the checks accept\<close>

text \<open>
   The default configuration passes the cross-section checks exactly when the machine has at most 64
  processors (and the URL library reads the default endpoint as HTTPS): with more, the program
  rejects its own defaults.
\<close>

theorem default_config_valid_iff:
  "validate_config url (config_default cpus) = Inr () \<longleftrightarrow>
     1 \<le> cpus \<and> cpus \<le> 64 \<and> url ''https://api.openai.com/v1'' = Some ''https''"
  by (rule default_valid_iff)

text \<open>
   NaN passes the range checks of the temperature and of the largest offset, in a key's value and in
  the cross-section checks, which ask whether the value is too small or too large: the checks of a
  configuration with NaN there end as with the value 1.
\<close>

theorem nan_passes_range_checks:
  "validate_field url ''ai.temperature'' ''nan'' = Inr () \<and> validate_field url ''sync.max_offset_seconds'' ''nan'' = Inr ()
   \<and> validate_config url (ai_update (temperature_update (\<lambda>_. NaN)) c)
      = validate_config url (ai_update (temperature_update (\<lambda>_. Finite False 1)) c)
   \<and> validate_config url (sync_update (max_offset_seconds_update (\<lambda>_. NaN)) c)
      = validate_config url (sync_update (max_offset_seconds_update (\<lambda>_. Finite False 1)) c)"
proof -
  have nan: "parse_f32 ''nan'' = Some NaN" by code_simp
  have "validate_temperature NaN = Inr ()" "validate_temperature (Finite False 1) = Inr ()"
    by (simp_all add: validate_temperature_def small_values)
  then show ?thesis
    by (simp add: validate_field_def check_tables nan validate_config_def validate_ai_config_def check_provider_def
        check_openai_def check_openrouter_def check_anthropic_def check_azure_def check_local_def check_present_key_def
        check_hosted_url_def validate_config_consistency_def validate_sync_config_def validate_positive_number_def
        small_values cong: if_cong option.case_cong)
qed

text \<open>
   The check of a file before a key is set is stricter than the checks a configuration needs to run:
  the overflow strategy does not matter to those, but a file with \<open>DropOldest\<close> or \<open>Reject\<close> is refused
  by \<open>load_for_repair\<close>, so no key can be set.
\<close>

theorem repair_refuses_strategies:
  "validate_config url (parallel_update (overflow_strategy_update (\<lambda>_. st)) c) = validate_config url c
   \<and> validate_all_fields url (parallel_update (overflow_strategy_update (\<lambda>_. DropOldest)) c) \<noteq> Inr ()
   \<and> validate_all_fields url (parallel_update (overflow_strategy_update (\<lambda>_. Reject)) c) \<noteq> Inr ()"
proof -
  have same: "validate_config url (parallel_update (overflow_strategy_update (\<lambda>_. st)) c) = validate_config url c"
    by (simp add: validate_config_def validate_parallel_config_def validate_config_consistency_def)
  have "field_texts ! 32 = (''parallel.overflow_strategy'', \<lambda>c. Some (overflow_debug (overflow_strategy (parallel c))))"
    "32 < length field_texts"
    unfolding field_texts_def by simp_all
  then have listed: "(''parallel.overflow_strategy'', \<lambda>c. Some (overflow_debug (overflow_strategy (parallel c))))
      \<in> set field_texts"
    using nth_mem [of 32 field_texts] by (simp only:)
  have "validate_all_fields url (parallel_update (overflow_strategy_update (\<lambda>_. x)) c) \<noteq> Inr ()"
    if "x = DropOldest \<or> x = Reject" for x
  proof
    assume "validate_all_fields url (parallel_update (overflow_strategy_update (\<lambda>_. x)) c) = Inr ()"
    note bspec [OF this [unfolded validate_all_fields_Inr] listed]
    then have "validate_field url ''parallel.overflow_strategy'' (overflow_debug x) = Inr ()" by simp
    then show False using that by (auto simp: validate_field_def check_tables overflow_debug_def)
  qed
  then show ?thesis using same by simp
qed

section \<open>The environment\<close>

definition subx_names :: "str list" where
  "subx_names = [''SUBX_AI_PROVIDER'', ''SUBX_AI_APIKEY'', ''SUBX_AI_BASE_URL'', ''SUBX_AI_MODEL'']"

definition local_names :: "str list" where
  "local_names = [''LOCAL_LLM_BASE_URL'', ''LOCAL_LLM_API_KEY'']"

definition hosted_names :: "str list" where
  "hosted_names = [''OPENROUTER_API_KEY'', ''OPENAI_API_KEY'', ''OPENAI_BASE_URL'', ''AZURE_OPENAI_API_KEY'',
     ''AZURE_OPENAI_ENDPOINT'', ''AZURE_OPENAI_API_VERSION'', ''AZURE_OPENAI_DEPLOYMENT_ID'']"

definition runs_locally :: "(str \<Rightarrow> str option) \<Rightarrow> AIConfig \<Rightarrow> bool" where
  "runs_locally var a \<longleftrightarrow>
     normalize_ai_provider (case var ''SUBX_AI_PROVIDER'' of Some p \<Rightarrow> p | None \<Rightarrow> provider a) = ''local''"

definition only :: "str list \<Rightarrow> (str \<Rightarrow> str option) \<Rightarrow> str \<Rightarrow> str option" where
  "only names var k = (if k \<in> set names then var k else None)"

lemma subx_only [simp]: "subx_vars (only (subx_names @ names) var) a = subx_vars var a"
  by (simp add: subx_vars_def only_def subx_names_def)

lemma local_only: "local_vars (only (subx_names @ local_names) var) a = local_vars var a"
  by (simp add: local_vars_def only_def subx_names_def local_names_def cong: if_cong)

lemma hosted_only: "hosted_vars (only (subx_names @ hosted_names) var) a = hosted_vars var a"
  by (simp add: hosted_vars_def only_def hosted_names_def subx_names_def cong: if_cong)

lemma runs_locally: "provider (normalize_provider (subx_vars var a)) = ''local'' \<longleftrightarrow> runs_locally var a"
  by (simp add: normalize_provider_def subx_vars_def override_def runs_locally_def split: option.splits)

text \<open>
   Which variables reach the AI section: with the provider \<open>local\<close> (from the file or
  \<open>SUBX_AI_PROVIDER\<close>) only the four \<open>SUBX_AI\<close> variables and the two of the local model, so no hosted
  key or endpoint is ever sent to a local model; with another provider the variables of the local
  model have no effect.
\<close>

theorem environment_isolation:
  "apply_environment var a
     = apply_environment (only (subx_names @ (if runs_locally var a then local_names else hosted_names)) var) a"
  by (cases "runs_locally var a") (simp_all add: apply_environment_def runs_locally local_only hosted_only)

end
