(* ===== verification/Encoding.thy ===== *)
theory Encoding
  imports Float32 File_Tasks
begin

text \<open>
  Character encodings of subtitle files (\<open>src/core/formats/encoding\<close>): detection from the bytes and
  conversion to UTF-8.  The decoders of \<open>encoding_rs\<close> and the Unicode \<open>str::to_lowercase\<close> are fields of
  the record \<open>text_crates\<close>; \<open>String::from_utf8_lossy\<close> of the standard library is written out.  Masks on
  bytes are written as the ranges they test.
\<close>

section \<open>UTF-8 in the standard library\<close>

definition in_range :: "nat \<Rightarrow> nat \<Rightarrow> char \<Rightarrow> bool" where
  "in_range a b c \<longleftrightarrow> a \<le> code c \<and> code c \<le> b"

text \<open>The ranges of the bytes after a first byte, as in the table of well-formed sequences.\<close>

definition follow :: "char \<Rightarrow> (char \<Rightarrow> bool) list option" where
  "follow c =
     (let n = code c in
      if n < 128 then Some []
      else if 194 \<le> n \<and> n < 224 then Some [is_continuation]
      else if n = 224 then Some [in_range 160 191, is_continuation]
      else if n = 237 then Some [in_range 128 159, is_continuation]
      else if 225 \<le> n \<and> n < 240 then Some [is_continuation, is_continuation]
      else if n = 240 then Some [in_range 144 191, is_continuation, is_continuation]
      else if n = 244 then Some [in_range 128 143, is_continuation, is_continuation]
      else if 241 \<le> n \<and> n < 244 then Some [is_continuation, is_continuation, is_continuation]
      else None)"

text \<open>How many of the following bytes fit.\<close>

fun fitting :: "(char \<Rightarrow> bool) list \<Rightarrow> str \<Rightarrow> nat" where
  "fitting (p # ps) (c # s) = (if p c then Suc (fitting ps s) else 0)"
| "fitting _ _ = 0"

definition replacement :: str where
  "replacement = [CHR 0xEF, CHR 0xBF, CHR 0xBD]"

function from_utf8_lossy :: "str \<Rightarrow> str" where
  "from_utf8_lossy [] = []"
| "from_utf8_lossy (c # s) =
     (case follow c of
        None \<Rightarrow> replacement @ from_utf8_lossy s
      | Some ps \<Rightarrow>
          (let n = fitting ps s
           in (if n = length ps then c # take n s else replacement) @ from_utf8_lossy (drop n s)))"
  by pat_completeness auto
termination
  by (relation "measure length") auto

text \<open>Well-formed texts.\<close>

function valid_utf8 :: "str \<Rightarrow> bool" where
  "valid_utf8 [] \<longleftrightarrow> True"
| "valid_utf8 (c # s) \<longleftrightarrow>
     (case follow c of
        None \<Rightarrow> False | Some ps \<Rightarrow> fitting ps s = length ps \<and> valid_utf8 (drop (length ps) s))"
  by pat_completeness auto
termination
  by (relation "measure length") auto

section \<open>Charsets\<close>

datatype Charset =
  Utf8 | Utf16Le | Utf16Be | Utf32Le | Utf32Be | Gbk | ShiftJis | Iso88591 | Windows1252 | Big5 | Euckr | UnknownCharset

record EncodingInfo =
  charset :: Charset
  confidence :: f32
  bom_detected :: bool
  sample_text :: str

record text_crates =
  tc_lower :: "str \<Rightarrow> str"
  tc_decode :: "Charset \<Rightarrow> str \<Rightarrow> str \<times> bool"

record EncodingDetector =
  confidence_threshold :: f32
  max_sample_size :: nat
  supported_charsets :: "Charset list"
  detector_default :: str

definition default_charsets :: "Charset list" where
  "default_charsets = [Utf8, Gbk, ShiftJis, Big5, Iso88591, Windows1252]"

definition detector_with_defaults :: EncodingDetector where
  "detector_with_defaults =
     \<lparr>confidence_threshold = f32_of_rat (8 / 10), max_sample_size = 8192,
      supported_charsets = default_charsets, detector_default = ''utf-8''\<rparr>"

text \<open>\<open>new\<close> and \<open>with_config\<close>: the two fields of the configuration they read.\<close>

definition detector_new :: "f32 \<Rightarrow> str \<Rightarrow> EncodingDetector" where
  "detector_new encoding_detection_confidence default_encoding =
     \<lparr>confidence_threshold = encoding_detection_confidence, max_sample_size = 8192,
      supported_charsets = default_charsets, detector_default = default_encoding\<rparr>"

section \<open>Detection\<close>

definition bom_info :: "Charset \<Rightarrow> str \<Rightarrow> EncodingInfo" where
  "bom_info cs text = \<lparr>charset = cs, confidence = f32_of_rat 1, bom_detected = True, sample_text = text\<rparr>"

definition detect_bom :: "str \<Rightarrow> EncodingInfo option" where
  "detect_bom data =
     (if length data < 3 then None
      else if take 3 data = [CHR 0xEF, CHR 0xBB, CHR 0xBF] then Some (bom_info Utf8 ''UTF-8 with BOM'')
      else if take 2 data = [CHR 0xFF, CHR 0xFE] then Some (bom_info Utf16Le ''UTF-16 LE with BOM'')
      else if take 2 data = [CHR 0xFE, CHR 0xFF] then Some (bom_info Utf16Be ''UTF-16 BE with BOM'')
      else if 4 \<le> length data then
        (if take 4 data = [CHR 0xFF, CHR 0xFE, CHR 0x00, CHR 0x00] then Some (bom_info Utf32Le ''UTF-32 LE with BOM'')
         else if take 4 data = [CHR 0x00, CHR 0x00, CHR 0xFE, CHR 0xFF] then Some (bom_info Utf32Be ''UTF-32 BE with BOM'')
         else None)
      else None)"

text \<open>The scans count the valid and all characters; \<open>counted\<close> adds one character.\<close>

definition counted :: "bool \<Rightarrow> nat \<times> nat \<Rightarrow> nat \<times> nat" where
  "counted ok vt = (fst vt + of_bool ok, snd vt + 1)"

function utf8_scan :: "str \<Rightarrow> nat \<times> nat" where
  "utf8_scan [] = (0, 0)"
| "utf8_scan (c # s) =
     (if code c < 128 then counted True (utf8_scan s)
      else if 192 \<le> code c \<and> code c < 224 then
        counted (0 < length s \<and> is_continuation (s ! 0)) (utf8_scan (drop 1 s))
      else if 224 \<le> code c \<and> code c < 240 then
        counted (1 < length s \<and> is_continuation (s ! 0) \<and> is_continuation (s ! 1)) (utf8_scan (drop 2 s))
      else if 240 \<le> code c \<and> code c < 248 then
        counted (2 < length s \<and> is_continuation (s ! 0) \<and> is_continuation (s ! 1) \<and> is_continuation (s ! 2)) (utf8_scan (drop 3 s))
      else counted False (utf8_scan s))"
  by pat_completeness auto
termination
  by (relation "measure length") auto

text \<open>The quotient of two \<open>usize\<close> as \<open>f32\<close>, and the result of a scan.\<close>

definition f32_ratio :: "nat \<Rightarrow> nat \<Rightarrow> f32" where
  "f32_ratio v t =
     (case (f32_of_rat (of_nat v), f32_of_rat (of_nat t)) of
        (Finite _ a, Finite _ b) \<Rightarrow> f32_of_rat (a / b) | _ \<Rightarrow> NaN)"

definition scan_result :: "nat \<times> nat \<Rightarrow> f32" where
  "scan_result vt = (if 0 < snd vt then f32_ratio (fst vt) (snd vt) else f32_of_rat 0)"

definition check_utf8_validity :: "str \<Rightarrow> f32" where
  "check_utf8_validity data = scan_result (utf8_scan data)"

text \<open>The three checks of double-byte encodings differ in the pairs they accept.\<close>

fun pair_scan :: "(char \<Rightarrow> char \<Rightarrow> bool) \<Rightarrow> str \<Rightarrow> nat \<times> nat" where
  "pair_scan ok [] = (0, 0)"
| "pair_scan ok [c] = counted (code c < 128) (0, 0)"
| "pair_scan ok (c # d # s) =
     (if code c < 128 then counted True (pair_scan ok (d # s)) else counted (ok c d) (pair_scan ok s))"

definition gbk_pair :: "char \<Rightarrow> char \<Rightarrow> bool" where
  "gbk_pair c d \<longleftrightarrow> in_range 129 254 c \<and> (in_range 64 126 d \<or> in_range 128 254 d)"

definition shift_jis_pair :: "char \<Rightarrow> char \<Rightarrow> bool" where
  "shift_jis_pair c d \<longleftrightarrow> (in_range 129 159 c \<or> in_range 224 239 c) \<and> in_range 64 252 d \<and> code d \<noteq> 127"

definition big5_pair :: "char \<Rightarrow> char \<Rightarrow> bool" where
  "big5_pair c d \<longleftrightarrow> in_range 161 254 c \<and> (in_range 64 126 d \<or> in_range 161 254 d)"

definition check_gbk_patterns :: "str \<Rightarrow> f32" where
  "check_gbk_patterns data = scan_result (pair_scan gbk_pair data)"

definition check_shift_jis_patterns :: "str \<Rightarrow> f32" where
  "check_shift_jis_patterns data = scan_result (pair_scan shift_jis_pair data)"

definition check_big5_patterns :: "str \<Rightarrow> f32" where
  "check_big5_patterns data = scan_result (pair_scan big5_pair data)"

definition check_iso88591_patterns :: "str \<Rightarrow> f32" where
  "check_iso88591_patterns data =
     (if length (filter (\<lambda>c. 128 \<le> code c) data) > 0
      then if f32_less (check_utf8_validity data) (f32_of_rat (1 / 2)) then f32_of_rat (7 / 10) else f32_of_rat (2 / 10)
      else f32_of_rat (1 / 2))"

definition check_windows1252_patterns :: "str \<Rightarrow> f32" where
  "check_windows1252_patterns data =
     (if length (filter (in_range 128 159) data) > 0 \<or> length (filter (\<lambda>c. 160 \<le> code c) data) > 0
      then if f32_less (check_utf8_validity data) (f32_of_rat (1 / 2)) then f32_of_rat (6 / 10) else f32_of_rat (1 / 10)
      else f32_of_rat (3 / 10))"

definition calculate_encoding_confidence :: "str \<Rightarrow> Charset \<Rightarrow> f32" where
  "calculate_encoding_confidence data cs =
     (case cs of
        Utf8 \<Rightarrow> check_utf8_validity data | Gbk \<Rightarrow> check_gbk_patterns data
      | ShiftJis \<Rightarrow> check_shift_jis_patterns data | Big5 \<Rightarrow> check_big5_patterns data
      | Iso88591 \<Rightarrow> check_iso88591_patterns data | Windows1252 \<Rightarrow> check_windows1252_patterns data
      | _ \<Rightarrow> f32_of_rat 0)"

text \<open>
  The candidates in descending order; the sort is stable.  No confidence is a NaN
  (\<open>confidence_finite\<close>), so the comparison of the sort never fails.
\<close>

definition f32_value :: "f32 \<Rightarrow> rat" where
  "f32_value x = (case x of Finite neg m \<Rightarrow> signed neg m | _ \<Rightarrow> 0)"

definition analyze_byte_patterns :: "EncodingDetector \<Rightarrow> str \<Rightarrow> (Charset \<times> f32) list" where
  "analyze_byte_patterns det data =
     sort_key (\<lambda>(cs, x). - f32_value x)
       (filter (\<lambda>(cs, x). f32_less (f32_of_rat (1 / 10)) x)
         (map (\<lambda>cs. (cs, calculate_encoding_confidence data cs)) (supported_charsets det)))"

definition charset_names :: "(str \<times> Charset) list" where
  "charset_names =
     [(''utf-8'', Utf8), (''utf8'', Utf8), (''utf-16le'', Utf16Le), (''utf16le'', Utf16Le),
      (''utf-16be'', Utf16Be), (''utf16be'', Utf16Be), (''utf-32le'', Utf32Le), (''utf32le'', Utf32Le),
      (''utf-32be'', Utf32Be), (''utf32be'', Utf32Be), (''gbk'', Gbk), (''gb2312'', Gbk),
      (''shift-jis'', ShiftJis), (''shift_jis'', ShiftJis), (''sjis'', ShiftJis), (''iso-8859-1'', Iso88591),
      (''iso88591'', Iso88591), (''latin1'', Iso88591), (''windows-1252'', Windows1252),
      (''windows1252'', Windows1252), (''cp1252'', Windows1252), (''big5'', Big5), (''euc-kr'', Euckr),
      (''euckr'', Euckr)]"

definition parse_charset_name :: "text_crates \<Rightarrow> str \<Rightarrow> Charset" where
  "parse_charset_name crates name =
     (case map_of charset_names (tc_lower crates name) of Some cs \<Rightarrow> cs | None \<Rightarrow> Utf8)"

text \<open>Both branches of \<open>decode_sample\<close> give the lossy text.\<close>

definition decode_sample :: "str \<Rightarrow> str" where
  "decode_sample data = from_utf8_lossy (take 200 data)"

definition default_info :: "text_crates \<Rightarrow> EncodingDetector \<Rightarrow> str \<Rightarrow> str \<Rightarrow> f32 \<Rightarrow> EncodingInfo" where
  "default_info crates det message data x =
     \<lparr>charset = parse_charset_name crates (detector_default det), confidence = x, bom_detected = False,
      sample_text = message @ '', using default: '' @ detector_default det @ '' (sample: ''
        @ concat (take 50 (utf8_chars (decode_sample data))) @ '')''\<rparr>"

definition select_best_encoding ::
    "text_crates \<Rightarrow> EncodingDetector \<Rightarrow> (Charset \<times> f32) list \<Rightarrow> str \<Rightarrow> EncodingInfo" where
  "select_best_encoding crates det candidates data =
     (case candidates of
        [] \<Rightarrow> default_info crates det ''Unable to detect encoding'' data (f32_of_rat (1 / 10))
      | (cs, x) # _ \<Rightarrow>
          if f32_less x (confidence_threshold det)
          then default_info crates det ''Low confidence detection'' data (f32_of_rat (1 / 2))
          else \<lparr>charset = cs, confidence = x, bom_detected = False, sample_text = decode_sample data\<rparr>)"

definition detect_encoding :: "text_crates \<Rightarrow> EncodingDetector \<Rightarrow> str \<Rightarrow> EncodingInfo" where
  "detect_encoding crates det data =
     (case detect_bom data of
        Some info \<Rightarrow> info
      | None \<Rightarrow> select_best_encoding crates det (analyze_byte_patterns det data) data)"

text \<open>\<open>Read::read\<close> of a regular file fills the buffer as far as the file goes.\<close>

definition detect_file_encoding ::
    "text_crates \<Rightarrow> os \<Rightarrow> EncodingDetector \<Rightarrow> path \<Rightarrow> (SubXError, EncodingInfo) io" where
  "detect_file_encoding crates os det p =
     map_err_io Io
       (bind_io (check_file_size os p 52428800 ''Subtitle'') (\<lambda>_.
        bind_io (open_file os p) (\<lambda>_.
        bind_io (read_to_string os p) (\<lambda>content.
          return_io (detect_encoding crates det (take (max_sample_size det) content))))))"

section \<open>Conversion\<close>

record EncodingResult =
  converted_text :: str
  original_encoding :: Charset
  target_encoding :: Charset
  bytes_processed :: nat
  had_errors :: bool
  error_count :: nat

text \<open>The keys of the converter's map from charsets to encodings.\<close>

definition encoding_map :: "Charset set" where
  "encoding_map = {Utf8, Gbk, ShiftJis, Big5, Windows1252, Iso88591}"

fun charset_debug :: "Charset \<Rightarrow> str" where
  "charset_debug Utf8 = ''Utf8''" | "charset_debug Utf16Le = ''Utf16Le''" | "charset_debug Utf16Be = ''Utf16Be''"
| "charset_debug Utf32Le = ''Utf32Le''" | "charset_debug Utf32Be = ''Utf32Be''" | "charset_debug Gbk = ''Gbk''"
| "charset_debug ShiftJis = ''ShiftJis''" | "charset_debug Iso88591 = ''Iso88591''"
| "charset_debug Windows1252 = ''Windows1252''" | "charset_debug Big5 = ''Big5''" | "charset_debug Euckr = ''Euckr''"
| "charset_debug UnknownCharset = ''Unknown''"

definition count_replacement_chars :: "str \<Rightarrow> nat" where
  "count_replacement_chars s = length (filter (\<lambda>c. c = replacement) (utf8_chars s))"

definition convert_to_utf8 :: "text_crates \<Rightarrow> str \<Rightarrow> Charset \<Rightarrow> EncodingResult res" where
  "convert_to_utf8 crates data source =
     (if source = Utf8
      then Inr \<lparr>converted_text = from_utf8_lossy data, original_encoding = Utf8, target_encoding = Utf8,
                bytes_processed = length data, had_errors = False, error_count = 0\<rparr>
      else if source \<notin> encoding_map then Inl (Other (''Unsupported encoding: '' @ charset_debug source))
      else
        (let (converted, errors) = tc_decode crates source data
         in Inr \<lparr>converted_text = converted, original_encoding = source, target_encoding = Utf8,
                 bytes_processed = length data, had_errors = errors,
                 error_count = (if errors then count_replacement_chars converted else 0)\<rparr>))"

definition skip_bom :: "str \<Rightarrow> Charset \<Rightarrow> str" where
  "skip_bom data cs =
     (if cs = Utf8 \<and> prefix [CHR 0xEF, CHR 0xBB, CHR 0xBF] data then drop 3 data
      else if cs = Utf16Le \<and> prefix [CHR 0xFF, CHR 0xFE] data then drop 2 data
      else if cs = Utf16Be \<and> prefix [CHR 0xFE, CHR 0xFF] data then drop 2 data
      else if cs = Utf32Le \<and> prefix [CHR 0xFF, CHR 0xFE, CHR 0x00, CHR 0x00] data then drop 4 data
      else if cs = Utf32Be \<and> prefix [CHR 0x00, CHR 0x00, CHR 0xFE, CHR 0xFF] data then drop 4 data
      else data)"

definition convert_file_to_utf8 ::
    "text_crates \<Rightarrow> os \<Rightarrow> path \<Rightarrow> EncodingInfo \<Rightarrow> (SubXError, EncodingResult) io" where
  "convert_file_to_utf8 crates os p info =
     bind_io (map_err_io Io
       (bind_io (check_file_size os p 52428800 ''Subtitle'') (\<lambda>_. read_to_string os p)))
     (\<lambda>data fs. (convert_to_utf8 crates (if bom_detected info then skip_bom data (charset info) else data) (charset info), fs))"

record EncodingValidation =
  is_valid :: bool
  ev_confidence :: f32
  ev_warnings :: "str list"

definition generate_warnings :: "EncodingResult \<Rightarrow> str list" where
  "generate_warnings r =
     (if had_errors r then [''Encoding conversion had '' @ show_nat (error_count r) @ '' replacement characters''] else [])
     @ (if bytes_processed r div 10 < error_count r
        then [''High error rate detected - encoding may be incorrect''] else [])"

text \<open>\<open>1.0 - x\<close> for a quotient; that of an empty text is a NaN.\<close>

definition one_minus :: "f32 \<Rightarrow> f32" where
  "one_minus x = (case x of Finite _ _ \<Rightarrow> f32_of_rat (1 - f32_value x) | _ \<Rightarrow> NaN)"

definition validate_encoding :: "EncodingResult \<Rightarrow> EncodingValidation" where
  "validate_encoding r =
     \<lparr>is_valid = (\<not> had_errors r \<or> error_count r = 0),
      ev_confidence =
        (if had_errors r
         then if converted_text r = [] then NaN else one_minus (f32_ratio (error_count r) (length (converted_text r)))
         else f32_of_rat 1),
      ev_warnings = generate_warnings r\<rparr>"

end
