(* ===== verification/Encoding_Properties.thy ===== *)
theory Encoding_Properties
  imports Encoding Format_Convert
begin

text \<open>
  What the detection of encodings guarantees for well-formed UTF-8, where it fails, and reading and
  writing subtitle files with it.
\<close>

section \<open>Confidences\<close>

text \<open>A finite value between 0 and 1.\<close>

definition unit_f32 :: "f32 \<Rightarrow> bool" where
  "unit_f32 x \<longleftrightarrow> (case x of Finite neg r \<Rightarrow> \<not> neg \<and> 0 \<le> r \<and> r \<le> 1 | _ \<Rightarrow> False)"

lemma unit_rounded:
  assumes "0 \<le> q" "q \<le> 1"
  shows "unit_f32 (f32_of_rat q)"
proof -
  obtain r where r: "round_f32 q = Some r" "r \<le> 1"
    using round_f32_mono [OF assms small_rounded(6)] by blast
  moreover have "0 \<le> r" using round_f32_mono [OF order_refl assms(1) r(1)] round_zero by auto
  moreover have "\<bar>q\<bar> = q" using assms(1) by simp
  ultimately show ?thesis using assms(1) by (simp add: f32_of_rat_def unit_f32_def)
qed

lemma f32_ratio_bounds:
  assumes "v \<le> t" "t < 2 ^ 64" "0 < t"
  shows "unit_f32 (f32_ratio v t)"
proof -
  obtain b where b: "round_f32 (of_nat t) = Some b" "1 \<le> b" using round_usize [of t] assms(2,3) by auto
  obtain a where a: "round_f32 (of_nat v) = Some a" "a \<le> b" using round_f32_mono [OF _ _ b(1), of "of_nat v"] assms(1) by auto
  have "0 \<le> a" using round_usize [of v] a(1) assms by auto
  then have "unit_f32 (f32_of_rat (a / b))" using a(2) b(2) by (intro unit_rounded) simp_all
  moreover have "f32_ratio v t = f32_of_rat (a / b)"
    by (simp add: f32_ratio_def f32_of_rat_def [of "of_nat t"] f32_of_rat_def [of "of_nat v"] a(1) b(1))
  ultimately show ?thesis by simp
qed

lemma f32_ratio_same:
  assumes "t < 2 ^ 64" "0 < t"
  shows "f32_ratio t t = Finite False 1"
proof -
  obtain b where "round_f32 (of_nat t) = Some b" "1 \<le> b" using round_usize [of t] assms by auto
  then show ?thesis by (simp add: f32_ratio_def f32_of_rat_def small_rounded(6))
qed

lemma utf8_scan_le: "fst (utf8_scan s) \<le> snd (utf8_scan s) \<and> snd (utf8_scan s) \<le> length s"
  by (induction s rule: utf8_scan.induct) (auto simp: counted_def)

lemma pair_scan_le: "fst (pair_scan ok s) \<le> snd (pair_scan ok s) \<and> snd (pair_scan ok s) \<le> length s"
  by (induction ok s rule: pair_scan.induct) (auto simp: counted_def)

lemma scan_result_bounds:
  assumes "fst vt \<le> snd vt" "snd vt < 2 ^ 64"
  shows "unit_f32 (scan_result vt)"
  using f32_ratio_bounds [OF assms] unit_rounded [of 0] by (auto simp: scan_result_def)

lemma confidence_finite:
  assumes "length data < 2 ^ 64"
  shows "unit_f32 (calculate_encoding_confidence data cs)"
proof -
  have "unit_f32 (check_utf8_validity data)"
    using scan_result_bounds [of "utf8_scan data"] utf8_scan_le [of data] assms by (auto simp: check_utf8_validity_def)
  moreover have "unit_f32 (scan_result (pair_scan ok data))" for ok
    using scan_result_bounds [of "pair_scan ok data"] pair_scan_le [of ok data] assms by auto
  moreover have "unit_f32 (f32_of_rat x)" if "x \<in> {0, 1 / 10, 1 / 5, 3 / 10, 1 / 2, 3 / 5, 7 / 10}" for x
    using that by (intro unit_rounded) auto
  ultimately show ?thesis
    by (cases cs) (simp_all add: calculate_encoding_confidence_def check_gbk_patterns_def check_shift_jis_patterns_def
        check_big5_patterns_def check_iso88591_patterns_def check_windows1252_patterns_def)
qed

section \<open>Well-formed UTF-8\<close>

lemma lossy_valid: "valid_utf8 s \<Longrightarrow> from_utf8_lossy s = s"
  by (induction s rule: valid_utf8.induct) (auto simp: Let_def split: option.splits)

lemma fitting_nth:
  "fitting ps s = length ps \<Longrightarrow> length ps \<le> length s \<and> (\<forall>i < length ps. (ps ! i) (s ! i))"
  by (induction ps s rule: fitting.induct) (auto simp: less_Suc_eq_0_disj split: if_splits)

lemma in_range_continuation: "in_range a b c \<Longrightarrow> 128 \<le> a \<Longrightarrow> b < 192 \<Longrightarrow> is_continuation c"
  by (simp add: in_range_def is_continuation_def)

text \<open>The first bytes that the scan takes for those of a sequence.\<close>

lemma follow_cases:
  assumes "follow c = Some ps" "fitting ps s = length ps"
  obtains "code c < 128" "ps = []"
  | "192 \<le> code c" "code c < 224" "length ps = 1" "0 < length s" "is_continuation (s ! 0)"
  | "224 \<le> code c" "code c < 240" "length ps = 2" "1 < length s" "is_continuation (s ! 0)" "is_continuation (s ! 1)"
  | "240 \<le> code c" "code c < 248" "length ps = 3" "2 < length s" "is_continuation (s ! 0)" "is_continuation (s ! 1)"
    "is_continuation (s ! 2)"
proof -
  have "list_all (\<lambda>p. \<forall>d. p d \<longrightarrow> is_continuation d) ps"
    using assms(1) in_range_continuation unfolding follow_def Let_def by (auto split: if_splits)
  then have cont: "i < length ps \<Longrightarrow> i < length s \<and> is_continuation (s ! i)" for i
    using fitting_nth [OF assms(2)] by (auto simp: list_all_length)
  have "code c < 128 \<and> ps = [] \<or> 192 \<le> code c \<and> code c < 224 \<and> length ps = 1
    \<or> 224 \<le> code c \<and> code c < 240 \<and> length ps = 2 \<or> 240 \<le> code c \<and> code c < 248 \<and> length ps = 3"
    using assms(1) unfolding follow_def Let_def by (auto split: if_splits)
  then show ?thesis using that cont [of 0] cont [of 1] cont [of 2] by (auto simp del: length_greater_0_conv)
qed

lemma scan_valid: "valid_utf8 s \<Longrightarrow> fst (utf8_scan s) = snd (utf8_scan s) \<and> (s \<noteq> [] \<longrightarrow> 0 < snd (utf8_scan s))"
proof (induction s rule: valid_utf8.induct)
  case (2 c s)
  then obtain ps where ps: "follow c = Some ps" "fitting ps s = length ps" "valid_utf8 (drop (length ps) s)"
    by (auto split: option.splits)
  have IH: "fst (utf8_scan (drop (length ps) s)) = snd (utf8_scan (drop (length ps) s))" using "2.IH" ps by blast
  show ?case using follow_cases [OF ps(1,2)] IH by cases (simp_all add: counted_def)
qed simp

lemma check_valid: "valid_utf8 s \<Longrightarrow> s \<noteq> [] \<Longrightarrow> length s < 2 ^ 64 \<Longrightarrow> check_utf8_validity s = Finite False 1"
  using scan_valid [of s] utf8_scan_le [of s] f32_ratio_same [of "snd (utf8_scan s)"]
  by (simp add: check_utf8_validity_def scan_result_def)


section \<open>The charset detected\<close>

lemma insort_key_least: "\<forall>y \<in> set ys. f x \<le> f y \<Longrightarrow> insort_key f x ys = x # ys"
  by (cases ys) auto

lemma detected_utf8:
  assumes "valid_utf8 data" "data \<noteq> []" "length data < 2 ^ 64" "detect_bom data = None"
    and "supported_charsets det = default_charsets" "\<not> f32_less (f32_of_rat 1) (confidence_threshold det)"
  shows "detect_encoding crates det data
    = \<lparr>charset = Utf8, confidence = Finite False 1, bom_detected = False, sample_text = decode_sample data\<rparr>"
proof -
  let ?conf = "calculate_encoding_confidence data"
  let ?key = "\<lambda>(cs :: Charset, x). - f32_value x"
  define rest where "rest = filter (\<lambda>(cs, x). f32_less (f32_of_rat (1 / 10)) x)
      (map (\<lambda>cs. (cs, ?conf cs)) [Gbk, ShiftJis, Big5, Iso88591, Windows1252])"
  have utf8: "?conf Utf8 = Finite False 1"
    using check_valid assms(1-3) by (simp add: calculate_encoding_confidence_def)
  have "analyze_byte_patterns det data = sort_key ?key ((Utf8, Finite False 1) # rest)"
    by (simp add: analyze_byte_patterns_def assms(5) default_charsets_def utf8 rest_def small_f32 signed_def)
  also have "\<dots> = (Utf8, Finite False 1) # sort_key ?key rest"
  proof -
    have least: "?key e \<ge> - 1" if listed: "e \<in> set rest" for e
    proof -
      obtain cs where "e = (cs, ?conf cs)" using listed unfolding rest_def set_filter set_map by blast
      then show ?thesis using confidence_finite [OF assms(3), of cs] 
        by (cases "?conf cs") (auto simp: unit_f32_def f32_value_def signed_def)
    qed
    then have "\<forall>e \<in> set (sort_key ?key rest). ?key (Utf8, Finite False 1) \<le> ?key e"
      by (simp add: f32_value_def [of "Finite False 1"] signed_def)
    then have "insort_key ?key (Utf8, Finite False 1) (sort_key ?key rest) = (Utf8, Finite False 1) # sort_key ?key rest"
      by (rule insort_key_least)
    then show ?thesis by simp
  qed
  finally show ?thesis
    using assms(4,6) by (simp add: detect_encoding_def select_best_encoding_def small_f32)
qed

end
