(* ===== verification/Subtitle_Files.thy ===== *)
theory Subtitle_Files
  imports Encoding_Properties
begin

text \<open>
  Subtitle files: reading with detection of the encoding and saving (\<open>src/core/formats/manager.rs\<close>) and
  the conversion of a file (\<open>src/core/formats/converter.rs\<close>), over a file system whose calls may fail.
\<close>

section \<open>Operations\<close>

definition lift_res :: "('e + 'a) \<Rightarrow> ('e, 'a) io" where
  "lift_res r fs = (r, fs)"

definition check_subtitle_size :: "os \<Rightarrow> path \<Rightarrow> (SubXError, unit) io" where
  "check_subtitle_size os p = map_err_io Io (check_file_size os p 52428800 ''Subtitle'')"

text \<open>The warnings about the conversion are only logged.\<close>

definition read_subtitle_with_encoding_detection :: "text_crates \<Rightarrow> os \<Rightarrow> path \<Rightarrow> (SubXError, str) io" where
  "read_subtitle_with_encoding_detection crates os p =
     bind_io (check_subtitle_size os p) (\<lambda>_.
     bind_io (detect_file_encoding crates os detector_with_defaults p) (\<lambda>info.
     bind_io (convert_file_to_utf8 crates os p info) (\<lambda>r. return_io (converted_text r))))"

definition get_encoding_info :: "text_crates \<Rightarrow> os \<Rightarrow> path \<Rightarrow> (SubXError, EncodingInfo) io" where
  "get_encoding_info crates os p = detect_file_encoding crates os detector_with_defaults p"

definition load_subtitle :: "regex_crate \<Rightarrow> text_crates \<Rightarrow> os \<Rightarrow> path \<Rightarrow> (SubXError, Subtitle) io" where
  "load_subtitle eng crates os p =
     bind_io (check_subtitle_size os p) (\<lambda>_.
       if \<not> valid_utf8 (path_display p) then fail_io (SubtitleFormat [] ''Invalid file path encoding'')
       else bind_io (read_subtitle_with_encoding_detection crates os p) (\<lambda>content. lift_res (parse_auto eng content)))"

definition write_text :: "os \<Rightarrow> path \<Rightarrow> str \<Rightarrow> (SubXError, unit) io" where
  "write_text os p out = map_err_io Io (bind_io (create_file os p) (\<lambda>_. write_all os p out))"

definition save_subtitle :: "regex_crate \<Rightarrow> os \<Rightarrow> Subtitle \<Rightarrow> path \<Rightarrow> (SubXError, unit) io" where
  "save_subtitle eng os s p = bind_io (lift_res (save_text eng s p)) (\<lambda>out. write_text os p out)"

definition read_file_with_encoding :: "text_crates \<Rightarrow> os \<Rightarrow> path \<Rightarrow> (SubXError, str) io" where
  "read_file_with_encoding crates os p =
     bind_io (check_subtitle_size os p) (\<lambda>_.
     bind_io (map_err_io Io (read_to_string os p)) (\<lambda>bytes.
     bind_io (lift_res (convert_to_utf8 crates bytes (charset (detect_encoding crates detector_with_defaults bytes))))
       (\<lambda>r. return_io (converted_text r))))"

definition convert_file ::
    "regex_crate \<Rightarrow> text_crates \<Rightarrow> os \<Rightarrow> ConversionConfig \<Rightarrow> path \<Rightarrow> path \<Rightarrow> str \<Rightarrow> (SubXError, ConversionResult) io" where
  "convert_file eng crates os cfg src dst target_format =
     bind_io (read_file_with_encoding crates os src) (\<lambda>input_content.
     bind_io (lift_res (convert_text eng cfg input_content target_format)) (\<lambda>(output_content, result).
     bind_io (write_text os dst output_content) (\<lambda>_. return_io result)))"

section \<open>Reading well-formed files\<close>

definition readable :: "os \<Rightarrow> path \<Rightarrow> files \<Rightarrow> bool" where
  "readable os p fs \<longleftrightarrow> list_all (\<lambda>call. fault os call fs = None) [CallMetadata p, CallOpen p, CallRead p]"

lemma readable_calls:
  assumes "readable os p fs" "fs p = Some data" "length data \<le> 52428800"
  shows "check_file_size os p 52428800 label fs = (Inr (), fs)" "open_file os p fs = (Inr (), fs)"
    "read_to_string os p fs = (Inr data, fs)"
  using assms by (simp_all add: readable_def check_file_size_def open_file_def read_to_string_def sys_def)

lemmas running = bind_io_def map_err_io_def return_io_def lift_res_def

lemma read_detected:
  assumes "readable os p fs" "fs p = Some data" "length data \<le> 52428800"
  shows "read_subtitle_with_encoding_detection crates os p fs =
    (let info = detect_encoding crates detector_with_defaults (take 8192 data)
     in (bind_res (convert_to_utf8 crates (if bom_detected info then skip_bom data (charset info) else data) (charset info))
           (\<lambda>r. Inr (converted_text r)), fs))"
proof -
  note calls = readable_calls [OF assms]
  have "detect_file_encoding crates os detector_with_defaults p fs
      = (Inr (detect_encoding crates detector_with_defaults (take 8192 data)), fs)"
    by (simp add: detect_file_encoding_def calls running detector_with_defaults_def)
  then show ?thesis
    by (simp add: read_subtitle_with_encoding_detection_def check_subtitle_size_def convert_file_to_utf8_def calls running
        Let_def bind_res_def split: sum.splits)
qed

lemma defaults_detect:
  assumes "valid_utf8 data" "data \<noteq> []" "length data \<le> 52428800" "detect_bom data = None"
  shows "detect_encoding crates detector_with_defaults data
    = \<lparr>charset = Utf8, confidence = Finite False 1, bom_detected = False, sample_text = decode_sample data\<rparr>"
  using assms by (intro detected_utf8) (simp_all add: detector_with_defaults_def small_f32 signed_def)

lemma read_valid:
  assumes "readable os p fs" "fs p = Some data" "length data \<le> 52428800"
    and "valid_utf8 data" "valid_utf8 (take 8192 data)" "data \<noteq> []" "detect_bom (take 8192 data) = None"
  shows "read_subtitle_with_encoding_detection crates os p fs = (Inr data, fs)"
proof -
  have "take 8192 data \<noteq> []" "length (take 8192 data) \<le> 52428800" using assms(6) by simp_all
  note info = defaults_detect [OF assms(5) this assms(7)]
  show ?thesis
    unfolding read_detected [OF assms(1-3)] info
    by (simp add: convert_to_utf8_def bind_res_def lossy_valid [OF assms(4)])
qed

section \<open>Saved subtitles\<close>

lemma write_stores:
  assumes "write_text os p out fs = (Inr u, fs')"
  shows "fs' p = Some out"
  using assms
  by (auto simp: write_text_def map_err_io_def bind_io_def create_file_def sys_def write_all_def
      split: prod.splits sum.splits option.splits)

lemma saved_loads:
  assumes "save_subtitle eng os s p fs = (Inr (), fs')" "save_text eng s p = Inr out"
    and "readable os p fs'" "valid_utf8 (path_display p)" "length out \<le> 52428800"
    and "valid_utf8 out" "valid_utf8 (take 8192 out)" "out \<noteq> []" "detect_bom (take 8192 out) = None"
  shows "load_subtitle eng crates os p fs' = (parse_auto eng out, fs')"
proof -
  have stored: "fs' p = Some out"
    using assms(1,2) write_stores [of os p out fs] by (simp add: save_subtitle_def lift_res_def bind_io_def)
  note calls = readable_calls [OF assms(3) stored assms(5)]
  note content = read_valid [OF assms(3) stored assms(5-9)]
  show ?thesis using assms(4) by (simp add: load_subtitle_def check_subtitle_size_def content calls running)
qed

lemma ass_saved_text:
  assumes "ass_serialize s = Inr out"
  shows "out \<noteq> [] \<and> detect_bom (take 8192 out) = None \<and> ass_detect out"
proof -
  obtain rest where out: "out = ''[Script Info]'' @ rest" using assms by (auto simp: ass_serialize_def ass_header_lines_def)
  then have "\<exists>a b. out = a @ ''[Script Info]'' @ b" by (metis append_Nil)
  then have "ass_detect out" by (simp add: ass_detect_def sublist_def)
  then show ?thesis by (simp add: out detect_bom_def)
qed


section \<open>Where the detection fails\<close>

text \<open>Texts of one Chinese character, three bytes each.\<close>

definition han :: "nat \<Rightarrow> str" where
  "han k = concat (replicate k [CHR 0xE4, CHR 0xBD, CHR 0xA0])"

lemma han_simps [simp]: "han 0 = []" "han (Suc k) = CHR 0xE4 # CHR 0xBD # CHR 0xA0 # han k" "length (han k) = 3 * k"
  by (simp_all add: han_def length_concat sum_list_replicate)

lemma han_add: "han (j + k) = han j @ han k"
  by (induction j) simp_all

lemma han_valid: "valid_utf8 (han k)"
  by (induction k) (simp_all add: follow_def is_continuation_def)

lemma han_sample: "take 8192 (han (2731 + k)) = han 2730 @ [CHR 0xE4, CHR 0xBD]"
proof -
  have "han (2731 + k) = han 2730 @ han (Suc k)" using han_add [of 2730 "Suc k"] by simp
  then show ?thesis by simp
qed

lemma han_utf8_scan: "utf8_scan (han k @ [CHR 0xE4, CHR 0xBD]) = (k, Suc k)"
  by (induction k) (simp_all add: counted_def is_continuation_def)

lemma han_gbk_scan: "pair_scan gbk_pair (han (2 * k) @ [CHR 0xE4, CHR 0xBD]) = (3 * k + 1, 3 * k + 1)"
  by (induction k) (simp_all add: counted_def gbk_pair_def in_range_def)

lemma partly_valid: "f32_ratio 2730 2731 = Finite False (16771073 / 16777216)"
proof -
  have "\<lfloor>45801799680 / 2731 :: rat\<rfloor> = 16771072" by (simp add: floor_eq_iff)
  then have "half_even (45801799680 / 2731) = 16771073" by (simp add: half_even_def)
  then have "f32_of_rat (2730 / 2731) = Finite False (16771073 / 16777216)"
    using round_f32_at [of "2730 / 2731" 24] by (simp add: f32_of_rat_def)
  moreover have "round_f32 2730 = Some 2730" "round_f32 2731 = Some 2731"
    using round_f32_at [of 2730 12] round_f32_at [of 2731 12] half_even_int [of "2730 * 2 ^ 12"] half_even_int [of "2731 * 2 ^ 12"]
    by simp_all
  ultimately show ?thesis by (simp add: f32_ratio_def f32_of_rat_def)
qed

lemma han_detected:
  "detect_encoding crates detector_with_defaults (han 2730 @ [CHR 0xE4, CHR 0xBD])
   = \<lparr>charset = Gbk, confidence = Finite False 1, bom_detected = False,
      sample_text = decode_sample (han 2730 @ [CHR 0xE4, CHR 0xBD])\<rparr>"
proof -
  let ?data = "han 2730 @ [CHR 0xE4, CHR 0xBD]"
  let ?conf = "calculate_encoding_confidence ?data"
  let ?key = "\<lambda>(cs :: Charset, x). - f32_value x"
  define rest where "rest = filter (\<lambda>(cs, x). f32_less (f32_of_rat (1 / 10)) x)
      (map (\<lambda>cs. (cs, ?conf cs)) [ShiftJis, Big5, Iso88591, Windows1252])"
  have utf8: "?conf Utf8 = Finite False (16771073 / 16777216)"
    by (simp add: calculate_encoding_confidence_def check_utf8_validity_def han_utf8_scan scan_result_def partly_valid)
  have gbk: "?conf Gbk = Finite False 1"
    using han_gbk_scan [of 1365] f32_ratio_same [of 4096]
    by (simp add: calculate_encoding_confidence_def check_gbk_patterns_def scan_result_def)
  have least: "?key e \<ge> - 1" if listed: "e \<in> set rest" for e
  proof -
    obtain cs where "e = (cs, ?conf cs)" using listed unfolding rest_def set_filter set_map by blast
    then show ?thesis using confidence_finite [of ?data cs]
      by (cases "?conf cs") (auto simp: unit_f32_def f32_value_def signed_def)
  qed
  have "analyze_byte_patterns detector_with_defaults ?data
      = sort_key ?key ((Utf8, Finite False (16771073 / 16777216)) # (Gbk, Finite False 1) # rest)"
    by (simp add: analyze_byte_patterns_def detector_with_defaults_def default_charsets_def utf8 gbk rest_def small_f32
        signed_def)
  also have "insort_key ?key (Gbk, Finite False 1) (sort_key ?key rest) = (Gbk, Finite False 1) # sort_key ?key rest"
    by (rule insort_key_least) (use least in \<open>simp add: f32_value_def [of "Finite False 1"] signed_def\<close>)
  then have "sort_key ?key ((Utf8, Finite False (16771073 / 16777216)) # (Gbk, Finite False 1) # rest)
      = (Gbk, Finite False 1) # insort_key ?key (Utf8, Finite False (16771073 / 16777216)) (sort_key ?key rest)"
    by (simp add: f32_value_def signed_def)
  finally have "analyze_byte_patterns detector_with_defaults ?data = (Gbk, Finite False 1)
      # insort_key ?key (Utf8, Finite False (16771073 / 16777216)) (sort_key ?key rest)" .
  moreover have "han 2730 = CHR 0xE4 # CHR 0xBD # CHR 0xA0 # han 2729" using han_simps(2) [of 2729] by simp
  then have "detect_bom ?data = None" by (simp add: detect_bom_def)
  ultimately show ?thesis
    by (simp add: detect_encoding_def select_best_encoding_def small_f32 detector_with_defaults_def signed_def)
qed

text \<open>
   A well-formed UTF-8 file whose 8192nd byte lies inside a character can be taken for GBK, since the
  cut character counts as invalid: a file of any number from 2731 of the character E4 BD A0 (up to the
  size limit) is not read as it is but through the GBK decoder.
\<close>

theorem cut_character_misleads:
  assumes "readable os p fs" "fs p = Some (han (2731 + k))" "3 * (2731 + k) \<le> 52428800"
  shows "valid_utf8 (han (2731 + k))
    \<and> read_subtitle_with_encoding_detection crates os p fs = (Inr (fst (tc_decode crates Gbk (han (2731 + k)))), fs)"
proof
  show "valid_utf8 (han (2731 + k))" by (rule han_valid)
  have "length (han (2731 + k)) \<le> 52428800" using assms(3) by simp
  note reading = read_detected [OF assms(1,2) this]
  show "read_subtitle_with_encoding_detection crates os p fs = (Inr (fst (tc_decode crates Gbk (han (2731 + k)))), fs)"
    unfolding reading han_sample han_detected
    by (simp add: convert_to_utf8_def encoding_map_def bind_res_def split: prod.splits)
qed

text \<open>
   Files in UTF-16 and UTF-32 are recognized by their byte order mark and then refused: the converter
  has no decoder for them, so loading and conversion end with an error.
\<close>

theorem wide_files_refused:
  assumes "readable os p fs" "fs p = Some (CHR 0xFF # CHR 0xFE # c # data)" "length data + 3 \<le> 52428800"
  shows "read_subtitle_with_encoding_detection crates os p fs = (Inl (Other ''Unsupported encoding: Utf16Le''), fs)
    \<and> read_file_with_encoding crates os p fs = (Inl (Other ''Unsupported encoding: Utf16Le''), fs)"
proof -
  have len: "length (CHR 0xFF # CHR 0xFE # c # data) \<le> 52428800" using assms(3) by simp
  note calls = readable_calls [OF assms(1,2) len] and reading = read_detected [OF assms(1,2) len]
  have info: "detect_encoding crates det (CHR 0xFF # CHR 0xFE # c # d) = bom_info Utf16Le ''UTF-16 LE with BOM''" for det d
    by (simp add: detect_encoding_def detect_bom_def)
  have "take 8192 (CHR 0xFF # CHR 0xFE # c # data) = CHR 0xFF # CHR 0xFE # c # take 8189 data" by simp
  then show ?thesis
    unfolding reading read_file_with_encoding_def
    by (simp add: info bom_info_def convert_to_utf8_def encoding_map_def bind_res_def calls running check_subtitle_size_def)
qed

section \<open>Files that are read as they are\<close>

text \<open>
   A file of well-formed UTF-8 whose sample of 8192 bytes ends at a character is read as it is, and
  with a byte order mark in front it is read without the mark.
\<close>

theorem utf8_files_read:
  assumes "readable os p fs" "fs p = Some data" "length data + 3 \<le> 52428800"
    and "valid_utf8 data" "valid_utf8 (take 8192 data)" "data \<noteq> []" "detect_bom (take 8192 data) = None"
    and "readable os q fs" "fs q = Some (bom @ data)"
  shows "read_subtitle_with_encoding_detection crates os p fs = (Inr data, fs)
    \<and> read_subtitle_with_encoding_detection crates os q fs = (Inr data, fs)"
proof
  show "read_subtitle_with_encoding_detection crates os p fs = (Inr data, fs)"
    using assms(3) by (intro read_valid assms(1,2,4-7)) simp
  have "length (bom @ data) \<le> 52428800" using assms(3) by (simp add: bom_def)
  note reading = read_detected [OF assms(8,9) this]
  have "detect_encoding crates det (take 8192 (bom @ data)) = bom_info Utf8 ''UTF-8 with BOM''" for det
    by (simp add: detect_encoding_def detect_bom_def bom_def)
  then show "read_subtitle_with_encoding_detection crates os q fs = (Inr data, fs)"
    unfolding reading
    by (simp add: bom_info_def convert_to_utf8_def skip_bom_def bom_def bind_res_def lossy_valid [OF assms(4)])
qed

text \<open>
   The conversion of a file of well-formed UTF-8, if it succeeds, writes exactly the converted text to
  the target and nothing else; the whole content, not a sample, decides the encoding.
\<close>

theorem convert_file_writes:
  assumes "fs src = Some data" "valid_utf8 data" "data \<noteq> []" "detect_bom data = None"
    and "convert_file eng crates os cfg src dst target fs = (Inr r, fs')"
  shows "\<exists>out. convert_text eng cfg data target = Inr (out, r) \<and> fs' = fs(dst \<mapsto> out)"
proof -
  have "length data \<le> 52428800 \<and> fault os (CallMetadata src) fs = None \<and> fault os (CallRead src) fs = None"
    using assms(1,5)
    by (auto simp: convert_file_def read_file_with_encoding_def check_subtitle_size_def check_file_size_def read_to_string_def
        sys_def bind_io_def map_err_io_def split: option.splits if_splits prod.splits)
  then have "read_file_with_encoding crates os src fs = (Inr data, fs)"
    using assms(1) defaults_detect [OF assms(2,3) _ assms(4)]
    by (simp add: read_file_with_encoding_def check_subtitle_size_def check_file_size_def read_to_string_def sys_def running
        convert_to_utf8_def lossy_valid [OF assms(2)])
  then obtain out where out: "convert_text eng cfg data target = Inr (out, r)" "write_text os dst out fs = (Inr (), fs')"
    using assms(5) by (auto simp: convert_file_def running split: sum.splits prod.splits)
  then have "fs' = fs(dst \<mapsto> out)"
    by (auto simp: write_text_def map_err_io_def bind_io_def create_file_def sys_def write_all_def
        split: prod.splits sum.splits option.splits)
  then show ?thesis using out by blast
qed

section \<open>ASCII texts\<close>

definition ascii :: "str \<Rightarrow> bool" where
  "ascii s \<longleftrightarrow> list_all (\<lambda>c. code c < 128) s"

lemma ascii_simps [simp]:
  "ascii []" "ascii (c # s) \<longleftrightarrow> code c < 128 \<and> ascii s" "ascii (a @ b) \<longleftrightarrow> ascii a \<and> ascii b"
  "ascii (replicate n c) \<longleftrightarrow> n = 0 \<or> code c < 128"
  by (auto simp: ascii_def list_all_iff)

lemma ascii_valid: "ascii s \<Longrightarrow> valid_utf8 s"
  by (induction s) (auto simp: follow_def ascii_def)

lemma ascii_take: "ascii s \<Longrightarrow> ascii (take n s)"
  by (auto simp: ascii_def list_all_iff dest: in_set_takeD)

lemma ascii_digits: "list_all is_digit s \<Longrightarrow> ascii s"
  by (auto simp: ascii_def list_all_iff is_digit_def)

lemma ascii_show_nat [simp]: "ascii (show_nat n)"
  by (rule ascii_digits) simp

lemma ascii_ass_time [simp]: "ascii (format_ass_time d)"
  by (simp add: format_ass_time_def Let_def pad0_def)

lemma ascii_header: "list_all ascii ass_header_lines"
  unfolding ass_header_lines_def by simp

lemma ascii_lines: "list_all ascii ls \<Longrightarrow> ascii (concat (map (\<lambda>l. l @ [LF]) ls))"
  by (induction ls) simp_all

section \<open>Witnesses\<close>

definition demo_ass :: Subtitle where
  "demo_ass = ass_subtitle [demo_entry 1 0 0 ''Hi'']"

definition demo_ass_text :: str where
  "demo_ass_text = (case ass_serialize demo_ass of Inr t \<Rightarrow> t | Inl _ \<Rightarrow> [])"

lemma demo_ass_serialized: "ass_serialize demo_ass = Inr demo_ass_text"
  by (simp add: demo_ass_text_def ass_serialize_def)

lemma demo_ass_ascii: "ascii demo_ass_text"
  using ascii_lines [OF ascii_header]
  by (simp add: demo_ass_text_def ass_serialize_def demo_ass_def ass_subtitle_def demo_entry_def ass_dialogue_def ass_escape_def)

lemma demo_ass_ok: "\<forall>e \<in> set (entries demo_ass). ass_entry_ok e"
proof -
  have "ass_text_ok ''Hi''"
    by (simp add: ass_text_ok_def ass_escape_def backslash_N_def MAX_CUE_BYTES_def sublist_Cons_right)
      (simp add: is_graphic_def trim_end_graphic [of "CHR ''i''" "''H''", simplified])
  then show ?thesis
    by (simp add: demo_ass_def ass_subtitle_def demo_entry_def ass_entry_ok_def centi_time_def as_millis_def)
qed

lemma demo_ass_length: "length demo_ass_text \<le> 1000"
  by (simp add: demo_ass_text_def ass_serialize_def demo_ass_def ass_subtitle_def demo_entry_def ass_dialogue_def ass_escape_def
    ass_header_lines_def format_ass_time_def as_millis_def pad0_def show_nat.simps)

lemma demo_ass_reread: "map (\<lambda>(i, e). reread i e) (enumerate 0 (entries demo_ass)) = entries demo_ass"
  by (simp add: demo_ass_def ass_subtitle_def demo_entry_def reread_def)

definition quiet_os :: os where
  "quiet_os = \<lparr>fault = (\<lambda>_ _. None), partial_bytes = (\<lambda>_ _. 0), canonical = (\<lambda>p. p), is_symlink = (\<lambda>_. False)\<rparr>"

definition demo_crates :: text_crates where
  "demo_crates = \<lparr>tc_lower = (\<lambda>s. s), tc_decode = (\<lambda>_ s. (s, False))\<rparr>"

definition demo_path_ass :: path where
  "demo_path_ass = \<lparr>absolute = True, comps = [''a.ass'']\<rparr>"

lemma quiet_readable: "readable quiet_os p fs"
  by (simp add: readable_def quiet_os_def)

lemma quiet_write: "write_text quiet_os p t fs = (Inr (), fs(p \<mapsto> t))"
  by (simp add: write_text_def create_file_def write_all_def sys_def quiet_os_def running)

lemma demo_path_facts: "extension demo_path_ass = Some ''ass''" "valid_utf8 (path_display demo_path_ass)"
  by code_simp+

lemma demo_file_saved: "save_subtitle eng quiet_os demo_ass demo_path_ass fs = (Inr (), fs(demo_path_ass \<mapsto> demo_ass_text))"
  using demo_ass_serialized
  by (simp add: save_subtitle_def quiet_write save_text_def demo_path_facts get_format_by_extension_def manager_formats_def
      AssFormat_def ascii_lower_def ascii_lower_char_def running)


lemma utf8_files_read_witness:
  "fst (read_subtitle_with_encoding_detection demo_crates quiet_os (path_of ''q'')
     ([path_of ''p'' \<mapsto> ''Hi'', path_of ''q'' \<mapsto> bom @ ''Hi''])) = Inr ''Hi''"
proof -
  have "path_of ''p'' \<noteq> path_of ''q''" by code_simp
  then show ?thesis
    using utf8_files_read [OF quiet_readable, of "[path_of ''p'' \<mapsto> ''Hi'', path_of ''q'' \<mapsto> bom @ ''Hi'']" "path_of ''p''" "''Hi''"
        "path_of ''q''" demo_crates]
    by (simp add: quiet_readable follow_def detect_bom_def)
qed

lemma cut_character_misleads_witness:
  "fst (read_subtitle_with_encoding_detection demo_crates quiet_os (path_of ''p'') [path_of ''p'' \<mapsto> han (2731 + 0)])
   = Inr (fst (tc_decode demo_crates Gbk (han (2731 + 0))))"
  using cut_character_misleads [OF quiet_readable, of "[path_of ''p'' \<mapsto> han (2731 + 0)]" "path_of ''p''" 0 demo_crates] by simp

lemma wide_files_refused_witness:
  "fst (read_file_with_encoding demo_crates quiet_os (path_of ''p'') [path_of ''p'' \<mapsto> [CHR 0xFF, CHR 0xFE, CHR ''a'']])
   = Inl (Other ''Unsupported encoding: Utf16Le'')"
  using wide_files_refused [OF quiet_readable, of "[path_of ''p'' \<mapsto> [CHR 0xFF, CHR 0xFE, CHR ''a'']]" "path_of ''p''" "CHR ''a''" "[]"
      demo_crates] by simp

definition demo_conversion :: ConversionConfig where
  "demo_conversion = \<lparr>preserve_styling = False, target_encoding = ''UTF-8'', keep_original = True, validate_output = True\<rparr>"

lemma demo_convert:
  "\<exists>r. convert_text (ref_engine []) demo_conversion demo_ass_text ''ass'' = Inr (demo_ass_text, r)"
proof -
  have "parse_auto (ref_engine []) demo_ass_text = ass_parse demo_ass_text"
    using ass_saved_text [OF demo_ass_serialized] by (simp add: parse_auto_def manager_formats_def AssFormat_def)
  also have "\<dots> = Inr demo_ass"
    using ass_reread_all [OF demo_ass_ok] demo_ass_serialized demo_ass_reread
    by (simp add: bind_res_def demo_ass_def ass_subtitle_def)
  finally have parse: "parse_auto (ref_engine []) demo_ass_text = Inr demo_ass" .
  have transform: "transform_subtitle (ref_engine []) demo_conversion demo_ass ''ass'' = Inr demo_ass"
    by (simp add: transform_subtitle_def demo_ass_def ass_subtitle_def)
  have "ascii_lower ''ASS'' = ''ass''" "ascii_lower ''ass'' = ''ass''" by code_simp+
  then have "get_format (ref_engine []) ''ass'' = Some AssFormat"
    by (simp add: get_format_def manager_formats_def AssFormat_def)
  moreover have "fmt_serialize AssFormat = ass_serialize" by (simp add: AssFormat_def)
  ultimately show ?thesis
    using parse transform by (simp add: convert_text_def bind_res_def demo_ass_serialized)
qed

lemma convert_file_writes_witness:
  "\<exists>r fs' out. convert_file (ref_engine []) demo_crates quiet_os demo_conversion (path_of ''p'') (path_of ''q'') ''ass''
       [path_of ''p'' \<mapsto> demo_ass_text] = (Inr r, fs')
     \<and> fs' = [path_of ''p'' \<mapsto> demo_ass_text, path_of ''q'' \<mapsto> out]"
proof -
  let ?fs = "[path_of ''p'' \<mapsto> demo_ass_text]"
  have valid: "valid_utf8 demo_ass_text" by (rule ascii_valid [OF demo_ass_ascii])
  have nonempty: "demo_ass_text \<noteq> []" and bom: "detect_bom demo_ass_text = None"
    using ass_saved_text [OF demo_ass_serialized] demo_ass_length by simp_all
  have "read_file_with_encoding demo_crates quiet_os (path_of ''p'') ?fs = (Inr demo_ass_text, ?fs)"
    using readable_calls [OF quiet_readable, of ?fs "path_of ''p''" demo_ass_text] demo_ass_length
      defaults_detect [OF valid nonempty _ bom]
    by (simp add: read_file_with_encoding_def check_subtitle_size_def running convert_to_utf8_def lossy_valid [OF valid])
  moreover obtain r where "convert_text (ref_engine []) demo_conversion demo_ass_text ''ass'' = Inr (demo_ass_text, r)"
    using demo_convert by blast
  ultimately have run: "\<exists>fs'. convert_file (ref_engine []) demo_crates quiet_os demo_conversion (path_of ''p'') (path_of ''q'')
      ''ass'' ?fs = (Inr r, fs')"
    by (simp add: convert_file_def running quiet_write)
  then show ?thesis using convert_file_writes [OF _ valid nonempty bom, of ?fs "path_of ''p''"] by fastforce
qed

end
