(* ===== verification/Archive_Extract.thy ===== *)
theory Archive_Extract
  imports Encoding
begin

text \<open>
  Archive extraction (\<open>src/core/archive\<close>): the format of an archive, the checks on an entry's path and
  on the sizes, and the extraction of ZIP, RAR, 7-Zip and tar.gz archives into a directory.  What the
  crates zip, unrar, sevenz-rust2, tar and flate2 make of the bytes of an archive is an argument: the
  entries in their order, each possibly an error.  Log messages are left out.
\<close>

section \<open>Formats\<close>

datatype ArchiveFormat = Zip | Rar | SevenZip | TarGz

definition to_str :: "str \<Rightarrow> str option" where
  "to_str s = (if valid_utf8 s then Some s else None)"

definition archive_extensions :: "(str \<times> ArchiveFormat) list" where
  "archive_extensions = [(''zip'', Zip), (''rar'', Rar), (''7z'', SevenZip), (''tgz'', TarGz)]"

definition detect_format :: "path \<Rightarrow> ArchiveFormat option" where
  "detect_format p =
     (if (case Option.bind (file_name p) to_str of
            Some name \<Rightarrow> suffix ''.tar.gz'' (ascii_lower name) | None \<Rightarrow> False)
      then Some TarGz
      else Option.bind (Option.bind (extension p) to_str)
             (\<lambda>ext. map_of archive_extensions (ascii_lower ext)))"

section \<open>Checks\<close>

definition MAX_EXPANDED_SIZE :: nat where
  "MAX_EXPANDED_SIZE = 1024 * 1024 * 1024"

definition MAX_ENTRY_COUNT :: nat where
  "MAX_ENTRY_COUNT = 10000"

text \<open>\<open>p.canonicalize()\<close>, and the test that a target which exists resolves below a directory.\<close>

definition resolves_below :: "os \<Rightarrow> files \<Rightarrow> path \<Rightarrow> path \<Rightarrow> bool" where
  "resolves_below os fs target dest_canonical =
     (case fst (canonicalize os target fs) of
        Inl _ \<Rightarrow> True
      | Inr c \<Rightarrow> path_starts_with c dest_canonical)"

definition canonical_or_same :: "os \<Rightarrow> files \<Rightarrow> path \<Rightarrow> path" where
  "canonical_or_same os fs p = (case fst (canonicalize os p fs) of Inl _ \<Rightarrow> p | Inr c \<Rightarrow> c)"

definition validate_entry_path :: "os \<Rightarrow> files \<Rightarrow> path \<Rightarrow> path \<Rightarrow> path option" where
  "validate_entry_path os fs dest entry_path =
     (if absolute entry_path then None
      else if dotdot \<in> set (comps entry_path) then None
      else let target = path_join dest entry_path in
        if resolves_below os fs target (canonical_or_same os fs dest) then Some target else None)"

text \<open>
  The counters of \<open>ExtractionLimits\<close>, whose fixed \<open>archive_display\<close> is used by log messages only.  The
  addition is unchecked: it wraps, as in a release build.
\<close>

record ExtractionLimits =
  total_size :: u64
  entry_count :: nat

definition no_entries :: ExtractionLimits where
  "no_entries = \<lparr>total_size = 0, entry_count = 0\<rparr>"

definition other_error :: "str \<Rightarrow> io_error" where
  "other_error msg = \<lparr>io_kind = OtherKind, io_text = msg\<rparr>"

definition invalid_data :: "str \<Rightarrow> io_error" where
  "invalid_data msg = \<lparr>io_kind = InvalidData, io_text = msg\<rparr>"

definition check_entry :: "ExtractionLimits \<Rightarrow> u64 \<Rightarrow> io_error + ExtractionLimits" where
  "check_entry lims sz =
     (let n = Suc (entry_count lims); total = total_size lims + sz in
      if MAX_ENTRY_COUNT < n then Inl (other_error ''Archive exceeds maximum entry count (10000)'')
      else if MAX_EXPANDED_SIZE < unat total
      then Inl (other_error ''Archive exceeds maximum expanded size (1 GiB)'')
      else Inr \<lparr>total_size = total, entry_count = n\<rparr>)"

section \<open>Extraction\<close>

text \<open>What a loop over the entries has counted and extracted so far.\<close>

record progress =
  limits :: ExtractionLimits
  extracted :: "path list"

definition no_progress :: progress where
  "no_progress = \<lparr>limits = no_entries, extracted = []\<rparr>"

text \<open>The content of an entry: the bytes its reader yields, and the error after them.\<close>

record content =
  yielded :: str
  read_error :: "io_error option"

text \<open>The directory, the file, and \<open>io::copy\<close> of the content into it.\<close>

definition make_parent_dir :: "os \<Rightarrow> path \<Rightarrow> (io_error, unit) io" where
  "make_parent_dir os target =
     (case parent target of None \<Rightarrow> return_io () | Some dir \<Rightarrow> create_dir_all os dir)"

definition copy_content :: "os \<Rightarrow> path \<Rightarrow> content \<Rightarrow> (io_error, unit) io" where
  "copy_content os target c =
     bind_io (write_all os target (yielded c)) (\<lambda>_.
       case read_error c of None \<Rightarrow> return_io () | Some e \<Rightarrow> fail_io e)"

definition store_entry :: "os \<Rightarrow> path \<Rightarrow> content \<Rightarrow> progress \<Rightarrow> (io_error, progress) io" where
  "store_entry os target c st =
     bind_io (make_parent_dir os target) (\<lambda>_.
     bind_io (create_file os target) (\<lambda>_.
     bind_io (copy_content os target c) (\<lambda>_.
       return_io (st\<lparr>extracted := extracted st @ [target]\<rparr>))))"

text \<open>\<open>limits.check_entry(size)?\<close> before what follows.\<close>

definition counted :: "u64 \<Rightarrow> progress \<Rightarrow> (progress \<Rightarrow> (io_error, progress) io) \<Rightarrow> (io_error, progress) io" where
  "counted sz st k =
     (case check_entry (limits st) sz of
        Inl e \<Rightarrow> fail_io e
      | Inr lims \<Rightarrow> k (st\<lparr>limits := lims\<rparr>))"

text \<open>A loop over entries that stops at the first error.\<close>

fun each_entry :: "('s \<Rightarrow> 'e \<Rightarrow> ('x, 's) io) \<Rightarrow> 's \<Rightarrow> ('x + 'e) list \<Rightarrow> ('x, 's) io" where
  "each_entry step st [] = return_io st"
| "each_entry step st (Inl e # es) = fail_io e"
| "each_entry step st (Inr x # es) = bind_io (step st x) (\<lambda>st'. each_entry step st' es)"

subsection \<open>ZIP\<close>

record zip_entry =
  zip_is_dir :: bool
  zip_is_symlink :: bool
  zip_size :: u64
  enclosed_name :: "path option"
  zip_content :: content

definition zip_step :: "os \<Rightarrow> path \<Rightarrow> path \<Rightarrow> progress \<Rightarrow> zip_entry \<Rightarrow> (io_error, progress) io" where
  "zip_step os dest dest_canonical st e =
     (if zip_is_dir e \<or> zip_is_symlink e then return_io st
      else counted (zip_size e) st (\<lambda>st'.
        case enclosed_name e of
          None \<Rightarrow> return_io st'
        | Some entry_path \<Rightarrow>
            let target = path_join dest entry_path in
            (\<lambda>fs. if resolves_below os fs target dest_canonical
                  then store_entry os target (zip_content e) st' fs
                  else return_io st' fs)))"

text \<open>Reading entry \<open>i\<close> fails with the text the crate gives.\<close>

fun numbered_errors :: "nat \<Rightarrow> (str + 'e) list \<Rightarrow> (io_error + 'e) list" where
  "numbered_errors i [] = []"
| "numbered_errors i (x # xs) =
     map_err (\<lambda>e. invalid_data (''Failed to read zip entry '' @ show_nat i @ '': '' @ e)) x # numbered_errors (Suc i) xs"

text \<open>
  The crate reads the open file: what it finds is a function of the path and the file system, so that an
  error of reading is one of the errors it reports.
\<close>

type_synonym 'e reader = "path \<Rightarrow> files \<Rightarrow> str + (str + 'e) list"

definition extract_zip :: "zip_entry reader \<Rightarrow> os \<Rightarrow> path \<Rightarrow> path \<Rightarrow> (io_error, path list) io" where
  "extract_zip zip_archive os archive dest =
     bind_io (open_file os archive) (\<lambda>_ fs.
       case zip_archive archive fs of
         Inl e \<Rightarrow> (Inl (invalid_data (''Failed to open zip archive '' @ path_display archive @ '': '' @ e)), fs)
       | Inr es \<Rightarrow>
           bind_io (each_entry (zip_step os dest (canonical_or_same os fs dest)) no_progress (numbered_errors 0 es))
             (\<lambda>st. return_io (extracted st)) fs)"

subsection \<open>tar.gz\<close>

datatype entry_type = Regular | Continuous | Directory | Symlink | HardLink | OtherType

text \<open>\<open>entry.path()\<close> may fail.\<close>

record tar_entry =
  tar_type :: entry_type
  tar_path :: "io_error + path"
  tar_size :: u64
  tar_content :: content

definition tar_step :: "os \<Rightarrow> path \<Rightarrow> progress \<Rightarrow> tar_entry \<Rightarrow> (io_error, progress) io" where
  "tar_step os dest st e =
     (case tar_type e of
        Directory \<Rightarrow>
          (case tar_path e of
             Inl err \<Rightarrow> fail_io err
           | Inr p \<Rightarrow> (\<lambda>fs.
               case validate_entry_path os fs dest p of
                 Some target \<Rightarrow> bind_io (create_dir_all os target) (\<lambda>_. return_io st) fs
               | None \<Rightarrow> (Inr st, fs)))
      | Symlink \<Rightarrow> return_io st
      | HardLink \<Rightarrow> return_io st
      | OtherType \<Rightarrow> return_io st
      | _ \<Rightarrow>
          (case tar_path e of
             Inl err \<Rightarrow> fail_io err
           | Inr p \<Rightarrow> counted (tar_size e) st (\<lambda>st' fs.
               case validate_entry_path os fs dest p of
                 None \<Rightarrow> (Inr st', fs)
               | Some target \<Rightarrow> store_entry os target (tar_content e) st' fs)))"

definition extract_tar_gz :: "tar_entry reader \<Rightarrow> os \<Rightarrow> path \<Rightarrow> path \<Rightarrow> (io_error, path list) io" where
  "extract_tar_gz tar_archive os archive dest =
     bind_io (open_file os archive) (\<lambda>_ fs.
       case tar_archive archive fs of
         Inl e \<Rightarrow> (Inl (invalid_data (''Failed to read tar.gz archive '' @ path_display archive @ '': '' @ e)), fs)
       | Inr es \<Rightarrow>
           bind_io (each_entry (tar_step os dest) no_progress
               (map (map_err (\<lambda>e. invalid_data (''Failed to read tar entry in '' @ path_display archive @ '': '' @ e))) es))
             (\<lambda>st. return_io (extracted st)) fs)"

subsection \<open>7-Zip\<close>

record sevenz_entry =
  sz_is_directory :: bool
  sz_is_anti_item :: bool
  sz_windows_attributes :: "u32 option"
  sz_size :: u64
  sz_name :: str
  sz_content :: content

text \<open>The errors of sevenz-rust2, with the text the crate displays for those passed on.\<close>

datatype sevenz_error = PasswordRequired | SevenzIo io_error str | SevenzOther str

text \<open>The closure, called for each entry; its errors are the crate's.\<close>

definition sevenz_step :: "os \<Rightarrow> path \<Rightarrow> progress \<Rightarrow> sevenz_entry \<Rightarrow> (sevenz_error, progress) io" where
  "sevenz_step os dest st e =
     (if sz_is_directory e \<or> sz_is_anti_item e then return_io st
      else if (case sz_windows_attributes e of Some attrs \<Rightarrow> and attrs 0x0400 \<noteq> 0 | None \<Rightarrow> False) then return_io st
      else case check_entry (limits st) (sz_size e) of
        Inl err \<Rightarrow> fail_io (SevenzOther (io_text err))
      | Inr lims \<Rightarrow> (\<lambda>fs.
          case validate_entry_path os fs dest (path_of (sz_name e)) of
            None \<Rightarrow> (Inr (st\<lparr>limits := lims\<rparr>), fs)
          | Some target \<Rightarrow>
              bind_io (map_err_io (\<lambda>x. SevenzIo x (''creating parent dir for '' @ sz_name e)) (make_parent_dir os target)) (\<lambda>_.
              bind_io (map_err_io (\<lambda>x. SevenzIo x (''creating '' @ path_display target)) (create_file os target)) (\<lambda>_.
              bind_io (map_err_io (\<lambda>x. SevenzIo x (''writing '' @ path_display target)) (copy_content os target (sz_content e))) (\<lambda>_.
                return_io (st\<lparr>limits := lims, extracted := extracted st @ [target]\<rparr>)))) fs))"

text \<open>
  \<open>decompress_file_with_extract_fn\<close> calls the closure for the entries in their order and ends with the
  first error, of the crate or of the closure.
\<close>

definition sevenz_io_error :: "(sevenz_error \<Rightarrow> str) \<Rightarrow> path \<Rightarrow> sevenz_error \<Rightarrow> io_error" where
  "sevenz_io_error display archive e =
     (case e of
        PasswordRequired \<Rightarrow>
          \<lparr>io_kind = PermissionDenied, io_text = ''7z archive is password-protected: '' @ path_display archive\<rparr>
      | SevenzIo x ctx \<Rightarrow> \<lparr>io_kind = io_kind x, io_text = ctx @ '': '' @ io_text x\<rparr>
      | SevenzOther _ \<Rightarrow>
          invalid_data (''Failed to extract 7z archive '' @ path_display archive @ '': '' @ display e))"

definition extract_7z ::
    "(sevenz_error \<Rightarrow> str) \<Rightarrow> (path \<Rightarrow> files \<Rightarrow> (sevenz_error + sevenz_entry) list) \<Rightarrow> os \<Rightarrow> path \<Rightarrow> path \<Rightarrow> (io_error, path list) io" where
  "extract_7z display sevenz_archive os archive dest fs =
     map_err_io (sevenz_io_error display archive)
       (bind_io (each_entry (sevenz_step os dest) no_progress (sevenz_archive archive fs))
         (\<lambda>st. return_io (extracted st))) fs"

subsection \<open>RAR\<close>

record rar_entry =
  rar_is_directory :: bool
  rar_size :: u64
  rar_filename :: path

text \<open>The first pass selects the entries.\<close>

definition rar_select ::
    "os \<Rightarrow> path \<Rightarrow> ExtractionLimits \<times> path list \<Rightarrow> rar_entry \<Rightarrow> (io_error, ExtractionLimits \<times> path list) io" where
  "rar_select os dest st e fs =
     (if rar_is_directory e then (Inr st, fs)
      else case check_entry (fst st) (rar_size e) of
        Inl err \<Rightarrow> (Inl err, fs)
      | Inr lims \<Rightarrow>
          (if validate_entry_path os fs dest (rar_filename e) = None then (Inr (lims, snd st), fs)
           else (Inr (lims, snd st @ [rar_filename e]), fs)))"

text \<open>
  The second pass reads the headers again; skipping an entry and extracting it may fail.
\<close>

record rar_header =
  header_filename :: path
  header_is_directory :: bool
  skip_error :: "str option"
  header_content :: content

definition rar_extract :: "os \<Rightarrow> path \<Rightarrow> path list \<Rightarrow> path list \<Rightarrow> rar_header \<Rightarrow> (io_error, path list) io" where
  "rar_extract os dest entries_to_extract out_paths h =
     (if header_is_directory h \<or> header_filename h \<notin> set entries_to_extract
      then (case skip_error h of
              Some e \<Rightarrow> fail_io (other_error (''Failed to skip rar entry: '' @ e))
            | None \<Rightarrow> return_io out_paths)
      else let target = path_join dest (header_filename h) in
        bind_io (make_parent_dir os target) (\<lambda>_.
        bind_io (map_err_io
            (\<lambda>x. other_error (''Failed to extract rar entry '' @ path_display (header_filename h) @ '': '' @ io_text x))
            (copy_content os target (header_content h))) (\<lambda>_.
          return_io (out_paths @ [target]))))"

definition extract_rar_enabled :: "rar_entry reader \<Rightarrow> rar_header reader \<Rightarrow> os \<Rightarrow> path \<Rightarrow> path \<Rightarrow> (io_error, path list) io" where
  "extract_rar_enabled rar_listing rar_headers os archive dest fs =
     (case rar_listing archive fs of
        Inl e \<Rightarrow> (Inl (invalid_data (''Failed to open rar archive '' @ path_display archive @ '': '' @ e)), fs)
      | Inr es \<Rightarrow>
          bind_io (each_entry (rar_select os dest) (no_entries, [])
              (map (map_err (\<lambda>e. invalid_data (''Failed to read rar entry: '' @ e))) es)) (\<lambda>(_, selected) fs.
            case rar_headers archive fs of
              Inl e \<Rightarrow> (Inl (invalid_data (''Failed to open rar archive for extraction '' @ path_display archive
                  @ '': '' @ e)), fs)
            | Inr hs \<Rightarrow>
                each_entry (rar_extract os dest selected) []
                  (map (map_err (\<lambda>e. invalid_data (''Failed to read rar header: '' @ e))) hs) fs) fs)"

text \<open>The stub of a build without the feature \<open>archive-rar\<close>.\<close>

definition extract_rar_disabled :: "path \<Rightarrow> (io_error, path list) io" where
  "extract_rar_disabled archive =
     fail_io \<lparr>io_kind = Unsupported,
       io_text = ''RAR support is not compiled in. Cannot extract: '' @ path_display archive\<rparr>"

section \<open>The dispatch\<close>

record archive_crates =
  zip_crate :: "zip_entry reader"
  tar_crate :: "tar_entry reader"
  sevenz_crate :: "path \<Rightarrow> files \<Rightarrow> (sevenz_error + sevenz_entry) list"
  sevenz_display :: "sevenz_error \<Rightarrow> str"
  rar_feature :: bool
  rar_listing :: "rar_entry reader"
  rar_headers :: "rar_header reader"

definition extract_rar :: "archive_crates \<Rightarrow> os \<Rightarrow> path \<Rightarrow> path \<Rightarrow> (io_error, path list) io" where
  "extract_rar crates os archive dest =
     (if rar_feature crates
      then extract_rar_enabled (rar_listing crates) (rar_headers crates) os archive dest
      else extract_rar_disabled archive)"

definition extract_archive :: "archive_crates \<Rightarrow> os \<Rightarrow> path \<Rightarrow> path \<Rightarrow> (io_error, path list) io" where
  "extract_archive crates os archive dest =
     (case detect_format archive of
        None \<Rightarrow> fail_io \<lparr>io_kind = InvalidInput,
          io_text = ''Unrecognised archive format: '' @ path_display archive\<rparr>
      | Some Zip \<Rightarrow> extract_zip (zip_crate crates) os archive dest
      | Some Rar \<Rightarrow> extract_rar crates os archive dest
      | Some SevenZip \<Rightarrow> extract_7z (sevenz_display crates) (sevenz_crate crates) os archive dest
      | Some TarGz \<Rightarrow> extract_tar_gz (tar_crate crates) os archive dest)"

end
