(* ===== verification/Archive_Properties.thy ===== *)
theory Archive_Properties
  imports Archive_Extract
begin

text \<open>
  Properties of archive extraction: nothing outside the destination is touched, whatever the names in the
  archive are, and the number and the size of the extracted files are bounded.  The loops of the formats
  meet one contract, the locale \<open>entry_loop\<close>.
\<close>

section \<open>The contract of a loop over entries\<close>

definition entry_ok :: "('e \<Rightarrow> bool) \<Rightarrow> 'x + 'e \<Rightarrow> bool" where
  "entry_ok ok x = (case x of Inl _ \<Rightarrow> True | Inr e \<Rightarrow> ok e)"

lemma entry_ok_simps [simp]: "entry_ok ok (Inl x)" "entry_ok ok (Inr e) = ok e"
  "entry_ok ok (map_err f x) = entry_ok ok x"
  by (simp_all add: entry_ok_def map_err_def split: sum.splits)

locale entry_loop =
  fixes step :: "'s \<Rightarrow> 'e \<Rightarrow> ('x, 's) io"
    and ok :: "'e \<Rightarrow> bool"
    and inv :: "'s \<Rightarrow> files \<Rightarrow> bool"
    and kept :: "files \<Rightarrow> bool"
  assumes inv_kept: "inv st fs \<Longrightarrow> kept fs"
    and step_cases: "ok e \<Longrightarrow> inv st fs \<Longrightarrow> step st e fs = (r, fs') \<Longrightarrow>
      kept fs' \<and> (\<forall>st'. r = Inr st' \<longrightarrow> inv st' fs')"
begin

lemma run_cases:
  "list_all (entry_ok ok) es \<Longrightarrow> inv st fs \<Longrightarrow> each_entry step st es fs = (r, fs') \<Longrightarrow>
    kept fs' \<and> (\<forall>st'. r = Inr st' \<longrightarrow> inv st' fs')"
proof (induction es arbitrary: st fs)
  case (Cons x es)
  show ?case
  proof (cases x)
    case (Inr e)
    obtain q gs where q: "step st e fs = (q, gs)" by force
    then show ?thesis
      using Inr Cons step_cases [OF _ _ q] by (cases q) (auto simp: bind_io_def)
  qed (use Cons.prems in \<open>auto simp: fail_io_def inv_kept\<close>)
qed (auto simp: return_io_def inv_kept)

lemmas run_kept = run_cases [THEN conjunct1]

lemma run_inv:
  assumes "list_all (entry_ok ok) es" "inv st fs" "each_entry step st es fs = (Inr st', fs')"
  shows "inv st' fs'"
  using run_cases [OF assms] by simp

end

section \<open>Locations\<close>

text \<open>Components that never climb above where they start, and the paths inside a directory.\<close>

fun stays_below :: "nat \<Rightarrow> str list \<Rightarrow> bool" where
  "stays_below d [] \<longleftrightarrow> True"
| "stays_below d (c # cs) \<longleftrightarrow>
     (if c = dotdot then 0 < d \<and> stays_below (d - 1) cs else stays_below (Suc d) cs)"

definition inside :: "path \<Rightarrow> path \<Rightarrow> bool" where
  "inside dest p \<longleftrightarrow> path_starts_with p dest \<and> stays_below 0 (drop (length (comps dest)) (comps p))"

definition relative_below :: "path \<Rightarrow> bool" where
  "relative_below q \<longleftrightarrow> \<not> absolute q \<and> stays_below 0 (comps q)"

lemma no_dotdot_below: "dotdot \<notin> set cs \<Longrightarrow> stays_below d cs"
  by (induction cs arbitrary: d) auto

lemma inside_join: "relative_below q \<Longrightarrow> inside dest (path_join dest q)"
  by (simp add: inside_def relative_below_def path_join_def path_starts_with_def)

lemma validated_inside: "validate_entry_path os fs dest q = Some target \<Longrightarrow> inside dest target"
  by (auto simp: validate_entry_path_def Let_def relative_below_def no_dotdot_below intro!: inside_join split: if_splits)

section \<open>Storing an entry\<close>

lemma make_parent_same: "make_parent_dir os t fs = (r, fs') \<Longrightarrow> fs' = fs"
  by (auto simp: make_parent_dir_def create_dir_all_def sys_def return_io_def split: option.splits)

lemma copy_content_result:
  assumes "copy_content os t c fs = (r, fs')"
  shows "p \<noteq> t \<Longrightarrow> fs' p = fs p" and "r = Inr u \<Longrightarrow> fs' = fs(t \<mapsto> yielded c)"
  using assms by (auto simp: copy_content_def bind_io_def write_all_def return_io_def fail_io_def split: option.splits)

lemma create_file_result:
  assumes "create_file os t fs = (r, fs')"
  shows "p \<noteq> t \<Longrightarrow> fs' p = fs p"
  using assms by (auto simp: create_file_def sys_def split: option.splits)

text \<open>The file system after the four calls, whatever their errors are turned into.\<close>

definition stores :: "path \<Rightarrow> content \<Rightarrow> files \<Rightarrow> ('x + 's) \<times> files \<Rightarrow> bool" where
  "stores t c fs out \<longleftrightarrow>
     (\<forall>p. p \<noteq> t \<longrightarrow> snd out p = fs p) \<and> (\<forall>s. fst out = Inr s \<longrightarrow> snd out t = Some (yielded c))"

lemma stores_io:
  "stores t c fs (bind_io (map_err_io f (make_parent_dir os t)) (\<lambda>_. bind_io (map_err_io g (create_file os t))
     (\<lambda>_. bind_io (map_err_io h (copy_content os t c)) (\<lambda>_. return_io s))) fs)"
  apply (auto simp: stores_def bind_io_def map_err_io_def return_io_def dest!: make_parent_same
      dest: create_file_result copy_content_result(2) split: prod.splits sum.splits)
  by (metis copy_content_result(1) create_file_result)+

lemma map_err_io_same [simp]: "map_err_io (\<lambda>x. x) m = m"
  by (rule ext) (simp add: map_err_io_def split: prod.splits sum.splits)

lemma stores_entry:
  "stores t c fs (store_entry os t c st fs)"
  using stores_io [of t c fs "\<lambda>x. x" os "\<lambda>x. x" "\<lambda>x. x"] by (simp add: store_entry_def)

lemma stores_rar:
  "stores t c fs (bind_io (make_parent_dir os t) (\<lambda>_. bind_io (map_err_io h (copy_content os t c)) (\<lambda>_. return_io s)) fs)"
  by (auto simp: stores_def bind_io_def map_err_io_def return_io_def dest!: make_parent_same
      dest: copy_content_result split: prod.splits sum.splits)

lemma store_entry_progress:
  "store_entry os t c st fs = (Inr st', fs') \<Longrightarrow> st' = st\<lparr>extracted := extracted st @ [t]\<rparr>"
  by (auto simp: store_entry_def bind_io_def return_io_def split: prod.splits sum.splits)

section \<open>Nothing outside the destination is touched\<close>

definition outside_same :: "path \<Rightarrow> files \<Rightarrow> files \<Rightarrow> bool" where
  "outside_same dest fs0 fs \<longleftrightarrow> (\<forall>p. \<not> inside dest p \<longrightarrow> fs p = fs0 p)"

definition extracted_inside :: "path \<Rightarrow> files \<Rightarrow> progress \<Rightarrow> files \<Rightarrow> bool" where
  "extracted_inside dest fs0 st fs \<longleftrightarrow> list_all (inside dest) (extracted st) \<and> outside_same dest fs0 fs"

definition zip_name_ok :: "zip_entry \<Rightarrow> bool" where
  "zip_name_ok e \<longleftrightarrow> (case enclosed_name e of None \<Rightarrow> True | Some q \<Rightarrow> relative_below q)"

lemma stored_outside_same:
  assumes "stores t c fs (r, fs')" "inside dest t" "outside_same dest fs0 fs"
  shows "outside_same dest fs0 fs'"
  using assms by (auto simp: outside_same_def stores_def)

lemma stored_inside:
  assumes "store_entry os t c st fs = (r, fs')" "inside dest t" "extracted_inside dest fs0 st fs"
  shows "outside_same dest fs0 fs'" "r = Inr st' \<Longrightarrow> extracted_inside dest fs0 st' fs'"
proof -
  show "outside_same dest fs0 fs'"
    using stores_entry [of t c fs os st] assms by (auto simp: extracted_inside_def intro: stored_outside_same)
  then show "extracted_inside dest fs0 st' fs'" if "r = Inr st'"
    using assms that by (auto simp: extracted_inside_def dest!: store_entry_progress)
qed

lemma extracted_inside_limits [simp]:
  "extracted_inside dest fs0 (st\<lparr>limits := lims\<rparr>) fs = extracted_inside dest fs0 st fs"
  by (simp add: extracted_inside_def)

lemma zip_step_inside:
  assumes "zip_name_ok e" "extracted_inside dest fs0 st fs" "zip_step os dest canon st e fs = (r, fs')"
  shows "outside_same dest fs0 fs' \<and> (\<forall>st'. r = Inr st' \<longrightarrow> extracted_inside dest fs0 st' fs')"
proof -
  have same: "outside_same dest fs0 fs" using assms(2) by (simp add: extracted_inside_def)
  show ?thesis
    using assms same
    by (auto simp: zip_step_def zip_name_ok_def counted_def return_io_def fail_io_def Let_def inside_join
        intro: stored_inside split: if_splits sum.splits option.splits)
qed

lemma tar_step_inside:
  assumes "extracted_inside dest fs0 st fs" "tar_step os dest st e fs = (r, fs')"
  shows "outside_same dest fs0 fs' \<and> (\<forall>st'. r = Inr st' \<longrightarrow> extracted_inside dest fs0 st' fs')"
proof -
  have same: "outside_same dest fs0 fs" using assms(1) by (simp add: extracted_inside_def)
  show ?thesis
    using assms same
    by (auto simp: tar_step_def counted_def return_io_def fail_io_def bind_io_def create_dir_all_def sys_def
        intro: stored_inside validated_inside split: entry_type.splits sum.splits option.splits)
qed

lemma sevenz_store_inside:
  assumes "bind_io (map_err_io f (make_parent_dir os t)) (\<lambda>_. bind_io (map_err_io g (create_file os t))
     (\<lambda>_. bind_io (map_err_io h (copy_content os t c)) (\<lambda>_. return_io st2))) fs
     = (r, fs')"
    and "inside dest t" "extracted_inside dest fs0 st fs" "extracted st2 = extracted st @ [t]"
  shows "outside_same dest fs0 fs' \<and> (\<forall>st'. r = Inr st' \<longrightarrow> extracted_inside dest fs0 st' fs')"
proof -
  have same: "outside_same dest fs0 fs'"
    using stores_io [of t c fs f os g h st2] assms
    by (auto simp: extracted_inside_def intro: stored_outside_same)
  have "extracted_inside dest fs0 st' fs'" if "r = Inr st'" for st'
    using assms that same
    by (auto simp: extracted_inside_def bind_io_def return_io_def map_err_io_def split: prod.splits sum.splits)
  with same show ?thesis by simp
qed

lemma sevenz_step_inside:
  assumes "extracted_inside dest fs0 st fs" "sevenz_step os dest st e fs = (r, fs')"
  shows "outside_same dest fs0 fs' \<and> (\<forall>st'. r = Inr st' \<longrightarrow> extracted_inside dest fs0 st' fs')"
proof -
  have same: "outside_same dest fs0 fs" using assms(1) by (simp add: extracted_inside_def)
  show ?thesis
    using assms same
    by (auto simp: sevenz_step_def return_io_def fail_io_def
        dest: sevenz_store_inside [OF _ validated_inside assms(1)] split: if_splits sum.splits option.splits)
qed

definition rar_inside :: "os \<Rightarrow> path \<Rightarrow> files \<Rightarrow> ExtractionLimits \<times> path list \<Rightarrow> files \<Rightarrow> bool" where
  "rar_inside os dest fs0 st fs \<longleftrightarrow> fs = fs0 \<and> list_all relative_below (snd st)"

lemma validated_relative: "validate_entry_path os fs dest q = Some target \<Longrightarrow> relative_below q"
  by (auto simp: validate_entry_path_def relative_below_def no_dotdot_below split: if_splits)

lemma rar_select_inside:
  assumes "rar_inside os dest fs0 st fs" "rar_select os dest st e fs = (r, fs')"
  shows "fs' = fs0 \<and> (\<forall>st'. r = Inr st' \<longrightarrow> rar_inside os dest fs0 st' fs')"
  using assms
  by (auto simp: rar_select_def rar_inside_def dest: validated_relative split: if_splits sum.splits)

definition rar_extracted_inside :: "path \<Rightarrow> files \<Rightarrow> path list \<Rightarrow> files \<Rightarrow> bool" where
  "rar_extracted_inside dest fs0 ps fs \<longleftrightarrow> list_all (inside dest) ps \<and> outside_same dest fs0 fs"

lemma rar_extract_inside:
  assumes "list_all relative_below selected" "rar_extracted_inside dest fs0 ps fs"
    and "rar_extract os dest selected ps h fs = (r, fs')"
  shows "outside_same dest fs0 fs' \<and> (\<forall>ps'. r = Inr ps' \<longrightarrow> rar_extracted_inside dest fs0 ps' fs')"
proof (cases "header_is_directory h \<or> header_filename h \<notin> set selected")
  case True
  then show ?thesis
    using assms by (auto simp: rar_extract_def rar_extracted_inside_def fail_io_def return_io_def split: option.splits)
next
  case False
  define t where "t = path_join dest (header_filename h)"
  define g where "g = (\<lambda>x :: io_error. other_error (''Failed to extract rar entry '' @ path_display (header_filename h) @ '': '' @ io_text x))"
  have t: "inside dest t"
    using False assms(1) by (auto simp: t_def list_all_iff intro: inside_join)
  have out: "bind_io (make_parent_dir os t) (\<lambda>_. bind_io (map_err_io g (copy_content os t (header_content h)))
      (\<lambda>_. return_io (ps @ [t]))) fs = (r, fs')"
    using assms(3) False by (simp add: rar_extract_def t_def g_def Let_def)
  have same: "outside_same dest fs0 fs'"
    using stores_rar [of t "header_content h" fs os g "ps @ [t]"] out t assms(2)
    by (auto simp: rar_extracted_inside_def intro: stored_outside_same)
  moreover have "rar_extracted_inside dest fs0 ps' fs'" if "r = Inr ps'" for ps'
    using out that same t assms(2)
    by (auto simp: rar_extracted_inside_def bind_io_def return_io_def map_err_io_def split: prod.splits sum.splits)
  ultimately show ?thesis by simp
qed

interpretation zip_inside: entry_loop "zip_step os dest canon" zip_name_ok "extracted_inside dest fs0"
  "outside_same dest fs0" for os dest canon fs0
  by unfold_locales (simp add: extracted_inside_def, rule zip_step_inside)

interpretation tar_inside: entry_loop "tar_step os dest" "\<lambda>_. True" "extracted_inside dest fs0"
  "outside_same dest fs0" for os dest fs0
  by unfold_locales (simp add: extracted_inside_def, rule tar_step_inside)

interpretation sevenz_inside: entry_loop "sevenz_step os dest" "\<lambda>_. True" "extracted_inside dest fs0"
  "outside_same dest fs0" for os dest fs0
  by unfold_locales (simp add: extracted_inside_def, rule sevenz_step_inside)

interpretation rar_selection: entry_loop "rar_select os dest" "\<lambda>_. True" "rar_inside os dest fs0"
  "\<lambda>fs. fs = fs0" for os dest fs0
  by unfold_locales (simp add: rar_inside_def, rule rar_select_inside)

interpretation rar_extraction: entry_loop "rar_extract os dest selected" "\<lambda>_. list_all relative_below selected"
  "rar_extracted_inside dest fs0" "outside_same dest fs0" for os dest selected fs0
  by unfold_locales (simp add: rar_extracted_inside_def, rule rar_extract_inside)

definition names_enclosed :: "zip_entry reader \<Rightarrow> path \<Rightarrow> files \<Rightarrow> bool" where
  "names_enclosed zip_archive archive fs \<longleftrightarrow>
     (case zip_archive archive fs of Inl _ \<Rightarrow> True | Inr es \<Rightarrow> list_all (entry_ok zip_name_ok) es)"

lemma entry_ok_True [simp]: "entry_ok (\<lambda>_. True) x"
  by (simp add: entry_ok_def split: sum.splits)

lemma list_all_any [simp]: "(\<And>x. P x) \<Longrightarrow> list_all P xs"
  by (simp add: list_all_iff)

lemma numbered_errors_ok [simp]: "list_all (entry_ok ok) (numbered_errors i es) = list_all (entry_ok ok) es"
  by (induction es arbitrary: i) simp_all

lemma start_inside: "extracted_inside dest fs no_progress fs" "rar_inside os dest fs (no_entries, []) fs"
  "rar_extracted_inside dest fs [] fs" "outside_same dest fs fs"
  by (simp_all add: extracted_inside_def no_progress_def outside_same_def rar_inside_def rar_extracted_inside_def)

lemma open_same: "open_file os p fs = (r, fs') \<Longrightarrow> fs' = fs"
  by (auto simp: open_file_def sys_def split: option.splits if_splits)

text \<open>The result of a run that leaves a directory only in it.\<close>

definition confined :: "path \<Rightarrow> files \<Rightarrow> ('x + path list) \<times> files \<Rightarrow> bool" where
  "confined dest fs out \<longleftrightarrow>
     outside_same dest fs (snd out) \<and> (\<forall>ps. fst out = Inr ps \<longrightarrow> list_all (inside dest) ps)"

lemma confined_unchanged: "confined dest fs (Inl e, fs)"
  by (simp add: confined_def outside_same_def)

lemma confined_progress:
  assumes "m fs = (r, fs')" "outside_same dest fs fs' \<and> (\<forall>st. r = Inr st \<longrightarrow> extracted_inside dest fs st fs')"
  shows "confined dest fs (bind_io m (\<lambda>st. return_io (extracted st)) fs)"
  using assms by (auto simp: confined_def bind_io_def return_io_def extracted_inside_def split: sum.splits)

lemma extract_zip_confined:
  assumes "names_enclosed zip_archive archive fs"
  shows "confined dest fs (extract_zip zip_archive os archive dest fs)"
proof (cases "open_file os archive fs")
  case (Pair r fs')
  then have [simp]: "fs' = fs" by (rule open_same)
  have "confined dest fs (bind_io (each_entry (zip_step os dest canon) no_progress (numbered_errors 0 es))
      (\<lambda>st. return_io (extracted st)) fs)" if "zip_archive archive fs = Inr es" for es canon
  proof (cases "each_entry (zip_step os dest canon) no_progress (numbered_errors 0 es) fs")
    case (Pair q gs)
    note keeps = zip_inside.run_cases [OF _ start_inside(1) this]
    show ?thesis by (rule confined_progress, rule Pair) (use keeps assms that in \<open>simp add: names_enclosed_def\<close>)
  qed
  with Pair show ?thesis
    by (auto simp: extract_zip_def bind_io_def [of "open_file os archive"] confined_unchanged split: sum.splits)
qed

lemma extract_tar_confined: "confined dest fs (extract_tar_gz tar_archive os archive dest fs)"
proof (cases "open_file os archive fs")
  case (Pair r fs')
  then have [simp]: "fs' = fs" by (rule open_same)
  have "confined dest fs (bind_io (each_entry (tar_step os dest) no_progress es) (\<lambda>st. return_io (extracted st)) fs)" for es
  proof (cases "each_entry (tar_step os dest) no_progress es fs")
    case (Pair q gs)
    note keeps = tar_inside.run_cases [OF _ start_inside(1) this]
    show ?thesis by (rule confined_progress, rule Pair) (use keeps in simp)
  qed
  with Pair show ?thesis
    by (auto simp: extract_tar_gz_def bind_io_def [of "open_file os archive"] confined_unchanged split: sum.splits)
qed

lemma confined_map_err: "confined dest fs (map_err_io f m fs) = confined dest fs (m fs)"
  by (auto simp: confined_def map_err_io_def split: prod.splits sum.splits)

lemma extract_7z_confined: "confined dest fs (extract_7z display sevenz_archive os archive dest fs)"
proof (cases "each_entry (sevenz_step os dest) no_progress (sevenz_archive archive fs) fs")
  case (Pair q gs)
  note keeps = sevenz_inside.run_cases [OF _ start_inside(1) this]
  show ?thesis unfolding extract_7z_def confined_map_err by (rule confined_progress, rule Pair) (use keeps in simp)
qed

lemma extract_rar_confined: "confined dest fs (extract_rar_enabled listing headers os archive dest fs)"
proof (cases "listing archive fs")
  case (Inr es)
  define es' where "es' = map (map_err (\<lambda>e. invalid_data (''Failed to read rar entry: '' @ e))) es"
  obtain q gs where q: "each_entry (rar_select os dest) (no_entries, []) es' fs = (q, gs)" by force
  have gs: "gs = fs" and sel: "\<And>st. q = Inr st \<Longrightarrow> list_all relative_below (snd st)"
    using rar_selection.run_cases [OF _ start_inside(2) q] by (auto simp: rar_inside_def)
  have "confined dest fs (each_entry (rar_extract os dest selected) [] hs fs)"
    if "list_all relative_below selected" for selected hs
  proof (cases "each_entry (rar_extract os dest selected) [] hs fs")
    case (Pair r fs')
    show ?thesis
      using rar_extraction.run_cases [OF _ start_inside(3) Pair] that
      by (simp add: confined_def Pair rar_extracted_inside_def)
  qed
  then show ?thesis
    using q gs sel Inr
    by (auto simp: extract_rar_enabled_def es'_def bind_io_def confined_unchanged split: sum.splits)
qed (simp add: extract_rar_enabled_def confined_unchanged)

lemma extraction_confined_at:
  assumes "names_enclosed (zip_crate crates) archive fs"
  shows "confined dest fs (extract_archive crates os archive dest fs)"
  using assms
  by (auto simp: extract_archive_def extract_rar_def extract_rar_disabled_def fail_io_def confined_unchanged
      extract_zip_confined extract_tar_confined extract_7z_confined extract_rar_confined
      split: option.splits ArchiveFormat.splits)


text \<open>An archive of three files: one climbs out of the destination, one is absolute, one is plain.\<close>

definition calm_os :: os where
  "calm_os = \<lparr>fault = \<lambda>_ _. None, partial_bytes = \<lambda>_ _. 0, canonical = \<lambda>p. p, is_symlink = \<lambda>_. False\<rparr>"

definition tar_file :: "str \<Rightarrow> u64 \<Rightarrow> str \<Rightarrow> tar_entry" where
  "tar_file name sz data = \<lparr>tar_type = Regular, tar_path = Inr (path_of name), tar_size = sz,
     tar_content = \<lparr>yielded = data, read_error = None\<rparr>\<rparr>"

definition tar_crates :: "tar_entry list \<Rightarrow> archive_crates" where
  "tar_crates es = \<lparr>zip_crate = \<lambda>_ _. Inl [], tar_crate = \<lambda>_ _. Inr (map Inr es), sevenz_crate = \<lambda>_ _. [],
     sevenz_display = \<lambda>_. [], rar_feature = False, rar_listing = \<lambda>_ _. Inl [], rar_headers = \<lambda>_ _. Inl []\<rparr>"

definition demo_archive :: path where "demo_archive = path_of ''/a.tgz''"
definition demo_dest :: path where "demo_dest = path_of ''/tmp/x''"
definition demo_disk :: files where "demo_disk = [demo_archive \<mapsto> ''bytes'']"

lemma demo_tar_format: "detect_format demo_archive = Some TarGz"
  by code_simp

lemma tar_names: "names_enclosed (zip_crate (tar_crates es)) archive fs"
  by (simp add: names_enclosed_def tar_crates_def)

lemma demo_opens: "open_file calm_os demo_archive demo_disk = (Inr (), demo_disk)"
  by (simp add: open_file_def sys_def calm_os_def demo_disk_def)

lemmas extraction_run = tar_crates_def tar_file_def tar_step_def counted_def check_entry_def no_progress_def no_entries_def
  MAX_ENTRY_COUNT_def MAX_EXPANDED_SIZE_def validate_entry_path_def path_join_def Let_def resolves_below_def
  canonical_or_same_def canonicalize_def sys_def calm_os_def path_starts_with_def store_entry_def bind_io_def
  make_parent_dir_def parent_def create_dir_all_def create_file_def copy_content_def write_all_def return_io_def map_err_def

lemma demo_tar_run:
  "extract_archive (tar_crates es) calm_os demo_archive demo_dest demo_disk
   = bind_io (each_entry (tar_step calm_os demo_dest) no_progress (map Inr es)) (\<lambda>st. return_io (extracted st)) demo_disk"
  by (simp add: extract_archive_def demo_tar_format extract_tar_gz_def bind_io_def [of "open_file _ _"] demo_opens
      tar_crates_def map_err_def o_def)

lemma demo_extracts:
  "extract_archive (tar_crates [tar_file ''../../etc/passwd'' 1 ''x'', tar_file ''/etc/passwd'' 1 ''x'', tar_file ''s/a.srt'' 1 ''y''])
     calm_os demo_archive demo_dest demo_disk
   = (Inr [path_of ''/tmp/x/s/a.srt''], demo_disk(path_of ''/tmp/x/s/a.srt'' \<mapsto> ''y''))"
proof -
  have paths: "path_of ''../../etc/passwd'' = \<lparr>absolute = False, comps = [''..'', ''..'', ''etc'', ''passwd'']\<rparr>"
    "path_of ''/etc/passwd'' = \<lparr>absolute = True, comps = [''etc'', ''passwd'']\<rparr>"
    "path_of ''s/a.srt'' = \<lparr>absolute = False, comps = [''s'', ''a.srt'']\<rparr>"
    "path_of ''/tmp/x/s/a.srt'' = \<lparr>absolute = True, comps = [''tmp'', ''x'', ''s'', ''a.srt'']\<rparr>"
    "demo_dest = \<lparr>absolute = True, comps = [''tmp'', ''x'']\<rparr>"
    by code_simp+
  show ?thesis
    unfolding demo_tar_run by (simp add: paths extraction_run)
qed


section \<open>Bounds\<close>

text \<open>The bytes in the files of a list of paths, each path counted once.\<close>

definition stored_bytes :: "files \<Rightarrow> path list \<Rightarrow> nat" where
  "stored_bytes fs ps = (\<Sum>p\<in>set ps. length (case fs p of Some c \<Rightarrow> c | None \<Rightarrow> []))"

text \<open>A reader yields no more than the archive declares, and no declared size is near the end of \<open>u64\<close>.\<close>

definition honest :: "u64 \<Rightarrow> content \<Rightarrow> bool" where
  "honest sz c \<longleftrightarrow> length (yielded c) \<le> unat sz \<and> unat sz < 2 ^ 63"

definition room_for :: "nat \<Rightarrow> nat \<Rightarrow> progress \<Rightarrow> files \<Rightarrow> bool" where
  "room_for k n st fs \<longleftrightarrow>
     length (extracted st) + k \<le> entry_count (limits st) \<and> entry_count (limits st) \<le> MAX_ENTRY_COUNT \<and>
     stored_bytes fs (extracted st) + n \<le> unat (total_size (limits st)) \<and> unat (total_size (limits st)) \<le> MAX_EXPANDED_SIZE"

abbreviation bounded_run :: "progress \<Rightarrow> files \<Rightarrow> bool" where
  "bounded_run \<equiv> room_for 0 0"

lemma room_bounded: "room_for k n st fs \<Longrightarrow> bounded_run st fs"
  by (simp add: room_for_def)

lemma check_entry_adds:
  assumes "check_entry lims sz = Inr lims'" "unat sz < 2 ^ 63" "unat (total_size lims) \<le> MAX_EXPANDED_SIZE"
  shows "unat (total_size lims') = unat (total_size lims) + unat sz" "unat (total_size lims') \<le> MAX_EXPANDED_SIZE"
    "entry_count lims' = Suc (entry_count lims)" "entry_count lims' \<le> MAX_ENTRY_COUNT"
proof -
  have "unat (total_size lims) + unat sz < 2 ^ LENGTH(64)"
    using assms(2,3) by (simp add: MAX_EXPANDED_SIZE_def)
  then have "unat (total_size lims + sz) = unat (total_size lims) + unat sz"
    by (rule unat_add_lem [THEN iffD1])
  then show "unat (total_size lims') = unat (total_size lims) + unat sz" "unat (total_size lims') \<le> MAX_EXPANDED_SIZE"
    "entry_count lims' = Suc (entry_count lims)" "entry_count lims' \<le> MAX_ENTRY_COUNT"
    using assms(1) by (auto simp: check_entry_def Let_def split: if_splits)
qed

lemma check_entry_room:
  assumes "check_entry (limits st) sz = Inr lims" "honest sz c" "bounded_run st fs"
  shows "room_for 1 (length (yielded c)) (st\<lparr>limits := lims\<rparr>) fs"
  using assms(2,3) check_entry_adds [OF assms(1)] by (auto simp: room_for_def honest_def)

lemma stored_bytes_new:
  assumes "\<forall>p. p \<noteq> t \<longrightarrow> fs' p = fs p" "fs' t = Some c"
  shows "stored_bytes fs' (ps @ [t]) \<le> stored_bytes fs ps + length c"
proof -
  let ?n = "\<lambda>gs p. length (case gs p of Some c \<Rightarrow> c | None \<Rightarrow> [])"
  have "stored_bytes fs' (ps @ [t]) = (\<Sum>p\<in>insert t (set ps - {t}). ?n fs' p)"
    by (simp add: stored_bytes_def)
  also have "\<dots> = length c + (\<Sum>p\<in>set ps - {t}. ?n fs' p)"
    using assms(2) by (subst sum.insert) auto
  also have "(\<Sum>p\<in>set ps - {t}. ?n fs' p) = (\<Sum>p\<in>set ps - {t}. ?n fs p)"
    using assms(1) by (intro sum.cong) auto
  also have "\<dots> \<le> stored_bytes fs ps"
    unfolding stored_bytes_def by (intro sum_mono2) auto
  finally show ?thesis by simp
qed

lemma stored_bounded:
  assumes "stores t c fs (Inr st', fs')" "room_for 1 (length (yielded c)) st fs"
    and "st' = st\<lparr>extracted := extracted st @ [t]\<rparr>"
  shows "bounded_run st' fs'"
  using assms stored_bytes_new [of t fs' fs "yielded c" "extracted st"]
  by (auto simp: room_for_def stores_def)

lemma store_entry_bounded:
  assumes "store_entry os t c st fs = (Inr st', fs')" "room_for 1 (length (yielded c)) st fs"
  shows "bounded_run st' fs'"
  using stored_bounded [OF _ assms(2) store_entry_progress [OF assms(1)]] stores_entry [of t c fs os st] assms(1) by simp

lemma zip_step_bounded:
  assumes "honest (zip_size e) (zip_content e)" "bounded_run st fs" "zip_step os dest canon st e fs = (Inr st', fs')"
  shows "bounded_run st' fs'"
  using assms check_entry_room [OF _ assms(1,2)]
  by (auto simp: zip_step_def counted_def return_io_def fail_io_def Let_def
      intro: room_bounded store_entry_bounded split: if_splits sum.splits option.splits)

lemma tar_step_bounded:
  assumes "honest (tar_size e) (tar_content e)" "bounded_run st fs" "tar_step os dest st e fs = (Inr st', fs')"
  shows "bounded_run st' fs'"
  using assms check_entry_room [OF _ assms(1,2)]
  by (auto simp: tar_step_def counted_def return_io_def fail_io_def bind_io_def create_dir_all_def sys_def
      intro: room_bounded store_entry_bounded split: entry_type.splits sum.splits option.splits)

lemma sevenz_store_bounded:
  assumes "bind_io (map_err_io f (make_parent_dir os t)) (\<lambda>_. bind_io (map_err_io g (create_file os t))
     (\<lambda>_. bind_io (map_err_io h (copy_content os t c)) (\<lambda>_. return_io st2))) fs = (Inr st', fs')"
    and "room_for 1 (length (yielded c)) (st\<lparr>limits := lims\<rparr>) fs"
    and "st2 = st\<lparr>limits := lims, extracted := extracted st @ [t]\<rparr>"
  shows "bounded_run st' fs'"
proof -
  have "st' = (st\<lparr>limits := lims\<rparr>)\<lparr>extracted := extracted (st\<lparr>limits := lims\<rparr>) @ [t]\<rparr>"
    using assms(1,3) by (auto simp: bind_io_def return_io_def map_err_io_def split: prod.splits sum.splits)
  from stored_bounded [OF _ assms(2) this] stores_io [of t c fs f os g h st2] assms(1)
  show ?thesis by simp
qed

lemma sevenz_step_bounded:
  assumes "honest (sz_size e) (sz_content e)" "bounded_run st fs" "sevenz_step os dest st e fs = (Inr st', fs')"
  shows "bounded_run st' fs'"
  using assms check_entry_room [OF _ assms(1,2)]
  by (auto simp: sevenz_step_def return_io_def fail_io_def
      intro: room_bounded dest: sevenz_store_bounded split: if_splits sum.splits option.splits)

definition honest_zip :: "zip_entry \<Rightarrow> bool" where
  "honest_zip e \<longleftrightarrow> honest (zip_size e) (zip_content e)"

definition honest_tar :: "tar_entry \<Rightarrow> bool" where
  "honest_tar e \<longleftrightarrow> honest (tar_size e) (tar_content e)"

definition honest_sevenz :: "sevenz_entry \<Rightarrow> bool" where
  "honest_sevenz e \<longleftrightarrow> honest (sz_size e) (sz_content e)"

interpretation zip_bounded: entry_loop "zip_step os dest canon" honest_zip bounded_run "\<lambda>_. True" for os dest canon
  by unfold_locales (auto simp: honest_zip_def intro: zip_step_bounded)

interpretation tar_bounded: entry_loop "tar_step os dest" honest_tar bounded_run "\<lambda>_. True" for os dest
  by unfold_locales (auto simp: honest_tar_def intro: tar_step_bounded)

interpretation sevenz_bounded: entry_loop "sevenz_step os dest" honest_sevenz bounded_run "\<lambda>_. True" for os dest
  by unfold_locales (auto simp: honest_sevenz_def intro: sevenz_step_bounded)

text \<open>The reader of each format that is compiled in by default is honest about the sizes.\<close>

definition honest_sizes :: "archive_crates \<Rightarrow> path \<Rightarrow> files \<Rightarrow> bool" where
  "honest_sizes crates archive fs \<longleftrightarrow>
     (case zip_crate crates archive fs of Inl _ \<Rightarrow> True | Inr es \<Rightarrow> list_all (entry_ok honest_zip) es) \<and>
     (case tar_crate crates archive fs of Inl _ \<Rightarrow> True | Inr es \<Rightarrow> list_all (entry_ok honest_tar) es) \<and>
     list_all (entry_ok honest_sevenz) (sevenz_crate crates archive fs)"

lemma start_bounded: "bounded_run no_progress fs"
  by (simp add: room_for_def no_progress_def no_entries_def stored_bytes_def)

definition small_result :: "files \<Rightarrow> path list \<Rightarrow> bool" where
  "small_result fs ps \<longleftrightarrow> length ps \<le> MAX_ENTRY_COUNT \<and> stored_bytes fs ps \<le> MAX_EXPANDED_SIZE"

lemma bounded_result:
  assumes "bind_io m (\<lambda>st. return_io (extracted st)) fs = (Inr ps, fs')"
    and "\<And>st. m fs = (Inr st, fs') \<Longrightarrow> bounded_run st fs'"
  shows "small_result fs' ps"
proof -
  obtain st where "m fs = (Inr st, fs')" "ps = extracted st"
    using assms(1) by (auto simp: bind_io_def return_io_def split: prod.splits sum.splits)
  with assms(2) show ?thesis by (fastforce simp: room_for_def small_result_def)
qed

lemma opened_run: "bind_io (open_file os p) k fs = (Inr x, fs') \<Longrightarrow> k () fs = (Inr x, fs')"
  by (auto simp: bind_io_def dest: open_same split: prod.splits sum.splits)

lemma extracted_small:
  assumes "honest_sizes crates archive fs" "\<not> rar_feature crates"
    and "extract_archive crates os archive dest fs = (Inr ps, fs')"
  shows "small_result fs' ps"
proof -
  have zip: "small_result fs' ps" if "extract_zip (zip_crate crates) os archive dest fs = (Inr ps, fs')"
    using assms(1) opened_run [OF that [unfolded extract_zip_def]]
    by (auto simp: honest_sizes_def intro!: bounded_result zip_bounded.run_inv [OF _ start_bounded] split: sum.splits)
  have tar: "small_result fs' ps" if "extract_tar_gz (tar_crate crates) os archive dest fs = (Inr ps, fs')"
    using assms(1) opened_run [OF that [unfolded extract_tar_gz_def]]
    by (auto simp: honest_sizes_def list.pred_map o_def intro!: bounded_result tar_bounded.run_inv [OF _ start_bounded]
        split: sum.splits)
  have sevenz: "small_result fs' ps"
    if "extract_7z (sevenz_display crates) (sevenz_crate crates) os archive dest fs = (Inr ps, fs')"
  proof -
    have "bind_io (each_entry (sevenz_step os dest) no_progress (sevenz_crate crates archive fs))
        (\<lambda>st. return_io (extracted st)) fs = (Inr ps, fs')"
      using that by (auto simp: extract_7z_def map_err_io_def split: prod.splits sum.splits)
    then show ?thesis
      using assms(1)
      by (auto simp: honest_sizes_def intro!: bounded_result sevenz_bounded.run_inv [OF _ start_bounded])
  qed
  show ?thesis
    using assms(2,3) zip tar sevenz
    by (auto simp: extract_archive_def extract_rar_def extract_rar_disabled_def fail_io_def
        split: option.splits ArchiveFormat.splits)
qed



text \<open>
   The limit on the expanded size does not bind an archive that lies: the sum of the declared sizes wraps
  around, and the bytes copied are not compared with the declared size.  Two files that declare 1 and
  18446744073709551615 bytes are both extracted, however long their contents are.
\<close>

theorem declared_sizes_wrap:
  "extract_archive (tar_crates [tar_file ''a.srt'' 1 d1, tar_file ''b.srt'' 18446744073709551615 d2])
     calm_os demo_archive demo_dest demo_disk
   = (Inr [path_of ''/tmp/x/a.srt'', path_of ''/tmp/x/b.srt''],
      demo_disk(path_of ''/tmp/x/a.srt'' \<mapsto> d1, path_of ''/tmp/x/b.srt'' \<mapsto> d2))"
proof -
  have paths: "path_of ''a.srt'' = \<lparr>absolute = False, comps = [''a.srt'']\<rparr>"
    "path_of ''b.srt'' = \<lparr>absolute = False, comps = [''b.srt'']\<rparr>"
    "path_of ''/tmp/x/a.srt'' = \<lparr>absolute = True, comps = [''tmp'', ''x'', ''a.srt'']\<rparr>"
    "path_of ''/tmp/x/b.srt'' = \<lparr>absolute = True, comps = [''tmp'', ''x'', ''b.srt'']\<rparr>"
    "demo_dest = \<lparr>absolute = True, comps = [''tmp'', ''x'']\<rparr>"
    by code_simp+
  show ?thesis
    unfolding demo_tar_run by (simp add: paths extraction_run)
qed

end
