(* ===== verification/Input_Files.thy ===== *)
theory Input_Files
  imports Archive_Properties Match_Plan "HOL-Library.AList"
begin

text \<open>
  Collection of input files (\<open>src/core/input/mod.rs\<close>): the paths a command is given are expanded,
  directories by scanning them, archives by extracting them into temporary directories that live as long
  as the collected files, and derived output is placed beside the archive an input came from.
\<close>

section \<open>The directories\<close>

text \<open>
  What \<open>read_dir\<close> finds, as a tree: an entry that cannot be read, one whose type cannot be read, a symbolic
  link, a file, something else, a directory that cannot be read, a directory.
\<close>

datatype dir_item =
  Bad_Entry io_error
| Bad_Type str io_error
| Link_Item str
| File_Item str
| Special_Item str
| Unreadable str io_error
| Sub_Dir str "dir_item list"

text \<open>What a path leads to, symbolic links followed.\<close>

datatype located = At_File | At_Dir "io_error + dir_item list" | At_Other

section \<open>The handler\<close>

record InputPathHandler =
  given_paths :: "path list"
  recursive :: bool
  file_extensions :: "str list"
  no_extract :: bool

text \<open>
  The surroundings: what paths lead to, the operating system and the crates of the extraction, the
  directory that \<open>TempDir::new\<close> makes, and \<open>str::to_lowercase\<close>.
\<close>

record surroundings =
  leads_to :: "path \<Rightarrow> located option"
  in_os :: os
  in_crates :: archive_crates
  new_temp_dir :: "files \<Rightarrow> io_error + path"
  to_lowercase :: "str \<Rightarrow> str"

definition merge_paths_from_multiple_sources ::
    "path option list \<Rightarrow> path list \<Rightarrow> str list \<Rightarrow> path list res" where
  "merge_paths_from_multiple_sources optional_paths multiple_paths string_paths =
     (let all_paths = concat (map (\<lambda>p. case p of None \<Rightarrow> [] | Some p \<Rightarrow> [p]) optional_paths)
        @ multiple_paths @ map path_of string_paths in
      if all_paths = [] then Inl NoInputSpecified else Inr all_paths)"

fun check_exist :: "surroundings \<Rightarrow> path list \<Rightarrow> unit res" where
  "check_exist env [] = Inr ()"
| "check_exist env (p # ps) = (if leads_to env p = None then Inl (PathNotFound p) else check_exist env ps)"

definition validate_paths :: "surroundings \<Rightarrow> InputPathHandler \<Rightarrow> unit res" where
  "validate_paths env h = check_exist env (given_paths h)"

definition from_args :: "surroundings \<Rightarrow> path list \<Rightarrow> bool \<Rightarrow> InputPathHandler res" where
  "from_args env input_args rec =
     (let h = \<lparr>given_paths = input_args, recursive = rec, file_extensions = [], no_extract = False\<rparr> in
      bind_res (validate_paths env h) (\<lambda>_. Inr h))"

definition with_extensions :: "surroundings \<Rightarrow> str list \<Rightarrow> InputPathHandler \<Rightarrow> InputPathHandler" where
  "with_extensions env exts h = h\<lparr>file_extensions := map (to_lowercase env) exts\<rparr>"

definition with_no_extract :: "bool \<Rightarrow> InputPathHandler \<Rightarrow> InputPathHandler" where
  "with_no_extract b h = h\<lparr>no_extract := b\<rparr>"

text \<open>The directories come out of a hash set, in no order.\<close>

definition get_directories :: "surroundings \<Rightarrow> InputPathHandler \<Rightarrow> path set" where
  "get_directories env h = set (concat (map (\<lambda>p.
     case leads_to env p of
       Some (At_Dir _) \<Rightarrow> [p]
     | Some At_File \<Rightarrow> (case parent p of Some d \<Rightarrow> [d] | None \<Rightarrow> [])
     | _ \<Rightarrow> []) (given_paths h)))"

definition matches_extension :: "InputPathHandler \<Rightarrow> path \<Rightarrow> bool" where
  "matches_extension h p \<longleftrightarrow>
     (if file_extensions h = [] then True
      else case Option.bind (extension p) to_str of
        None \<Rightarrow> False
      | Some s \<Rightarrow> list_ex (\<lambda>ext. eq_ignore_ascii_case ext s) (file_extensions h))"

fun scan_directory_flat :: "InputPathHandler \<Rightarrow> path \<Rightarrow> dir_item list \<Rightarrow> path list res" where
  "scan_directory_flat h dir [] = Inr []"
| "scan_directory_flat h dir (Bad_Entry e # items) = Inl (DirectoryReadError dir e)"
| "scan_directory_flat h dir (Bad_Type n e # items) = Inl (DirectoryReadError dir e)"
| "scan_directory_flat h dir (File_Item n # items) =
     bind_res (scan_directory_flat h dir items) (\<lambda>ps.
       Inr (if matches_extension h (join_name dir n) then join_name dir n # ps else ps))"
| "scan_directory_flat h dir (item # items) = scan_directory_flat h dir items"

fun scan_directory_recursive :: "InputPathHandler \<Rightarrow> path \<Rightarrow> dir_item list \<Rightarrow> path list res" where
  "scan_directory_recursive h dir [] = Inr []"
| "scan_directory_recursive h dir (Bad_Entry e # items) = Inl (DirectoryReadError dir e)"
| "scan_directory_recursive h dir (Bad_Type n e # items) = Inl (DirectoryReadError dir e)"
| "scan_directory_recursive h dir (File_Item n # items) =
     bind_res (scan_directory_recursive h dir items) (\<lambda>ps.
       Inr (if matches_extension h (join_name dir n) then join_name dir n # ps else ps))"
| "scan_directory_recursive h dir (Unreadable n e # items) = Inl (DirectoryReadError (join_name dir n) e)"
| "scan_directory_recursive h dir (Sub_Dir n sub # items) =
     bind_res (scan_directory_recursive h (join_name dir n) sub) (\<lambda>ps.
     bind_res (scan_directory_recursive h dir items) (\<lambda>qs. Inr (ps @ qs)))"
| "scan_directory_recursive h dir (item # items) = scan_directory_recursive h dir items"

definition scan_directory :: "InputPathHandler \<Rightarrow> path \<Rightarrow> io_error + dir_item list \<Rightarrow> path list res" where
  "scan_directory h dir listing =
     (case listing of
        Inl e \<Rightarrow> Inl (DirectoryReadError dir e)
      | Inr items \<Rightarrow>
          (if recursive h then scan_directory_recursive h dir items else scan_directory_flat h dir items))"

section \<open>Collecting\<close>

text \<open>Dropping a \<open>TempDir\<close> removes what is below it.\<close>

definition drop_temp_dir :: "path \<Rightarrow> files \<Rightarrow> files" where
  "drop_temp_dir tmp fs p = (if path_starts_with p tmp then None else fs p)"

definition drop_temp_dirs :: "path list \<Rightarrow> files \<Rightarrow> files" where
  "drop_temp_dirs tmps fs = fold drop_temp_dir tmps fs"

definition extract_and_collect :: "surroundings \<Rightarrow> InputPathHandler \<Rightarrow> path \<Rightarrow> (SubXError, path list \<times> path) io" where
  "extract_and_collect env h archive fs =
     (case new_temp_dir env fs of
        Inl e \<Rightarrow> (Inl (CommandExecution (''Failed to create temp directory: '' @ io_text e)), fs)
      | Inr tmp \<Rightarrow>
          (case extract_archive (in_crates env) (in_os env) archive tmp fs of
             (Inl e, fs') \<Rightarrow>
               (Inl (CommandExecution (''Failed to extract '' @ path_display archive @ '': '' @ io_text e)),
                drop_temp_dir tmp fs')
           | (Inr ps, fs') \<Rightarrow> (Inr (filter (matches_extension h) ps, tmp), fs')))"

record CollectedFiles =
  found_paths :: "path list"
  temp_dirs :: "path list"
  archive_origins :: "(path \<times> path) list"

definition nothing_collected :: CollectedFiles where
  "nothing_collected = \<lparr>found_paths = [], temp_dirs = [], archive_origins = []\<rparr>"

definition add_found :: "path list \<Rightarrow> CollectedFiles \<Rightarrow> CollectedFiles" where
  "add_found ps c = c\<lparr>found_paths := found_paths c @ ps\<rparr>"

text \<open>A failing extraction is logged and the archive skipped.\<close>

definition collect_file :: "surroundings \<Rightarrow> InputPathHandler \<Rightarrow> path \<Rightarrow> CollectedFiles \<Rightarrow> files \<Rightarrow> CollectedFiles \<times> files" where
  "collect_file env h base c fs =
     (if \<not> no_extract h \<and> detect_format base \<noteq> None
      then (case extract_and_collect env h base fs of
              (Inl _, fs') \<Rightarrow> (c, fs')
            | (Inr (ps, tmp), fs') \<Rightarrow>
                (\<lparr>found_paths = found_paths c @ ps, temp_dirs = temp_dirs c @ [tmp],
                  archive_origins = AList.update tmp base (archive_origins c)\<rparr>, fs'))
      else (if matches_extension h base then add_found [base] c else c, fs))"

text \<open>Returning early drops the temporary directories made so far.\<close>

fun collect_loop :: "surroundings \<Rightarrow> InputPathHandler \<Rightarrow> path list \<Rightarrow> CollectedFiles \<Rightarrow> (SubXError, CollectedFiles) io" where
  "collect_loop env h [] c fs = (Inr c, fs)"
| "collect_loop env h (base # bases) c fs =
     (case leads_to env base of
        Some At_File \<Rightarrow> (case collect_file env h base c fs of (c', fs') \<Rightarrow> collect_loop env h bases c' fs')
      | Some (At_Dir listing) \<Rightarrow>
          (case scan_directory h base listing of
             Inl e \<Rightarrow> (Inl e, drop_temp_dirs (temp_dirs c) fs)
           | Inr ps \<Rightarrow> collect_loop env h bases (add_found ps c) fs)
      | _ \<Rightarrow> (Inl (InvalidPath base), drop_temp_dirs (temp_dirs c) fs))"

definition collect_files :: "surroundings \<Rightarrow> InputPathHandler \<Rightarrow> (SubXError, CollectedFiles) io" where
  "collect_files env h = collect_loop env h (given_paths h) nothing_collected"

definition drop_collected :: "CollectedFiles \<Rightarrow> files \<Rightarrow> files" where
  "drop_collected c = drop_temp_dirs (temp_dirs c)"

section \<open>Where derived output goes\<close>

text \<open>As paths, \<open>Path::new("")\<close> and \<open>Path::new(".")\<close> are the same place and have the same components.\<close>

definition default_output_dir :: "CollectedFiles \<Rightarrow> path \<Rightarrow> path" where
  "default_output_dir c input =
     (case Option.bind (archive_origin (archive_origins c) input) parent of
        Some d \<Rightarrow> d
      | None \<Rightarrow> (case parent input of Some d \<Rightarrow> d | None \<Rightarrow> path_of ''.''))"

definition default_output_path :: "CollectedFiles \<Rightarrow> path \<Rightarrow> str \<Rightarrow> path" where
  "default_output_path c input ext =
     (case archive_origin (archive_origins c) input of
        Some archive \<Rightarrow>
          let dir = (case parent archive of Some d \<Rightarrow> d | None \<Rightarrow> path_of ''.'');
              stem = (case Option.bind (file_stem input) to_str of Some s \<Rightarrow> s | None \<Rightarrow> ''output'')
          in join_name dir (stem @ ''.'' @ ext)
      | None \<Rightarrow> with_extension input ext)"

end
