(* ===== verification/Input_Properties.thy ===== *)
theory Input_Properties
  imports Input_Files
begin

text \<open>
  Properties of the collection of input files: a scan finds exactly the regular files that real
  directories lead to, temporary directories leave no trace, and derived output never lands in one.
\<close>

section \<open>Scans\<close>

text \<open>The files below a directory that are reached without following a symbolic link.\<close>

inductive reaches :: "path \<Rightarrow> dir_item list \<Rightarrow> path \<Rightarrow> bool" where
  here: "File_Item n \<in> set items \<Longrightarrow> reaches dir items (join_name dir n)"
| below: "Sub_Dir n sub \<in> set items \<Longrightarrow> reaches (join_name dir n) sub p \<Longrightarrow> reaches dir items p"

inductive_simps reaches_Nil [simp]: "reaches dir [] p"
inductive_simps reaches_iff: "reaches dir items p"

lemma reaches_Cons:
  "reaches dir (item # items) p \<longleftrightarrow>
     (case item of File_Item n \<Rightarrow> p = join_name dir n | Sub_Dir n sub \<Rightarrow> reaches (join_name dir n) sub p | _ \<Rightarrow> False)
     \<or> reaches dir items p"
  by (subst (1 3) reaches_iff) (auto split: dir_item.splits)

text \<open>Every entry of the tree can be read.\<close>

fun readable_item :: "dir_item \<Rightarrow> bool" where
  "readable_item (Bad_Entry e) = False"
| "readable_item (Bad_Type n e) = False"
| "readable_item (Unreadable n e) = False"
| "readable_item (Sub_Dir n sub) = list_all readable_item sub"
| "readable_item item = True"

lemma scan_recursive_found:
  "scan_directory_recursive h dir items = Inr ps \<Longrightarrow>
    set ps = {p. reaches dir items p \<and> matches_extension h p} \<and> list_all readable_item items"
  by (induction h dir items arbitrary: ps rule: scan_directory_recursive.induct)
    (auto simp: bind_res_Inr_iff reaches_Cons split: if_splits)

lemma scan_recursive_readable:
  "list_all readable_item items \<Longrightarrow> \<exists>ps. scan_directory_recursive h dir items = Inr ps"
  by (induction h dir items rule: scan_directory_recursive.induct) (auto simp: bind_res_Inr_iff)

lemma scan_flat_found:
  "scan_directory_flat h dir items = Inr ps \<Longrightarrow> p \<in> set ps \<Longrightarrow> reaches dir items p"
  by (induction h dir items arbitrary: ps rule: scan_directory_flat.induct)
    (auto simp: bind_res_Inr_iff reaches_Cons split: if_splits)

text \<open>
   C36.  A recursive scan succeeds exactly when every directory entry below the start can be read, and then
  returns the regular files below it that have a wanted extension, each reached without following a
  symbolic link, and no other path.
\<close>

theorem recursive_scan_exact:
  "(case scan_directory_recursive h dir items of
      Inr ps \<Rightarrow> list_all readable_item items \<and> set ps = {p. reaches dir items p \<and> matches_extension h p}
    | Inl e \<Rightarrow> \<not> list_all readable_item items)"
  using scan_recursive_found [of h dir items] scan_recursive_readable [of items h dir] by (auto split: sum.split)

section \<open>Temporary directories\<close>

lemma dropped_at: "drop_temp_dirs tmps fs p = (if \<exists>t \<in> set tmps. path_starts_with p t then None else fs p)"
  by (induction tmps arbitrary: fs) (auto simp: drop_temp_dirs_def drop_temp_dir_def)

text \<open>A temporary directory is new: no file is below it when it is made.\<close>

definition fresh_temp_dirs :: "surroundings \<Rightarrow> bool" where
  "fresh_temp_dirs env \<longleftrightarrow>
     (\<forall>fs t p. new_temp_dir env fs = Inr t \<longrightarrow> path_starts_with p t \<longrightarrow> fs p = None)"

definition encloses :: "surroundings \<Rightarrow> bool" where
  "encloses env \<longleftrightarrow> (\<forall>archive fs. names_enclosed (zip_crate (in_crates env)) archive fs)"

lemma inside_starts: "inside dest p \<Longrightarrow> path_starts_with p dest"
  by (simp add: inside_def)

lemma extraction_dropped:
  assumes "fresh_temp_dirs env" "encloses env" "new_temp_dir env fs = Inr t"
    and "extract_archive (in_crates env) (in_os env) archive t fs = (r, fs')"
  shows "\<not> path_starts_with p t \<Longrightarrow> fs' p = fs p" "drop_temp_dir t fs' = fs"
proof -
  have same: "fs' p = fs p" if "\<not> path_starts_with p t" for p
    using extraction_confined_at [of "in_crates env" archive fs t "in_os env"] assms(2,4) that inside_starts [of t p]
    by (auto simp: encloses_def confined_def outside_same_def)
  then show "\<not> path_starts_with p t \<Longrightarrow> fs' p = fs p" .
  show "drop_temp_dir t fs' = fs"
  proof
    show "drop_temp_dir t fs' p = fs p" for p
      using same [of p] assms(1,3) unfolding fresh_temp_dirs_def drop_temp_dir_def by metis
  qed
qed

text \<open>Dropping what a state holds gives the files back that were there before.\<close>

definition traceless :: "files \<Rightarrow> CollectedFiles \<Rightarrow> files \<Rightarrow> bool" where
  "traceless fs0 c fs \<longleftrightarrow> drop_temp_dirs (temp_dirs c) fs = fs0"

lemma drop_snoc: "drop_temp_dirs (tmps @ [t]) fs = drop_temp_dirs tmps (drop_temp_dir t fs)"
  by (rule ext) (auto simp: dropped_at drop_temp_dir_def)

lemma collect_file_traceless:
  assumes "fresh_temp_dirs env" "encloses env" "traceless fs0 c fs" "collect_file env h base c fs = (c', fs')"
  shows "traceless fs0 c' fs'"
proof (cases "\<not> no_extract h \<and> detect_format base \<noteq> None")
  case True
  show ?thesis
  proof (cases "new_temp_dir env fs")
    case (Inr t)
    obtain r gs where run: "extract_archive (in_crates env) (in_os env) base t fs = (r, gs)" by force
    note undone = extraction_dropped(2) [OF assms(1,2) Inr run]
    show ?thesis
      using True assms(3,4) Inr run undone
      by (cases r) (auto simp: collect_file_def extract_and_collect_def traceless_def drop_snoc)
  qed (use True assms in \<open>auto simp: collect_file_def extract_and_collect_def\<close>)
qed (use assms in \<open>auto simp: collect_file_def traceless_def add_found_def split: if_splits\<close>)

lemma collect_loop_traceless:
  assumes "fresh_temp_dirs env" "encloses env"
  shows "traceless fs0 c fs \<Longrightarrow> collect_loop env h bases c fs = (r, fs') \<Longrightarrow>
    (case r of Inl e \<Rightarrow> fs' = fs0 | Inr c' \<Rightarrow> traceless fs0 c' fs')"
proof (induction bases arbitrary: c fs)
  case (Cons base bases)
  have add: "traceless fs0 (add_found ps c) fs" for ps
    using Cons.prems(1) by (simp add: traceless_def add_found_def)
  have one: "traceless fs0 c' gs" if "collect_file env h base c fs = (c', gs)" for c' gs
    using collect_file_traceless [OF assms Cons.prems(1) that] .
  show ?case
    using Cons.prems Cons.IH [OF add] Cons.IH [OF one]
    by (auto simp: traceless_def split: option.splits located.splits sum.splits prod.splits)
qed auto

text \<open>
   C26.  Collecting files leaves no trace: once the collected files are dropped, and at once when
  collecting fails, every file is as it was, whatever the archives contain and wherever their extraction
  stops.
\<close>

theorem collection_leaves_no_trace:
  assumes "fresh_temp_dirs env" "encloses env" "collect_files env h fs = (r, fs')"
  shows "case r of Inl e \<Rightarrow> fs' = fs | Inr c \<Rightarrow> drop_collected c fs' = fs"
proof -
  have "traceless fs nothing_collected fs"
    by (simp add: traceless_def nothing_collected_def drop_temp_dirs_def)
  from collect_loop_traceless [OF assms(1,2) this assms(3) [unfolded collect_files_def]] show ?thesis
    by (cases r) (simp_all add: traceless_def drop_collected_def)
qed

section \<open>Where derived output goes\<close>

definition known_path :: "surroundings \<Rightarrow> InputPathHandler \<Rightarrow> path \<Rightarrow> bool" where
  "known_path env h p \<longleftrightarrow> p \<in> set (given_paths h) \<or>
     (\<exists>base \<in> set (given_paths h). \<exists>items. leads_to env base = Some (At_Dir (Inr items)) \<and> reaches base items p)"

definition is_temp :: "surroundings \<Rightarrow> path \<Rightarrow> bool" where
  "is_temp env t \<longleftrightarrow> (\<exists>fs. new_temp_dir env fs = Inr t)"

text \<open>A temporary directory has a name, and what is given, or found below it, is not in one.\<close>

definition temps_apart :: "surroundings \<Rightarrow> InputPathHandler \<Rightarrow> bool" where
  "temps_apart env h \<longleftrightarrow> (\<forall>t. is_temp env t \<longrightarrow> comps t \<noteq> [] \<and> (\<forall>p. known_path env h p \<longrightarrow> \<not> path_starts_with p t))"

definition located_well :: "surroundings \<Rightarrow> InputPathHandler \<Rightarrow> CollectedFiles \<Rightarrow> bool" where
  "located_well env h c \<longleftrightarrow>
     list_all (is_temp env) (temp_dirs c) \<and>
     fst ` set (archive_origins c) = set (temp_dirs c) \<and>
     (\<forall>(t, a) \<in> set (archive_origins c). a \<in> set (given_paths h) \<and> parent a \<noteq> None) \<and>
     (\<forall>p \<in> set (found_paths c). known_path env h p \<or> (\<exists>t \<in> set (temp_dirs c). path_starts_with p t))"

lemma archive_parent: "detect_format p \<noteq> None \<Longrightarrow> parent p \<noteq> None"
  by (auto simp: detect_format_def parent_def extension_def file_name_def split: if_splits option.splits)

lemma starts_parent: "parent a = Some d \<Longrightarrow> path_starts_with d t \<Longrightarrow> path_starts_with a t"
  by (auto simp: parent_def path_starts_with_def split: if_splits intro: prefix_order.trans [OF _ prefixeq_butlast])

lemma add_known:
  assumes "located_well env h c" "\<And>p. p \<in> set ps \<Longrightarrow> known_path env h p"
  shows "located_well env h (add_found ps c)"
  using assms by (auto simp: located_well_def add_found_def)

lemma set_update_values:
  "x \<in> set (AList.update k v al) \<Longrightarrow> x = (k, v) \<or> x \<in> set al"
  by (induction al) (auto split: if_splits)

lemma collect_file_located:
  assumes "encloses env" "located_well env h c" "base \<in> set (given_paths h)"
    and "collect_file env h base c fs = (c', fs')"
  shows "located_well env h c'"
proof (cases "\<not> no_extract h \<and> detect_format base \<noteq> None")
  case True
  show ?thesis
  proof (cases "new_temp_dir env fs")
    case (Inr t)
    obtain r gs where run: "extract_archive (in_crates env) (in_os env) base t fs = (r, gs)" by force
    have there: "path_starts_with p t" if "r = Inr ps" "p \<in> set ps" for p ps
      using extraction_confined_at [of "in_crates env" base fs t "in_os env"] assms(1) run that
      by (auto simp: encloses_def confined_def list_all_iff intro: inside_starts)
    have temp: "is_temp env t" using Inr by (auto simp: is_temp_def)
    show ?thesis
    proof (cases r)
      case (Inr ps)
      then have c': "c' = \<lparr>found_paths = found_paths c @ filter (matches_extension h) ps, temp_dirs = temp_dirs c @ [t],
          archive_origins = AList.update t base (archive_origins c)\<rparr>"
        using True assms(4) \<open>new_temp_dir env fs = Inr t\<close> run by (simp add: collect_file_def extract_and_collect_def)
      have keys: "fst ` set (AList.update t base (archive_origins c)) = insert t (set (temp_dirs c))"
        using assms(2) dom_update [of t base "archive_origins c"]
        by (auto simp: located_well_def dom_map_of_conv_image_fst)
      show ?thesis
        using assms(2,3) archive_parent [of base] True there [OF Inr] temp keys
        by (auto simp: located_well_def c' dest!: set_update_values)
    qed (use True assms Inr run in \<open>auto simp: collect_file_def extract_and_collect_def\<close>)
  qed (use True assms in \<open>auto simp: collect_file_def extract_and_collect_def\<close>)
qed (use assms in \<open>auto simp: collect_file_def known_path_def intro!: add_known split: if_splits\<close>)

lemma scan_known:
  assumes "leads_to env base = Some (At_Dir listing)" "base \<in> set (given_paths h)"
    and "scan_directory h base listing = Inr ps" "p \<in> set ps"
  shows "known_path env h p"
  using assms scan_recursive_found scan_flat_found
  by (fastforce simp: scan_directory_def known_path_def split: sum.splits if_splits)

lemma collect_loop_located:
  assumes "encloses env"
  shows "located_well env h c \<Longrightarrow> set bases \<subseteq> set (given_paths h) \<Longrightarrow>
    collect_loop env h bases c fs = (Inr c', fs') \<Longrightarrow> located_well env h c'"
proof (induction bases arbitrary: c fs)
  case (Cons base bases)
  then have base: "base \<in> set (given_paths h)" and sub: "set bases \<subseteq> set (given_paths h)" by simp_all
  show ?case
  proof (cases "\<exists>listing. leads_to env base = Some (At_Dir listing)")
    case True
    then obtain listing where l: "leads_to env base = Some (At_Dir listing)" by blast
    then obtain ps where ps: "scan_directory h base listing = Inr ps"
      and run: "collect_loop env h bases (add_found ps c) fs = (Inr c', fs')"
      using Cons.prems(3) by (auto split: sum.splits)
    show ?thesis
      using Cons.IH [OF add_known [OF Cons.prems(1)] sub run] scan_known [OF l base ps] by blast
  next
    case False
    then show ?thesis
      using Cons.prems(3) Cons.IH [OF collect_file_located [OF assms Cons.prems(1) base] sub]
      by (auto split: option.splits located.splits prod.splits)
  qed
qed simp

lemma origin_of_temp:
  "(\<exists>t \<in> fst ` set origins. path_starts_with p t) \<Longrightarrow> \<exists>t a. (t, a) \<in> set origins \<and> archive_origin origins p = Some a"
proof (induction origins)
  case (Cons o' origins)
  then show ?case
    by (cases o'; cases "path_starts_with p (fst o')") (auto simp: archive_origin_def)
qed simp

lemma origin_of_other:
  "\<not> (\<exists>t \<in> fst ` set origins. path_starts_with p t) \<Longrightarrow> archive_origin origins p = None"
  by (induction origins) (auto simp: archive_origin_def)

lemma output_location:
  assumes "temps_apart env h" "located_well env h c" "p \<in> set (found_paths c)" "t \<in> set (temp_dirs c)"
  shows "\<not> path_starts_with (default_output_dir c p) t"
proof (cases "\<exists>u \<in> set (temp_dirs c). path_starts_with p u")
  case True
  then have "\<exists>u \<in> fst ` set (archive_origins c). path_starts_with p u"
    using assms(2) by (simp add: located_well_def)
  then obtain u a where a: "(u, a) \<in> set (archive_origins c)" "archive_origin (archive_origins c) p = Some a"
    using origin_of_temp by blast
  then obtain d where "a \<in> set (given_paths h)" "parent a = Some d"
    using assms(2) by (fastforce simp: located_well_def)
  moreover have "\<not> path_starts_with a t"
    using assms \<open>a \<in> set (given_paths h)\<close> by (auto simp: temps_apart_def located_well_def known_path_def list_all_iff)
  ultimately show ?thesis using a by (auto simp: default_output_dir_def dest: starts_parent)
next
  case False
  then have "archive_origin (archive_origins c) p = None"
    using assms(2) by (intro origin_of_other) (simp add: located_well_def)
  moreover have "\<not> path_starts_with p t" "comps t \<noteq> []"
    using False assms by (auto simp: temps_apart_def located_well_def list_all_iff)
  moreover from this(2) have "\<not> path_starts_with (path_of ''.'') t"
    by (simp add: path_of_def path_starts_with_def)
  ultimately show ?thesis
    by (auto simp: default_output_dir_def dest: starts_parent split: option.splits)
qed

text \<open>
   C29.  The default directory for output derived from a collected file is never in a temporary directory of
  the collection: output derived from a file of an archive goes beside the archive.
\<close>

theorem output_outlives_collection:
  assumes "encloses env" "temps_apart env h" "collect_files env h fs = (Inr c, fs')"
    and "p \<in> set (found_paths c)" "t \<in> set (temp_dirs c)"
  shows "\<not> path_starts_with (default_output_dir c p) t"
proof -
  have "located_well env h nothing_collected"
    by (simp add: located_well_def nothing_collected_def)
  from collect_loop_located [OF assms(1) this order.refl assms(3) [unfolded collect_files_def]]
  show ?thesis using output_location [OF assms(2) _ assms(4,5)] by simp
qed

section \<open>Witnesses\<close>

text \<open>The archive of the extraction, given as the only input of a command for SRT files.\<close>

definition demo_entries :: "tar_entry list" where
  "demo_entries = [tar_file ''../../etc/passwd'' 1 ''x'', tar_file ''/etc/passwd'' 1 ''x'', tar_file ''s/a.srt'' 1 ''y'']"

definition demo_surroundings :: surroundings where
  "demo_surroundings = \<lparr>leads_to = [demo_archive \<mapsto> At_File], in_os = calm_os, in_crates = tar_crates demo_entries,
     new_temp_dir = \<lambda>fs. if \<forall>p. path_starts_with p demo_dest \<longrightarrow> fs p = None then Inr demo_dest else Inl exists_error,
     to_lowercase = \<lambda>s. s\<rparr>"

definition demo_handler :: InputPathHandler where
  "demo_handler = \<lparr>given_paths = [demo_archive], recursive = True, file_extensions = [''srt''], no_extract = False\<rparr>"

lemma demo_fresh: "fresh_temp_dirs demo_surroundings"
  by (simp add: fresh_temp_dirs_def demo_surroundings_def)

lemma demo_encloses: "encloses demo_surroundings"
  by (simp add: encloses_def demo_surroundings_def tar_names)

lemma demo_temp: "new_temp_dir demo_surroundings demo_disk = Inr demo_dest"
proof -
  have "\<not> path_starts_with demo_archive demo_dest" by code_simp
  then show ?thesis by (auto simp: demo_surroundings_def demo_disk_def)
qed

lemma demo_collects:
  "collect_files demo_surroundings demo_handler demo_disk =
    (Inr \<lparr>found_paths = [path_of ''/tmp/x/s/a.srt''], temp_dirs = [demo_dest], archive_origins = [(demo_dest, demo_archive)]\<rparr>,
     demo_disk(path_of ''/tmp/x/s/a.srt'' \<mapsto> ''y''))"
proof -
  have m: "matches_extension demo_handler (path_of ''/tmp/x/s/a.srt'')" by code_simp
  have "extract_archive (in_crates demo_surroundings) (in_os demo_surroundings) demo_archive demo_dest demo_disk
      = (Inr [path_of ''/tmp/x/s/a.srt''], demo_disk(path_of ''/tmp/x/s/a.srt'' \<mapsto> ''y''))"
    using demo_extracts by (simp add: demo_surroundings_def demo_entries_def)
  then have one: "collect_file demo_surroundings demo_handler demo_archive nothing_collected demo_disk
      = (\<lparr>found_paths = [path_of ''/tmp/x/s/a.srt''], temp_dirs = [demo_dest], archive_origins = [(demo_dest, demo_archive)]\<rparr>,
     demo_disk(path_of ''/tmp/x/s/a.srt'' \<mapsto> ''y''))"
    using m demo_temp demo_tar_format
    by (simp add: collect_file_def extract_and_collect_def nothing_collected_def) (simp add: demo_handler_def)
  have "leads_to demo_surroundings demo_archive = Some At_File" by (simp add: demo_surroundings_def)
  with one show ?thesis by (simp add: collect_files_def demo_handler_def [THEN arg_cong [of _ _ given_paths]])
qed

theorem collection_leaves_no_trace_witness:
  "drop_temp_dirs [demo_dest] (demo_disk(path_of ''/tmp/x/s/a.srt'' \<mapsto> ''y'')) = demo_disk"
  using collection_leaves_no_trace [OF demo_fresh demo_encloses demo_collects] by (simp add: drop_collected_def)

lemma demo_apart: "temps_apart demo_surroundings demo_handler"
proof -
  have "comps demo_dest \<noteq> []" "\<not> path_starts_with demo_archive demo_dest" by code_simp+
  then show ?thesis
    by (auto simp: temps_apart_def is_temp_def known_path_def demo_surroundings_def demo_handler_def split: if_splits)
qed

theorem output_outlives_collection_witness:
  "\<not> path_starts_with (default_output_dir (\<lparr>found_paths = [path_of ''/tmp/x/s/a.srt''], temp_dirs = [demo_dest],
      archive_origins = [(demo_dest, demo_archive)]\<rparr>) (path_of ''/tmp/x/s/a.srt'')) demo_dest"
  using output_outlives_collection [OF demo_encloses demo_apart demo_collects] by simp

end
