(* ===== verification/Ai_Hosts.thy ===== *)
theory Ai_Hosts
  imports Config_Validation Regex_Engine Match_Plan
begin

text \<open>
  Helpers of the AI clients: the warning about plain HTTP (\<open>src/services/ai/security.rs\<close>), the cleaning of
  error texts (\<open>error_sanitizer.rs\<close>), and the recognition of private hosts with the hint toward the local
  provider (\<open>hosted_hint.rs\<close>).  Parsing a URL is the work of the crate url, an argument; the parsers of IP
  addresses are those of the standard library.
\<close>

section \<open>URLs\<close>

record url_error =
  empty_host :: bool
  url_error_text :: str

record parsed_url =
  url_scheme :: str
  host_str :: "str option"
  ipv6_host :: "str option"
  url_port :: "nat option"
  url_path :: str

type_synonym url_lib = "str \<Rightarrow> url_error + parsed_url"

text \<open>The log line that is written, if any.\<close>

definition warn_on_insecure_http :: "parsed_url \<Rightarrow> str \<Rightarrow> str option" where
  "warn_on_insecure_http u key =
     (if url_scheme u \<noteq> ''http'' then None
      else if trim key = [] then None
      else let host = (case host_str u of Some h \<Rightarrow> h | None \<Rightarrow> []) in
        if host \<in> set [''127.0.0.1'', ''::1'', ''localhost''] then None
        else Some (''AI endpoint uses plaintext HTTP ('' @ host
          @ ''). API key will be transmitted unencrypted; consider using HTTPS.''))"

definition warn_on_insecure_http_str :: "url_lib \<Rightarrow> str \<Rightarrow> str \<Rightarrow> str option" where
  "warn_on_insecure_http_str url s key =
     (case url s of Inr u \<Rightarrow> warn_on_insecure_http u key | Inl _ \<Rightarrow> None)"

section \<open>Error texts\<close>

definition DEFAULT_ERROR_BODY_MAX_LEN :: nat where
  "DEFAULT_ERROR_BODY_MAX_LEN = 500"

fun boundary_before :: "str \<Rightarrow> nat \<Rightarrow> nat" where
  "boundary_before body 0 = 0"
| "boundary_before body (Suc n) = (if is_char_boundary body (Suc n) then Suc n else boundary_before body n)"

definition truncate_error_body :: "str \<Rightarrow> nat \<Rightarrow> str" where
  "truncate_error_body body max_len =
     (if length body \<le> max_len then body
      else take (boundary_before body max_len) body @ ''... (truncated)'')"

text \<open>The pattern \<open>(https?://[^\s?#]+)\?[^\s]*\<close>.\<close>

definition url_regex :: rx where
  "url_regex =
     [(NoAnchor,
       map (\<lambda>c. (lit c)\<lparr>group := 1\<rparr>) ''http'' @ [optional 1 (CLit CHR ''s'')]
       @ map (\<lambda>c. (lit c)\<lparr>group := 1\<rparr>) ''://'' @ [plus 1 (CNonSpace ''?#''), lit CHR ''?'', star 0 (CNonSpace [])])]"

definition sanitize_url_in_error :: "'m regex_crate_scheme \<Rightarrow> str \<Rightarrow> str" where
  "sanitize_url_in_error eng msg = replace_all eng url_regex (\<lambda>ms. cap ms 1) msg"

section \<open>IP addresses\<close>

definition read_octet :: "str \<Rightarrow> (nat \<times> str) option" where
  "read_octet s =
     (let ds = takeWhile is_digit s in
      if ds = [] \<or> 3 < length ds \<or> 1 < length ds \<and> hd ds = CHR ''0'' \<or> 255 < dec_val 0 ds then None
      else Some (dec_val 0 ds, drop (length ds) s))"

text \<open>As many octets as asked for, dots between them.\<close>

fun read_octets :: "nat \<Rightarrow> str \<Rightarrow> (nat list \<times> str) option" where
  "read_octets 0 s = Some ([], s)"
| "read_octets (Suc n) s =
     Option.bind (read_octet s) (\<lambda>(a, s).
       if n = 0 then Some ([a], s)
       else Option.bind (strip_prefix ''.'' s) (\<lambda>s.
         Option.bind (read_octets n s) (\<lambda>(as, s). Some (a # as, s))))"

definition parse_ipv4 :: "str \<Rightarrow> nat list option" where
  "parse_ipv4 s =
     (case read_octets 4 s of Some (as, r) \<Rightarrow> if r = [] then Some as else None | None \<Rightarrow> None)"

definition is_hex :: "char \<Rightarrow> bool" where
  "is_hex c \<longleftrightarrow> is_digit c \<or> 97 \<le> code (ascii_lower_char c) \<and> code (ascii_lower_char c) \<le> 102"

definition hex_digit :: "char \<Rightarrow> nat" where
  "hex_digit c = (if is_digit c then digit_val c else code (ascii_lower_char c) - 87)"

definition read_group :: "str \<Rightarrow> (nat \<times> str) option" where
  "read_group s =
     (let ds = takeWhile is_hex s in
      if ds = [] \<or> 4 < length ds then None
      else Some (foldl (\<lambda>acc c. acc * 16 + hex_digit c) 0 ds, drop (length ds) s))"

text \<open>
  Groups of an IPv6 address, at most as many as asked for, colons between them; where two groups fit, an
  IPv4 address may end them, which the flag tells.
\<close>

fun read_groups :: "bool \<Rightarrow> nat \<Rightarrow> str \<Rightarrow> nat list \<times> bool \<times> str" where
  "read_groups first 0 s = ([], False, s)"
| "read_groups first (Suc k) s =
     (let t = (if first then Some s else strip_prefix '':'' s) in
      case (if k = 0 then None else Option.bind t (read_octets 4)) of
        Some ([a, b, c, d], r) \<Rightarrow> ([a * 256 + b, c * 256 + d], True, r)
      | _ \<Rightarrow>
          (case Option.bind t read_group of
             Some (g, r) \<Rightarrow> (let (gs, v4, r') = read_groups False k r in (g # gs, v4, r'))
           | None \<Rightarrow> ([], False, s)))"

definition parse_ipv6 :: "str \<Rightarrow> nat list option" where
  "parse_ipv6 s =
     (let (gs, v4, r) = read_groups True 8 s in
      if length gs = 8 then (if r = [] then Some gs else None)
      else if v4 then None
      else case strip_prefix ''::'' r of
        None \<Rightarrow> None
      | Some r \<Rightarrow>
          (let (hs, _, r) = read_groups True (7 - length gs) r in
           if r = [] then Some (gs @ replicate (8 - length gs - length hs) 0 @ hs) else None))"

section \<open>Private hosts\<close>

definition is_private_ipv4 :: "nat list \<Rightarrow> bool" where
  "is_private_ipv4 addr \<longleftrightarrow>
     addr ! 0 = 127
     \<or> (addr ! 0 = 10 \<or> addr ! 0 = 172 \<and> 16 \<le> addr ! 1 \<and> addr ! 1 \<le> 31 \<or> addr ! 0 = 192 \<and> addr ! 1 = 168)
     \<or> addr ! 0 = 169 \<and> addr ! 1 = 254"

definition is_private_ipv6 :: "nat list \<Rightarrow> bool" where
  "is_private_ipv6 segments \<longleftrightarrow>
     segments = [0, 0, 0, 0, 0, 0, 0, 1]
     \<or> and (segments ! 0) 0xfe00 = 0xfc00 \<or> and (segments ! 0) 0xffc0 = 0xfe80"

definition private_suffixes :: "str list" where
  "private_suffixes = [''.local'', ''.lan'', ''.internal'', ''.localdomain'', ''.home.arpa'']"

definition bare_host :: "str \<Rightarrow> str" where
  "bare_host host = rev (dropWhile ((=) (CHR '']'')) (rev (dropWhile ((=) (CHR ''['')) (trim host))))"

definition is_private_host_str :: "str \<Rightarrow> bool" where
  "is_private_host_str h =
     (let host = bare_host h in
      case parse_ipv4 host of
        Some v4 \<Rightarrow> is_private_ipv4 v4
      | None \<Rightarrow>
          (case parse_ipv6 host of
             Some v6 \<Rightarrow> is_private_ipv6 v6
           | None \<Rightarrow>
               (let lower = ascii_lower host in
                lower = ''localhost'' \<or> list_ex (\<lambda>s. suffix s lower) private_suffixes)))"

definition is_private_host :: "parsed_url \<Rightarrow> bool" where
  "is_private_host u = (case host_str u of None \<Rightarrow> False | Some h \<Rightarrow> is_private_host_str h)"

section \<open>Hints\<close>

text \<open>What the source asks of an error of the crate reqwest.\<close>

record transport_error =
  te_text :: str
  is_timeout :: bool
  is_connect :: bool
  is_request :: bool

definition should_hint_for_transport :: "url_lib \<Rightarrow> transport_error \<Rightarrow> str \<Rightarrow> bool" where
  "should_hint_for_transport url err configured_url =
     (if \<not> (is_connect err \<or> is_request err \<or> is_timeout err) then False
      else case url configured_url of Inl _ \<Rightarrow> False | Inr u \<Rightarrow> is_private_host u)"

definition should_hint_for_parse :: "bool \<Rightarrow> str \<Rightarrow> bool" where
  "should_hint_for_parse body_was_json msg = body_was_json"

definition append_local_hint :: "'m regex_crate_scheme \<Rightarrow> str \<Rightarrow> str" where
  "append_local_hint eng message = sanitize_url_in_error eng message @ LF # local_provider_hint"

definition maybe_attach_local_hint :: "'m regex_crate_scheme \<Rightarrow> url_lib \<Rightarrow> SubXError \<Rightarrow> str \<Rightarrow> SubXError" where
  "maybe_attach_local_hint eng url err configured_url =
     (case url configured_url of
        Inl _ \<Rightarrow> err
      | Inr u \<Rightarrow>
          if \<not> is_private_host u then err
          else (case err of AiService msg \<Rightarrow> AiService (append_local_hint eng msg) | _ \<Rightarrow> err))"

end
