(* ===== verification/Match_Prompts.thy ===== *)
theory Match_Prompts
  imports Match_Cache
begin

text \<open>
  The prompts of the matching (\<open>src/services/ai/prompts.rs\<close>): the XML that lists the files and their
  samples, and the parsing of the answers.
\<close>

section \<open>Escaping\<close>

definition xml_escape_char :: "char \<Rightarrow> str" where
  "xml_escape_char c =
     (if c = CHR ''&'' then ''&amp;''
      else if c = CHR ''<'' then ''&lt;''
      else if c = CHR ''>'' then ''&gt;''
      else if c = CHR 0x22 then ''&quot;''
      else if c = CHR 0x27 then ''&#39;''
      else [c])"

definition xml_escape_attr :: "str \<Rightarrow> str" where
  "xml_escape_attr value = concat (map xml_escape_char value)"

abbreviation cdata_open :: str where "cdata_open \<equiv> ''<![CDATA[''"
abbreviation cdata_close :: str where "cdata_close \<equiv> '']]>''"

definition cdata_safe :: "str \<Rightarrow> str" where
  "cdata_safe s = replace_str cdata_close '']]]]><![CDATA[>'' s"

definition cdata_wrap :: "str \<Rightarrow> str" where
  "cdata_wrap s = cdata_open @ cdata_safe s @ cdata_close"

section \<open>The analysis prompt\<close>

text \<open>The three variables of the loop of \<open>parse_id_name_path\<close>.\<close>

definition id_name_path_step ::
    "str option \<times> str option \<times> str option \<Rightarrow> str \<Rightarrow> str option \<times> str option \<times> str option" where
  "id_name_path_step st part =
     (case st of (i, n, p) \<Rightarrow>
        case strip_prefix ''ID:'' part of
          Some r \<Rightarrow> (Some (trim r), n, p)
        | None \<Rightarrow> (case strip_prefix ''Name:'' part of
            Some r \<Rightarrow> (i, Some (trim r), p)
          | None \<Rightarrow> (case strip_prefix ''Path:'' part of
              Some r \<Rightarrow> (i, n, Some (trim r))
            | None \<Rightarrow> (i, n, p))))"

definition parse_id_name_path :: "str \<Rightarrow> (str \<times> str \<times> str) option" where
  "parse_id_name_path entry =
     (case foldl id_name_path_step (None, None, None) (split_str '' | '' entry) of
        (Some i, Some n, Some p) \<Rightarrow> Some (i, n, p)
      | _ \<Rightarrow> None)"

definition quoted_attr :: "str \<Rightarrow> str" where
  "quoted_attr value = CHR 0x22 # xml_escape_attr value @ [CHR 0x22]"

definition render_file_element :: "str \<Rightarrow> str" where
  "render_file_element entry =
     (case parse_id_name_path entry of
        Some (i, n, p) \<Rightarrow>
          ''  <file id='' @ quoted_attr i @ '' name='' @ quoted_attr n @ '' path='' @ quoted_attr p @ ''/>'' @ [LF]
      | None \<Rightarrow> ''  <file>'' @ cdata_wrap entry @ ''</file>'' @ [LF])"

definition analysis_instructions :: str where
  "analysis_instructions =
     ''<role>You are an expert subtitle-matching assistant. Pair each subtitle file with the ''
     @ ''video it belongs to using filename evidence and the subtitle preview text.</role>'' @ [LF]
     @ ''<instructions>'' @ [LF] @ ''## Task'' @ [LF]
     @ ''Analyze the inventories below and return JSON-only output that pairs every confidently ''
     @ ''matched subtitle with its video. Use the file IDs verbatim '' @ [CHR 0xE2, CHR 0x80, CHR 0x94]
     @ '' never invent new IDs and never echo filenames as IDs.'' @ [LF, LF]
     @ ''## Language Inference Rules'' @ [LF]
     @ ''Use BOTH the filename and the `<content_samples>` text to infer each subtitle'' @ [CHR 0x27]
     @ ''s language. The content sample is the primary signal: when filename and content disagree, ''
     @ ''trust the content. Output a short language code (e.g. `tc`, `sc`, `en`, `ja`, `ko`, `fr`, ''
     @ ''`de`, `es`, `pt`, `ru`). Use `und` only when the language genuinely cannot be determined.''
     @ [LF, LF] @ ''## Naming and Uniqueness Rules'' @ [LF] @ ''Across the entire `matches[]` array ''
     @ [CHR 0xE2, CHR 0x80, CHR 0x94] @ '' not just within a single video ''
     @ [CHR 0xE2, CHR 0x80, CHR 0x94]
     @ '' no two entries MAY produce the same final filename in the same target directory. When ''
     @ ''two subtitles for the same video would otherwise collide, supply distinct `language` ''
     @ ''codes. If both share the same language, supply a numeric `target_filename_suffix` (`2`, ''
     @ ''`3`, '' @ [CHR 0xE2, CHR 0x80, CHR 0xA6]
     @ '') starting at `2`. The suffix MUST be one short token of `[A-Za-z0-9_-]` and at most 16 ''
     @ ''characters; it is spliced between the video base name and the subtitle extension.'' @ [LF, LF]
     @ ''## Output Schema'' @ [LF] @ ''Respond with a single JSON object ''
     @ [CHR 0xE2, CHR 0x80, CHR 0x94]
     @ '' no prose, no Markdown fences. Keys are stable: `matches[]` (array of objects with ''
     @ ''`video_file_id`, `subtitle_file_id`, `confidence`, `match_factors`, optional `language`, ''
     @ ''optional `target_filename_suffix`), `confidence` (overall score), and `reasoning` (short ''
     @ ''English explanation).'' @ [LF] @ ''</instructions>'' @ [LF]"

definition samples_instructions :: str where
  "samples_instructions =
     ''<content_samples_instructions>Each `<sample>` element'' @ [CHR 0x27]
     @ ''s `subtitle_file_id` attribute matches the `id` attribute on the corresponding `<file>` ''
     @ ''element in `<subtitle_files>`. Resolve sample-to-subtitle relationships through this ID, ''
     @ ''never by filename.</content_samples_instructions>'' @ [LF]"

definition render_sample :: "ContentSample \<Rightarrow> str" where
  "render_sample s =
     ''  <sample subtitle_file_id='' @ quoted_attr (sample_file_id s) @ ''>'' @ cdata_wrap (content_preview s)
     @ ''</sample>'' @ [LF]"

definition render_inventory :: "str \<Rightarrow> str list \<Rightarrow> str" where
  "render_inventory tag files =
     ''<'' @ tag @ ''>'' @ [LF] @ concat (map render_file_element files) @ ''</'' @ tag @ ''>'' @ [LF]"

definition analysis_schema :: str where
  "analysis_schema =
     ''<output_schema>'' @ [LF] @ ''{'' @ [LF] @ ''  '' @ [CHR 0x22] @ ''matches'' @ [CHR 0x22] @ '': [''
     @ [LF] @ ''    {'' @ [LF] @ ''      '' @ [CHR 0x22] @ ''video_file_id'' @ [CHR 0x22] @ '': ''
     @ [CHR 0x22] @ ''file_<uuid>'' @ [CHR 0x22] @ '','' @ [LF] @ ''      '' @ [CHR 0x22]
     @ ''subtitle_file_id'' @ [CHR 0x22] @ '': '' @ [CHR 0x22] @ ''file_<uuid>'' @ [CHR 0x22] @ '',''
     @ [LF] @ ''      '' @ [CHR 0x22] @ ''confidence'' @ [CHR 0x22] @ '': 0.95,'' @ [LF] @ ''      ''
     @ [CHR 0x22] @ ''match_factors'' @ [CHR 0x22] @ '': ['' @ [CHR 0x22] @ ''filename_similarity''
     @ [CHR 0x22] @ '', '' @ [CHR 0x22] @ ''content_correlation'' @ [CHR 0x22] @ ''],'' @ [LF]
     @ ''      '' @ [CHR 0x22] @ ''language'' @ [CHR 0x22] @ '': '' @ [CHR 0x22] @ ''tc'' @ [CHR 0x22]
     @ '','' @ [LF] @ ''      '' @ [CHR 0x22] @ ''target_filename_suffix'' @ [CHR 0x22] @ '': ''
     @ [CHR 0x22] @ ''tc'' @ [CHR 0x22, LF] @ ''    }'' @ [LF] @ ''  ],'' @ [LF] @ ''  '' @ [CHR 0x22]
     @ ''confidence'' @ [CHR 0x22] @ '': 0.9,'' @ [LF] @ ''  '' @ [CHR 0x22] @ ''reasoning'' @ [CHR 0x22]
     @ '': '' @ [CHR 0x22] @ ''Short English explanation'' @ [CHR 0x22, LF] @ ''}'' @ [LF]
     @ ''</output_schema>'' @ [LF]"

definition analysis_example :: str where
  "analysis_example =
     ''<example>'' @ [LF]
     @ ''  <input_summary>One video plus two same-named subtitles whose content samples reveal ''
     @ ''Traditional vs Simplified Chinese.</input_summary>'' @ [LF] @ ''  <output>{'' @ [CHR 0x22]
     @ ''matches'' @ [CHR 0x22] @ '':[{'' @ [CHR 0x22] @ ''video_file_id'' @ [CHR 0x22] @ '':''
     @ [CHR 0x22] @ ''file_v1'' @ [CHR 0x22] @ '','' @ [CHR 0x22] @ ''subtitle_file_id'' @ [CHR 0x22]
     @ '':'' @ [CHR 0x22] @ ''file_s1'' @ [CHR 0x22] @ '','' @ [CHR 0x22] @ ''confidence'' @ [CHR 0x22]
     @ '':0.95,'' @ [CHR 0x22] @ ''match_factors'' @ [CHR 0x22] @ '':['' @ [CHR 0x22]
     @ ''content_correlation'' @ [CHR 0x22] @ ''],'' @ [CHR 0x22] @ ''language'' @ [CHR 0x22] @ '':''
     @ [CHR 0x22] @ ''tc'' @ [CHR 0x22] @ '','' @ [CHR 0x22] @ ''target_filename_suffix'' @ [CHR 0x22]
     @ '':'' @ [CHR 0x22] @ ''tc'' @ [CHR 0x22] @ ''},{'' @ [CHR 0x22] @ ''video_file_id'' @ [CHR 0x22]
     @ '':'' @ [CHR 0x22] @ ''file_v1'' @ [CHR 0x22] @ '','' @ [CHR 0x22] @ ''subtitle_file_id''
     @ [CHR 0x22] @ '':'' @ [CHR 0x22] @ ''file_s2'' @ [CHR 0x22] @ '','' @ [CHR 0x22] @ ''confidence''
     @ [CHR 0x22] @ '':0.95,'' @ [CHR 0x22] @ ''match_factors'' @ [CHR 0x22] @ '':['' @ [CHR 0x22]
     @ ''content_correlation'' @ [CHR 0x22] @ ''],'' @ [CHR 0x22] @ ''language'' @ [CHR 0x22] @ '':''
     @ [CHR 0x22] @ ''sc'' @ [CHR 0x22] @ '','' @ [CHR 0x22] @ ''target_filename_suffix'' @ [CHR 0x22]
     @ '':'' @ [CHR 0x22] @ ''sc'' @ [CHR 0x22] @ ''}],'' @ [CHR 0x22] @ ''confidence'' @ [CHR 0x22]
     @ '':0.95,'' @ [CHR 0x22] @ ''reasoning'' @ [CHR 0x22] @ '':'' @ [CHR 0x22]
     @ ''Distinguished by script'' @ [CHR 0x22] @ ''}</output>'' @ [LF] @ ''</example>'' @ [LF]"

definition build_analysis_prompt_base :: "AnalysisRequest \<Rightarrow> str" where
  "build_analysis_prompt_base request =
     analysis_instructions
     @ render_inventory ''video_files'' (req_video_files request)
     @ render_inventory ''subtitle_files'' (req_subtitle_files request)
     @ (if req_content_samples request = [] then []
        else samples_instructions @ ''<content_samples>'' @ [LF]
          @ concat (map render_sample (req_content_samples request)) @ ''</content_samples>'' @ [LF])
     @ analysis_schema @ analysis_example"

section \<open>The verification prompt\<close>

record VerificationRequest =
  vr_video_file :: str
  vr_subtitle_file :: str
  vr_match_factors :: "str list"

definition verification_instructions :: str where
  "verification_instructions =
     ''<role>You are an expert subtitle-matching verifier.</role>'' @ [LF] @ ''<instructions>'' @ [LF]
     @ ''## Task'' @ [LF] @ ''Score the supplied video/subtitle pairing on a 0.0''
     @ [CHR 0xE2, CHR 0x80, CHR 0x93] @ ''1.0 confidence scale and return strictly JSON.'' @ [LF, LF]
     @ ''## Output Schema'' @ [LF] @ ''Respond with a single JSON object: `{'' @ [CHR 0x22] @ ''score''
     @ [CHR 0x22] @ '': <0..1>, '' @ [CHR 0x22] @ ''factors'' @ [CHR 0x22] @ '': ['' @ [CHR 0x22]
     @ ''...'' @ [CHR 0x22] @ '']}`. No prose, no Markdown.'' @ [LF] @ ''</instructions>'' @ [LF]"

definition verification_schema :: str where
  "verification_schema =
     ''<output_schema>{'' @ [CHR 0x22] @ ''score'' @ [CHR 0x22] @ '': 0.9, '' @ [CHR 0x22] @ ''factors''
     @ [CHR 0x22] @ '': ['' @ [CHR 0x22] @ ''...'' @ [CHR 0x22] @ '']}</output_schema>'' @ [LF]
     @ ''<!-- Respond strictly in JSON format. -->'' @ [LF]"

definition build_verification_prompt_base :: "VerificationRequest \<Rightarrow> str" where
  "build_verification_prompt_base request =
     verification_instructions
     @ ''<match>'' @ [LF]
     @ ''  <video path='' @ quoted_attr (vr_video_file request) @ ''/>'' @ [LF]
     @ ''  <subtitle path='' @ quoted_attr (vr_subtitle_file request) @ ''/>'' @ [LF]
     @ ''  <factors>'' @ [LF]
     @ (if vr_match_factors request = [] then ''    <!-- Matching factors: (none) -->'' @ [LF]
        else concat (map (\<lambda>f. ''    <factor>'' @ xml_escape_attr f @ ''</factor>'' @ [LF]) (vr_match_factors request))
          @ ''    <!-- Matching factors: list above -->'' @ [LF])
     @ ''  </factors>'' @ [LF] @ ''</match>'' @ [LF]
     @ verification_schema"

section \<open>Answers\<close>

record MatchResult =
  mr_matches :: "FileMatch list"
  mr_confidence :: rat
  mr_reasoning :: str

record ConfidenceScore =
  cs_score :: rat
  cs_factors :: "str list"

text \<open>Slicing a text panics when the start lies behind the end.\<close>

definition json_slice :: "str \<Rightarrow> str run" where
  "json_slice response =
     (let json_start = (case find_char (CHR ''{'') response of Some i \<Rightarrow> i | None \<Rightarrow> 0);
          json_end = (case rfind_char (CHR ''}'') response of Some i \<Rightarrow> i + 1 | None \<Rightarrow> length response)
      in if json_end < json_start
         then Panics (''begin <= end ('' @ show_nat json_start @ '' <= '' @ show_nat json_end @ '') when slicing '' @ response)
         else Returns (take (json_end - json_start) (drop json_start response)))"

text \<open>The readers that serde derives for the two records are arguments.\<close>

definition parse_match_result_base :: "(str \<Rightarrow> str + MatchResult) \<Rightarrow> str \<Rightarrow> MatchResult res run" where
  "parse_match_result_base from_json response =
     (case json_slice response of
        Panics e \<Rightarrow> Panics e
      | Returns json \<Rightarrow> Returns (map_err (\<lambda>e. AiService (''AI response parsing failed: '' @ e)) (from_json json)))"

definition parse_confidence_score_base :: "(str \<Rightarrow> str + ConfidenceScore) \<Rightarrow> str \<Rightarrow> ConfidenceScore res run" where
  "parse_confidence_score_base from_json response =
     (case json_slice response of
        Panics e \<Rightarrow> Panics e
      | Returns json \<Rightarrow> Returns (map_err (\<lambda>e. AiService (''AI confidence parsing failed: '' @ e)) (from_json json)))"

end
