(* ===== verification/Ai_Client.thy ===== *)
theory Ai_Client
  imports Ai_Hosts Match_Prompts
begin

text \<open>
  The AI clients (\<open>src/services/ai/openai.rs\<close>, \<open>openrouter.rs\<close>, \<open>azure_openai.rs\<close>, \<open>local.rs\<close>), their
  retries (\<open>retry.rs\<close>) and their creation (\<open>src/core/factory.rs\<close>).  The network is a function that gives the
  outcome of each sending of a request; JSON texts are read by an argument.  Waiting times and log lines are
  left out.
\<close>

section \<open>Requests and responses\<close>

record http_request =
  rq_url :: str
  rq_headers :: "(str \<times> str) list"
  rq_model :: "str option"
  rq_messages :: "(str \<times> str) list"
  rq_temperature :: f32
  rq_max_tokens :: nat
  rq_stream :: "bool option"

text \<open>
  A response, with the error that \<open>error_for_status\<close> makes of it, the chunks of its body and the body as
  \<open>text()\<close> gives it.
\<close>

record http_response =
  status :: nat
  status_text :: str
  status_error :: transport_error
  content_length :: "nat option"
  chunks :: "(transport_error + str) list"
  body_text :: "transport_error + str"

definition is_success :: "http_response \<Rightarrow> bool" where
  "is_success r \<longleftrightarrow> 200 \<le> status r \<and> status r < 300"

definition is_client_error :: "http_response \<Rightarrow> bool" where
  "is_client_error r \<longleftrightarrow> 400 \<le> status r \<and> status r < 500"

definition is_server_error :: "http_response \<Rightarrow> bool" where
  "is_server_error r \<longleftrightarrow> 500 \<le> status r \<and> status r < 600"

definition error_for_status :: "http_response \<Rightarrow> transport_error + http_response" where
  "error_for_status r = (if is_client_error r \<or> is_server_error r then Inl (status_error r) else Inr r)"

text \<open>The outcome of the n-th sending of a request, from 0.\<close>

type_synonym network = "http_request \<Rightarrow> nat \<Rightarrow> transport_error + http_response"

text \<open>
  A JSON value; a number is kept if it is a natural number.
\<close>

datatype json = JNull | JBool bool | JNat nat | JNumber | JString str | JArray "json list" | JObject "(str \<times> json) list"

fun json_get :: "json \<Rightarrow> str \<Rightarrow> json option" where
  "json_get (JObject kvs) k = map_of kvs k"
| "json_get _ k = None"

definition json_key :: "json \<Rightarrow> str \<Rightarrow> json" where
  "json_key v k = (case json_get v k of Some w \<Rightarrow> w | None \<Rightarrow> JNull)"

fun json_at :: "json \<Rightarrow> nat \<Rightarrow> json" where
  "json_at (JArray xs) i = (if i < length xs then xs ! i else JNull)"
| "json_at _ i = JNull"

fun as_str :: "json \<Rightarrow> str option" where
  "as_str (JString s) = Some s"
| "as_str _ = None"

fun as_u64 :: "json \<Rightarrow> nat option" where
  "as_u64 (JNat n) = (if n < 2 ^ 64 then Some n else None)"
| "as_u64 _ = None"

record AiUsage =
  usage_model :: str
  prompt_tokens :: u32
  completion_tokens :: u32
  total_tokens :: u32

text \<open>What a client is built on: the crates for patterns, URLs and JSON, and the network.\<close>

record web =
  web_regex :: regex_crate
  web_url :: url_lib
  web_json :: "str \<Rightarrow> str + json"
  web_send :: network

section \<open>Retrying\<close>

text \<open>
  \<open>retry_with_backoff\<close> with the waits it makes, in nanoseconds.  The operation is given by the results of
  its calls; the multiplier is a rational, and its products are exact.
\<close>

record RetryConfig =
  max_attempts :: nat
  base_delay :: nat
  max_delay :: nat
  backoff_multiplier :: rat

definition default_retry :: RetryConfig where
  "default_retry = \<lparr>max_attempts = 3, base_delay = 1000 * 1000000, max_delay = 30 * 1000000000, backoff_multiplier = 2\<rparr>"

definition backoff_delay :: "RetryConfig \<Rightarrow> nat \<Rightarrow> nat" where
  "backoff_delay cfg attempt =
     min (min (nat \<lfloor>of_nat (base_delay cfg div 1000000) * backoff_multiplier cfg ^ attempt\<rfloor>) (2 ^ 64 - 1) * 1000000)
       (max_delay cfg)"

fun try_attempts :: "RetryConfig \<Rightarrow> (nat \<Rightarrow> 'a res) \<Rightarrow> nat list \<Rightarrow> SubXError option \<Rightarrow> 'a res \<times> nat list" where
  "try_attempts cfg op [] last_error =
     (Inl (case last_error of Some e \<Rightarrow> e | None \<Rightarrow> AiService ''Retry loop produced no error state''), [])"
| "try_attempts cfg op (attempt # attempts) last_error =
     (case op attempt of
        Inr r \<Rightarrow> (Inr r, [])
      | Inl e \<Rightarrow> (let out = try_attempts cfg op attempts (Some e) in
          (fst out, (if attempt < max_attempts cfg - 1 then [backoff_delay cfg attempt] else []) @ snd out)))"

definition retry_with_backoff :: "RetryConfig \<Rightarrow> (nat \<Rightarrow> 'a res) \<Rightarrow> 'a res \<times> nat list" where
  "retry_with_backoff cfg op =
     (if max_attempts cfg = 0
      then (Inl (AiService ''Retry configuration invalid: max_attempts must be at least 1''), [])
      else try_attempts cfg op [0..<max_attempts cfg] None)"

definition from_reqwest :: "web \<Rightarrow> transport_error \<Rightarrow> SubXError" where
  "from_reqwest w e = AiService (sanitize_url_in_error (web_regex w) (te_text e))"

text \<open>
  The loops with the number of attempts made, until a response is accepted or the attempts are used up;
  the result comes with the number of requests sent.  The requests have JSON bodies, which can be cloned.
\<close>

function make_http_request_with_retry_impl ::
    "web \<Rightarrow> http_request \<Rightarrow> nat \<Rightarrow> nat \<Rightarrow> http_response res \<times> nat" where
  "make_http_request_with_retry_impl w rq tries attempts =
     (let last_try = (tries \<le> attempts + 1);
          again = (\<lambda>e. if last_try then (Inl (from_reqwest w e), attempts + 1)
                       else make_http_request_with_retry_impl w rq tries (attempts + 1)) in
      case web_send w rq attempts of
        Inr resp \<Rightarrow> (case error_for_status resp of Inr success \<Rightarrow> (Inr success, attempts + 1) | Inl err \<Rightarrow> again err)
      | Inl err \<Rightarrow> again err)"
  by pat_completeness auto
termination
  by (relation "measure (\<lambda>(w, rq, n, a). n - a)") auto

function openrouter_retry :: "web \<Rightarrow> http_request \<Rightarrow> nat \<Rightarrow> nat \<Rightarrow> http_response res \<times> nat" where
  "openrouter_retry w rq tries attempts =
     (case web_send w rq attempts of
        Inr resp \<Rightarrow>
          (if is_server_error resp \<and> attempts < tries then openrouter_retry w rq tries (attempts + 1)
           else (Inr resp, attempts + 1))
      | Inl e \<Rightarrow>
          (if attempts < tries then openrouter_retry w rq tries (attempts + 1)
           else (Inl (from_reqwest w e), attempts + 1)))"
  by pat_completeness auto
termination
  by (relation "measure (\<lambda>(w, rq, n, a). n - a)") auto

function azure_retry :: "web \<Rightarrow> http_request \<Rightarrow> nat \<Rightarrow> nat \<Rightarrow> http_response res \<times> nat" where
  "azure_retry w rq tries attempts =
     (case web_send w rq attempts of
        Inr resp \<Rightarrow> (Inr resp, attempts + 1)
      | Inl e \<Rightarrow>
          (if attempts < tries then azure_retry w rq tries (attempts + 1)
           else (Inl (from_reqwest w e), attempts + 1)))"
  by pat_completeness auto
termination
  by (relation "measure (\<lambda>(w, rq, n, a). n - a)") auto

text \<open>The loop of the local client names the endpoint in its errors.\<close>

definition sanitize_base_url :: "url_lib \<Rightarrow> str \<Rightarrow> str" where
  "sanitize_base_url url s =
     (case url s of
        Inl _ \<Rightarrow> ''<unparseable URL>''
      | Inr u \<Rightarrow>
          let finish = (\<lambda>host. url_scheme u @ ''://'' @ host
            @ (case url_port u of Some port \<Rightarrow> '':'' @ show_nat port | None \<Rightarrow> []) @ url_path u) in
          (case ipv6_host u of
             Some addr \<Rightarrow> finish (''['' @ addr @ '']'')
           | None \<Rightarrow> (case host_str u of Some h \<Rightarrow> finish h | None \<Rightarrow> ''<unparseable URL>'')))"

definition map_reqwest_error :: "web \<Rightarrow> str \<Rightarrow> nat \<Rightarrow> transport_error \<Rightarrow> SubXError" where
  "map_reqwest_error w base timeout err =
     (let url = sanitize_base_url (web_url w) base in
      if is_timeout err
      then AiService (''local LLM endpoint timed out after '' @ show_nat timeout @ ''s: '' @ url)
      else if is_connect err then AiService (''local LLM endpoint unreachable: '' @ url)
      else from_reqwest w err)"

function send_with_retry :: "web \<Rightarrow> str \<Rightarrow> nat \<Rightarrow> http_request \<Rightarrow> nat \<Rightarrow> nat \<Rightarrow> http_response res \<times> nat" where
  "send_with_retry w base timeout rq tries attempts =
     (case web_send w rq attempts of
        Inr resp \<Rightarrow>
          (if is_server_error resp \<and> attempts < tries
           then send_with_retry w base timeout rq tries (attempts + 1)
           else (Inr resp, attempts + 1))
      | Inl e \<Rightarrow>
          (if attempts < tries then send_with_retry w base timeout rq tries (attempts + 1)
           else (Inl (map_reqwest_error w base timeout e), attempts + 1)))"
  by pat_completeness auto
termination
  by (relation "measure (\<lambda>(w, b, t, rq, n, a). n - a)") auto

declare make_http_request_with_retry_impl.simps [simp del] openrouter_retry.simps [simp del]
  azure_retry.simps [simp del] send_with_retry.simps [simp del]

section \<open>Reading a response\<close>

definition MAX_AI_RESPONSE_BYTES :: nat where
  "MAX_AI_RESPONSE_BYTES = 10 * 1024 * 1024"

definition check_content_length :: "http_response \<Rightarrow> unit res" where
  "check_content_length r =
     (case content_length r of
        Some n \<Rightarrow>
          if MAX_AI_RESPONSE_BYTES < n
          then Inl (AiService (''AI response too large: '' @ show_nat n @ '' bytes (limit: ''
            @ show_nat MAX_AI_RESPONSE_BYTES @ '' bytes)''))
          else Inr ()
      | None \<Rightarrow> Inr ())"

fun read_chunks :: "(transport_error \<Rightarrow> SubXError) \<Rightarrow> str \<Rightarrow> (transport_error + str) list \<Rightarrow> str res" where
  "read_chunks f body [] = Inr body"
| "read_chunks f body (Inl e # cs) = Inl (f e)"
| "read_chunks f body (Inr c # cs) =
     (let body' = body @ c in
      if MAX_AI_RESPONSE_BYTES < length body'
      then Inl (AiService (''AI response too large: '' @ show_nat (length body') @ '' bytes read (limit: ''
        @ show_nat MAX_AI_RESPONSE_BYTES @ '' bytes)''))
      else read_chunks f body' cs)"

definition safe_body :: "web \<Rightarrow> str \<Rightarrow> str" where
  "safe_body w t = sanitize_url_in_error (web_regex w) (truncate_error_body t DEFAULT_ERROR_BODY_MAX_LEN)"

text \<open>The error of a hosted service, under its name.\<close>

definition api_error :: "web \<Rightarrow> str \<Rightarrow> http_response \<Rightarrow> SubXError" where
  "api_error w name r =
     (case body_text r of
        Inl e \<Rightarrow> from_reqwest w e
      | Inr t \<Rightarrow> AiService (name @ '' API error '' @ status_text r @ '': '' @ safe_body w t))"

definition message_content :: "json \<Rightarrow> str option" where
  "message_content v = as_str (json_key (json_key (json_at (json_key v ''choices'') 0) ''message'') ''content'')"

definition usage_of :: "str \<Rightarrow> json \<Rightarrow> AiUsage option" where
  "usage_of m v =
     (case json_get v ''usage'' of
        None \<Rightarrow> None
      | Some u \<Rightarrow>
          (case (Option.bind (json_get u ''prompt_tokens'') as_u64, Option.bind (json_get u ''completion_tokens'') as_u64,
              Option.bind (json_get u ''total_tokens'') as_u64) of
             (Some p, Some c, Some t) \<Rightarrow> Some \<lparr>usage_model = m, prompt_tokens = of_nat p,
               completion_tokens = of_nat c, total_tokens = of_nat t\<rparr>
           | _ \<Rightarrow> None))"

text \<open>
  What the clients of OpenAI and OpenRouter make of an accepted response, and the client of Azure, which
  reports the usage before it looks for the content and under the model the response names.
\<close>

definition no_content :: "web \<Rightarrow> SubXError" where
  "no_content w = AiService (append_local_hint (web_regex w) ''Invalid API response format'')"

definition parse_body :: "web \<Rightarrow> http_response \<Rightarrow> json res" where
  "parse_body w r =
     bind_res (read_chunks (from_reqwest w) [] (chunks r)) (\<lambda>body.
       map_err (\<lambda>e. AiService (''Failed to parse AI response: '' @ e)) (web_json w body))"

definition read_hosted :: "web \<Rightarrow> str \<Rightarrow> str \<Rightarrow> http_response \<Rightarrow> str res \<times> AiUsage option" where
  "read_hosted w name m r =
     (case check_content_length r of
        Inl e \<Rightarrow> (Inl e, None)
      | Inr _ \<Rightarrow>
          if \<not> is_success r then (Inl (api_error w name r), None)
          else (case parse_body w r of
            Inl e \<Rightarrow> (Inl e, None)
          | Inr v \<Rightarrow> (case message_content v of None \<Rightarrow> (Inl (no_content w), None) | Some c \<Rightarrow> (Inr c, usage_of m v))))"

definition read_azure :: "web \<Rightarrow> str \<Rightarrow> http_response \<Rightarrow> str res \<times> AiUsage option" where
  "read_azure w m r =
     (case check_content_length r of
        Inl e \<Rightarrow> (Inl e, None)
      | Inr _ \<Rightarrow>
          if \<not> is_success r then (Inl (api_error w ''Azure OpenAI'' r), None)
          else (case parse_body w r of
            Inl e \<Rightarrow> (Inl e, None)
          | Inr v \<Rightarrow>
              let m' = (case Option.bind (json_get v ''model'') as_str of Some x \<Rightarrow> x | None \<Rightarrow> m) in
              (case message_content v of None \<Rightarrow> Inl (no_content w) | Some c \<Rightarrow> Inr c, usage_of m' v)))"

text \<open>The local client.\<close>

definition body_indicates_model_missing :: "str \<Rightarrow> bool" where
  "body_indicates_model_missing body =
     (let lower = ascii_lower body in
      contains_str lower ''model''
      \<and> list_ex (contains_str lower) [''not found'', ''not loaded'', ''no such model'', ''unknown model''])"

definition map_http_error :: "web \<Rightarrow> str \<Rightarrow> http_response \<Rightarrow> SubXError" where
  "map_http_error w m r =
     (let t = (case body_text r of Inl _ \<Rightarrow> [] | Inr t \<Rightarrow> t) in
      if status r = 404 \<or> body_indicates_model_missing t
      then AiService (''local LLM model not found: '' @ m)
      else AiService (''local LLM endpoint returned HTTP '' @ status_text r @ '': '' @ safe_body w t))"

definition not_openai_json :: "str" where
  "not_openai_json = ''local LLM response was not OpenAI-compatible JSON: ''"

definition read_local :: "web \<Rightarrow> str \<Rightarrow> nat \<Rightarrow> str \<Rightarrow> http_response \<Rightarrow> str res \<times> AiUsage option" where
  "read_local w base timeout m r =
     (case check_content_length r of
        Inl e \<Rightarrow> (Inl e, None)
      | Inr _ \<Rightarrow>
          if \<not> is_success r then (Inl (map_http_error w m r), None)
          else (case bind_res (read_chunks (map_reqwest_error w base timeout) [] (chunks r)) (\<lambda>body.
              map_err (\<lambda>e. AiService (not_openai_json @ e)) (web_json w body)) of
            Inl e \<Rightarrow> (Inl e, None)
          | Inr v \<Rightarrow>
              (case message_content v of
                 None \<Rightarrow> (Inl (AiService (not_openai_json @ ''missing choices[0].message.content'')), None)
               | Some c \<Rightarrow> (Inr c, usage_of m v))))"

section \<open>The clients\<close>

record 'k ai_client =
  cl_api_key :: 'k
  cl_model :: str
  cl_temperature :: f32
  cl_max_tokens :: nat
  cl_retry_attempts :: nat
  cl_retry_delay_ms :: nat
  cl_base_url :: str
  cl_timeout :: nat

record azure_client = "str ai_client" +
  cl_api_version :: str

definition trim_slashes :: "str \<Rightarrow> str" where
  "trim_slashes s = rev (dropWhile ((=) (CHR ''/'')) (rev s))"

definition client_for :: "'k \<Rightarrow> AIConfig \<Rightarrow> 'k ai_client" where
  "client_for key c =
     \<lparr>cl_api_key = key, cl_model = model c, cl_temperature = temperature c, cl_max_tokens = max_tokens c,
      cl_retry_attempts = retry_attempts c, cl_retry_delay_ms = retry_delay_ms c,
      cl_base_url = trim_slashes (base_url c), cl_timeout = request_timeout_seconds c\<rparr>"

definition validate_base_url :: "url_lib \<Rightarrow> str \<Rightarrow> unit res" where
  "validate_base_url url s =
     (case url s of
        Inl e \<Rightarrow> Inl (Config (''Invalid base URL: '' @ url_error_text e))
      | Inr u \<Rightarrow>
          if url_scheme u \<notin> set [''http'', ''https'']
          then Inl (Config ''Base URL must use http or https protocol'')
          else if host_str u = None then Inl (Config ''Base URL must contain a valid hostname'')
          else Inr ())"

definition openai_from_config :: "url_lib \<Rightarrow> AIConfig \<Rightarrow> str ai_client res" where
  "openai_from_config url c =
     (case api_key c of
        None \<Rightarrow> Inl (Config ''Missing OpenAI API Key'')
      | Some k \<Rightarrow> bind_res (validate_base_url url (base_url c)) (\<lambda>_. Inr (client_for k c)))"

definition openrouter_from_config :: "url_lib \<Rightarrow> AIConfig \<Rightarrow> str ai_client res" where
  "openrouter_from_config url c =
     (case api_key c of
        None \<Rightarrow> Inl (Config ''Missing OpenRouter API Key'')
      | Some k \<Rightarrow> bind_res (validate_base_url url (base_url c)) (\<lambda>_. Inr (client_for k c)))"

definition DEFAULT_AZURE_API_VERSION :: str where
  "DEFAULT_AZURE_API_VERSION = ''2025-04-01-preview''"

definition azure_from_config :: "url_lib \<Rightarrow> AIConfig \<Rightarrow> azure_client res" where
  "azure_from_config url c =
     (case api_key c of
        None \<Rightarrow> Inl (Config ''Missing Azure OpenAI API Key'')
      | Some k \<Rightarrow>
          if trim k = [] then Inl (Config ''Missing Azure OpenAI API Key'')
          else if trim (model c) = [] then Inl (Config ''Missing Azure OpenAI deployment name in model field'')
          else (case url (base_url c) of
            Inl e \<Rightarrow>
              if empty_host e then Inl (Config ''Azure OpenAI endpoint missing host'')
              else Inl (Config (''Invalid Azure OpenAI endpoint: '' @ url_error_text e))
          | Inr u \<Rightarrow>
              if url_scheme u \<notin> set [''http'', ''https'']
              then Inl (Config ''Azure OpenAI endpoint must use http or https'')
              else Inr (ai_client.extend (client_for k c)
                (azure_client.fields (case api_version c of Some v \<Rightarrow> v | None \<Rightarrow> DEFAULT_AZURE_API_VERSION)))))"

text \<open>A key of blanks counts as none.\<close>

definition local_key :: "str option \<Rightarrow> str option" where
  "local_key k = Option.bind k (\<lambda>k. if trim k = [] then None else Some (trim k))"

definition local_from_config :: "AIConfig \<Rightarrow> str option ai_client res" where
  "local_from_config c =
     (if trim (base_url c) = [] then Inl (Config ''ai.base_url is required for the local provider'')
      else Inr (client_for (local_key (api_key c)) c))"

section \<open>Chat completions\<close>

definition chat_request :: "'k ai_client \<Rightarrow> (str \<times> str) list \<Rightarrow> (str \<times> str) list \<Rightarrow> http_request" where
  "chat_request cl headers messages =
     \<lparr>rq_url = cl_base_url cl @ ''/chat/completions'', rq_headers = headers, rq_model = Some (cl_model cl),
      rq_messages = messages, rq_temperature = cl_temperature cl, rq_max_tokens = cl_max_tokens cl, rq_stream = None\<rparr>"

definition bearer :: "str \<Rightarrow> str \<times> str" where
  "bearer key = (''Authorization'', ''Bearer '' @ key)"

abbreviation json_type :: "str \<times> str" where
  "json_type \<equiv> (''Content-Type'', ''application/json'')"

definition openai_request :: "str ai_client \<Rightarrow> (str \<times> str) list \<Rightarrow> http_request" where
  "openai_request cl messages = chat_request cl [bearer (cl_api_key cl), json_type] messages"

definition openrouter_request :: "str ai_client \<Rightarrow> (str \<times> str) list \<Rightarrow> http_request" where
  "openrouter_request cl messages =
     chat_request cl [bearer (cl_api_key cl), json_type,
       (''HTTP-Referer'', ''https://github.com/jim60105/subx-cli''), (''X-Title'', ''Subx'')] messages"

definition local_request :: "str option ai_client \<Rightarrow> (str \<times> str) list \<Rightarrow> http_request" where
  "local_request cl messages =
     chat_request cl (json_type # (case cl_api_key cl of Some k \<Rightarrow> [bearer k] | None \<Rightarrow> [])) messages"

definition azure_request :: "azure_client \<Rightarrow> (str \<times> str) list \<Rightarrow> http_request" where
  "azure_request cl messages =
     \<lparr>rq_url = cl_base_url cl @ ''/openai/deployments/'' @ cl_model cl @ ''/chat/completions?api-version='' @ cl_api_version cl,
      rq_headers = [json_type,
        if prefix ''bearer '' (ascii_lower (cl_api_key cl)) then (''Authorization'', cl_api_key cl)
        else (''api-key'', cl_api_key cl)],
      rq_model = None, rq_messages = messages, rq_temperature = cl_temperature cl,
      rq_max_tokens = cl_max_tokens cl, rq_stream = Some False\<rparr>"

text \<open>The answer, the usage reported and the number of requests sent.\<close>

type_synonym chat_result = "(str res \<times> AiUsage option) \<times> nat"

definition hosted_result ::
    "web \<Rightarrow> str \<Rightarrow> (http_response \<Rightarrow> str res \<times> AiUsage option) \<Rightarrow> http_response res \<times> nat \<Rightarrow> chat_result" where
  "hosted_result w base rd out =
     (case out of
        (Inl e, n) \<Rightarrow> ((Inl (maybe_attach_local_hint (web_regex w) (web_url w) e base), None), n)
      | (Inr r, n) \<Rightarrow> (rd r, n))"

definition openai_chat :: "web \<Rightarrow> str ai_client \<Rightarrow> (str \<times> str) list \<Rightarrow> chat_result" where
  "openai_chat w cl messages =
     hosted_result w (cl_base_url cl) (read_hosted w ''OpenAI'' (cl_model cl))
       (make_http_request_with_retry_impl w (openai_request cl messages) (cl_retry_attempts cl) 0)"

definition openrouter_chat :: "web \<Rightarrow> str ai_client \<Rightarrow> (str \<times> str) list \<Rightarrow> chat_result" where
  "openrouter_chat w cl messages =
     hosted_result w (cl_base_url cl) (read_hosted w ''OpenRouter'' (cl_model cl))
       (openrouter_retry w (openrouter_request cl messages) (cl_retry_attempts cl) 0)"

definition azure_chat :: "web \<Rightarrow> azure_client \<Rightarrow> (str \<times> str) list \<Rightarrow> chat_result" where
  "azure_chat w cl messages =
     hosted_result w (cl_base_url cl) (read_azure w (cl_model cl))
       (azure_retry w (azure_request cl messages) (cl_retry_attempts cl) 0)"

definition local_chat :: "web \<Rightarrow> str option ai_client \<Rightarrow> (str \<times> str) list \<Rightarrow> chat_result" where
  "local_chat w cl messages =
     (case send_with_retry w (cl_base_url cl) (cl_timeout cl) (local_request cl messages) (cl_retry_attempts cl) 0 of
        (Inl e, n) \<Rightarrow> ((Inl e, None), n)
      | (Inr r, n) \<Rightarrow> (read_local w (cl_base_url cl) (cl_timeout cl) (cl_model cl) r, n))"

section \<open>Providers\<close>

datatype ai_provider =
  OpenAIClient "str ai_client"
| OpenRouterClient "str ai_client"
| AzureOpenAIClient azure_client
| LocalLLMClient "str option ai_client"

fun chat_completion :: "web \<Rightarrow> ai_provider \<Rightarrow> (str \<times> str) list \<Rightarrow> chat_result" where
  "chat_completion w (OpenAIClient cl) messages = openai_chat w cl messages"
| "chat_completion w (OpenRouterClient cl) messages = openrouter_chat w cl messages"
| "chat_completion w (AzureOpenAIClient cl) messages = azure_chat w cl messages"
| "chat_completion w (LocalLLMClient cl) messages = local_chat w cl messages"

fun analysis_system_message :: "ai_provider \<Rightarrow> str" where
  "analysis_system_message (OpenAIClient _) = ''You are an expert subtitle-matching assistant.''"
| "analysis_system_message _ = ''You are a professional subtitle matching assistant that can analyze the correspondence between video and subtitle files.''"

fun verification_system_message :: "ai_provider \<Rightarrow> str" where
  "verification_system_message (OpenAIClient _) = ''You are an expert subtitle-matching verifier.''"
| "verification_system_message _ = ''Please evaluate the confidence level of subtitle matching and provide a score between 0-1.''"

definition after_chat :: "(str \<Rightarrow> 'a res run) \<Rightarrow> chat_result \<Rightarrow> 'a res run" where
  "after_chat k out = (case fst (fst out) of Inl e \<Rightarrow> Returns (Inl e) | Inr response \<Rightarrow> k response)"

definition analyze_content ::
    "web \<Rightarrow> (str \<Rightarrow> str + MatchResult) \<Rightarrow> ai_provider \<Rightarrow> AnalysisRequest \<Rightarrow> MatchResult res run" where
  "analyze_content w from_json p request =
     after_chat (parse_match_result_base from_json)
       (chat_completion w p [(''system'', analysis_system_message p), (''user'', build_analysis_prompt_base request)])"

definition verify_match ::
    "web \<Rightarrow> (str \<Rightarrow> str + ConfidenceScore) \<Rightarrow> ai_provider \<Rightarrow> VerificationRequest \<Rightarrow> ConfidenceScore res run" where
  "verify_match w from_json p request =
     after_chat (parse_confidence_score_base from_json)
       (chat_completion w p [(''system'', verification_system_message p), (''user'', build_verification_prompt_base request)])"

section \<open>The factory\<close>

definition validate_ai_settings :: "AIConfig \<Rightarrow> unit res" where
  "validate_ai_settings c =
     (if normalize_ai_provider (provider c) \<noteq> ''local''
         \<and> trim (case api_key c of Some k \<Rightarrow> k | None \<Rightarrow> []) = []
      then Inl (Config ''AI API key is required. Set ai.api_key in configuration or use environment variable.'')
      else if trim (model c) = [] then Inl (Config ''AI model is required. Set ai.model in configuration.'')
      else if f32_less (temperature c) (f32_of_rat 0) \<or> f32_less (f32_of_rat 2) (temperature c)
      then Inl (Config ''AI temperature must be between 0.0 and 2.0.'')
      else if max_tokens c = 0 then Inl (Config ''AI max_tokens must be greater than 0.'')
      else Inr ())"

definition create_ai_provider :: "url_lib \<Rightarrow> AIConfig \<Rightarrow> ai_provider res" where
  "create_ai_provider url c =
     (let canonical = normalize_ai_provider (provider c);
          checked = (\<lambda>r. bind_res (validate_ai_settings c) (\<lambda>_. r)) in
      if canonical = ''openai'' then checked (map_sum id OpenAIClient (openai_from_config url c))
      else if canonical = ''openrouter'' then checked (map_sum id OpenRouterClient (openrouter_from_config url c))
      else if canonical = ''azure-openai'' then checked (map_sum id AzureOpenAIClient (azure_from_config url c))
      else if canonical = ''local'' then checked (map_sum id LocalLLMClient (local_from_config c))
      else Inl (Config (''Unsupported AI provider: '' @ canonical
        @ ''. Supported providers: openai, openrouter, anthropic, azure-openai, local'')))"

end
