(* ===== verification/Prompt_Properties.thy ===== *)
theory Prompt_Properties
  imports Match_Prompts
begin

text \<open>
  Properties of the matching prompts: an XML reader gets back exactly the files and samples that were put
  in, so that no file name and no subtitle text can leave its element; and the slicing of the answers.
\<close>

section \<open>A reader of attributes and CDATA sections\<close>

text \<open>The value of an attribute up to its closing quote, and what follows.\<close>

definition entities :: "(str \<times> char) list" where
  "entities = [(''amp;'', CHR ''&''), (''lt;'', CHR ''<''), (''gt;'', CHR ''>''), (''quot;'', CHR 0x22), (''#39;'', CHR 0x27)]"

fun cons_read :: "char \<Rightarrow> (str \<times> str) option \<Rightarrow> (str \<times> str) option" where
  "cons_read c None = None"
| "cons_read c (Some (v, rest)) = Some (c # v, rest)"

function read_attr :: "str \<Rightarrow> (str \<times> str) option" where
  "read_attr [] = None"
| "read_attr (c # s) =
     (if c = CHR 0x22 then Some ([], s)
      else if c = CHR ''<'' then None
      else if c = CHR ''&'' then
        (case find (\<lambda>(e, _). prefix e s) entities of
           Some (e, ch) \<Rightarrow> cons_read ch (read_attr (drop (length e) s))
         | None \<Rightarrow> None)
      else cons_read c (read_attr s))"
  by pat_completeness auto
termination
  by (relation "measure length") auto

lemma read_attr_escaped: "read_attr (xml_escape_attr v @ CHR 0x22 # rest) = Some (v, rest)"
proof (induction v)
  case (Cons c v)
  then show ?case
    by (auto simp: xml_escape_attr_def xml_escape_char_def entities_def)
qed (simp add: xml_escape_attr_def)

text \<open>The text of a CDATA section and of those that follow it at once, from inside the first.\<close>

function read_cdata :: "str \<Rightarrow> (str \<times> str) option" where
  "read_cdata s =
     (if prefix cdata_close s
      then (if prefix cdata_open (drop 3 s) then read_cdata (drop 12 s) else Some ([], drop 3 s))
      else (case s of [] \<Rightarrow> None | c # s' \<Rightarrow> cons_read c (read_cdata s')))"
  by pat_completeness auto
termination
  by (relation "measure length") (auto dest: prefix_length_le)

declare read_cdata.simps [simp del]

lemma read_cdata_end: "\<not> prefix cdata_open rest \<Longrightarrow> read_cdata (cdata_close @ rest) = Some ([], rest)"
  by (subst read_cdata.simps) simp

lemma read_cdata_next: "read_cdata (cdata_close @ cdata_open @ s) = read_cdata s"
  by (subst read_cdata.simps) simp

lemma read_cdata_char: "\<not> prefix cdata_close (c # s) \<Longrightarrow> read_cdata (c # s) = cons_read c (read_cdata s)"
  by (subst read_cdata.simps) (simp only: if_False list.case)

lemma cdata_safe_sep: "cdata_safe (cdata_close @ s) = '']]'' @ cdata_close @ cdata_open @ ''>'' @ cdata_safe s"
  using replace_str_sep [of cdata_close "'']]]]><![CDATA[>''" s] by (simp add: cdata_safe_def)

lemma cdata_safe_char: "\<not> prefix cdata_close (c # s) \<Longrightarrow> cdata_safe (c # s) = c # cdata_safe s"
  by (simp add: cdata_safe_def replace_str_step)

lemma cdata_safe_Nil [simp]: "cdata_safe [] = []"
  by (simp add: cdata_safe_def)

text \<open>Splitting a section moves no end of one to the front.\<close>

lemma cdata_safe_front: "prefix ''>'' (cdata_safe s @ cdata_close @ rest) \<Longrightarrow> prefix ''>'' s"
proof (cases "prefix cdata_close s")
  case True
  then obtain t where t: "s = cdata_close @ t" by (rule prefixE)
  assume "prefix ''>'' (cdata_safe s @ cdata_close @ rest)"
  then show ?thesis unfolding t cdata_safe_sep by simp
next
  case False
  assume "prefix ''>'' (cdata_safe s @ cdata_close @ rest)"
  with False show ?thesis by (cases s) (simp_all add: cdata_safe_char)
qed

lemma cdata_safe_front2: "prefix '']>'' (cdata_safe s @ cdata_close @ rest) \<Longrightarrow> prefix '']>'' s"
proof (cases "prefix cdata_close s")
  case True
  then obtain t where t: "s = cdata_close @ t" by (rule prefixE)
  assume "prefix '']>'' (cdata_safe s @ cdata_close @ rest)"
  then show ?thesis unfolding t cdata_safe_sep by simp
next
  case False
  assume p: "prefix '']>'' (cdata_safe s @ cdata_close @ rest)"
  show ?thesis
  proof (cases s)
    case (Cons c t)
    with p False have "c = CHR '']''" "prefix ''>'' (cdata_safe t @ cdata_close @ rest)"
      unfolding Cons cdata_safe_char [OF False [unfolded Cons]] by (auto simp only: append_Cons prefix_code)
    with cdata_safe_front [of t rest] Cons show ?thesis by simp
  qed (use p in simp)
qed

lemma read_cdata_safe:
  assumes "\<not> prefix cdata_open rest"
  shows "read_cdata (cdata_safe s @ cdata_close @ rest) = Some (s, rest)"
proof (induction s rule: length_induct)
  case (1 s)
  show ?case
  proof (cases "prefix cdata_close s")
    case True
    then obtain t where t: "s = cdata_close @ t" by (auto simp: prefix_def)
    let ?x = "cdata_safe t @ cdata_close @ rest"
    from t 1 have "read_cdata ?x = Some (t, rest)" by simp
    then have a: "read_cdata (CHR ''>'' # ?x) = Some (CHR ''>'' # t, rest)"
      by (subst read_cdata_char) simp_all
    then have b: "read_cdata (cdata_close @ cdata_open @ CHR ''>'' # ?x) = Some (CHR ''>'' # t, rest)"
      by (simp only: read_cdata_next)
    have c: "read_cdata (CHR '']'' # cdata_close @ cdata_open @ CHR ''>'' # ?x) = Some (CHR '']'' # CHR ''>'' # t, rest)"
      by (subst read_cdata_char) (simp, simp only: b cons_read.simps)
    have "read_cdata (CHR '']'' # CHR '']'' # cdata_close @ cdata_open @ CHR ''>'' # ?x)
        = Some (CHR '']'' # CHR '']'' # CHR ''>'' # t, rest)"
      by (subst read_cdata_char) (simp, simp only: c cons_read.simps)
    then show ?thesis unfolding t cdata_safe_sep by (simp only: append_assoc append_Cons append_Nil)
  next
    case False
    show ?thesis
    proof (cases s)
      case Nil
      then show ?thesis using read_cdata_end [OF assms] by simp
    next
      case (Cons c t)
      have "\<not> prefix cdata_close (c # cdata_safe t @ cdata_close @ rest)"
      proof
        assume "prefix cdata_close (c # cdata_safe t @ cdata_close @ rest)"
        then have "c = CHR '']''" and "prefix '']>'' (cdata_safe t @ cdata_close @ rest)"
          by (auto simp only: prefix_code)
        with cdata_safe_front2 [of t rest] have "prefix cdata_close (c # t)" by (simp only: prefix_code simp_thms)
        with False Cons show False by blast
      qed
      moreover have "read_cdata (cdata_safe t @ cdata_close @ rest) = Some (t, rest)" using 1 Cons by simp
      ultimately show ?thesis
        unfolding Cons cdata_safe_char [OF False [unfolded Cons]] append_Cons
        by (subst read_cdata_char) (simp_all only: cons_read.simps, simp)
    qed
  qed
qed

section \<open>Reading the elements\<close>

lemma strip_prefix_append [simp]: "strip_prefix p (p @ s) = Some s"
  by (simp add: strip_prefix_def)

definition expect :: "str \<Rightarrow> str \<Rightarrow> (str \<Rightarrow> 'a option) \<Rightarrow> 'a option" where
  "expect p s k = Option.bind (strip_prefix p s) k"

lemma expect_there [simp]: "expect p (p @ s) k = k s"
  by (simp add: expect_def)

definition then_attr :: "str \<Rightarrow> (str \<Rightarrow> str \<Rightarrow> 'a option) \<Rightarrow> 'a option" where
  "then_attr s k = expect [CHR 0x22] s (\<lambda>s. Option.bind (read_attr s) (\<lambda>(v, s). k v s))"

lemma then_attr_quoted: "then_attr (quoted_attr v @ s) k = k v s"
  using read_attr_escaped [of v s] by (simp add: then_attr_def quoted_attr_def expect_def strip_prefix_def)

text \<open>A file element with its three attributes, and a sample element.\<close>

definition read_file_element :: "str \<Rightarrow> ((str \<times> str \<times> str) \<times> str) option" where
  "read_file_element s =
     expect ''  <file id='' s (\<lambda>s. then_attr s (\<lambda>i s. expect '' name='' s (\<lambda>s. then_attr s (\<lambda>n s.
     expect '' path='' s (\<lambda>s. then_attr s (\<lambda>p s. expect (''/>'' @ [LF]) s (\<lambda>s. Some ((i, n, p), s))))))))"

definition read_sample :: "str \<Rightarrow> ((str \<times> str) \<times> str) option" where
  "read_sample s =
     expect ''  <sample subtitle_file_id='' s (\<lambda>s. then_attr s (\<lambda>i s. expect (''>'' @ cdata_open) s (\<lambda>s.
     Option.bind (read_cdata s) (\<lambda>(t, s). expect (''</sample>'' @ [LF]) s (\<lambda>s. Some ((i, t), s))))))"

text \<open>As many elements as there are.\<close>

function read_many :: "(str \<Rightarrow> ('a \<times> str) option) \<Rightarrow> str \<Rightarrow> 'a list \<times> str" where
  "read_many rd s =
     (case rd s of
        None \<Rightarrow> ([], s)
      | Some (a, s') \<Rightarrow> if length s' < length s then (let (as, r) = read_many rd s' in (a # as, r)) else ([], s))"
  by pat_completeness auto
termination
  by (relation "measure (\<lambda>(rd, s). length s)") auto

declare read_many.simps [simp del]

lemma read_many_concat:
  assumes "\<And>x r. x \<in> set xs \<Longrightarrow> rd (out x @ r) = Some (f x, r)" "\<And>x. x \<in> set xs \<Longrightarrow> out x \<noteq> []"
    and "rd rest = None"
  shows "read_many rd (concat (map out xs) @ rest) = (map f xs, rest)"
  using assms(1,2)
proof (induction xs)
  case Nil
  then show ?case using assms(3) by (simp add: read_many.simps)
next
  case (Cons x xs)
  from Cons.prems(1) [of x] have rd: "rd (out x @ r) = Some (f x, r)" for r by simp
  have "length (out x) > 0" using Cons.prems(2) [of x] by simp
  with Cons rd show ?case by (subst read_many.simps) simp
qed

subsection \<open>Files\<close>

text \<open>A value that the line of a file carries unharmed: no bar in it, no blank around it.\<close>

definition line_value :: "str \<Rightarrow> bool" where
  "line_value v \<longleftrightarrow> CHR ''|'' \<notin> set v \<and> trim v = v"

definition plain_media :: "MediaFile \<Rightarrow> bool" where
  "plain_media f \<longleftrightarrow> line_value (mf_id f) \<and> line_value (mf_name f) \<and> line_value (relative_path f)"

abbreviation bar :: str where "bar \<equiv> '' | ''"

lemma split_bar_append:
  assumes "CHR ''|'' \<notin> set a"
  shows "split_str bar (a @ bar @ r) = a # split_str bar r"
  using assms
proof (induction a)
  case (Cons c a)
  have "\<not> prefix bar (c # a @ bar @ r)"
    using Cons.prems by (cases a) auto
  then show ?case
    using Cons by (simp only: append_Cons) (simp add: split_str_step del: append_Cons)
qed (simp only: append_Nil, rule split_str_sep, simp)

lemma split_bar_absent:
  assumes "CHR ''|'' \<notin> set a"
  shows "split_str bar a = [a]"
  using assms
proof (induction a)
  case (Cons c a)
  have "\<not> prefix bar (c # a)"
    using Cons.prems by (cases a) auto
  then show ?case
    using Cons by (simp add: split_str_step)
qed simp

lemma request_line_parsed:
  assumes "plain_media f"
  shows "parse_id_name_path (request_line f) = Some (mf_id f, mf_name f, relative_path f)"
proof -
  have "request_line f = (''ID:'' @ mf_id f) @ bar @ (''Name:'' @ mf_name f) @ bar @ (''Path:'' @ relative_path f)"
    by (simp add: request_line_def)
  moreover have "CHR ''|'' \<notin> set (''ID:'' @ mf_id f)" "CHR ''|'' \<notin> set (''Name:'' @ mf_name f)"
    "CHR ''|'' \<notin> set (''Path:'' @ relative_path f)"
    using assms by (simp_all add: plain_media_def line_value_def)
  then have "split_str bar ((''ID:'' @ mf_id f) @ bar @ (''Name:'' @ mf_name f) @ bar @ (''Path:'' @ relative_path f))
      = [''ID:'' @ mf_id f, ''Name:'' @ mf_name f, ''Path:'' @ relative_path f]"
    by (simp only: split_bar_append split_bar_absent not_False_eq_True)
  ultimately have "split_str bar (request_line f) = [''ID:'' @ mf_id f, ''Name:'' @ mf_name f, ''Path:'' @ relative_path f]"
    by (simp only:)
  then show ?thesis
    using assms by (simp add: parse_id_name_path_def id_name_path_step_def strip_prefix_def plain_media_def line_value_def)
qed

lemma file_element_read:
  assumes "plain_media f"
  shows "read_file_element (render_file_element (request_line f) @ r) = Some ((mf_id f, mf_name f, relative_path f), r)"
  unfolding render_file_element_def request_line_parsed [OF assms] read_file_element_def option.case prod.case append_assoc
  by (simp only: expect_there then_attr_quoted) (simp add: expect_def strip_prefix_def)

subsection \<open>Samples\<close>

lemma sample_read: "read_sample (render_sample s @ r) = Some ((sample_file_id s, content_preview s), r)"
proof -
  have "\<not> prefix cdata_open (''</sample>'' @ [LF] @ r)" by simp
  note text_read = read_cdata_safe [OF this, of "content_preview s"]
  have cdata: "''>'' @ cdata_wrap t @ u = (''>'' @ cdata_open) @ cdata_safe t @ cdata_close @ u" for t u
    by (simp add: cdata_wrap_def)
  show ?thesis
    unfolding render_sample_def read_sample_def append_assoc
    by (simp only: expect_there then_attr_quoted cdata text_read bind.simps prod.case)
      (simp add: expect_def strip_prefix_def)
qed

subsection \<open>The prompt\<close>

definition read_inventory :: "str \<Rightarrow> str \<Rightarrow> ((str \<times> str \<times> str) list \<Rightarrow> str \<Rightarrow> 'a option) \<Rightarrow> 'a option" where
  "read_inventory tag s k =
     expect (''<'' @ tag @ ''>'' @ [LF]) s (\<lambda>s. let (es, s) = read_many read_file_element s in
       expect (''</'' @ tag @ ''>'' @ [LF]) s (k es))"

text \<open>The files and the samples of an analysis prompt.\<close>

definition read_prompt :: "str \<Rightarrow> ((str \<times> str \<times> str) list \<times> (str \<times> str \<times> str) list \<times> (str \<times> str) list) option" where
  "read_prompt s =
     expect analysis_instructions s (\<lambda>s.
     read_inventory ''video_files'' s (\<lambda>vs s. read_inventory ''subtitle_files'' s (\<lambda>ss s.
       case strip_prefix (samples_instructions @ ''<content_samples>'' @ [LF]) s of
         None \<Rightarrow> if s = analysis_schema @ analysis_example then Some (vs, ss, []) else None
       | Some s \<Rightarrow> (let (xs, s) = read_many read_sample s in
           if s = ''</content_samples>'' @ [LF] @ analysis_schema @ analysis_example then Some (vs, ss, xs) else None))))"

definition media_entry :: "MediaFile \<Rightarrow> str \<times> str \<times> str" where
  "media_entry f = (mf_id f, mf_name f, relative_path f)"

lemma inventory_read:
  assumes "\<forall>f \<in> set fs. plain_media f"
  shows "read_inventory tag (render_inventory tag (map request_line fs) @ r) k = k (map media_entry fs) r"
proof -
  have "read_many read_file_element (concat (map (\<lambda>f. render_file_element (request_line f)) fs) @ ''</'' @ tag @ ''>'' @ [LF] @ r)
      = (map media_entry fs, ''</'' @ tag @ ''>'' @ [LF] @ r)"
  proof (rule read_many_concat)
    show "read_file_element (''</'' @ tag @ ''>'' @ [LF] @ r) = None"
      by (simp add: read_file_element_def expect_def strip_prefix_def)
    show "render_file_element (request_line f) \<noteq> []" for f
      by (simp add: render_file_element_def split: option.splits)
  qed (use assms in \<open>simp add: file_element_read media_entry_def\<close>)
  then show ?thesis
    unfolding read_inventory_def render_inventory_def append_assoc map_map o_def
    by (simp only: Let_def prod.case expect_there [of "''<'' @ tag @ ''>'' @ [LF]", unfolded append_assoc]
        expect_there [of "''</'' @ tag @ ''>'' @ [LF]", unfolded append_assoc])
qed

lemma schema_not_samples: "strip_prefix (samples_instructions @ x) (analysis_schema @ y) = None"
  by (simp add: samples_instructions_def analysis_schema_def strip_prefix_def)

lemma prompt_read:
  assumes "\<forall>f \<in> set videos \<union> set subtitles. plain_media f"
  shows "read_prompt (build_analysis_prompt_base \<lparr>req_video_files = map request_line videos,
      req_subtitle_files = map request_line subtitles, req_content_samples = samples\<rparr>)
    = Some (map media_entry videos, map media_entry subtitles, map (\<lambda>s. (sample_file_id s, content_preview s)) samples)"
proof -
  let ?tail = "''</content_samples>'' @ [LF] @ analysis_schema @ analysis_example"
  have "read_sample ?tail = None"
    by (simp add: read_sample_def expect_def strip_prefix_def)
  with sample_read have samples: "read_many read_sample (concat (map render_sample samples) @ ?tail)
      = (map (\<lambda>s. (sample_file_id s, content_preview s)) samples, ?tail)"
    by (intro read_many_concat) (simp_all add: render_sample_def)
  have inv: "\<forall>f \<in> set videos. plain_media f" "\<forall>f \<in> set subtitles. plain_media f" using assms by auto
  show ?thesis
  proof (cases "samples = []")
    case True
    then show ?thesis
      unfolding build_analysis_prompt_base_def read_prompt_def AnalysisRequest.simps append_assoc
      by (simp only: expect_there inventory_read [OF inv(1)] inventory_read [OF inv(2)] append_Nil if_True
          schema_not_samples option.case list.map simp_thms)
  next
    case False
    have "strip_prefix (samples_instructions @ ''<content_samples>'' @ [LF])
        (samples_instructions @ ''<content_samples>'' @ [LF] @ r) = Some r" for r
      using strip_prefix_append [of "samples_instructions @ ''<content_samples>'' @ [LF]" r] by (simp only: append_assoc)
    with False samples show ?thesis
      unfolding build_analysis_prompt_base_def read_prompt_def AnalysisRequest.simps append_assoc
      by (simp only: expect_there inventory_read [OF inv(1)] inventory_read [OF inv(2)] append_assoc if_False
          option.case Let_def prod.case if_True simp_thms)
  qed
qed

text \<open>
   C27.  Whatever the subtitle previews contain, and for file names without a vertical bar or surrounding
  blanks, a reader of the analysis prompt gets back exactly the inventories and the samples: no name and
  no text leaves its attribute or its CDATA section.
\<close>

theorem prompt_inventory_read_back:
  assumes "\<forall>f \<in> set videos \<union> set subtitles. plain_media f"
  shows "read_prompt (build_analysis_prompt_base \<lparr>req_video_files = map request_line videos,
      req_subtitle_files = map request_line subtitles, req_content_samples = samples\<rparr>)
    = Some (map media_entry videos, map media_entry subtitles, map (\<lambda>s. (sample_file_id s, content_preview s)) samples)"
  by (rule prompt_read [OF assms])

text \<open>A preview that closes the section and its element, and a name that closes its attribute.\<close>

definition demo_video :: MediaFile where
  "demo_video = \<lparr>mf_id = ''v1'', mf_path = path_of ''/m/a.mkv'', file_type = Video, mf_size = 1, mf_name = ''a.mkv'',
     mf_extension = ''mkv'', relative_path = ''a.mkv''\<rparr>"

definition demo_subtitle :: MediaFile where
  "demo_subtitle = \<lparr>mf_id = ''s1'', mf_path = path_of ''/m/a.srt'', file_type = Subtitle, mf_size = 1,
     mf_name = CHR 0x22 # ''/><file id='', mf_extension = ''srt'', relative_path = ''a.srt''\<rparr>"

definition demo_sample :: ContentSample where
  "demo_sample = \<lparr>sample_filename = ''a.srt'', sample_file_id = ''s1'', content_preview = '']]></sample>]]'', sample_file_size = 1\<rparr>"

theorem prompt_inventory_read_back_witness:
  "read_prompt (build_analysis_prompt_base \<lparr>req_video_files = map request_line [demo_video],
      req_subtitle_files = map request_line [demo_subtitle], req_content_samples = [demo_sample]\<rparr>)
    = Some ([(''v1'', ''a.mkv'', ''a.mkv'')], [(''s1'', CHR 0x22 # ''/><file id='', ''a.srt'')], [(''s1'', '']]></sample>]]'')])"
proof -
  have "plain_media demo_video" "plain_media demo_subtitle" by code_simp+
  then have "\<forall>f \<in> set [demo_video] \<union> set [demo_subtitle]. plain_media f" by simp
  from prompt_inventory_read_back [OF this, of "[demo_sample]"] show ?thesis
    by (simp add: media_entry_def demo_video_def demo_subtitle_def demo_sample_def)
qed

section \<open>Slicing an answer\<close>

text \<open>The slice of an answer with one object in it is the object.\<close>

lemma json_slice_object:
  assumes "CHR ''{'' \<notin> set pre" "CHR ''}'' \<notin> set post"
  shows "json_slice (pre @ ''{'' @ body @ ''}'' @ post) = Returns (''{'' @ body @ ''}'')"
proof -
  have "find_char (CHR ''{'') (pre @ CHR ''{'' # body @ CHR ''}'' # post) = Some (length pre)"
    using find_append [OF assms(1)] .
  moreover have "rfind_char (CHR ''}'') ((pre @ CHR ''{'' # body) @ CHR ''}'' # post) = Some (length (pre @ CHR ''{'' # body))"
    using rfind_append [OF assms(2)] .
  ultimately show ?thesis by (simp add: json_slice_def)
qed

lemma find_char_bound: "find_char c s = Some i \<Longrightarrow> i < length s"
  by (induction s arbitrary: i) (auto split: if_splits option.splits)

lemma json_slice_panics:
  "(\<exists>e. json_slice response = Panics e) \<longleftrightarrow>
     (\<exists>i j. find_char (CHR ''{'') response = Some i \<and> rfind_char (CHR ''}'') response = Some j \<and> j + 1 < i)"
  using find_char_bound [of "CHR ''{''" response]
  by (auto simp: json_slice_def Let_def split: option.splits)

end
