(* ===== verification/Ai_Properties.thy ===== *)
theory Ai_Properties
  imports Ai_Client Prompt_Properties
begin

text \<open>
  Properties of the AI clients: how many requests a call sends, which answers it reads, which answers stop
  the program, which configurations give a client, and which hosts count as private.
\<close>

section \<open>Requests\<close>

fun request_of :: "ai_provider \<Rightarrow> (str \<times> str) list \<Rightarrow> http_request" where
  "request_of (OpenAIClient cl) messages = openai_request cl messages"
| "request_of (OpenRouterClient cl) messages = openrouter_request cl messages"
| "request_of (AzureOpenAIClient cl) messages = azure_request cl messages"
| "request_of (LocalLLMClient cl) messages = local_request cl messages"

text \<open>Which outcomes a client sends the request again for, and how often it sends it at most.\<close>

fun sent_again :: "ai_provider \<Rightarrow> transport_error + http_response \<Rightarrow> bool" where
  "sent_again (OpenAIClient _) out = (case out of Inl _ \<Rightarrow> True | Inr r \<Rightarrow> is_client_error r \<or> is_server_error r)"
| "sent_again (AzureOpenAIClient _) out = (case out of Inl _ \<Rightarrow> True | Inr r \<Rightarrow> False)"
| "sent_again _ out = (case out of Inl _ \<Rightarrow> True | Inr r \<Rightarrow> is_server_error r)"

fun budget :: "ai_provider \<Rightarrow> nat" where
  "budget (OpenAIClient cl) = max 1 (cl_retry_attempts cl)"
| "budget (OpenRouterClient cl) = cl_retry_attempts cl + 1"
| "budget (AzureOpenAIClient cl) = cl_retry_attempts cl + 1"
| "budget (LocalLLMClient cl) = cl_retry_attempts cl + 1"

lemma openai_sends:
  "snd (make_http_request_with_retry_impl w rq n a)
   = a + length (takeWhile (\<lambda>i. case web_send w rq i of Inl _ \<Rightarrow> True | Inr r \<Rightarrow> is_client_error r \<or> is_server_error r)
       [a..<n - 1]) + 1"
proof (induction w rq n a rule: make_http_request_with_retry_impl.induct)
  case (1 w rq n a)
  show ?case
  proof (cases "n \<le> a + 1")
    case True
    then show ?thesis
      by (subst make_http_request_with_retry_impl.simps) (simp add: Let_def error_for_status_def split: sum.splits)
  next
    case False
    then have "[a..<n - 1] = a # [a + 1..<n - 1]" by (simp add: upt_conv_Cons)
    with False 1 show ?thesis
      by (subst make_http_request_with_retry_impl.simps)
        (auto simp: Let_def error_for_status_def split: sum.splits)
  qed
qed

lemma openrouter_sends:
  "snd (openrouter_retry w rq n a)
   = a + length (takeWhile (\<lambda>i. case web_send w rq i of Inl _ \<Rightarrow> True | Inr r \<Rightarrow> is_server_error r) [a..<n]) + 1"
proof (induction w rq n a rule: openrouter_retry.induct)
  case (1 w rq n a)
  note unfold = openrouter_retry.simps [of w rq n a]
  show ?case
    by (cases "a < n"; cases "web_send w rq a") (simp_all add: unfold upt_conv_Cons 1 [unfolded Suc_eq_plus1 [symmetric]])
qed

lemma azure_sends:
  "snd (azure_retry w rq n a)
   = a + length (takeWhile (\<lambda>i. case web_send w rq i of Inl _ \<Rightarrow> True | Inr r \<Rightarrow> False) [a..<n]) + 1"
proof (induction w rq n a rule: azure_retry.induct)
  case (1 w rq n a)
  note unfold = azure_retry.simps [of w rq n a]
  show ?case
    by (cases "a < n"; cases "web_send w rq a") (simp_all add: unfold upt_conv_Cons 1 [unfolded Suc_eq_plus1 [symmetric]])
qed

lemma local_sends:
  "snd (send_with_retry w base timeout rq n a)
   = a + length (takeWhile (\<lambda>i. case web_send w rq i of Inl _ \<Rightarrow> True | Inr r \<Rightarrow> is_server_error r) [a..<n]) + 1"
proof (induction w base timeout rq n a rule: send_with_retry.induct)
  case (1 w base timeout rq n a)
  note unfold = send_with_retry.simps [of w base timeout rq n a]
  show ?case
    by (cases "a < n"; cases "web_send w rq a") (simp_all add: unfold upt_conv_Cons 1 [unfolded Suc_eq_plus1 [symmetric]])
qed

lemma hosted_sends: "snd (hosted_result w base rd out) = snd out"
  by (auto simp: hosted_result_def split: prod.splits sum.splits)

text \<open>
   C28.  A chat completion always returns, after exactly as many requests as it takes to get an outcome the
  client accepts, and never more than its budget.  The budgets differ: with n configured attempts the OpenAI
  client sends at most n requests, and one when n is 0, the other clients n + 1.
\<close>

theorem requests_sent:
  "snd (chat_completion w p messages)
   = length (takeWhile (\<lambda>i. sent_again p (web_send w (request_of p messages) i)) [0..<budget p - 1]) + 1"
proof (cases p)
  case (OpenAIClient cl)
  have "[0..<max 1 (cl_retry_attempts cl) - 1] = [0..<cl_retry_attempts cl - 1]" by (cases "cl_retry_attempts cl") auto
  then show ?thesis
    unfolding OpenAIClient by (simp add: openai_chat_def hosted_sends openai_sends)
next
  case (LocalLLMClient cl)
  have "snd (local_chat w cl messages)
      = snd (send_with_retry w (cl_base_url cl) (cl_timeout cl) (local_request cl messages) (cl_retry_attempts cl) 0)"
    by (auto simp: local_chat_def split: prod.splits sum.splits)
  then show ?thesis
    unfolding LocalLLMClient by (simp add: local_sends)
qed (simp_all add: openrouter_chat_def azure_chat_def hosted_sends openrouter_sends azure_sends)

section \<open>Backoff\<close>

lemma attempts_result:
  "fst (try_attempts cfg op [a..<n] last_error) =
     (case find (\<lambda>i. \<not> isl (op i)) [a..<n] of
        Some i \<Rightarrow> op i
      | None \<Rightarrow> if a < n then op (n - 1)
          else Inl (case last_error of Some e \<Rightarrow> e | None \<Rightarrow> AiService ''Retry loop produced no error state''))"
proof (induction "n - a" arbitrary: a last_error)
  case (Suc k)
  then have "[a..<n] = a # [Suc a..<n]" by (simp add: upt_conv_Cons)
  moreover have "k = n - Suc a" using Suc.hyps(2) by simp
  note step = Suc.hyps(1) [OF this]
  moreover have "n - 1 = a" if "\<not> Suc a < n" using Suc.hyps(2) that by simp
  ultimately show ?case
    using Suc.hyps(2) by (cases "op a") (auto simp: Let_def split: option.splits)
qed simp

lemma attempts_waits:
  "list_all (\<lambda>d. d \<le> max_delay cfg) (snd (try_attempts cfg op [a..<max_attempts cfg] last_error))
   \<and> length (snd (try_attempts cfg op [a..<max_attempts cfg] last_error)) \<le> max_attempts cfg - 1 - a"
proof (induction "max_attempts cfg - a" arbitrary: a last_error)
  case (Suc k)
  then have list: "[a..<max_attempts cfg] = a # [Suc a..<max_attempts cfg]" by (simp add: upt_conv_Cons)
  have "k = max_attempts cfg - Suc a" using Suc.hyps(2) by simp
  note step = Suc.hyps(1) [OF this]
  show ?case
  proof (cases "op a")
    case (Inl e)
    have "backoff_delay cfg a \<le> max_delay cfg" by (simp add: backoff_delay_def)
    with Inl step [of "Some e"] show ?thesis unfolding list by (simp add: Let_def) linarith
  qed (simp add: list)
qed simp

text \<open>
   Retrying with backoff gives the first success among its attempts, or else the error of the last, and
  waits at most once between two attempts, never longer than the maximal delay.
\<close>

theorem backoff_result:
  "fst (retry_with_backoff cfg op) =
     (if max_attempts cfg = 0 then Inl (AiService ''Retry configuration invalid: max_attempts must be at least 1'')
      else case find (\<lambda>i. \<not> isl (op i)) [0..<max_attempts cfg] of
        Some i \<Rightarrow> op i
      | None \<Rightarrow> op (max_attempts cfg - 1))
   \<and> list_all (\<lambda>d. d \<le> max_delay cfg) (snd (retry_with_backoff cfg op))
   \<and> length (snd (retry_with_backoff cfg op)) \<le> max_attempts cfg - 1"
  using attempts_result [of cfg op 0 "max_attempts cfg" None] attempts_waits [of cfg op 0 None]
  by (auto simp: retry_with_backoff_def split: option.splits)

section \<open>Answers that stop the program\<close>

text \<open>
   The content of an answer can stop the program: the analysis of an answer panics, rather than fails,
  exactly when its last closing brace lies more than one place before its first opening brace.
\<close>

theorem answers_that_panic:
  assumes "fst (fst (chat_completion w p [(''system'', analysis_system_message p),
    (''user'', build_analysis_prompt_base request)])) = Inr response"
  shows "(\<exists>e. analyze_content w from_json p request = Panics e) \<longleftrightarrow>
    (\<exists>i j. find_char (CHR ''{'') response = Some i \<and> rfind_char (CHR ''}'') response = Some j \<and> j + 1 < i)"
  using assms json_slice_panics [of response]
  by (auto simp: analyze_content_def after_chat_def parse_match_result_base_def split: run.splits)

section \<open>Error answers of OpenAI\<close>

text \<open>What the client gets when every response has an error status.\<close>

lemma openai_only_errors:
  assumes "\<And>i. a \<le> i \<Longrightarrow> i < max (a + 1) n \<Longrightarrow> web_send w rq i = Inr (r i) \<and> (is_client_error (r i) \<or> is_server_error (r i))"
  shows "fst (make_http_request_with_retry_impl w rq n a) = Inl (from_reqwest w (status_error (r (max (a + 1) n - 1))))"
  using assms
proof (induction w rq n a rule: make_http_request_with_retry_impl.induct [case_names retry])
  case (retry w rq n a)
  have now: "web_send w rq a = Inr (r a)" "error_for_status (r a) = Inl (status_error (r a))"
    using retry.prems [of a] by (simp_all add: error_for_status_def)
  show ?case
  proof (cases "n \<le> a + 1")
    case True
    then show ?thesis using now by (subst make_http_request_with_retry_impl.simps) (simp add: max_absorb1)
  next
    case False
    then have m: "max (a + 1 + 1) n = n" "max (a + 1) n = n" by simp_all
    have "fst (make_http_request_with_retry_impl w rq n (a + 1)) = Inl (from_reqwest w (status_error (r (max (a + 1 + 1) n - 1))))"
      using now False retry.prems by (intro retry.IH(1) [OF refl]) (auto simp: m)
    then show ?thesis using now False by (subst make_http_request_with_retry_impl.simps) (simp add: m)
  qed
qed

text \<open>
   The OpenAI client never shows what the service says about an error: when every response has an error
  status, the result is made of the status of the last response alone, so that the part of the source that
  reads, shortens and cleans the body of an error response does not run for them.
\<close>

theorem openai_hides_error_body:
  assumes "\<And>i. web_send w (openai_request cl messages) i = Inr (r i)"
    and "\<And>i. 400 \<le> status (r i) \<and> status (r i) < 600"
  shows "fst (openai_chat w cl messages)
    = (Inl (maybe_attach_local_hint (web_regex w) (web_url w)
         (from_reqwest w (status_error (r (max 1 (cl_retry_attempts cl) - 1)))) (cl_base_url cl)), None)"
proof -
  have "is_client_error (r i) \<or> is_server_error (r i)" for i
    using assms(2) [of i] by (auto simp: is_client_error_def is_server_error_def)
  with openai_only_errors [of 0 "cl_retry_attempts cl" w "openai_request cl messages" r] assms(1)
  show ?thesis by (auto simp: openai_chat_def hosted_result_def split: prod.splits sum.splits)
qed

section \<open>Configurations and clients\<close>

text \<open>
   The provider anthropic is never served: whatever else is configured, the factory refuses it with an
  error that lists it among the supported providers.
\<close>

theorem anthropic_refused:
  assumes "normalize_ai_provider (provider c) = ''anthropic''"
  shows "create_ai_provider url c = Inl (Config
    ''Unsupported AI provider: anthropic. Supported providers: openai, openrouter, anthropic, azure-openai, local'')"
  using assms by (simp add: create_ai_provider_def Let_def)

section \<open>Private hosts\<close>

definition quad :: "nat \<Rightarrow> nat \<Rightarrow> nat \<Rightarrow> nat \<Rightarrow> str" where
  "quad a b c d = show_nat a @ ''.'' @ show_nat b @ ''.'' @ show_nat c @ ''.'' @ show_nat d"

lemma zero_code: "code (CHR ''0'') = (48 :: nat)"
  by simp

lemma dropWhile_absent: "c \<notin> set s \<Longrightarrow> dropWhile ((=) c) s = s"
  by (cases s) auto

lemma show_nat_no_zero: "1 < length (show_nat n) \<Longrightarrow> hd (show_nat n) \<noteq> CHR ''0''"
proof (induction n rule: show_nat.induct)
  case (1 n)
  show ?case
  proof (cases "n < 10")
    case False
    show ?thesis
    proof (cases "1 < length (show_nat (n div 10))")
      case True
      with 1 False show ?thesis by (subst show_nat.simps) simp
    next
      case small: False
      then have "n div 10 < 10" by (metis One_nat_def False length_append_singleton length_greater_0_conv less_Suc_eq_0_disj
            linorder_not_less not_less_eq show_nat.simps show_nat_not_Nil)
      with False have "0 < n div 10" "n div 10 < 10" by auto
      then have "digit_char (n div 10) \<noteq> CHR ''0''"
        using code_digit_char [of "n div 10"] by (metis add_left_imp_eq add_0_right less_irrefl_nat zero_code)
      moreover have "show_nat (n div 10) = [digit_char (n div 10)]"
        by (subst show_nat.simps) (simp add: \<open>n div 10 < 10\<close>)
      ultimately show ?thesis using False by (subst show_nat.simps) simp
    qed
  qed (use 1 in \<open>simp add: show_nat.simps [of n]\<close>)
qed

lemma take_show_nat: "\<not> is_digit x \<Longrightarrow> takeWhile is_digit (show_nat n @ x # s) = show_nat n"
  using list_all_digit_show_nat [of n] by (simp add: takeWhile_append2 list_all_iff)

lemma read_octet_shown:
  assumes "n < 256" "s = [] \<or> \<not> is_digit (hd s)"
  shows "read_octet (show_nat n @ s) = Some (n, s)"
proof -
  have "takeWhile is_digit (show_nat n @ s) = show_nat n"
    using assms(2) list_all_digit_show_nat [of n]
    by (cases s) (auto simp: takeWhile_append2 list_all_iff takeWhile_eq_all_conv)
  moreover have "length (show_nat n) \<le> 3" using assms(1) length_show_nat_le [of n 3] by simp
  ultimately show ?thesis
    using assms(1) show_nat_no_zero [of n] by (auto simp: read_octet_def Let_def)
qed

lemma parse_quad:
  assumes "a < 256" "b < 256" "c < 256" "d < 256"
  shows "parse_ipv4 (quad a b c d) = Some [a, b, c, d]"
proof -
  have dot: "read_octet (show_nat n @ ''.'' @ s) = Some (n, ''.'' @ s)" if "n < 256" for n s
    using that by (intro read_octet_shown) (simp_all add: is_digit_def)
  have four: "(4 :: nat) = Suc (Suc (Suc (Suc 0)))" by simp
  have "read_octets 4 (quad a b c d) = Some ([a, b, c, d], [])"
    unfolding four quad_def read_octets.simps dot [OF assms(1)]
    using dot [OF assms(2)] dot [OF assms(3)] read_octet_shown [OF assms(4), of "[]"]
    by (simp add: strip_prefix_def)
  then show ?thesis by (simp add: parse_ipv4_def)
qed

lemma quad_graphic: "list_all is_graphic (quad a b c d)"
proof -
  have "list_all is_graphic (show_nat n)" for n
    using list_all_digit_show_nat [of n] by (auto simp: list_all_iff is_graphic_digit)
  then show ?thesis by (simp add: quad_def is_graphic_def)
qed

lemma quad_bare: "bare_host (quad a b c d) = quad a b c d"
proof -
  have "x \<noteq> CHR ''['' \<and> x \<noteq> CHR '']''" if "x \<in> set (quad a b c d)" for x
  proof -
    have "is_digit x \<or> x = CHR ''.''"
      using that list_all_digit_show_nat by (auto simp: quad_def list_all_iff)
    then show ?thesis by (auto simp: is_digit_def)
  qed
  then have "dropWhile ((=) (CHR ''['')) (quad a b c d) = quad a b c d"
    "dropWhile ((=) (CHR '']'')) (rev (quad a b c d)) = rev (quad a b c d)"
    by (intro dropWhile_absent; simp; blast)+
  then show ?thesis by (simp add: bare_host_def trim_all_graphic [OF quad_graphic])
qed

text \<open>
   A dotted IPv4 host counts as private exactly when it lies in 127/8, 10/8, 172.16/12, 192.168/16 or
  169.254/16.
\<close>

theorem private_quads:
  assumes "a < 256" "b < 256" "c < 256" "d < 256"
  shows "is_private_host_str (quad a b c d) \<longleftrightarrow>
    a = 127 \<or> a = 10 \<or> a = 172 \<and> b div 16 = 1 \<or> a = 192 \<and> b = 168 \<or> a = 169 \<and> b = 254"
proof -
  have "16 \<le> b \<and> b \<le> 31 \<longleftrightarrow> b div 16 = 1" by presburger
  then show ?thesis
    using parse_quad [OF assms] by (simp add: is_private_host_str_def quad_bare Let_def is_private_ipv4_def)
qed

theorem private_quads_witness:
  "is_private_host_str ''172.31.0.1'' \<and> \<not> is_private_host_str ''172.32.0.1''"
proof -
  have "quad 172 31 0 1 = ''172.31.0.1''" "quad 172 32 0 1 = ''172.32.0.1''" by code_simp+
  with private_quads [of 172 31 0 1] private_quads [of 172 32 0 1] show ?thesis by simp
qed

section \<open>Witnesses\<close>

text \<open>A service that answers every request with one response, and a JSON reader for one body.\<close>

definition demo_error :: transport_error where
  "demo_error = \<lparr>te_text = ''HTTP status client error (401)'', is_timeout = False, is_connect = False, is_request = False\<rparr>"

definition demo_response :: "nat \<Rightarrow> http_response" where
  "demo_response st = \<lparr>status = st, status_text = ''status'', status_error = demo_error, content_length = None,
     chunks = [Inr ''body''], body_text = Inr ''secret''\<rparr>"

definition demo_answer :: "str \<Rightarrow> json" where
  "demo_answer content = JObject [(''choices'', JArray [JObject [(''message'', JObject [(''content'', JString content)])]])]"

definition demo_web :: "nat \<Rightarrow> str \<Rightarrow> web" where
  "demo_web st content = \<lparr>web_regex = ref_engine [], web_url = \<lambda>_. Inl \<lparr>empty_host = False, url_error_text = []\<rparr>,
     web_json = \<lambda>_. Inr (demo_answer content), web_send = \<lambda>_ _. Inr (demo_response st)\<rparr>"

definition demo_client :: "str ai_client" where
  "demo_client = \<lparr>cl_api_key = ''k'', cl_model = ''m'', cl_temperature = Finite False 0, cl_max_tokens = 1,
     cl_retry_attempts = 3, cl_retry_delay_ms = 0, cl_base_url = ''https://h'', cl_timeout = 1\<rparr>"

definition demo_request :: AnalysisRequest where
  "demo_request = \<lparr>req_video_files = [], req_subtitle_files = [], req_content_samples = []\<rparr>"

lemma demo_sent: "web_send (demo_web st content) rq i = Inr (demo_response st)"
  by (simp add: demo_web_def)

lemma demo_answered:
  "fst (fst (chat_completion (demo_web 200 content) (OpenRouterClient demo_client) messages)) = Inr content"
  by (simp add: openrouter_chat_def openrouter_retry.simps demo_sent hosted_result_def read_hosted_def is_server_error_def
      is_success_def check_content_length_def demo_response_def parse_body_def MAX_AI_RESPONSE_BYTES_def)
    (simp add: demo_web_def demo_answer_def message_content_def json_key_def)

theorem answers_that_panic_witness:
  "\<exists>e. analyze_content (demo_web 200 ''} {'') (\<lambda>_. Inl []) (OpenRouterClient demo_client) demo_request = Panics e"
proof -
  have "find_char (CHR ''{'') ''} {'' = Some 2" "rfind_char (CHR ''}'') ''} {'' = Some 0" by code_simp+
  then show ?thesis
    using answers_that_panic [OF demo_answered [of "''} {''"], of "\<lambda>_. Inl []"] by simp
qed

theorem openai_hides_error_body_witness:
  "fst (openai_chat (demo_web 401 []) demo_client [])
    = (Inl (AiService (sanitize_url_in_error (ref_engine []) ''HTTP status client error (401)'')), None)"
proof -
  have "400 \<le> status (demo_response 401) \<and> status (demo_response 401) < 600" by (simp add: demo_response_def)
  then have "fst (openai_chat (demo_web 401 []) demo_client []) = (Inl (maybe_attach_local_hint (web_regex (demo_web 401 []))
      (web_url (demo_web 401 [])) (from_reqwest (demo_web 401 []) (status_error (demo_response 401))) (cl_base_url demo_client)), None)"
    using openai_hides_error_body [of "demo_web 401 []" demo_client "[]" "\<lambda>_. demo_response 401", OF demo_sent] by simp
  then show ?thesis
    by (simp add: maybe_attach_local_hint_def from_reqwest_def demo_web_def demo_response_def demo_error_def)
qed

definition anthropic_config :: AIConfig where
  "anthropic_config = \<lparr>provider = '' Anthropic '', api_key = Some ''sk-ant-1'', model = ''m'', base_url = ''https://h'',
     max_sample_length = 1, temperature = Finite False 0, max_tokens = 1, retry_attempts = 1, retry_delay_ms = 1,
     request_timeout_seconds = 1, api_version = None\<rparr>"

theorem anthropic_refused_witness:
  "create_ai_provider (\<lambda>_. Inl \<lparr>empty_host = False, url_error_text = []\<rparr>) anthropic_config = Inl (Config
    ''Unsupported AI provider: anthropic. Supported providers: openai, openrouter, anthropic, azure-openai, local'')"
proof (rule anthropic_refused)
  have "normalize_ai_provider '' Anthropic '' = ''anthropic''" by code_simp
  then show "normalize_ai_provider (provider anthropic_config) = ''anthropic''" by (simp add: anthropic_config_def)
qed

end
