(* ===== verification/Batch_Convert.thy ===== *)
theory Batch_Convert
  imports Subtitle_Files Match_Plan
begin

text \<open>
  Discovery of media files in a directory (\<open>src/core/matcher/discovery.rs\<close>) and the concurrent conversion
  of a directory (\<open>convert_batch\<close> of \<open>src/core/formats/converter.rs\<close>), as a step relation: the conversions
  take turns at the points where they wait, at most four holding a permit of the semaphore.
\<close>

section \<open>Discovery\<close>

datatype walked = Walked_Link path | Walked_File path | Walked_Other path

text \<open>
  The surroundings of a scan: what the crate walkdir yields below a root, at depth one or at any depth,
  \<open>str::to_lowercase\<close>, and the ids of the generator in their order.
\<close>

record scan_crates =
  walk_dir :: "path \<Rightarrow> bool \<Rightarrow> (str + walked) list"
  scan_lower :: "str \<Rightarrow> str"
  scan_ids :: "nat \<Rightarrow> str"

definition utf8_or_empty :: "str option \<Rightarrow> str" where
  "utf8_or_empty s = (case s of Some t \<Rightarrow> if valid_utf8 t then t else [] | None \<Rightarrow> [])"

definition classify_type :: "str \<Rightarrow> MediaFileType option" where
  "classify_type ext =
     (if ext \<in> set video_extensions then Some Video
      else if ext \<in> set subtitle_extensions then Some Subtitle else None)"

definition relative_display :: "path \<Rightarrow> path \<Rightarrow> str" where
  "relative_display p scan_root =
     replace_str [backslash] ''/'' (from_utf8_lossy (path_display
       (if path_starts_with p scan_root
        then \<lparr>absolute = False, comps = drop (length (comps scan_root)) (comps p)\<rparr> else p)))"

text \<open>\<open>metadata\<close> gives the size or fails.\<close>

definition file_size :: "os \<Rightarrow> path \<Rightarrow> files \<Rightarrow> io_error + nat" where
  "file_size os p fs =
     (case fault os (CallMetadata p) fs of
        Some e \<Rightarrow> Inl e
      | None \<Rightarrow> (case fs p of None \<Rightarrow> Inl not_found | Some c \<Rightarrow> Inr (length c)))"

definition classify_file :: "scan_crates \<Rightarrow> os \<Rightarrow> files \<Rightarrow> nat \<Rightarrow> path \<Rightarrow> path \<Rightarrow> MediaFile option res" where
  "classify_file sc os fs n p scan_root =
     (let ext = scan_lower sc (utf8_or_empty (extension p)) in
      case classify_type ext of
        None \<Rightarrow> Inr None
      | Some ty \<Rightarrow>
          (case file_size os p fs of
             Inl e \<Rightarrow> Inl (Io e)
           | Inr n_bytes \<Rightarrow>
               Inr (Some \<lparr>mf_id = scan_ids sc n, mf_path = p, file_type = ty, mf_size = n_bytes,
                 mf_name = utf8_or_empty (file_name p), mf_extension = ext,
                 relative_path = relative_display p scan_root\<rparr>)))"

text \<open>An error of the walk is a file matching error.\<close>

definition scan_step :: "scan_crates \<Rightarrow> os \<Rightarrow> files \<Rightarrow> path \<Rightarrow> MediaFile list \<Rightarrow> str + walked \<Rightarrow> MediaFile list res" where
  "scan_step sc os fs scan_root found x =
     (case x of
        Inl e \<Rightarrow> Inl (FileMatching e)
      | Inr (Walked_File p) \<Rightarrow>
          bind_res (classify_file sc os fs (length found) p scan_root) (\<lambda>m.
            Inr (case m of Some f \<Rightarrow> found @ [f] | None \<Rightarrow> found))
      | Inr _ \<Rightarrow> Inr found)"

definition scan_media :: "scan_crates \<Rightarrow> os \<Rightarrow> files \<Rightarrow> path \<Rightarrow> bool \<Rightarrow> MediaFile list res" where
  "scan_media sc os fs scan_root deep = fold_res (scan_step sc os fs scan_root) [] (walk_dir sc scan_root deep)"

definition discover_subtitle_files :: "scan_crates \<Rightarrow> os \<Rightarrow> files \<Rightarrow> path \<Rightarrow> bool \<Rightarrow> path list res" where
  "discover_subtitle_files sc os fs dir deep =
     bind_res (scan_media sc os fs dir deep) (\<lambda>found.
       Inr (map mf_path (filter (\<lambda>f. file_type f = Subtitle) found)))"

section \<open>Conversions that take turns\<close>

text \<open>
  Where one conversion stands: waiting for a permit; about to read; about to create its target; about to
  write it; finished.
\<close>

datatype conversion =
  Queued
| Reading
| Creating str ConversionResult
| Writing str ConversionResult
| Finished "ConversionResult res"

record batch_env =
  b_regex :: regex_crate
  b_text :: text_crates
  b_os :: os
  b_config :: ConversionConfig
  b_format :: str

definition batch_output :: "batch_env \<Rightarrow> path \<Rightarrow> path" where
  "batch_output env src = with_extension src (b_format env)"

text \<open>Reading and converting, and what follows it.\<close>

definition read_conversion :: "batch_env \<Rightarrow> path \<Rightarrow> (SubXError, str \<times> ConversionResult) io" where
  "read_conversion env src =
     bind_io (read_file_with_encoding (b_text env) (b_os env) src) (\<lambda>content.
       lift_res (convert_text (b_regex env) (b_config env) content (b_format env)))"

fun is_active :: "conversion \<Rightarrow> bool" where
  "is_active Reading = True"
| "is_active (Creating _ _) = True"
| "is_active (Writing _ _) = True"
| "is_active _ = False"

text \<open>The next thing conversion \<open>i\<close> does, when it may: its new state and the files.\<close>

fun advance :: "batch_env \<Rightarrow> path \<Rightarrow> conversion \<Rightarrow> files \<Rightarrow> conversion \<times> files" where
  "advance env src Queued fs = (Reading, fs)"
| "advance env src Reading fs =
     (case read_conversion env src fs of
        (Inl e, fs') \<Rightarrow> (Finished (Inl e), fs')
      | (Inr (out, r), fs') \<Rightarrow> (Creating out r, fs'))"
| "advance env src (Creating out r) fs =
     (case create_file (b_os env) (batch_output env src) fs of
        (Inl e, fs') \<Rightarrow> (Finished (Inl (Io e)), fs')
      | (Inr _, fs') \<Rightarrow> (Writing out r, fs'))"
| "advance env src (Writing out r) fs =
     (case write_all (b_os env) (batch_output env src) out fs of
        (Inl e, fs') \<Rightarrow> (Finished (Inl (Io e)), fs')
      | (Inr _, fs') \<Rightarrow> (Finished (Inr r), fs'))"
| "advance env src (Finished r) fs = (Finished r, fs)"

definition permits :: nat where
  "permits = 4"

definition may_advance :: "conversion list \<Rightarrow> nat \<Rightarrow> bool" where
  "may_advance cs i \<longleftrightarrow>
     i < length cs \<and>
     (case cs ! i of
        Queued \<Rightarrow> length (filter is_active cs) < permits
      | Finished _ \<Rightarrow> False
      | _ \<Rightarrow> True)"

inductive batch_step :: "batch_env \<Rightarrow> path list \<Rightarrow> conversion list \<times> files \<Rightarrow> conversion list \<times> files \<Rightarrow> bool"
  for env :: batch_env and srcs :: "path list" where
  turn: "may_advance cs i \<Longrightarrow> advance env (srcs ! i) (cs ! i) fs = (c, fs') \<Longrightarrow>
    batch_step env srcs (cs, fs) (cs[i := c], fs')"

definition batch_start :: "path list \<Rightarrow> files \<Rightarrow> conversion list \<times> files" where
  "batch_start srcs fs = (replicate (length srcs) Queued, fs)"

definition batch_reaches :: "batch_env \<Rightarrow> path list \<Rightarrow> files \<Rightarrow> conversion list \<times> files \<Rightarrow> bool" where
  "batch_reaches env srcs fs st \<longleftrightarrow> (batch_step env srcs)\<^sup>*\<^sup>* (batch_start srcs fs) st"

text \<open>The results collected at the end: all of them, or the first error in the order of the files.\<close>

fun collected_results :: "conversion list \<Rightarrow> ConversionResult list res option" where
  "collected_results [] = Some (Inr [])"
| "collected_results (Finished r # cs) =
     (case collected_results cs of
        None \<Rightarrow> None
      | Some rest \<Rightarrow> Some (bind_res r (\<lambda>x. bind_res rest (\<lambda>xs. Inr (x # xs)))))"
| "collected_results (_ # cs) = None"

end
