(* ===== verification/Batch_Properties.thy ===== *)
theory Batch_Properties
  imports Batch_Convert
begin

text \<open>
  What the concurrent conversion of a directory does: at most four conversions hold a permit, every schedule
  ends, and conversions that write different targets do not disturb each other.
\<close>

section \<open>One conversion\<close>

definition steady :: "os \<Rightarrow> bool" where
  "steady os \<longleftrightarrow> (\<forall>call fs fs'. fault os call fs = fault os call fs')"

definition convert_alone :: "batch_env \<Rightarrow> path \<Rightarrow> files \<Rightarrow> ConversionResult res \<times> files" where
  "convert_alone env src =
     convert_file (b_regex env) (b_text env) (b_os env) (b_config env) src (batch_output env src) (b_format env)"

abbreviation turn_of :: "batch_env \<Rightarrow> path \<Rightarrow> conversion \<times> files \<Rightarrow> conversion \<times> files" where
  "turn_of env src st \<equiv> advance env src (fst st) (snd st)"

definition completed :: "batch_env \<Rightarrow> path \<Rightarrow> conversion \<Rightarrow> files \<Rightarrow> conversion \<times> files" where
  "completed env src c fs = turn_of env src (turn_of env src (turn_of env src (turn_of env src (c, fs))))"

lemma reading_steady:
  assumes "steady os" "fs src = fs' src"
  shows "fst (read_file_with_encoding crates os src fs) = fst (read_file_with_encoding crates os src fs')"
proof -
  have same: "fault os call fs = fault os call fs'" for call using assms(1) by (simp add: steady_def)
  show ?thesis
    using assms(2)
    by (simp add: read_file_with_encoding_def check_subtitle_size_def check_file_size_def read_to_string_def sys_def same
        bind_io_def map_err_io_def return_io_def lift_res_def split: option.split sum.split)
qed

lemma reading_keeps [simp]: "snd (read_file_with_encoding crates os src fs) = fs"
  by (simp add: read_file_with_encoding_def check_subtitle_size_def check_file_size_def read_to_string_def sys_def
      bind_io_def map_err_io_def return_io_def lift_res_def split: option.split sum.split)

lemma read_conversion_keeps [simp]: "snd (read_conversion env src fs) = fs"
proof (cases "read_file_with_encoding (b_text env) (b_os env) src fs")
  case (Pair r fs')
  then show ?thesis using reading_keeps [of "b_text env" "b_os env" src fs]
    by (cases r) (simp_all add: read_conversion_def bind_io_def lift_res_def)
qed

lemma read_conversion_steady:
  assumes "steady (b_os env)" "fs src = fs' src"
  shows "fst (read_conversion env src fs) = fst (read_conversion env src fs')"
proof -
  let ?read = "read_file_with_encoding (b_text env) (b_os env) src"
  have "fst (?read fs) = fst (?read fs')" using assms by (rule reading_steady)
  then obtain r g g' where "?read fs = (r, g)" "?read fs' = (r, g')" by (metis prod.exhaust_sel)
  then show ?thesis by (cases r) (simp_all add: read_conversion_def bind_io_def lift_res_def)
qed

lemma read_conversion_cases:
  obtains r where "read_conversion env src fs = (r, fs)"
  using read_conversion_keeps by (metis prod.collapse)

text \<open>A turn of a conversion looks at its source and its target only, and changes its target only.\<close>

lemma turn_frame: "p \<noteq> batch_output env src \<Longrightarrow> snd (advance env src c fs) p = fs p"
proof (cases c)
  case Reading
  obtain r where "read_conversion env src fs = (r, fs)" by (rule read_conversion_cases)
  then show ?thesis using Reading by (simp split: sum.split prod.split)
qed (auto simp: create_file_def write_all_def sys_def split: option.split)

lemma turn_local:
  assumes "steady (b_os env)" "fs src = fs' src" "fs (batch_output env src) = fs' (batch_output env src)"
  shows "fst (advance env src c fs) = fst (advance env src c fs')
    \<and> snd (advance env src c fs) src = snd (advance env src c fs') src
    \<and> snd (advance env src c fs) (batch_output env src) = snd (advance env src c fs') (batch_output env src)"
proof (cases c)
  case Reading
  obtain r r' where "read_conversion env src fs = (r, fs)" "read_conversion env src fs' = (r', fs')"
    by (metis read_conversion_cases)
  moreover from this have "r = r'" using read_conversion_steady [OF assms(1), of fs src fs'] assms(2) by simp
  ultimately show ?thesis using Reading assms(2,3) by (simp split: sum.split prod.split)
next
  case (Creating out r)
  have "fault (b_os env) call fs = fault (b_os env) call fs'" for call using assms(1) by (simp add: steady_def)
  then show ?thesis using Creating assms(2,3) by (simp add: create_file_def sys_def split: option.split)
next
  case (Writing out r)
  have "fault (b_os env) call fs = fault (b_os env) call fs'" for call using assms(1) by (simp add: steady_def)
  then show ?thesis using Writing assms(2,3) by (simp add: write_all_def split: option.split)
qed (use assms(2,3) in simp_all)

lemma completed_local:
  assumes "steady (b_os env)" "fs src = fs' src" "fs (batch_output env src) = fs' (batch_output env src)"
  shows "fst (completed env src c fs) = fst (completed env src c fs')
    \<and> snd (completed env src c fs) (batch_output env src) = snd (completed env src c fs') (batch_output env src)"
proof -
  define like where "like s t \<longleftrightarrow> fst s = fst t \<and> snd s src = snd t src
    \<and> snd s (batch_output env src) = snd t (batch_output env src)" for s t :: "conversion \<times> files"
  have step: "like (turn_of env src s) (turn_of env src t)" if "like s t" for s t
    using that turn_local [OF assms(1), of "snd s" src "snd t" "fst s"] by (simp add: like_def)
  have base: "like (c, fs) (c, fs')" using assms(2,3) by (simp add: like_def)
  have "like (completed env src c fs) (completed env src c fs')" unfolding completed_def by (intro step base)
  then show ?thesis by (simp add: like_def)
qed

lemma turn_four:
  "\<exists>r. fst (turn_of env src (turn_of env src (turn_of env src (turn_of env src st)))) = Finished r"
  by (cases "fst st") (auto split: prod.split sum.split)

lemma completed_turn: "completed env src (fst (advance env src c fs)) (snd (advance env src c fs)) = completed env src c fs"
proof -
  have "completed env src (fst (advance env src c fs)) (snd (advance env src c fs)) = turn_of env src (completed env src c fs)"
    by (simp add: completed_def)
  moreover obtain r where "fst (completed env src c fs) = Finished r" using turn_four [of env src "(c, fs)"] by (auto simp: completed_def)
  ultimately show ?thesis by (metis advance.simps(5) prod.collapse)
qed

lemma completed_finished [simp]: "completed env src (Finished r) fs = (Finished r, fs)"
  by (simp add: completed_def)

lemma completed_queued: "completed env src Queued fs = map_prod Finished (\<lambda>f. f) (convert_alone env src fs)"
proof -
  obtain r where read: "read_conversion env src fs = (r, fs)" by (rule read_conversion_cases)
  have alone: "convert_alone env src fs = bind_io (read_conversion env src) (\<lambda>(out, r).
      bind_io (write_text (b_os env) (batch_output env src) out) (\<lambda>_. return_io r)) fs"
    by (simp add: convert_alone_def convert_file_def read_conversion_def bind_io_def split: prod.split sum.split)
  show ?thesis
    unfolding alone
    by (cases r) (auto simp: completed_def read bind_io_def write_text_def map_err_io_def return_io_def split: prod.split sum.split)
qed

section \<open>Schedules\<close>

inductive_cases batch_stepE: "batch_step env srcs (cs, fs) (cs', fs')"

fun turns_left :: "conversion \<Rightarrow> nat" where
  "turns_left Queued = 4"
| "turns_left Reading = 3"
| "turns_left (Creating _ _) = 2"
| "turns_left (Writing _ _) = 1"
| "turns_left (Finished _) = 0"

fun is_finished :: "conversion \<Rightarrow> bool" where
  "is_finished (Finished _) = True"
| "is_finished _ = False"

lemma turns_left_advance: "\<not> is_finished c \<Longrightarrow> turns_left (fst (advance env src c fs)) < turns_left c"
  by (cases c) (auto split: prod.split sum.split)

lemma sum_list_update_less:
  "i < length xs \<Longrightarrow> f y < (f (xs ! i) :: nat) \<Longrightarrow> sum_list (map f (xs[i := y])) < sum_list (map f xs)"
  by (induction xs arbitrary: i) (auto split: nat.split)

lemma turns_left_step: "batch_step env srcs (cs, fs) (cs', fs') \<Longrightarrow> sum_list (map turns_left cs') < sum_list (map turns_left cs)"
proof (erule batch_stepE)
  fix i c
  assume step: "cs' = cs[i := c]" "may_advance cs i" "advance env (srcs ! i) (cs ! i) fs = (c, fs')"
  then have "\<not> is_finished (cs ! i)" "i < length cs" by (auto simp: may_advance_def split: conversion.splits)
  then show ?thesis
    using step turns_left_advance [of "cs ! i" env "srcs ! i" fs] by (auto intro: sum_list_update_less)
qed

lemma turns_left_run: "(batch_step env srcs ^^ k) st st' \<Longrightarrow> k + sum_list (map turns_left (fst st')) \<le> sum_list (map turns_left (fst st))"
proof (induction k arbitrary: st')
  case (Suc k)
  then obtain mid where "(batch_step env srcs ^^ k) st mid" "batch_step env srcs mid st'" by auto
  with Suc.IH [of mid] turns_left_step [of env srcs "fst mid" "snd mid" "fst st'" "snd st'"] show ?case by simp
qed simp

lemma count_update:
  "i < length xs \<Longrightarrow> length (filter P (xs[i := y])) + (if P (xs ! i) then 1 else 0) = length (filter P xs) + (if P y then 1 else 0)"
proof (induction xs arbitrary: i)
  case (Cons x xs)
  show ?case
  proof (cases i)
    case (Suc j)
    then show ?thesis using Cons.IH [of j] Cons.prems by (simp split: if_splits)
  qed simp
qed simp

lemma permits_step:
  assumes "batch_step env srcs (cs, fs) (cs', fs')" "length (filter is_active cs) \<le> permits"
  shows "length (filter is_active cs') \<le> permits"
  using assms(1)
proof (rule batch_stepE)
  fix i c
  assume step: "cs' = cs[i := c]" "may_advance cs i" "advance env (srcs ! i) (cs ! i) fs = (c, fs')"
  show ?thesis
    using step assms(2) count_update [of i cs is_active c]
    by (cases "cs ! i") (auto simp: may_advance_def split: if_splits)
qed

lemma reached_induct [consumes 1, case_names start step]:
  assumes "batch_reaches env srcs fs st" "P (batch_start srcs fs)"
    and "\<And>cs fs1 cs' fs2. batch_reaches env srcs fs (cs, fs1) \<Longrightarrow> batch_step env srcs (cs, fs1) (cs', fs2) \<Longrightarrow> P (cs, fs1) \<Longrightarrow> P (cs', fs2)"
  shows "P st"
  using assms(1) unfolding batch_reaches_def
proof (induction rule: rtranclp_induct)
  case base then show ?case by (rule assms(2))
next
  case (step y z)
  then show ?case using assms(3) [of "fst y" "snd y" "fst z" "snd z"] by (simp add: batch_reaches_def)
qed

lemma reached_length: "batch_reaches env srcs fs st \<Longrightarrow> length (fst st) = length srcs"
  by (induction rule: reached_induct) (auto simp: batch_start_def elim: batch_stepE)

lemma reached_permits: "batch_reaches env srcs fs st \<Longrightarrow> length (filter is_active (fst st)) \<le> permits"
proof (induction rule: reached_induct)
  case start
  have "filter is_active (replicate n Queued) = []" for n by (induction n) simp_all
  then show ?case by (simp add: batch_start_def)
next
  case (step cs fs1 cs' fs2) then show ?case using permits_step by simp
qed

lemma batch_progress:
  assumes "c \<in> set cs" "\<not> is_finished c"
  shows "\<exists>st. batch_step env srcs (cs, fs) st"
proof -
  have step: "\<exists>st. batch_step env srcs (cs, fs) st" if "may_advance cs i" for i
    using batch_step.turn [OF that] by (metis prod.exhaust)
  show ?thesis
  proof (cases "filter is_active cs")
    case Nil
    obtain i where "i < length cs" "cs ! i = c" using assms(1) by (metis in_set_conv_nth)
    moreover have "\<not> is_active c" using Nil assms(1) by (simp add: filter_empty_conv)
    ultimately have "may_advance cs i" using assms(2) Nil by (cases c) (simp_all add: may_advance_def permits_def)
    then show ?thesis by (rule step)
  next
    case (Cons d ds)
    then have "d \<in> set cs" "is_active d" by (auto simp: filter_eq_Cons_iff)
    then obtain i where "i < length cs" "cs ! i = d" by (metis in_set_conv_nth)
    then have "may_advance cs i" using \<open>is_active d\<close> by (cases d) (simp_all add: may_advance_def)
    then show ?thesis by (rule step)
  qed
qed

lemma collected_none: "collected_results cs = None \<longleftrightarrow> (\<exists>c\<in>set cs. \<not> is_finished c)"
  by (induction cs rule: collected_results.induct) (auto split: option.split)

text \<open>
  C22.  The conversion of a directory never stops half way: whatever the schedule and whatever fails, at most
  four conversions are past the semaphore, a state in which not every result is there has a next turn, and
  no schedule has more than four turns for each file.
\<close>

theorem batch_finishes:
  assumes "(batch_step env srcs ^^ k) (batch_start srcs fs) (cs, fs')"
  shows "k \<le> 4 * length srcs \<and> length (filter is_active cs) \<le> 4
    \<and> (collected_results cs = None \<longleftrightarrow> (\<exists>st. batch_step env srcs (cs, fs') st))"
proof -
  have reached: "batch_reaches env srcs fs (cs, fs')"
    using assms unfolding batch_reaches_def by (rule relpowp_imp_rtranclp)
  have "sum_list (map turns_left (replicate n Queued)) = 4 * n" for n by (induction n) simp_all
  then have "k \<le> 4 * length srcs" using turns_left_run [OF assms] by (simp add: batch_start_def)
  moreover have "length (filter is_active cs) \<le> 4" using reached_permits [OF reached] by (simp add: permits_def)
  moreover have "\<exists>c\<in>set cs. \<not> is_finished c" if step: "batch_step env srcs (cs, fs') st" for st
    using step
  proof cases
    case (turn i c g)
    then have "cs ! i \<in> set cs" "\<not> is_finished (cs ! i)" by (auto simp: may_advance_def split: conversion.splits)
    then show ?thesis by blast
  qed
  ultimately show ?thesis using batch_progress [of _ cs env srcs fs'] by (auto simp: collected_none)
qed

section \<open>Conversions that do not meet\<close>

definition separated :: "batch_env \<Rightarrow> path list \<Rightarrow> bool" where
  "separated env srcs \<longleftrightarrow> (\<forall>i < length srcs. \<forall>j < length srcs. i \<noteq> j \<longrightarrow>
     batch_output env (srcs ! i) \<noteq> batch_output env (srcs ! j) \<and> batch_output env (srcs ! i) \<noteq> srcs ! j)"

definition as_alone :: "batch_env \<Rightarrow> path list \<Rightarrow> files \<Rightarrow> conversion list \<times> files \<Rightarrow> bool" where
  "as_alone env srcs fs0 st \<longleftrightarrow>
     (\<forall>i < length srcs. let src = srcs ! i; out = batch_output env src; (c, f) = completed env src (fst st ! i) (snd st);
         (r, f0) = convert_alone env src fs0 in c = Finished r \<and> f out = f0 out)
     \<and> (\<forall>p. p \<notin> batch_output env ` set srcs \<longrightarrow> snd st p = fs0 p)"

lemma as_aloneI:
  assumes "\<And>i. i < length srcs \<Longrightarrow>
      fst (completed env (srcs ! i) (fst st ! i) (snd st)) = Finished (fst (convert_alone env (srcs ! i) fs0))
      \<and> snd (completed env (srcs ! i) (fst st ! i) (snd st)) (batch_output env (srcs ! i))
        = snd (convert_alone env (srcs ! i) fs0) (batch_output env (srcs ! i))"
    and "\<And>p. p \<notin> batch_output env ` set srcs \<Longrightarrow> snd st p = fs0 p"
  shows "as_alone env srcs fs0 st"
  using assms by (simp add: as_alone_def case_prod_beta Let_def)

lemma as_aloneD:
  assumes "as_alone env srcs fs0 st"
  shows "i < length srcs \<Longrightarrow>
      fst (completed env (srcs ! i) (fst st ! i) (snd st)) = Finished (fst (convert_alone env (srcs ! i) fs0))
      \<and> snd (completed env (srcs ! i) (fst st ! i) (snd st)) (batch_output env (srcs ! i))
        = snd (convert_alone env (srcs ! i) fs0) (batch_output env (srcs ! i))"
    and "p \<notin> batch_output env ` set srcs \<Longrightarrow> snd st p = fs0 p"
  using assms by (simp_all add: as_alone_def case_prod_beta Let_def)

lemma as_alone_start: "as_alone env srcs fs (batch_start srcs fs)"
  by (intro as_aloneI) (simp_all add: batch_start_def completed_queued)

lemma as_alone_step:
  assumes "steady (b_os env)" "separated env srcs" "length cs = length srcs"
    and "batch_step env srcs (cs, fs) (cs', fs')" "as_alone env srcs fs0 (cs, fs)"
  shows "as_alone env srcs fs0 (cs', fs')"
  using assms(4)
proof (rule batch_stepE)
  fix i c
  assume step: "cs' = cs[i := c]" "may_advance cs i" "advance env (srcs ! i) (cs ! i) fs = (c, fs')"
  then have i: "i < length srcs" using assms(3) by (simp add: may_advance_def)
  have frame: "fs' p = fs p" if "p \<noteq> batch_output env (srcs ! i)" for p
    using turn_frame [OF that, of "cs ! i" fs] step(3) by simp
  show ?thesis
  proof (intro as_aloneI, goal_cases)
    case (1 j)
    show ?case
    proof (cases "j = i")
      case True
      have "completed env (srcs ! i) c fs' = completed env (srcs ! i) (cs ! i) fs"
        using completed_turn [of env "srcs ! i" "cs ! i" fs] step(3) by simp
      then show ?thesis using True step(1) i assms(3) as_aloneD(1) [OF assms(5) i] by simp
    next
      case False
      then have "fs' (srcs ! j) = fs (srcs ! j)" "fs' (batch_output env (srcs ! j)) = fs (batch_output env (srcs ! j))"
        using assms(2) i 1 by (metis frame separated_def)+
      from completed_local [OF assms(1) this] show ?thesis
        using False step(1) as_aloneD(1) [OF assms(5) 1] by simp
    qed
  next
    case (2 p)
    then show ?case using frame [of p] as_aloneD(2) [OF assms(5) 2] nth_mem [OF i] by (metis image_eqI snd_conv)
  qed
qed

lemma reached_as_alone:
  assumes "steady (b_os env)" "separated env srcs" "batch_reaches env srcs fs st"
  shows "as_alone env srcs fs st"
  using assms(3)
proof (induction rule: reached_induct)
  case start show ?case by (rule as_alone_start)
next
  case (step cs fs1 cs' fs2)
  then show ?case using as_alone_step [OF assms(1,2)] reached_length by (metis fst_conv)
qed

fun results_of :: "'a res list \<Rightarrow> 'a list res" where
  "results_of [] = Inr []"
| "results_of (r # rs) = bind_res r (\<lambda>x. bind_res (results_of rs) (\<lambda>xs. Inr (x # xs)))"

lemma collected_finished: "collected_results (map Finished rs) = Some (results_of rs)"
  by (induction rs) simp_all

text \<open>
  C21.  Conversions that do not meet: when no file of the directory is converted onto another one or onto the
  target of another one, and a call fails or succeeds whatever else is on the disk, the results of every
  schedule are those of converting each file alone, in the order of the files, every target is what that
  conversion leaves there, and nothing else changes.
\<close>

theorem batch_isolated:
  assumes "steady (b_os env)" "separated env srcs"
    and "batch_reaches env srcs fs (cs, fs')" "collected_results cs \<noteq> None"
  shows "collected_results cs = Some (results_of (map (\<lambda>src. fst (convert_alone env src fs)) srcs))
    \<and> (\<forall>src\<in>set srcs. fs' (batch_output env src) = snd (convert_alone env src fs) (batch_output env src))
    \<and> (\<forall>p. p \<notin> batch_output env ` set srcs \<longrightarrow> fs' p = fs p)"
proof -
  note alone = reached_as_alone [OF assms(1-3)]
  have len: "length cs = length srcs" using reached_length [OF assms(3)] by simp
  have each: "cs ! i = Finished (fst (convert_alone env (srcs ! i) fs))
      \<and> fs' (batch_output env (srcs ! i)) = snd (convert_alone env (srcs ! i) fs) (batch_output env (srcs ! i))"
    if "i < length srcs" for i
  proof -
    have "is_finished (cs ! i)" using assms(4) that len by (simp add: collected_none)
    then obtain r where "cs ! i = Finished r" by (cases "cs ! i") simp_all
    then show ?thesis using as_aloneD(1) [OF alone that] by simp
  qed
  then have "cs = map Finished (map (\<lambda>src. fst (convert_alone env src fs)) srcs)"
    using len by (intro nth_equalityI) simp_all
  then have "collected_results cs = Some (results_of (map (\<lambda>src. fst (convert_alone env src fs)) srcs))"
    using collected_finished by metis
  moreover have "\<forall>src\<in>set srcs. fs' (batch_output env src) = snd (convert_alone env src fs) (batch_output env src)"
    using each by (metis in_set_conv_nth)
  ultimately show ?thesis using as_aloneD(2) [OF alone] by simp
qed

section \<open>Conversions that meet\<close>

lemma alone_source_only:
  assumes "steady (b_os env)" "fs src = fs' src" "convert_alone env src fs = (Inr r, fs(batch_output env src \<mapsto> out))"
  shows "convert_alone env src fs' = (Inr r, fs'(batch_output env src \<mapsto> out))"
proof -
  have same: "fault (b_os env) call fs = fault (b_os env) call fs''" for call fs fs'' using assms(1) by (simp add: steady_def)
  have alone: "convert_alone env src = bind_io (read_conversion env src) (\<lambda>(out, r).
      bind_io (write_text (b_os env) (batch_output env src) out) (\<lambda>_. return_io r))"
    by (rule ext) (simp add: convert_alone_def convert_file_def read_conversion_def bind_io_def split: prod.split sum.split)
  obtain x where reads: "read_conversion env src fs = (x, fs)" "read_conversion env src fs' = (x, fs')"
    using read_conversion_steady [OF assms(1), of fs src fs'] assms(2) by (metis fst_conv read_conversion_cases)
  then obtain content where x: "x = Inr (content, r)" and create: "fault (b_os env) (CallCreate (batch_output env src)) fs = None"
    and writes: "fault (b_os env) (CallWrite (batch_output env src)) fs = None"
    and final: "fs(batch_output env src \<mapsto> content) = fs(batch_output env src \<mapsto> out)"
    using assms(3) same [of "CallWrite (batch_output env src)" "fs(batch_output env src \<mapsto> [])" fs] unfolding alone
    by (auto simp: bind_io_def write_text_def map_err_io_def return_io_def create_file_def write_all_def sys_def
        split: sum.splits prod.splits option.splits)
  then have "content = out" by (metis fun_upd_same option.inject)
  then show ?thesis
    using reads(2) x create writes same [of "CallWrite (batch_output env src)" "fs'(batch_output env src \<mapsto> [])" fs]
      same [of "CallCreate (batch_output env src)" fs' fs]
    unfolding alone by (simp add: bind_io_def write_text_def map_err_io_def return_io_def create_file_def write_all_def sys_def)
qed

lemma solo_turn:
  assumes "i < length cs" "is_active (cs ! i) \<or> (\<forall>c\<in>set cs. \<not> is_active c)"
  shows "(batch_step env srcs)\<^sup>*\<^sup>* (cs, fs) (cs[i := fst (advance env (srcs ! i) (cs ! i) fs)], snd (advance env (srcs ! i) (cs ! i) fs))"
proof (cases "is_finished (cs ! i)")
  case True
  then obtain r where "cs ! i = Finished r" by (cases "cs ! i") simp_all
  then show ?thesis by (metis advance.simps(5) fst_conv list_update_id rtranclp.rtrancl_refl snd_conv)
next
  case False
  have "may_advance cs i"
  proof (cases "cs ! i")
    case Queued
    then have "filter is_active cs = []" using assms(2) by (auto simp: filter_empty_conv)
    then show ?thesis using Queued assms(1) by (simp add: may_advance_def permits_def)
  qed (use False assms(1) in \<open>simp_all add: may_advance_def\<close>)
  then show ?thesis by (intro r_into_rtranclp batch_step.turn) simp_all
qed

lemma solo_run:
  assumes "i < length cs" "cs ! i = Queued" "\<forall>c\<in>set cs. \<not> is_active c"
  shows "(batch_step env srcs)\<^sup>*\<^sup>* (cs, fs) (cs[i := Finished (fst (convert_alone env (srcs ! i) fs))], snd (convert_alone env (srcs ! i) fs))"
proof -
  let ?turn = "turn_of env (srcs ! i)" and ?at = "\<lambda>st. (cs[i := fst st], snd st)"
  have one: "(batch_step env srcs)\<^sup>*\<^sup>* (?at st) (?at (?turn st))" if "is_active (fst st) \<or> is_finished (fst st)" for st
  proof (cases "is_active (fst st)")
    case True
    then show ?thesis using solo_turn [of i "cs[i := fst st]" env srcs "snd st"] assms(1) by simp
  next
    case False
    then have "is_finished (fst st)" using that by simp
    then obtain r where "fst st = Finished r" by (cases "fst st") simp_all
    then have "?turn st = st" by (metis advance.simps(5) prod.collapse)
    then show ?thesis by simp
  qed
  have ready: "is_active (fst (?turn st)) \<or> is_finished (fst (?turn st))" for st
    by (cases "fst st") (auto split: prod.split sum.split)
  have "(batch_step env srcs)\<^sup>*\<^sup>* (cs, fs) (?at (?turn (Queued, fs)))"
    using solo_turn [of i cs env srcs fs] assms by simp
  from rtranclp_trans [OF rtranclp_trans [OF rtranclp_trans [OF this one [OF ready]] one [OF ready]] one [OF ready]]
  have "(batch_step env srcs)\<^sup>*\<^sup>* (cs, fs) (?at (completed env (srcs ! i) Queued fs))" by (simp only: completed_def)
  then show ?thesis by (simp add: completed_queued)
qed

text \<open>
  Two files with the same stem have one target.  If both can be converted, both results say so, and which of
  the two texts is on the disk depends on the schedule: the other is gone without a word.
\<close>

lemma same_stem_overwrites:
  assumes "steady (b_os env)" "batch_output env a = batch_output env b" "batch_output env a \<noteq> a" "batch_output env b \<noteq> b"
    and a: "convert_alone env a fs = (Inr ra, fs(batch_output env a \<mapsto> ta))"
    and b: "convert_alone env b fs = (Inr rb, fs(batch_output env b \<mapsto> tb))"
  shows "batch_reaches env [a, b] fs ([Finished (Inr ra), Finished (Inr rb)], fs(batch_output env a \<mapsto> ta))"
    and "batch_reaches env [a, b] fs ([Finished (Inr ra), Finished (Inr rb)], fs(batch_output env a \<mapsto> tb))"
proof -
  let ?srcs = "[a, b]" and ?ca = "Finished (Inr ra)" and ?cb = "Finished (Inr rb)"
  have start: "batch_start ?srcs fs = ([Queued, Queued], fs)" by (simp add: batch_start_def)
  have b': "convert_alone env b (fs(batch_output env a \<mapsto> ta)) = (Inr rb, fs(batch_output env a \<mapsto> tb))"
    using alone_source_only [OF assms(1) _ b, of "fs(batch_output env a \<mapsto> ta)"] assms(2,4) by simp
  have a': "convert_alone env a (fs(batch_output env b \<mapsto> tb)) = (Inr ra, fs(batch_output env a \<mapsto> ta))"
    using alone_source_only [OF assms(1) _ a, of "fs(batch_output env b \<mapsto> tb)"] assms(2,3) by simp
  have second: "(batch_step env ?srcs)\<^sup>*\<^sup>* ([Queued, Queued], fs) ([Queued, ?cb], fs(batch_output env b \<mapsto> tb))"
    using solo_run [of 1 "[Queued, Queued]" env ?srcs fs] b by simp
  have "(batch_step env ?srcs)\<^sup>*\<^sup>* ([Queued, ?cb], fs(batch_output env b \<mapsto> tb)) ([?ca, ?cb], fs(batch_output env a \<mapsto> ta))"
    using solo_run [of 0 "[Queued, ?cb]" env ?srcs "fs(batch_output env b \<mapsto> tb)"] a' by simp
  with second show "batch_reaches env ?srcs fs ([?ca, ?cb], fs(batch_output env a \<mapsto> ta))"
    unfolding batch_reaches_def start by (rule rtranclp_trans)
  have first: "(batch_step env ?srcs)\<^sup>*\<^sup>* ([Queued, Queued], fs) ([?ca, Queued], fs(batch_output env a \<mapsto> ta))"
    using solo_run [of 0 "[Queued, Queued]" env ?srcs fs] a by simp
  have "(batch_step env ?srcs)\<^sup>*\<^sup>* ([?ca, Queued], fs(batch_output env a \<mapsto> ta)) ([?ca, ?cb], fs(batch_output env a \<mapsto> tb))"
    using solo_run [of 1 "[?ca, Queued]" env ?srcs "fs(batch_output env a \<mapsto> ta)"] b' by simp
  with first show "batch_reaches env ?srcs fs ([?ca, ?cb], fs(batch_output env a \<mapsto> tb))"
    unfolding batch_reaches_def start by (rule rtranclp_trans)
qed

section \<open>Instances\<close>

definition demo_batch :: batch_env where
  "demo_batch = \<lparr>b_regex = ref_engine [], b_text = demo_crates, b_os = quiet_os, b_config = demo_conversion, b_format = ''srt''\<rparr>"

lemma batch_finishes_witness:
  "(batch_step demo_batch [path_of ''a.ass''] ^^ 1) (batch_start [path_of ''a.ass''] Map.empty) ([Reading], Map.empty)
   \<and> (1::nat) \<le> 4 * length [path_of ''a.ass''] \<and> length (filter is_active [Reading]) \<le> 4
   \<and> (\<exists>st. batch_step demo_batch [path_of ''a.ass''] ([Reading], Map.empty) st)"
proof -
  have "batch_step demo_batch [path_of ''a.ass''] ([Queued], Map.empty) ([Reading], Map.empty)"
    using batch_step.turn [of "[Queued]" 0 demo_batch "[path_of ''a.ass'']" Map.empty Reading Map.empty]
    by (simp add: may_advance_def permits_def)
  then have run: "(batch_step demo_batch [path_of ''a.ass''] ^^ 1) (batch_start [path_of ''a.ass''] Map.empty) ([Reading], Map.empty)"
    by (simp add: batch_start_def eq_OO)
  from batch_finishes [OF this] run show ?thesis by simp
qed

lemma batch_isolated_witness:
  "let srcs = [path_of ''a.ass'', path_of ''b.ass'']; fs = [path_of ''a.ass'' \<mapsto> demo_ass_text] in
   \<exists>cs fs'. batch_reaches demo_batch srcs fs (cs, fs')
     \<and> collected_results cs = Some (results_of (map (\<lambda>src. fst (convert_alone demo_batch src fs)) srcs))"
proof -
  let ?a = "path_of ''a.ass''" and ?b = "path_of ''b.ass''"
  let ?srcs = "[?a, ?b]" and ?fs = "[?a \<mapsto> demo_ass_text]"
  have steady: "steady (b_os demo_batch)" by (simp add: steady_def demo_batch_def quiet_os_def)
  have separated: "separated demo_batch ?srcs"
    by (simp add: separated_def batch_output_def demo_batch_def All_less_Suc) code_simp
  obtain cs fs' where run: "batch_reaches demo_batch ?srcs ?fs (cs, fs')" "collected_results cs \<noteq> None"
  proof -
    let ?f = "snd (convert_alone demo_batch ?a ?fs)" and ?ca = "Finished (fst (convert_alone demo_batch ?a ?fs))"
    have first: "(batch_step demo_batch ?srcs)\<^sup>*\<^sup>* ([Queued, Queued], ?fs) ([?ca, Queued], ?f)"
      using solo_run [of 0 "[Queued, Queued]" demo_batch ?srcs ?fs] by simp
    have "(batch_step demo_batch ?srcs)\<^sup>*\<^sup>* ([?ca, Queued], ?f)
        ([?ca, Finished (fst (convert_alone demo_batch ?b ?f))], snd (convert_alone demo_batch ?b ?f))"
      using solo_run [of 1 "[?ca, Queued]" demo_batch ?srcs ?f] by simp
    from rtranclp_trans [OF first this]
    have "batch_reaches demo_batch ?srcs ?fs
        ([?ca, Finished (fst (convert_alone demo_batch ?b ?f))], snd (convert_alone demo_batch ?b ?f))"
      by (simp add: batch_reaches_def batch_start_def)
    then show ?thesis by (rule that) simp
  qed
  then show ?thesis using batch_isolated [OF steady separated run] by (auto simp: Let_def)
qed

end
