(* ===== verification/Float_Arith.thy ===== *)
theory Float_Arith
  imports Float32
begin

text \<open>
  Arithmetic of IEEE 754 as the audio code uses it: an operation gives the exact result rounded to the
  nearest value.  An \<open>f64\<close> has the values of \<open>f32\<close> in form, with magnitudes of 53 bits.
\<close>

type_synonym f64 = f32
type_synonym rounding = "rat \<Rightarrow> rat option"

text \<open>The nearest value of \<open>p\<close> bits with an exponent of the list, below a bound.\<close>

definition nearest :: "nat \<Rightarrow> int list \<Rightarrow> rat \<Rightarrow> rounding" where
  "nearest p es bound m =
     (case List.find (\<lambda>e. m / 2 powi e < 2 ^ p) es of
        None \<Rightarrow> None
      | Some e \<Rightarrow> (let r = of_int (half_even (m / 2 powi e)) * 2 powi e in if r < bound then Some r else None))"

definition round_f64 :: rounding where
  "round_f64 = nearest 53 [-1074..971] (2 ^ 1024)"

definition rounded :: "rounding \<Rightarrow> bool \<Rightarrow> rat \<Rightarrow> f32" where
  "rounded rnd neg m = (case rnd m of Some r \<Rightarrow> Finite neg r | None \<Rightarrow> Infinite neg)"

fun float_neg :: "f32 \<Rightarrow> f32" where
  "float_neg NaN = NaN"
| "float_neg (Infinite neg) = Infinite (\<not> neg)"
| "float_neg (Finite neg m) = Finite (\<not> neg) m"

fun float_abs :: "f32 \<Rightarrow> f32" where
  "float_abs NaN = NaN"
| "float_abs (Infinite neg) = Infinite False"
| "float_abs (Finite neg m) = Finite False m"

fun float_add :: "rounding \<Rightarrow> f32 \<Rightarrow> f32 \<Rightarrow> f32" where
  "float_add rnd (Finite a m) (Finite b n) =
     (let q = signed a m + signed b n in if q = 0 then Finite (a \<and> b) 0 else rounded rnd (q < 0) \<bar>q\<bar>)"
| "float_add rnd (Infinite a) (Infinite b) = (if a = b then Infinite a else NaN)"
| "float_add rnd (Infinite a) (Finite _ _) = Infinite a"
| "float_add rnd (Finite _ _) (Infinite b) = Infinite b"
| "float_add rnd _ _ = NaN"

definition float_sub :: "rounding \<Rightarrow> f32 \<Rightarrow> f32 \<Rightarrow> f32" where
  "float_sub rnd x y = float_add rnd x (float_neg y)"

fun float_mul :: "rounding \<Rightarrow> f32 \<Rightarrow> f32 \<Rightarrow> f32" where
  "float_mul rnd (Finite a m) (Finite b n) = rounded rnd (a \<noteq> b) (m * n)"
| "float_mul rnd (Infinite a) (Infinite b) = Infinite (a \<noteq> b)"
| "float_mul rnd (Infinite a) (Finite b n) = (if n = 0 then NaN else Infinite (a \<noteq> b))"
| "float_mul rnd (Finite a m) (Infinite b) = (if m = 0 then NaN else Infinite (a \<noteq> b))"
| "float_mul rnd _ _ = NaN"

fun float_div :: "rounding \<Rightarrow> f32 \<Rightarrow> f32 \<Rightarrow> f32" where
  "float_div rnd (Finite a m) (Finite b n) =
     (if n = 0 then if m = 0 then NaN else Infinite (a \<noteq> b) else rounded rnd (a \<noteq> b) (m / n))"
| "float_div rnd (Infinite a) (Finite b _) = Infinite (a \<noteq> b)"
| "float_div rnd (Finite a _) (Infinite b) = Finite (a \<noteq> b) 0"
| "float_div rnd _ _ = NaN"

text \<open>\<open>round\<close> goes to the nearest integer, a half away from zero.\<close>

fun float_round :: "f32 \<Rightarrow> f32" where
  "float_round (Finite neg m) = Finite neg (of_int \<lfloor>m + 1 / 2\<rfloor>)"
| "float_round x = x"

definition float_min :: "f32 \<Rightarrow> f32 \<Rightarrow> f32" where
  "float_min x y = (if x = NaN then y else if y = NaN then x else if f32_less y x then y else x)"

definition float_clamp :: "f32 \<Rightarrow> f32 \<Rightarrow> f32 \<Rightarrow> f32" where
  "float_clamp lo hi x = (if f32_less x lo then lo else if f32_less hi x then hi else x)"

section \<open>Casts\<close>

text \<open>\<open>as\<close> to an integer drops the fraction, saturates at the bounds and takes a NaN to zero.\<close>

fun float_as_int :: "int \<Rightarrow> int \<Rightarrow> f32 \<Rightarrow> int" where
  "float_as_int lo hi NaN = 0"
| "float_as_int lo hi (Infinite neg) = (if neg then lo else hi)"
| "float_as_int lo hi (Finite neg m) = max lo (min hi (if neg then - \<lfloor>m\<rfloor> else \<lfloor>m\<rfloor>))"

definition as_u16 :: "f32 \<Rightarrow> nat" where
  "as_u16 x = nat (float_as_int 0 65535 x)"

definition as_usize :: "f32 \<Rightarrow> nat" where
  "as_usize x = nat (float_as_int 0 (2 ^ 64 - 1) x)"

definition as_i16 :: "f32 \<Rightarrow> int" where
  "as_i16 x = float_as_int (-32768) 32767 x"

definition f64_of_nat :: "nat \<Rightarrow> f64" where
  "f64_of_nat n = rounded round_f64 False (of_nat n)"

fun f32_of_f64 :: "f64 \<Rightarrow> f32" where
  "f32_of_f64 (Finite neg m) = rounded round_f32 neg m"
| "f32_of_f64 x = x"

section \<open>Display with a fixed number of decimals\<close>

definition show_fixed :: "nat \<Rightarrow> f32 \<Rightarrow> str" where
  "show_fixed k x =
     (case x of
        NaN \<Rightarrow> ''NaN''
      | Infinite neg \<Rightarrow> (if neg then ''-inf'' else ''inf'')
      | Finite neg m \<Rightarrow> (if neg then ''-'' else [])
          @ (let d = nat (half_even (m * 10 ^ k)) in
             if k = 0 then show_nat d else show_nat (d div 10 ^ k) @ ''.'' @ pad0 k (show_nat (d mod 10 ^ k))))"

section \<open>Facts\<close>

lemma rounded_representable: "representable m \<Longrightarrow> rounded round_f32 neg m = Finite neg m"
  by (simp add: rounded_def representable_def)

lemma float_mul_one: "representable m \<Longrightarrow> float_mul round_f32 (Finite a 1) (Finite b m) = Finite (a \<noteq> b) m"
  by (simp add: rounded_representable)

lemma f32_eq_refl: "f32_eq x x \<longleftrightarrow> x \<noteq> NaN"
  by (cases x) simp_all

lemma nearest_nonneg: "nearest p es bound m = Some r \<Longrightarrow> 0 \<le> m \<Longrightarrow> 0 \<le> r"
  by (auto simp: nearest_def Let_def split: option.splits if_splits intro!: mult_nonneg_nonneg half_even_nonneg)

text \<open>Rounding with \<open>k\<close> bits after the binary point.\<close>

lemma nearest_at:
  assumes "m * 2 ^ k < 2 ^ p" "2 ^ p \<le> m * 2 ^ (k + 1)" "lo \<le> - int k" "- int k \<le> hi" "2 ^ p < bound"
  shows "nearest p [lo..hi] bound m = Some (of_int (half_even (m * 2 ^ k)) / 2 ^ k)"
proof -
  have e: "(2::rat) powi (- int k) = 1 / 2 ^ k" by (simp add: power_int_minus field_simps)
  have "0 \<le> m"
  proof (rule ccontr)
    assume "\<not> 0 \<le> m"
    then have "m * 2 ^ (k + 1) < 0" by (intro mult_neg_pos) simp_all
    moreover have "(0::rat) \<le> 2 ^ p" by simp
    ultimately show False using assms(2) by linarith
  qed
  have found: "List.find (\<lambda>e. m / 2 powi e < 2 ^ p) [lo..hi] = Some (- int k)"
  proof (rule find_upto_eqI)
    show "m / 2 powi (- int k) < 2 ^ p" using assms(1) by (simp add: e)
    fix i assume "lo \<le> i" "i < - int k"
    then have "(2::rat) powi i \<le> 2 powi (- int (k + 1))" by (intro power_int_increasing) auto
    then have le: "(2::rat) powi i \<le> 1 / 2 ^ (k + 1)"
      by (simp only: power_int_minus power_int_of_nat inverse_eq_divide)
    have "0 < (2::rat) powi i" by simp
    with le have "2 ^ (k + 1) \<le> 1 / (2::rat) powi i" by (simp add: field_simps)
    then have "m * 2 ^ (k + 1) \<le> m * (1 / 2 powi i)" using \<open>0 \<le> m\<close> by (intro mult_left_mono)
    then show "\<not> m / 2 powi i < 2 ^ p" using assms(2) by simp
  qed (use assms(3,4) in auto)
  have "half_even (m * 2 ^ k) \<le> 2 ^ p" using assms(1) by (intro half_even_le) simp
  then have "(of_int (half_even (m * 2 ^ k)) :: rat) \<le> of_int (2 ^ p)" by (simp only: of_int_le_iff)
  then have le: "of_int (half_even (m * 2 ^ k)) \<le> (2 ^ p :: rat)" by simp
  have "(2 ^ p :: rat) * 1 \<le> 2 ^ p * 2 ^ k" by (rule mult_left_mono) simp_all
  with le have "of_int (half_even (m * 2 ^ k)) \<le> (2 ^ p :: rat) * 2 ^ k" by linarith
  then have "of_int (half_even (m * 2 ^ k)) / 2 ^ k \<le> (2 ^ p :: rat)" by (simp add: field_simps)
  then have "of_int (half_even (m * 2 ^ k)) / 2 ^ k < bound" using assms(5) by linarith
  then show ?thesis unfolding nearest_def found option.case Let_def e
    by (simp only: div_by_1 divide_divide_eq_right times_divide_eq_right mult_1_right if_True)
qed

lemma round_f64_at:
  assumes "m * 2 ^ k < 2 ^ 53" "2 ^ 53 \<le> m * 2 ^ (k + 1)" "k \<le> 1074"
  shows "round_f64 m = Some (of_int (half_even (m * 2 ^ k)) / 2 ^ k)"
  unfolding round_f64_def using assms by (intro nearest_at) simp_all

lemma round_f64_zero: "round_f64 0 = Some 0"
proof -
  have "List.find (\<lambda>e. 0 / (2 :: rat) powi e < 2 ^ 53) [-1074..971] = Some (-1074)"
    by (rule find_upto_eqI) auto
  then show ?thesis using half_even_int [of 0] by (simp add: round_f64_def nearest_def)
qed

lemma round_f64_small:
  "round_f64 1 = Some 1" "round_f64 512 = Some 512" "round_f64 1000 = Some 1000" "round_f64 16000 = Some 16000"
  using round_f64_at [of 1 52] round_f64_at [of 512 43] round_f64_at [of 1000 43] round_f64_at [of 16000 39]
    half_even_int [of "2 ^ 52"] half_even_int [of "512 * 2 ^ 43"] half_even_int [of "1000 * 2 ^ 43"]
    half_even_int [of "16000 * 2 ^ 39"]
  by simp_all

lemma half_even_minus: "half_even (- q) = - half_even q"
proof (cases "q = of_int \<lfloor>q\<rfloor>")
  case True
  then have "half_even q = \<lfloor>q\<rfloor>" "half_even (- q) = - \<lfloor>q\<rfloor>"
    using half_even_int [of "\<lfloor>q\<rfloor>"] half_even_int [of "- \<lfloor>q\<rfloor>"] by simp_all
  then show ?thesis by simp
next
  case False
  then have "\<lfloor>- q\<rfloor> = - \<lfloor>q\<rfloor> - 1" by linarith
  then show ?thesis by (auto simp: half_even_def Let_def)
qed

lemma half_even_near: "\<bar>of_int (half_even q) - q\<bar> \<le> 1 / 2"
proof -
  have "of_int \<lfloor>q\<rfloor> \<le> q" "q < of_int \<lfloor>q\<rfloor> + 1" by linarith+
  moreover have "half_even q = \<lfloor>q\<rfloor> \<and> q - of_int \<lfloor>q\<rfloor> \<le> 1 / 2 \<or> half_even q = \<lfloor>q\<rfloor> + 1 \<and> 1 / 2 \<le> q - of_int \<lfloor>q\<rfloor>"
    by (auto simp: half_even_def Let_def)
  ultimately show ?thesis unfolding abs_le_iff
    by (elim disjE conjE; simp only: of_int_add of_int_1; linarith)
qed

end
