(* ===== verification/Vad_Audio.thy ===== *)
theory Vad_Audio
  imports Float_Arith Config_Types File_Tasks Encoding
begin

text \<open>
  Audio for the voice detection (\<open>src/services/vad\<close>): loading the samples of a file, taking its first channel,
  resampling, and the segments of speech.  What the crate symphonia finds in a file, what its decoders make of a
  packet, the resampler of rubato and the labels of the voice detector are the fields of \<open>audio_crates\<close>.
\<close>

section \<open>Loading\<close>

record audio_track =
  track_id :: nat
  track_rate :: "nat option"
  track_channels :: "nat option"
  track_base :: "(nat \<times> nat) option"

record packet =
  packet_track :: nat
  packet_ts :: nat
  packet_samples :: "str + int list"

record media =
  media_tracks :: "audio_track list"
  media_packets :: "packet list"

text \<open>
  Probing a file by its extension; making the decoder of a track; resampling from one rate to another; a voice
  detector for a rate and a chunk size, which labels the chunks of the samples for a threshold and a padding.
\<close>

record audio_crates =
  probe_media :: "str option \<Rightarrow> str \<Rightarrow> str + media"
  make_decoder :: "audio_track \<Rightarrow> str + unit"
  rubato :: "nat \<Rightarrow> nat \<Rightarrow> f32 list \<Rightarrow> str + f32 list"
  build_vad :: "nat \<Rightarrow> nat \<Rightarrow> str + (int list \<Rightarrow> f32 \<Rightarrow> nat \<Rightarrow> bool list)"

record AudioInfo =
  ai_rate :: nat
  ai_channels :: nat
  ai_duration :: f64
  ai_total :: nat

record ProcessedAudioData =
  pa_samples :: "int list"
  pa_info :: AudioInfo

text \<open>The packets of the track in their order: their samples, and the time stamp of the last one.\<close>

fun decode_packets :: "nat \<Rightarrow> packet list \<Rightarrow> int list \<Rightarrow> nat \<Rightarrow> str + int list \<times> nat" where
  "decode_packets tid [] samples last_pts = Inr (samples, last_pts)"
| "decode_packets tid (p # ps) samples last_pts =
     (if packet_track p \<noteq> tid then decode_packets tid ps samples last_pts
      else (case packet_samples p of
              Inl e \<Rightarrow> Inl e
            | Inr more_samples \<Rightarrow> decode_packets tid ps (samples @ more_samples) (packet_ts p)))"

definition seconds_of_samples :: "nat \<Rightarrow> nat \<Rightarrow> nat option \<Rightarrow> f64" where
  "seconds_of_samples n_samples rate channels =
     float_div round_f64 (f64_of_nat n_samples)
       (float_mul round_f64 (f64_of_nat rate) (f64_of_nat (case channels of Some c \<Rightarrow> c | None \<Rightarrow> 1)))"

definition audio_duration :: "audio_track \<Rightarrow> nat \<Rightarrow> nat \<Rightarrow> nat \<Rightarrow> nat option \<Rightarrow> f64" where
  "audio_duration t rate n_samples last_pts channels =
     (case track_base t of
        Some (num, den) \<Rightarrow>
          if 0 < last_pts
          then float_div round_f64 (float_mul round_f64 (f64_of_nat last_pts) (f64_of_nat num)) (f64_of_nat den)
          else seconds_of_samples n_samples rate channels
      | None \<Rightarrow> seconds_of_samples n_samples rate channels)"

definition channel_count :: "nat option \<Rightarrow> nat \<Rightarrow> nat \<Rightarrow> f64 \<Rightarrow> nat" where
  "channel_count channels rate n_samples seconds =
     (case channels of
        Some c \<Rightarrow> c
      | None \<Rightarrow>
          if f32_less (Finite False 0) seconds
          then as_u16 (float_round (float_div round_f64 (f64_of_nat n_samples) (float_mul round_f64 (f64_of_nat rate) seconds)))
          else 1)"

definition read_track :: "audio_crates \<Rightarrow> media \<Rightarrow> (int list \<times> AudioInfo) res" where
  "read_track crates m =
     (case List.find (\<lambda>t. track_rate t \<noteq> None) (media_tracks m) of
        None \<Rightarrow> Inl (AudioProcessing ''No audio track found'')
      | Some t \<Rightarrow>
          (case make_decoder crates t of
             Inl e \<Rightarrow> Inl (AudioProcessing (''Failed to create decoder: '' @ e))
           | Inr _ \<Rightarrow>
               (case decode_packets (track_id t) (media_packets m) [] 0 of
                  Inl e \<Rightarrow> Inl (AudioProcessing (''Decode error: '' @ e))
                | Inr (samples, last_pts) \<Rightarrow>
                    (let rate = the (track_rate t); n_samples = length samples;
                         channels = map_option (\<lambda>c. c mod 65536) (track_channels t);
                         seconds = audio_duration t rate n_samples last_pts channels
                     in Inr (samples, \<lparr>ai_rate = rate, ai_channels = channel_count channels rate n_samples seconds,
                          ai_duration = seconds, ai_total = n_samples\<rparr>)))))"

definition load_audio_samples :: "audio_crates \<Rightarrow> os \<Rightarrow> path \<Rightarrow> nat \<Rightarrow> (SubXError, int list \<times> AudioInfo) io" where
  "load_audio_samples crates os p byte_limit =
     bind_io (map_err_io (\<lambda>e. AudioProcessing (io_text e)) (check_file_size os p byte_limit ''Audio'')) (\<lambda>_.
     bind_io (map_err_io (\<lambda>e. AudioProcessing (''Failed to open audio file: '' @ io_text e)) (open_file os p)) (\<lambda>_ fs.
       let ext = Option.bind (extension p) (\<lambda>e. if valid_utf8 e then Some e else None) in
       case probe_media crates ext (case fs p of Some c \<Rightarrow> c | None \<Rightarrow> []) of
         Inl e \<Rightarrow> (Inl (AudioProcessing (''Failed to probe format: '' @ e)), fs)
       | Inr m \<Rightarrow> (read_track crates m, fs)))"

section \<open>Preparing\<close>

fun step_by :: "nat \<Rightarrow> 'a list \<Rightarrow> 'a list" where
  "step_by n [] = []"
| "step_by n (x # xs) = x # step_by n (drop (n - 1) xs)"

text \<open>\<open>Iterator::step_by\<close> panics for a step of zero.\<close>

definition extract_first_channel :: "int list \<Rightarrow> nat \<Rightarrow> int list run" where
  "extract_first_channel samples channels =
     (if channels = 0 then Panics ''assertion failed: step != 0'' else Returns (step_by channels samples))"

definition DEFAULT_MAX_AUDIO_BYTES :: nat where
  "DEFAULT_MAX_AUDIO_BYTES = 2147483648"

definition empty_audio :: ProcessedAudioData where
  "empty_audio = \<lparr>pa_samples = [],
     pa_info = \<lparr>ai_rate = 16000, ai_channels = 1, ai_duration = Finite False 0, ai_total = 0\<rparr>\<rparr>"

text \<open>A file of no bytes is no error, whatever the loader says of it.\<close>

definition load_or_empty :: "audio_crates \<Rightarrow> os \<Rightarrow> path \<Rightarrow> (SubXError, (int list \<times> AudioInfo) option) io" where
  "load_or_empty crates os p fs =
     (case load_audio_samples crates os p DEFAULT_MAX_AUDIO_BYTES fs of
        (Inr loaded, fs') \<Rightarrow> (Inr (Some loaded), fs')
      | (Inl e, fs') \<Rightarrow>
          (if fault os (CallMetadata p) fs' = None \<and> fs' p = Some [] then (Inr None, fs') else (Inl e, fs')))"

definition load_and_prepare_audio_direct :: "audio_crates \<Rightarrow> os \<Rightarrow> path \<Rightarrow> files \<Rightarrow> ProcessedAudioData res run" where
  "load_and_prepare_audio_direct crates os p fs =
     (case fst (load_or_empty crates os p fs) of
        Inl e \<Rightarrow> Returns (Inl e)
      | Inr None \<Rightarrow> Returns (Inr empty_audio)
      | Inr (Some (samples, info)) \<Rightarrow>
          (case (if ai_channels info = 1 then Returns samples else extract_first_channel samples (ai_channels info)) of
             Panics e \<Rightarrow> Panics e
           | Returns mono_samples \<Rightarrow>
               Returns (Inr \<lparr>pa_samples = mono_samples, pa_info = info\<lparr>ai_channels := 1, ai_total := length mono_samples\<rparr>\<rparr>)))"

section \<open>Resampling\<close>

definition sample_to_f32 :: "int \<Rightarrow> f32" where
  "sample_to_f32 s = float_div round_f32 (f32_of_rat (of_int s)) (f32_of_rat 32768)"

definition sample_of_f32 :: "f32 \<Rightarrow> int" where
  "sample_of_f32 x =
     as_i16 (float_mul round_f32 (float_clamp (f32_of_rat (-1)) (f32_of_rat 1) x) (f32_of_rat 32767))"

definition resample_to_target_rate :: "audio_crates \<Rightarrow> int list \<Rightarrow> nat \<Rightarrow> nat \<Rightarrow> str + int list" where
  "resample_to_target_rate crates input_samples input_rate output_rate =
     (if input_rate = output_rate then Inr input_samples
      else if input_samples = [] then Inr []
      else
        (case rubato crates input_rate output_rate (map sample_to_f32 input_samples) of
           Inl e \<Rightarrow> Inl e
         | Inr produced \<Rightarrow>
             (let resample_ratio = float_div round_f64 (f64_of_nat output_rate) (f64_of_nat input_rate);
                  expected_len = as_usize (float_round (float_mul round_f64 (f64_of_nat (length input_samples)) resample_ratio))
              in Inr (take expected_len (map sample_of_f32 produced)))))"

section \<open>Segments of speech\<close>

record SpeechSegment =
  seg_start :: f64
  seg_end :: f64
  seg_duration :: f64

record VadResult =
  speech_segments :: "SpeechSegment list"
  vad_elapsed :: nat
  audio_info :: AudioInfo

definition calculate_chunk_size :: "nat \<Rightarrow> nat run" where
  "calculate_chunk_size rate =
     (if rate = 8000 then Returns 256
      else if rate = 16000 then Returns 512
      else Panics (''Unsupported VAD sample_rate='' @ show_nat rate @ ''. Only 8kHz/256, 16kHz/512 are allowed.''))"

definition chunk_time :: "nat \<Rightarrow> nat \<Rightarrow> nat \<Rightarrow> f64" where
  "chunk_time chunk_size rate chunk_index =
     float_mul round_f64 (f64_of_nat chunk_index) (float_div round_f64 (f64_of_nat chunk_size) (f64_of_nat rate))"

definition min_speech_seconds :: "VadConfig \<Rightarrow> f64" where
  "min_speech_seconds cfg = float_div round_f64 (f64_of_nat (min_speech_duration_ms cfg)) (f64_of_nat 1000)"

text \<open>Speech from one time to another, kept if it is long enough.\<close>

definition push_segment :: "f64 \<Rightarrow> f64 \<Rightarrow> f64 \<Rightarrow> SpeechSegment list \<Rightarrow> SpeechSegment list" where
  "push_segment shortest start stop segments =
     (let duration = float_sub round_f64 stop start in
      if f32_le shortest duration
      then segments @ [\<lparr>seg_start = start, seg_end = stop, seg_duration = duration\<rparr>] else segments)"

fun label_loop :: "(nat \<Rightarrow> f64) \<Rightarrow> f64 \<Rightarrow> bool list \<Rightarrow> nat \<Rightarrow> f64 option \<Rightarrow> SpeechSegment list \<Rightarrow> SpeechSegment list" where
  "label_loop time shortest [] i current segments =
     (case current of None \<Rightarrow> segments | Some start \<Rightarrow> push_segment shortest start (time i) segments)"
| "label_loop time shortest (speech # labels) i current segments =
     (if speech
      then label_loop time shortest labels (Suc i) (case current of None \<Rightarrow> Some (time i) | Some s \<Rightarrow> Some s) segments
      else (case current of
              None \<Rightarrow> label_loop time shortest labels (Suc i) None segments
            | Some start \<Rightarrow> label_loop time shortest labels (Suc i) None (push_segment shortest start (time i) segments)))"

definition detect_speech_segments ::
    "VadConfig \<Rightarrow> (int list \<Rightarrow> f32 \<Rightarrow> nat \<Rightarrow> bool list) \<Rightarrow> nat \<Rightarrow> int list \<Rightarrow> nat \<Rightarrow> SpeechSegment list" where
  "detect_speech_segments cfg label chunk_size samples rate =
     (let vad_threshold = float_sub round_f32 (f32_of_rat 1) (sensitivity cfg) in
      label_loop (chunk_time chunk_size rate) (min_speech_seconds cfg)
        (label samples vad_threshold (padding_chunks cfg)) 0 None [])"

definition at_vad_rate :: "audio_crates \<Rightarrow> ProcessedAudioData \<Rightarrow> ProcessedAudioData res" where
  "at_vad_rate crates audio =
     (if ai_rate (pa_info audio) \<noteq> 8000 \<and> ai_rate (pa_info audio) \<noteq> 16000
      then bind_res (map_err AudioProcessing (resample_to_target_rate crates (pa_samples audio) (ai_rate (pa_info audio)) 16000))
        (\<lambda>resampled. Inr \<lparr>pa_samples = resampled,
           pa_info = (pa_info audio)\<lparr>ai_rate := 16000,
             ai_duration := float_div round_f64 (f64_of_nat (length resampled)) (f64_of_nat 16000),
             ai_total := length resampled\<rparr>\<rparr>)
      else Inr audio)"

definition detect_speech_from_data ::
    "audio_crates \<Rightarrow> VadConfig \<Rightarrow> nat \<Rightarrow> ProcessedAudioData \<Rightarrow> VadResult res run" where
  "detect_speech_from_data crates cfg elapsed audio =
     (if pa_samples audio = [] then Returns (Inl (AudioProcessing ''Audio data is empty''))
      else (case at_vad_rate crates audio of
              Inl e \<Rightarrow> Returns (Inl e)
            | Inr audio' \<Rightarrow>
                (let rate = ai_rate (pa_info audio') in
                 case calculate_chunk_size rate of
                   Panics e \<Rightarrow> Panics e
                 | Returns chunk_size \<Rightarrow>
                     (case build_vad crates rate chunk_size of
                        Inl e \<Rightarrow> Returns (Inl (AudioProcessing (''Failed to create VAD: '' @ e)))
                      | Inr label \<Rightarrow>
                          Returns (Inr \<lparr>speech_segments = detect_speech_segments cfg label chunk_size (pa_samples audio') rate,
                            vad_elapsed = elapsed, audio_info = pa_info audio'\<rparr>)))))"

end
