(* ===== verification/Sync_Engine.thy ===== *)
theory Sync_Engine
  imports Vad_Audio Subtitle_Types
begin

text \<open>
  Synchronization: the shift of all times by an offset (\<open>shift_subtitle_timing\<close> of \<open>src/core/sync/mod.rs\<close>), the
  offset between the first speech and the first subtitle (\<open>src/services/vad/sync_detector.rs\<close>) and the engine that
  bounds both (\<open>src/core/sync/engine.rs\<close>).
\<close>

section \<open>Results\<close>

datatype SyncMethod = Auto | LocalVad | Manual

text \<open>The JSON objects of \<open>additional_info\<close>, with the values under their keys in order.\<close>

datatype sync_info =
  Applied_Offset f32 nat
| Clamped_Offset f32 f32
| Detected_Speech nat f64 f64 nat f64 "SpeechSegment list"

record SyncResult =
  sr_offset :: f32
  sr_confidence :: f32
  sr_method :: SyncMethod
  sr_peak :: f32
  sr_info :: "sync_info option"
  sr_elapsed :: duration
  sr_warnings :: "str list"

section \<open>Shifting\<close>

text \<open>\<open>Duration::from_secs_f32\<close> rounds to the nearest nanosecond and panics outside the range of a duration.\<close>

definition from_secs_f32 :: "f32 \<Rightarrow> duration run" where
  "from_secs_f32 x =
     (let negative = ''cannot convert float seconds to Duration: value is negative'';
          too_big = ''cannot convert float seconds to Duration: value is either too big or NaN'' in
      case x of
        NaN \<Rightarrow> Panics too_big
      | Infinite neg \<Rightarrow> Panics (if neg then negative else too_big)
      | Finite neg m \<Rightarrow>
          (if neg \<and> m \<noteq> 0 then Panics negative
           else if m < 2 ^ 64 then Returns (nat (half_even (m * 10 ^ 9))) else Panics too_big))"

definition max_duration :: duration where
  "max_duration = (2 ^ 64 - 1) * 10 ^ 9 + 999999999"

definition checked_add :: "duration \<Rightarrow> duration \<Rightarrow> duration option" where
  "checked_add a b = (if a + b \<le> max_duration then Some (a + b) else None)"

definition advanced :: "duration \<Rightarrow> duration \<Rightarrow> duration" where
  "advanced d t = (if d < t then t - d else 0)"

text \<open>The entries stay as far as they were shifted when one of them cannot be.\<close>

fun delay_entries :: "duration \<Rightarrow> SubtitleEntry list \<Rightarrow> unit res \<times> SubtitleEntry list" where
  "delay_entries d [] = (Inr (), [])"
| "delay_entries d (e # es) =
     (let failure = Inl (AudioProcessing ''Invalid offset results in negative time'') in
      case checked_add (start_time e) d of
        None \<Rightarrow> (failure, e # es)
      | Some s \<Rightarrow>
          (case checked_add (end_time e) d of
             None \<Rightarrow> (failure, e\<lparr>start_time := s\<rparr> # es)
           | Some t \<Rightarrow> (let (r, es') = delay_entries d es in (r, e\<lparr>start_time := s, end_time := t\<rparr> # es'))))"

definition advance_entry :: "duration \<Rightarrow> SubtitleEntry \<Rightarrow> SubtitleEntry" where
  "advance_entry d e = e\<lparr>start_time := advanced d (start_time e), end_time := advanced d (end_time e)\<rparr>"

definition shift_entries :: "f32 \<Rightarrow> SubtitleEntry list \<Rightarrow> (unit res \<times> SubtitleEntry list) run" where
  "shift_entries offset es =
     (if es = [] then Returns (Inr (), [])
      else (case from_secs_f32 (float_abs offset) of
              Panics e \<Rightarrow> Panics e
            | Returns d \<Rightarrow>
                Returns (if f32_le (Finite False 0) offset then delay_entries d es
                         else (Inr (), map (advance_entry d) es))))"

definition shift_subtitle_timing :: "duration \<Rightarrow> Subtitle \<Rightarrow> f32 \<Rightarrow> (SyncResult res \<times> Subtitle) run" where
  "shift_subtitle_timing elapsed s offset =
     (case shift_entries offset (entries s) of
        Panics e \<Rightarrow> Panics e
      | Returns (r, es) \<Rightarrow>
          Returns (bind_res r (\<lambda>_. Inr \<lparr>sr_offset = offset, sr_confidence = f32_of_rat 1, sr_method = Manual,
              sr_peak = f32_of_rat 1, sr_info = Some (Applied_Offset offset (length es)), sr_elapsed = elapsed,
              sr_warnings = []\<rparr>), s\<lparr>entries := es\<rparr>))"

section \<open>Detecting\<close>

definition as_secs_f64 :: "duration \<Rightarrow> f64" where
  "as_secs_f64 d = float_add round_f64 (f64_of_nat (d div 10 ^ 9))
     (float_div round_f64 (f64_of_nat (d mod 10 ^ 9)) (f64_of_nat (10 ^ 9)))"

definition f64_lit :: "rat \<Rightarrow> f64" where
  "f64_lit q = rounded round_f64 False q"

definition find_first_significant_speech :: "VadResult \<Rightarrow> f64 res" where
  "find_first_significant_speech v =
     (case List.find (\<lambda>s. f32_le (f64_lit (1 / 10)) (seg_duration s)) (speech_segments v) of
        Some s \<Rightarrow> Inr (seg_start s)
      | None \<Rightarrow>
          (case speech_segments v of
             s # _ \<Rightarrow> Inr (seg_start s)
           | [] \<Rightarrow> Inl (AudioProcessing ''No significant speech segments found in audio'')))"

definition calculate_confidence :: "VadResult \<Rightarrow> f32" where
  "calculate_confidence v =
     (case speech_segments v of
        [] \<Rightarrow> f32_of_rat 0
      | first # _ \<Rightarrow>
          (let plus = (\<lambda>b q c. if b then float_add round_f32 c (f32_of_rat q) else c);
               c0 = f32_of_rat (3 / 5);
               c1 = plus (1 \<le> length (speech_segments v)) (1 / 10) c0;
               c2 = plus (3 \<le> length (speech_segments v)) (1 / 10) c1;
               c3 = plus (f32_le (f64_lit (1 / 2)) (seg_duration first)) (1 / 10) c2;
               c4 = plus (f32_le (f64_lit 1) (seg_duration first)) (1 / 20) c3;
               c5 = plus (vad_elapsed v div 10 ^ 9 \<le> 1) (1 / 20) c4
           in float_min c5 (f32_of_rat (19 / 20))))"

definition analyze_vad_result :: "VadResult \<Rightarrow> SubtitleEntry \<Rightarrow> SyncResult res" where
  "analyze_vad_result v first_entry =
     bind_res (find_first_significant_speech v) (\<lambda>first_speech_time.
       let expected_start = as_secs_f64 (start_time first_entry) in
       Inr \<lparr>sr_offset = f32_of_f64 (float_sub round_f64 first_speech_time expected_start),
         sr_confidence = calculate_confidence v, sr_method = LocalVad, sr_peak = f32_of_rat 0,
         sr_info = Some (Detected_Speech (length (speech_segments v)) first_speech_time expected_start
           (vad_elapsed v div 1000000) (ai_duration (audio_info v)) (speech_segments v)),
         sr_elapsed = vad_elapsed v, sr_warnings = []\<rparr>)"

definition get_first_subtitle_entry :: "Subtitle \<Rightarrow> SubtitleEntry res" where
  "get_first_subtitle_entry s =
     (case entries s of e # _ \<Rightarrow> Inr e | [] \<Rightarrow> Inl (AudioProcessing ''No subtitle entries found''))"

definition crop_audio :: "nat \<Rightarrow> ProcessedAudioData \<Rightarrow> ProcessedAudioData" where
  "crop_audio window audio =
     (if window = 0 then audio
      else (let kept = take (ai_rate (pa_info audio) * window) (pa_samples audio) in
            \<lparr>pa_samples = kept, pa_info = (pa_info audio)\<lparr>
               ai_duration := float_div round_f64 (f64_of_nat (length kept)) (f64_of_nat (ai_rate (pa_info audio))),
               ai_total := length kept\<rparr>\<rparr>))"

text \<open>What is heard: the crates, the operating system, the disk and the time the detector takes.\<close>

record listening =
  ls_crates :: audio_crates
  ls_os :: os
  ls_files :: files
  ls_elapsed :: duration

definition vad_sync_offset :: "listening \<Rightarrow> VadConfig \<Rightarrow> path \<Rightarrow> Subtitle \<Rightarrow> nat \<Rightarrow> SyncResult res run" where
  "vad_sync_offset env cfg audio_path s window =
     (case get_first_subtitle_entry s of
        Inl e \<Rightarrow> Returns (Inl e)
      | Inr first_entry \<Rightarrow>
          (case load_and_prepare_audio_direct (ls_crates env) (ls_os env) audio_path (ls_files env) of
             Panics e \<Rightarrow> Panics e
           | Returns (Inl e) \<Rightarrow> Returns (Inl e)
           | Returns (Inr audio) \<Rightarrow>
               (case detect_speech_from_data (ls_crates env) cfg (ls_elapsed env) (crop_audio window audio) of
                  Panics e \<Rightarrow> Panics e
                | Returns (Inl e) \<Rightarrow> Returns (Inl e)
                | Returns (Inr v) \<Rightarrow> Returns (analyze_vad_result v first_entry))))"

section \<open>The engine\<close>

record SyncEngine =
  engine_config :: SyncConfig
  engine_detector :: "VadConfig option"

definition sync_engine_new :: "SyncConfig \<Rightarrow> SyncEngine res" where
  "sync_engine_new cfg =
     (let detector = (if enabled (vad cfg) then Some (vad cfg) else None) in
      if detector = None then Inl (Config ''VAD detector is required but not available'')
      else Inr \<lparr>engine_config = cfg, engine_detector = detector\<rparr>)"

definition clamp_offset :: "SyncConfig \<Rightarrow> SyncResult \<Rightarrow> SyncResult" where
  "clamp_offset cfg r =
     (if f32_less (max_offset_seconds cfg) (float_abs (sr_offset r))
      then (let sgn1 = (if f32_le (Finite False 0) (sr_offset r) then f32_of_rat 1 else f32_of_rat (-1));
                clamped = float_mul round_f32 sgn1 (max_offset_seconds cfg) in
            r\<lparr>sr_warnings := sr_warnings r @ [''Detected offset '' @ show_fixed 2 (sr_offset r)
                @ ''s exceeds configured maximum value '' @ show_fixed 2 (max_offset_seconds cfg)
                @ ''s. Consider checking audio quality or adjusting sync.max_offset_seconds configuration.''],
              sr_offset := clamped, sr_info := Some (Clamped_Offset (sr_offset r) clamped)\<rparr>)
      else r)"

definition vad_detect_sync_offset :: "listening \<Rightarrow> SyncEngine \<Rightarrow> path \<Rightarrow> Subtitle \<Rightarrow> SyncResult res run" where
  "vad_detect_sync_offset env eng audio_path s =
     (case engine_detector eng of
        None \<Rightarrow> Returns (Inl (AudioProcessing ''VAD detector not available''))
      | Some det \<Rightarrow>
          (case vad_sync_offset env det audio_path s 0 of
             Panics e \<Rightarrow> Panics e
           | Returns (Inl e) \<Rightarrow> Returns (Inl e)
           | Returns (Inr r) \<Rightarrow> Returns (Inr (clamp_offset (engine_config eng) r))))"

definition auto_detect_sync_offset :: "listening \<Rightarrow> SyncEngine \<Rightarrow> path \<Rightarrow> Subtitle \<Rightarrow> SyncResult res run" where
  "auto_detect_sync_offset env eng audio_path s =
     (if engine_detector eng \<noteq> None then vad_detect_sync_offset env eng audio_path s
      else Returns (Inl (AudioProcessing ''No detector available in auto mode'')))"

definition determine_default_method :: "SyncEngine \<Rightarrow> SyncMethod" where
  "determine_default_method eng = (if default_method (engine_config eng) = ''vad'' then LocalVad else Auto)"

definition detect_sync_offset ::
    "listening \<Rightarrow> SyncEngine \<Rightarrow> path \<Rightarrow> Subtitle \<Rightarrow> SyncMethod option \<Rightarrow> duration \<Rightarrow> SyncResult res run" where
  "detect_sync_offset env eng audio_path s method elapsed =
     (case (case method of Some m \<Rightarrow> m | None \<Rightarrow> determine_default_method eng) of
        Manual \<Rightarrow> Returns (Inl (Config ''Manual method requires explicit offset''))
      | _ \<Rightarrow>
          (case vad_detect_sync_offset env eng audio_path s of
             Panics e \<Rightarrow> Panics e
           | Returns (Inl e) \<Rightarrow> Returns (Inl e)
           | Returns (Inr r) \<Rightarrow> Returns (Inr (r\<lparr>sr_elapsed := elapsed\<rparr>))))"

definition apply_manual_offset :: "SyncEngine \<Rightarrow> duration \<Rightarrow> Subtitle \<Rightarrow> f32 \<Rightarrow> (SyncResult res \<times> Subtitle) run" where
  "apply_manual_offset eng elapsed s offset =
     (let limit = max_offset_seconds (engine_config eng) in
      if f32_less limit (float_abs offset)
      then Returns (Inl (Config (''Offset '' @ show_fixed 2 offset @ ''s exceeds maximum allowed value '' @ show_fixed 2 limit
        @ ''s. Please check the sync.max_offset_seconds configuration or use a smaller offset.'')), s)
      else shift_subtitle_timing elapsed s offset)"

end
