(* ===== verification/Sync_Properties.thy ===== *)
theory Sync_Properties
  imports Sync_Engine
begin

text \<open>
  What synchronization guarantees: which segments of speech are found, how far a shift goes and that it can be
  undone, the bound on a detected offset, and which inputs make it panic.
\<close>

section \<open>Segments of speech\<close>

text \<open>The chunks from \<open>a\<close> up to \<open>b\<close> are speech, and no longer stretch around them is.\<close>

definition speech_run :: "bool list \<Rightarrow> nat \<Rightarrow> nat \<Rightarrow> bool" where
  "speech_run labels a b \<longleftrightarrow> a < b \<and> b \<le> length labels \<and> (\<forall>k. a \<le> k \<longrightarrow> k < b \<longrightarrow> labels ! k)
     \<and> (a = 0 \<or> \<not> labels ! (a - 1)) \<and> (b = length labels \<or> \<not> labels ! b)"

fun runs_from :: "nat \<Rightarrow> nat option \<Rightarrow> bool list \<Rightarrow> (nat \<times> nat) list" where
  "runs_from i None [] = []"
| "runs_from i (Some s) [] = [(s, i)]"
| "runs_from i None (False # labels) = runs_from (Suc i) None labels"
| "runs_from i (Some s) (False # labels) = (s, i) # runs_from (Suc i) None labels"
| "runs_from i None (True # labels) = runs_from (Suc i) (Some i) labels"
| "runs_from i (Some s) (True # labels) = runs_from (Suc i) (Some s) labels"

definition segment_between :: "(nat \<Rightarrow> f64) \<Rightarrow> nat \<times> nat \<Rightarrow> SpeechSegment" where
  "segment_between time ab = \<lparr>seg_start = time (fst ab), seg_end = time (snd ab),
     seg_duration = float_sub round_f64 (time (snd ab)) (time (fst ab))\<rparr>"

definition long_enough :: "f64 \<Rightarrow> SpeechSegment \<Rightarrow> bool" where
  "long_enough shortest seg \<longleftrightarrow> f32_le shortest (seg_duration seg)"

lemma push_between:
  "push_segment shortest (time a) (time b) segs = segs @ filter (long_enough shortest) [segment_between time (a, b)]"
  by (simp add: push_segment_def segment_between_def long_enough_def Let_def)

lemma label_loop_runs:
  "label_loop time shortest labels i (map_option time cur) segs
    = segs @ filter (long_enough shortest) (map (segment_between time) (runs_from i cur labels))"
  by (induction i cur labels arbitrary: segs rule: runs_from.induct)
    (simp_all add: push_between)

text \<open>What the loop knows after the labels \<open>before\<close>: the start of the run it is in, if it is in one.\<close>

definition in_run :: "bool list \<Rightarrow> nat option \<Rightarrow> bool" where
  "in_run before cur \<longleftrightarrow>
     (case cur of
        None \<Rightarrow> before = [] \<or> \<not> last before
      | Some s \<Rightarrow> s < length before \<and> (\<forall>k. s \<le> k \<longrightarrow> k < length before \<longrightarrow> before ! k) \<and> (s = 0 \<or> \<not> before ! (s - 1)))"

lemma in_run_snoc:
  "in_run before None \<Longrightarrow> in_run (before @ [True]) (Some (length before))"
  "in_run before (Some s) \<Longrightarrow> in_run (before @ [True]) (Some s)"
  "in_run (before @ [False]) None"
proof -
  assume "in_run before None"
  then show "in_run (before @ [True]) (Some (length before))"
    by (cases "before = []") (auto simp: in_run_def nth_append last_conv_nth less_Suc_eq)
next
  assume "in_run before (Some s)"
  then show "in_run (before @ [True]) (Some s)"
    by (simp add: in_run_def nth_append less_Suc_eq) linarith
next
  show "in_run (before @ [False]) None" by (simp add: in_run_def)
qed

lemma run_ends_here:
  assumes "speech_run (before @ after) a (length before)" "in_run before cur"
  shows "cur = Some a"
proof (cases cur)
  case None
  have "before \<noteq> []" using assms(1) by (auto simp: speech_run_def)
  moreover from this have "before ! (length before - 1)"
    using assms(1) by (force simp: speech_run_def nth_append)
  ultimately show ?thesis using assms(2) None by (simp add: in_run_def last_conv_nth)
next
  case (Some s)
  note s = assms(2) [unfolded in_run_def Some option.case]
  have a: "a < length before" "\<And>k. a \<le> k \<Longrightarrow> k < length before \<Longrightarrow> before ! k" "a = 0 \<or> \<not> before ! (a - 1)"
    using assms(1) by (auto simp: speech_run_def nth_append split: if_splits)
  have "\<not> a < s"
  proof
    assume "a < s"
    then have "a \<le> s - 1" "s - 1 < length before" "s \<noteq> 0" using s by auto
    with a(2) [of "s - 1"] s show False by blast
  qed
  moreover have "\<not> s < a" using a(1,3) s by auto
  ultimately show ?thesis using Some by simp
qed

lemma run_open_ends:
  assumes "in_run before (Some s)" "after = [] \<or> \<not> hd after"
  shows "speech_run (before @ after) s (length before)"
  using assms by (cases after) (auto simp: in_run_def speech_run_def nth_append)

lemma runs_from_exact:
  "in_run before cur \<Longrightarrow>
   set (runs_from (length before) cur labels) = {(a, b). speech_run (before @ labels) a b \<and> length before \<le> b}"
proof (induction labels arbitrary: before cur)
  case Nil
  have at_end: "b = length before" if "speech_run before a b" "length before \<le> b" for a b
    using that by (simp add: speech_run_def)
  show ?case
  proof (cases cur)
    case None
    have "\<not> speech_run before a (length before)" for a
      using run_ends_here [of before "[]" a cur] Nil None by auto
    then have "\<not> (speech_run before a b \<and> length before \<le> b)" for a b using at_end by blast
    then show ?thesis by (simp add: None)
  next
    case (Some s)
    have "speech_run before s (length before)" using run_open_ends [of before s "[]"] Nil Some by simp
    moreover have "a = s" if "speech_run before a (length before)" for a
      using run_ends_here [of before "[]" a cur] that Nil Some by simp
    ultimately have "speech_run before a b \<and> length before \<le> b \<longleftrightarrow> a = s \<and> b = length before" for a b
      using at_end by blast
    then show ?thesis by (simp add: Some)
  qed
next
  case (Cons l labels)
  let ?run = "speech_run (before @ l # labels)" and ?n = "length before"
  have later: "?run a b \<and> ?n \<le> b \<longleftrightarrow> ?run a b \<and> Suc ?n \<le> b \<or> ?run a ?n \<and> b = ?n" for a b
    by (cases "b = ?n") auto
  have not_here: "\<not> speech_run (before @ True # labels) a (length before)" for a
    by (simp add: speech_run_def)
  show ?case
  proof (cases l)
    case True
    have "in_run (before @ [True]) (Some (case cur of None \<Rightarrow> length before | Some s \<Rightarrow> s))"
      using in_run_snoc(1,2) Cons.prems by (auto split: option.split)
    from Cons.IH [OF this] True not_here show ?thesis unfolding later by (cases cur) simp_all
  next
    case False
    note rest = Cons.IH [OF in_run_snoc(3) [of before]]
    show ?thesis
    proof (cases cur)
      case None
      then have "\<not> speech_run (before @ False # labels) a (length before)" for a
        using run_ends_here [of before "False # labels" a cur] Cons.prems by auto
      then show ?thesis using rest None False unfolding later by simp
    next
      case (Some s)
      have "speech_run (before @ False # labels) s (length before)"
        using run_open_ends [of before s "False # labels"] Cons.prems Some by simp
      moreover have "a = s" if "speech_run (before @ False # labels) a (length before)" for a
        using run_ends_here [OF that Cons.prems] Some by simp
      ultimately have "speech_run (before @ False # labels) a ?n \<longleftrightarrow> a = s" for a by blast
      then show ?thesis using rest Some False unfolding later by auto
    qed
  qed
qed

lemma runs_from_ordered:
  "(case cur of None \<Rightarrow> True | Some s \<Rightarrow> s \<le> i) \<Longrightarrow> sorted_wrt (\<lambda>x y. snd x < fst y) (runs_from i cur labels)
    \<and> (\<forall>x \<in> set (runs_from i cur labels). (case cur of None \<Rightarrow> i | Some s \<Rightarrow> s) \<le> fst x)"
proof (induction i cur labels rule: runs_from.induct)
  case (4 i s labels)
  then have "\<forall>x \<in> set (runs_from (Suc i) None labels). Suc i \<le> fst x"
    and "sorted_wrt (\<lambda>x y. snd x < fst y) (runs_from (Suc i) None labels)" by simp_all
  then show ?case using 4(2) by fastforce
next
  case (3 i labels) then show ?case by fastforce
next
  case (5 i labels) then show ?case by simp
qed simp_all

text \<open>
   C6.  The segments that are reported are exactly the longest stretches of chunks labelled as speech, in their
  order and apart from each other, that last at least the configured time, each from the time of its first chunk
  to the time of the chunk after its last.
\<close>

theorem speech_segments_exact:
  "\<exists>runs. sorted_wrt (\<lambda>x y. snd x < fst y) runs
     \<and> set runs = {(a, b). speech_run (label samples (float_sub round_f32 (f32_of_rat 1) (sensitivity cfg)) (padding_chunks cfg)) a b}
     \<and> detect_speech_segments cfg label chunk_size samples rate
       = filter (long_enough (min_speech_seconds cfg)) (map (segment_between (chunk_time chunk_size rate)) runs)"
proof -
  let ?labels = "label samples (float_sub round_f32 (f32_of_rat 1) (sensitivity cfg)) (padding_chunks cfg)"
  let ?runs = "runs_from 0 None ?labels"
  have "set ?runs = {(a, b). speech_run ?labels a b}"
    using runs_from_exact [of "[]" None ?labels] by (simp add: in_run_def)
  moreover have "detect_speech_segments cfg label chunk_size samples rate
      = filter (long_enough (min_speech_seconds cfg)) (map (segment_between (chunk_time chunk_size rate)) ?runs)"
    using label_loop_runs [of "chunk_time chunk_size rate" "min_speech_seconds cfg" ?labels 0 None "[]"]
    by (simp add: detect_speech_segments_def)
  ultimately show ?thesis using runs_from_ordered [where i = 0 and cur = None and labels = ?labels] by auto
qed

section \<open>Shifting\<close>

definition delay_entry :: "duration \<Rightarrow> SubtitleEntry \<Rightarrow> SubtitleEntry" where
  "delay_entry d e = e\<lparr>start_time := start_time e + d, end_time := end_time e + d\<rparr>"

definition fits_after :: "duration \<Rightarrow> SubtitleEntry \<Rightarrow> bool" where
  "fits_after d e \<longleftrightarrow> start_time e + d \<le> max_duration \<and> end_time e + d \<le> max_duration"

lemma delay_entries_fit: "list_all (fits_after d) es \<Longrightarrow> delay_entries d es = (Inr (), map (delay_entry d) es)"
  by (induction es) (simp_all add: fits_after_def checked_add_def delay_entry_def)

lemma delay_entries_unfit:
  "\<not> list_all (fits_after d) es \<Longrightarrow>
    \<exists>es'. delay_entries d es = (Inl (AudioProcessing ''Invalid offset results in negative time''), es')"
  by (induction es) (auto simp: fits_after_def checked_add_def split: option.split)

lemma advance_delay: "advance_entry d (delay_entry d e) = e"
  by (cases e) (simp add: advance_entry_def delay_entry_def advanced_def)

text \<open>One formula for both directions: the time plus the offset to the nearest nanosecond, not below zero.\<close>

definition moved :: "f32 \<Rightarrow> duration \<Rightarrow> duration" where
  "moved offset t = (case offset of Finite neg m \<Rightarrow> nat (int t + half_even (signed neg m * 10 ^ 9)) | _ \<Rightarrow> t)"

definition moved_entry :: "f32 \<Rightarrow> SubtitleEntry \<Rightarrow> SubtitleEntry" where
  "moved_entry offset e = e\<lparr>start_time := moved offset (start_time e), end_time := moved offset (end_time e)\<rparr>"

definition room_after :: "f32 \<Rightarrow> Subtitle \<Rightarrow> bool" where
  "room_after offset s \<longleftrightarrow>
     f32_less offset (Finite False 0) \<or>
     list_all (\<lambda>e. moved offset (start_time e) \<le> max_duration \<and> moved offset (end_time e) \<le> max_duration) (entries s)"

lemma moved_delays: "0 \<le> m \<Longrightarrow> moved (Finite False m) t = t + nat (half_even (m * 10 ^ 9))"
  using half_even_nonneg [of "m * 10 ^ 9"] by (simp add: moved_def signed_def nat_add_distrib)

lemma moved_advances: "0 \<le> m \<Longrightarrow> moved (Finite True m) t = advanced (nat (half_even (m * 10 ^ 9))) t"
  using half_even_nonneg [of "m * 10 ^ 9"] half_even_minus [of "m * 10 ^ 9"]
  by (auto simp: moved_def signed_def advanced_def)

lemma moved_entry_delays: "0 \<le> m \<Longrightarrow> moved_entry (Finite False m) = delay_entry (nat (half_even (m * 10 ^ 9)))"
  by (rule ext) (simp add: moved_entry_def delay_entry_def moved_delays)

lemma moved_entry_advances: "0 \<le> m \<Longrightarrow> moved_entry (Finite True m) = advance_entry (nat (half_even (m * 10 ^ 9)))"
  by (rule ext) (simp add: moved_entry_def advance_entry_def moved_advances)

lemma moved_nothing: "moved_entry (Finite neg 0) = (\<lambda>e. e)"
  using half_even_int [of 0] by (intro ext) (simp add: moved_entry_def moved_def signed_def)

lemma delay_nothing: "delay_entry 0 = (\<lambda>e. e)"
  by (intro ext) (simp add: delay_entry_def)

lemma shifted:
  assumes "0 \<le> m" "m < 2 ^ 64"
  shows "room_after (Finite neg m) s \<Longrightarrow>
      shift_entries (Finite neg m) (entries s) = Returns (Inr (), map (moved_entry (Finite neg m)) (entries s))"
    and "\<not> room_after (Finite neg m) s \<Longrightarrow>
      \<exists>es. shift_entries (Finite neg m) (entries s) = Returns (Inl (AudioProcessing ''Invalid offset results in negative time''), es)"
proof -
  let ?d = "nat (half_even (m * 10 ^ 9))"
  have secs: "from_secs_f32 (float_abs (Finite neg m)) = Returns ?d" using assms(2) by (simp add: from_secs_f32_def)
  have later: "f32_le (Finite False 0) (Finite neg m) \<longleftrightarrow> \<not> neg \<or> m = 0"
    using assms(1) by (auto simp: f32_le_def signed_def)
  have room: "room_after (Finite neg m) s \<longleftrightarrow> neg \<and> m \<noteq> 0 \<or> list_all (fits_after ?d) (entries s)"
  proof (cases neg)
    case True
    then show ?thesis
      using assms(1) half_even_int [of 0] by (cases "m = 0") (auto simp: room_after_def signed_def moved_def fits_after_def [abs_def])
  next
    case False
    then show ?thesis using assms(1) by (simp add: room_after_def signed_def moved_delays fits_after_def [abs_def])
  qed
  show "shift_entries (Finite neg m) (entries s) = Returns (Inr (), map (moved_entry (Finite neg m)) (entries s))"
    if "room_after (Finite neg m) s"
  proof (cases "neg \<and> m \<noteq> 0")
    case True
    then show ?thesis using secs later assms(1) by (simp add: shift_entries_def moved_entry_advances)
  next
    case False
    then have "moved_entry (Finite neg m) = delay_entry ?d"
      using assms(1) half_even_int [of 0] by (cases neg) (simp_all add: moved_entry_delays moved_nothing delay_nothing)
    moreover have "list_all (fits_after ?d) (entries s)" using room that False by blast
    ultimately show ?thesis using False secs later delay_entries_fit by (simp add: shift_entries_def)
  qed
  show "\<exists>es. shift_entries (Finite neg m) (entries s) = Returns (Inl (AudioProcessing ''Invalid offset results in negative time''), es)"
    if "\<not> room_after (Finite neg m) s"
  proof -
    have "\<not> list_all (fits_after ?d) (entries s)" and "\<not> neg \<or> m = 0" using that room by blast+
    then show ?thesis
      using secs later delay_entries_unfit [of ?d "entries s"] by (cases "entries s") (auto simp: shift_entries_def)
  qed
qed

text \<open>
   C8.  A manual offset of any size a duration can hold has one of three outcomes: an offset beyond the
  configured limit is refused and changes nothing; otherwise every start and end is moved by the offset to the
  nearest nanosecond, stopping at zero; and only when that takes a time past the largest duration is it an error.
\<close>

theorem manual_offset_outcome:
  assumes "0 \<le> m" "m < 2 ^ 64"
  shows "case apply_manual_offset eng elapsed s (Finite neg m) of
      Panics _ \<Rightarrow> False
    | Returns (Inr r, s') \<Rightarrow> \<not> f32_less (max_offset_seconds (engine_config eng)) (Finite False m)
        \<and> room_after (Finite neg m) s \<and> s' = s\<lparr>entries := map (moved_entry (Finite neg m)) (entries s)\<rparr>
        \<and> sr_offset r = Finite neg m \<and> sr_info r = Some (Applied_Offset (Finite neg m) (length (entries s)))
    | Returns (Inl (Config _), s') \<Rightarrow> f32_less (max_offset_seconds (engine_config eng)) (Finite False m) \<and> s' = s
    | Returns (Inl e, _) \<Rightarrow> \<not> f32_less (max_offset_seconds (engine_config eng)) (Finite False m)
        \<and> \<not> room_after (Finite neg m) s \<and> e = AudioProcessing ''Invalid offset results in negative time''"
proof (cases "f32_less (max_offset_seconds (engine_config eng)) (Finite False m)")
  case True
  then show ?thesis by (simp add: apply_manual_offset_def Let_def)
next
  case False
  then show ?thesis
    using shifted [OF assms, of neg s]
    by (cases "room_after (Finite neg m) s") (auto simp: apply_manual_offset_def shift_subtitle_timing_def bind_res_def)
qed

text \<open>
   C19.  A shift can be undone: when all times were delayed by an offset, shifting by the negated offset gives
  back the subtitle as it was.
\<close>

theorem shift_undone:
  assumes "shift_subtitle_timing elapsed s offset = Returns (Inr r, s')" "f32_le (Finite False 0) offset"
    and "offset = Finite neg m" "0 \<le> m"
  shows "\<exists>r'. shift_subtitle_timing elapsed' s' (float_neg offset) = Returns (Inr r', s) \<and> sr_offset r' = float_neg offset"
proof (cases "entries s = []")
  case True
  then show ?thesis using assms(1) by (auto simp: shift_subtitle_timing_def shift_entries_def bind_res_def)
next
  case False
  have zero: "\<not> neg \<or> m = 0" using assms(2-4) by (auto simp: f32_le_def signed_def)
  have m: "m < 2 ^ 64"
    using assms(1,3) False by (auto simp: shift_subtitle_timing_def shift_entries_def from_secs_f32_def split: if_splits)
  have room: "room_after offset s"
    using shifted(2) [OF assms(4) m, of neg s] assms(1,3)
    by (cases "room_after offset s") (auto simp: shift_subtitle_timing_def bind_res_def)
  have s': "s' = s\<lparr>entries := map (moved_entry offset) (entries s)\<rparr>"
    using shifted(1) [OF assms(4) m, of neg s] room assms(1,3) by (simp add: shift_subtitle_timing_def bind_res_def)
  have "room_after (float_neg offset) s' \<and> (\<lambda>e. moved_entry (float_neg offset) (moved_entry offset e)) = (\<lambda>e. e)"
  proof (cases "m = 0")
    case True
    have "moved (Finite neg' 0) t = t" for neg' t
      using half_even_int [of 0] by (simp add: moved_def signed_def)
    then show ?thesis
      using room True assms(3) s' by (cases neg) (simp_all add: room_after_def signed_def moved_nothing list_all_iff)
  next
    case False
    then show ?thesis
      using zero assms(3,4) by (simp add: room_after_def signed_def moved_entry_delays moved_entry_advances advance_delay)
  qed
  then show ?thesis
    using shifted(1) [OF assms(4) m, of "\<not> neg" s'] assms(3) s'
    by (simp add: shift_subtitle_timing_def bind_res_def comp_def)
qed

text \<open>An offset that is not a number passes the check of the limit and panics, and so does one no duration holds.\<close>

lemma nan_offset_panics:
  assumes "entries s \<noteq> []"
  shows "\<exists>e. apply_manual_offset eng elapsed s NaN = Panics e"
    and "2 ^ 64 \<le> m \<Longrightarrow> \<exists>e. shift_subtitle_timing elapsed s (Finite False m) = Panics e"
proof -
  show "\<exists>e. apply_manual_offset eng elapsed s NaN = Panics e"
    using assms by (cases "max_offset_seconds (engine_config eng)")
      (simp_all add: apply_manual_offset_def shift_subtitle_timing_def shift_entries_def from_secs_f32_def)
  show "\<exists>e. shift_subtitle_timing elapsed s (Finite False m) = Panics e" if "2 ^ 64 \<le> m"
    using assms that by (simp add: shift_subtitle_timing_def shift_entries_def from_secs_f32_def)
qed

section \<open>Detected offsets\<close>

lemma f32_less_irrefl: "\<not> f32_less x x"
  by (cases x) simp_all

lemma confidence_limit: "\<not> f32_less (f32_of_rat (19 / 20)) (float_min c (f32_of_rat (19 / 20)))"
  by (cases c; cases "f32_of_rat (19 / 20)") (auto simp: float_min_def)

lemma clamped_bound:
  assumes "max_offset_seconds cfg = Finite False m" "representable m"
  shows "\<not> f32_less (Finite False m) (float_abs (sr_offset (clamp_offset cfg r)))"
    and "sr_warnings r = [] \<Longrightarrow> sr_warnings (clamp_offset cfg r) \<noteq> [] \<Longrightarrow>
      sr_info (clamp_offset cfg r) = Some (Clamped_Offset (sr_offset r) (sr_offset (clamp_offset cfg r)))
      \<and> f32_less (Finite False m) (float_abs (sr_offset r))
      \<and> (\<exists>neg. sr_offset (clamp_offset cfg r) = Finite neg m \<and> (neg \<longleftrightarrow> f32_less (sr_offset r) (Finite False 0)))"
    and "sr_warnings (clamp_offset cfg r) = [] \<Longrightarrow> clamp_offset cfg r = r"
proof -
  have m: "0 \<le> m" using assms(2) by (simp add: representable_def)
  have one: "f32_of_rat (-1) = Finite True 1" "f32_of_rat 1 = Finite False 1"
    by (simp_all add: f32_of_rat_def small_rounded)
  have sign: "f32_le (Finite False 0) x \<longleftrightarrow> \<not> f32_less x (Finite False 0)" if "f32_less (Finite False m) (float_abs x)" for x
    using that by (cases x) (auto simp: f32_le_def signed_def)
  show "\<not> f32_less (Finite False m) (float_abs (sr_offset (clamp_offset cfg r)))"
    using assms by (simp add: clamp_offset_def Let_def one float_mul_one signed_def del: float_mul.simps)
  show "sr_warnings r = [] \<Longrightarrow> sr_warnings (clamp_offset cfg r) \<noteq> [] \<Longrightarrow>
      sr_info (clamp_offset cfg r) = Some (Clamped_Offset (sr_offset r) (sr_offset (clamp_offset cfg r)))
      \<and> f32_less (Finite False m) (float_abs (sr_offset r))
      \<and> (\<exists>neg. sr_offset (clamp_offset cfg r) = Finite neg m \<and> (neg \<longleftrightarrow> f32_less (sr_offset r) (Finite False 0)))"
    using assms sign [of "sr_offset r"]
    by (auto simp: clamp_offset_def Let_def one float_mul_one simp del: float_mul.simps split: if_splits)
  show "sr_warnings (clamp_offset cfg r) = [] \<Longrightarrow> clamp_offset cfg r = r"
    by (simp add: clamp_offset_def Let_def split: if_splits)
qed

lemma analysis_result:
  assumes "analyze_vad_result v e = Inr r"
  shows "sr_warnings r = [] \<and> sr_method r = LocalVad \<and> \<not> f32_less (f32_of_rat (19 / 20)) (sr_confidence r)"
proof -
  have "speech_segments v \<noteq> []"
    using assms by (auto simp: analyze_vad_result_def find_first_significant_speech_def bind_res_def)
  then obtain seg segs where "speech_segments v = seg # segs" by (cases "speech_segments v") simp_all
  then have "\<exists>c. calculate_confidence v = float_min c (f32_of_rat (19 / 20))"
    unfolding calculate_confidence_def Let_def by (simp only: list.case) (rule exI, rule refl)
  then show ?thesis
    using assms confidence_limit by (auto simp: analyze_vad_result_def bind_res_def Let_def split: sum.splits)
qed

lemma clamp_keeps [simp]:
  "sr_method (clamp_offset cfg r) = sr_method r" "sr_confidence (clamp_offset cfg r) = sr_confidence r"
  by (simp_all add: clamp_offset_def Let_def)

definition heard :: "listening \<Rightarrow> VadConfig \<Rightarrow> path \<Rightarrow> VadResult \<Rightarrow> bool" where
  "heard env cfg p v \<longleftrightarrow>
     (\<exists>audio. load_and_prepare_audio_direct (ls_crates env) (ls_os env) p (ls_files env) = Returns (Inr audio)
        \<and> detect_speech_from_data (ls_crates env) cfg (ls_elapsed env) audio = Returns (Inr v))"

lemma detection_steps:
  assumes "vad_detect_sync_offset env eng p s = Returns (Inr r)"
  obtains cfg v e es r0 where "engine_detector eng = Some cfg" "heard env cfg p v" "entries s = e # es"
    "analyze_vad_result v e = Inr r0" "r = clamp_offset (engine_config eng) r0"
  using assms
  by (auto simp: vad_detect_sync_offset_def vad_sync_offset_def get_first_subtitle_entry_def heard_def crop_audio_def
      split: option.splits run.splits sum.splits list.splits)

text \<open>
   C5.  A detected offset never exceeds the configured limit, and the confidence is at most 0.95.  A result
  without a warning is the difference between the first speech that was heard and the first subtitle; one with
  a warning is the limit in the direction of that difference, which it records.
\<close>

theorem detected_offset_bounded:
  assumes "vad_detect_sync_offset env eng p s = Returns (Inr r)"
    and "max_offset_seconds (engine_config eng) = Finite False m" "representable m"
  shows "\<not> f32_less (Finite False m) (float_abs (sr_offset r)) \<and> \<not> f32_less (f32_of_rat (19 / 20)) (sr_confidence r)
    \<and> (\<exists>cfg v r0. engine_detector eng = Some cfg \<and> heard env cfg p v \<and> analyze_vad_result v (hd (entries s)) = Inr r0
        \<and> (if sr_warnings r = [] then r = r0
           else sr_info r = Some (Clamped_Offset (sr_offset r0) (sr_offset r))
             \<and> f32_less (Finite False m) (float_abs (sr_offset r0))
             \<and> sr_offset r = Finite (f32_less (sr_offset r0) (Finite False 0)) m))"
proof -
  obtain cfg v e es r0 where d: "engine_detector eng = Some cfg" "heard env cfg p v" "entries s = e # es"
    and r0: "analyze_vad_result v e = Inr r0" "r = clamp_offset (engine_config eng) r0"
    by (rule detection_steps [OF assms(1)])
  note analysed = analysis_result [OF r0(1)] and clamped = clamped_bound [OF assms(2,3), of r0, folded r0(2)]
  have "if sr_warnings r = [] then r = r0
    else sr_info r = Some (Clamped_Offset (sr_offset r0) (sr_offset r)) \<and> f32_less (Finite False m) (float_abs (sr_offset r0))
      \<and> sr_offset r = Finite (f32_less (sr_offset r0) (Finite False 0)) m"
    using analysed clamped(2,3) by (cases "sr_warnings r = []") auto
  note outcome = this
  have "analyze_vad_result v (hd (entries s)) = Inr r0" using d(3) r0(1) by simp
  moreover have "sr_confidence r = sr_confidence r0" using r0(2) by simp
  ultimately show ?thesis using outcome clamped(1) analysed d(1,2) by (intro conjI exI [of _ cfg] exI [of _ v] exI [of _ r0]) simp_all
qed

section \<open>What panics\<close>

lemma vad_rate: "at_vad_rate crates audio = Inr audio' \<Longrightarrow> ai_rate (pa_info audio') = 8000 \<or> ai_rate (pa_info audio') = 16000"
  by (auto simp: at_vad_rate_def bind_res_def split: if_splits sum.splits)

lemma detection_never_panics: "detect_speech_from_data crates cfg elapsed audio \<noteq> Panics e"
  using vad_rate [of crates audio]
  by (auto simp: detect_speech_from_data_def Let_def calculate_chunk_size_def split: sum.splits)

lemma loading_panics:
  "(\<exists>e. load_and_prepare_audio_direct crates os p fs = Panics e) \<longleftrightarrow>
   (\<exists>samples info. fst (load_or_empty crates os p fs) = Inr (Some (samples, info)) \<and> ai_channels info = 0)"
  by (auto simp: load_and_prepare_audio_direct_def extract_first_channel_def split: sum.splits option.splits run.splits if_splits)

lemma detection_panics_iff:
  "(\<exists>e. vad_detect_sync_offset env eng p s = Panics e) \<longleftrightarrow>
   engine_detector eng \<noteq> None \<and> entries s \<noteq> []
   \<and> (\<exists>samples info. fst (load_or_empty (ls_crates env) (ls_os env) p (ls_files env)) = Inr (Some (samples, info))
        \<and> ai_channels info = 0)"
  unfolding loading_panics [symmetric]
  using detection_never_panics
  by (auto simp: vad_detect_sync_offset_def vad_sync_offset_def get_first_subtitle_entry_def
      split: option.splits run.splits sum.splits list.splits)

text \<open>
   C35.  The detection of an offset panics exactly when there is a subtitle to align and the loaded audio is said
  to have no channel: the sample rate is always one the detector takes, so that its chunk size never panics.
\<close>

theorem detection_panics:
  "(\<exists>e. vad_detect_sync_offset env eng p s = Panics e) \<longleftrightarrow>
   engine_detector eng \<noteq> None \<and> entries s \<noteq> []
   \<and> (\<exists>samples info. fst (load_or_empty (ls_crates env) (ls_os env) p (ls_files env)) = Inr (Some (samples, info))
        \<and> ai_channels info = 0)"
  by (rule detection_panics_iff)

section \<open>Instances\<close>

definition demo_limit :: SyncConfig where
  "demo_limit = sync_default\<lparr>vad := vad_default\<lparr>min_speech_duration_ms := 0\<rparr>\<rparr>"

definition demo_engine :: SyncEngine where
  "demo_engine = \<lparr>engine_config = demo_limit, engine_detector = Some (vad demo_limit)\<rparr>"

definition demo_cue :: SubtitleEntry where
  "demo_cue = \<lparr>entry_index = 1, start_time = 1000000000, end_time = 3000000000, entry_text = ''Hi'', styling = None\<rparr>"

definition demo_cues :: Subtitle where
  "demo_cues = subtitle_new Srt \<lparr>title = None, language = None, encoding = ''utf-8'', frame_rate = None, original_format = Srt\<rparr>
     \<lparr>entries := [demo_cue]\<rparr>"

lemma demo_limit_60: "max_offset_seconds (engine_config demo_engine) = Finite False 60"
  by (simp add: demo_engine_def demo_limit_def sync_default_def small_f32)

lemma demo_entries: "entries demo_cues = [demo_cue]"
  by (simp add: demo_cues_def)

lemma moved_seconds: "moved (Finite neg (of_nat n)) t = nat (int t + (if neg then - int n else int n) * 10 ^ 9)"
proof -
  have "half_even (of_nat n * 10 ^ 9) = int n * 10 ^ 9" using half_even_int [of "int n * 10 ^ 9"] by simp
  then show ?thesis using half_even_minus [of "of_nat n * 10 ^ 9"] by (simp add: moved_def signed_def)
qed

theorem manual_offset_outcome_witness:
  "case apply_manual_offset demo_engine 0 demo_cues (Finite True 2) of
     Returns (Inr r, s') \<Rightarrow> map start_time (entries s') = [0] \<and> map end_time (entries s') = [1000000000]
   | _ \<Rightarrow> False"
proof -
  have less: "\<not> f32_less (max_offset_seconds (engine_config demo_engine)) (Finite False 2)"
    by (simp add: demo_limit_60 signed_def)
  have room: "room_after (Finite True 2) demo_cues" by (simp add: room_after_def signed_def)
  have "moved (Finite True 2) 1000000000 = 0" "moved (Finite True 2) 3000000000 = 1000000000"
    using moved_seconds [of True 2] by simp_all
  then have entries: "map start_time (map (moved_entry (Finite True 2)) (entries demo_cues)) = [0]"
    "map end_time (map (moved_entry (Finite True 2)) (entries demo_cues)) = [1000000000]"
    by (simp_all add: demo_entries moved_entry_def demo_cue_def)
  note outcome = manual_offset_outcome [where m = 2 and neg = True and s = demo_cues and eng = demo_engine and elapsed = 0]
  show ?thesis
  proof (cases "apply_manual_offset demo_engine 0 demo_cues (Finite True 2)")
    case (Panics e)
    then show ?thesis using outcome by simp
  next
    case (Returns result)
    obtain r s' where "result = (r, s')" by (cases result)
    with Returns show ?thesis
      using outcome less room entries by (cases r) (auto split: SubXError.splits)
  qed
qed

theorem shift_undone_witness:
  "\<exists>r r' s'. shift_subtitle_timing 0 demo_cues (Finite False 2) = Returns (Inr r, s')
     \<and> shift_subtitle_timing 0 s' (Finite True 2) = Returns (Inr r', demo_cues)"
proof -
  have "moved (Finite False 2) 1000000000 = 3000000000" "moved (Finite False 2) 3000000000 = 5000000000"
    using moved_seconds [of False 2] by simp_all
  then have "room_after (Finite False 2) demo_cues"
    by (simp add: room_after_def demo_entries demo_cue_def max_duration_def)
  then obtain r s' where shift: "shift_subtitle_timing 0 demo_cues (Finite False 2) = Returns (Inr r, s')"
    using shifted(1) [of 2 False demo_cues] by (simp add: shift_subtitle_timing_def bind_res_def)
  from shift_undone [OF this] show ?thesis using shift by (fastforce simp: f32_le_def signed_def)
qed

text \<open>A file with one track and one packet.\<close>

definition demo_listening :: "audio_track \<Rightarrow> packet \<Rightarrow> listening" where
  "demo_listening t p = \<lparr>ls_crates = \<lparr>probe_media = (\<lambda>_ _. Inr \<lparr>media_tracks = [t], media_packets = [p]\<rparr>),
       make_decoder = (\<lambda>_. Inr ()), rubato = (\<lambda>_ _ s. Inr s), build_vad = (\<lambda>_ _. Inr (\<lambda>_ _ _. [True]))\<rparr>,
     ls_os = \<lparr>fault = (\<lambda>_ _. None), partial_bytes = (\<lambda>_ _. 0), canonical = (\<lambda>p. p), is_symlink = (\<lambda>_. False)\<rparr>,
     ls_files = [path_of ''a.mkv'' \<mapsto> ''x''], ls_elapsed = 0\<rparr>"

lemma demo_loads:
  assumes "track_rate t = Some rate" "packet_track p = track_id t" "packet_samples p = Inr samples"
  shows "fst (load_or_empty (ls_crates (demo_listening t p)) (ls_os (demo_listening t p)) (path_of ''a.mkv'')
      (ls_files (demo_listening t p)))
    = Inr (Some (samples, \<lparr>ai_rate = rate,
        ai_channels = channel_count (map_option (\<lambda>c. c mod 65536) (track_channels t)) rate (length samples)
          (audio_duration t rate (length samples) (packet_ts p) (map_option (\<lambda>c. c mod 65536) (track_channels t))),
        ai_duration = audio_duration t rate (length samples) (packet_ts p) (map_option (\<lambda>c. c mod 65536) (track_channels t)),
        ai_total = length samples\<rparr>))"
  using assms
  by (simp add: demo_listening_def load_or_empty_def load_audio_samples_def bind_io_def map_err_io_def check_file_size_def
      open_file_def sys_def DEFAULT_MAX_AUDIO_BYTES_def read_track_def Let_def)

text \<open>A track that does not say how many channels it has, with a time stamp and no samples, makes the detection panic.\<close>

lemma undeclared_channels_panic:
  "\<exists>e. vad_detect_sync_offset (demo_listening
       \<lparr>track_id = 1, track_rate = Some 16000, track_channels = None, track_base = Some (1, 1)\<rparr>
       \<lparr>packet_track = 1, packet_ts = 1, packet_samples = Inr []\<rparr>) demo_engine (path_of ''a.mkv'') demo_cues = Panics e"
proof -
  have "f64_of_nat 1 = Finite False 1" "f64_of_nat 16000 = Finite False 16000" "f64_of_nat 0 = Finite False 0"
    by (simp_all add: f64_of_nat_def rounded_def round_f64_small round_f64_zero)
  then have "channel_count None 16000 0 (audio_duration
      \<lparr>track_id = 1, track_rate = Some 16000, track_channels = None, track_base = Some (1, 1)\<rparr> 16000 0 1 None) = 0"
    by (simp add: channel_count_def audio_duration_def rounded_def round_f64_small round_f64_zero as_u16_def signed_def)
  then show ?thesis
    by (subst detection_panics_iff) (simp add: demo_loads demo_engine_def demo_entries)
qed

lemma rounded_nonneg:
  assumes "0 \<le> m"
  shows "(\<exists>r. 0 \<le> r \<and> rounded round_f64 False m = Finite False r) \<or> rounded round_f64 False m = Infinite False"
  using nearest_nonneg [of 53 "[-1074..971]" "2 ^ 1024" m] assms
  by (auto simp: rounded_def round_f64_def split: option.split)

lemma demo_chunk: "f32_le (Finite False 0) (float_sub round_f64 (chunk_time 512 16000 1) (chunk_time 512 16000 0))"
proof -
  have "round_f64 (512 / 16000) \<noteq> None" using round_f64_at [of "512 / 16000" 57] by simp
  moreover have nats: "f64_of_nat 512 = Finite False 512" "f64_of_nat 16000 = Finite False 16000"
      "f64_of_nat 0 = Finite False 0" "f64_of_nat 1 = Finite False 1"
    by (simp_all add: f64_of_nat_def rounded_def round_f64_small round_f64_zero)
  ultimately obtain x where x: "float_div round_f64 (f64_of_nat 512) (f64_of_nat 16000) = Finite False x" "0 \<le> x"
    using rounded_nonneg [of "512 / 16000"] by (auto simp: rounded_def)
  have "chunk_time 512 16000 0 = Finite False 0" by (simp add: chunk_time_def x(1) [unfolded nats] nats rounded_def round_f64_zero del: float_div.simps)
  moreover have "(\<exists>r. 0 \<le> r \<and> chunk_time 512 16000 1 = Finite False r) \<or> chunk_time 512 16000 1 = Infinite False"
    using rounded_nonneg [OF x(2)] by (simp add: chunk_time_def x(1) [unfolded nats] nats del: float_div.simps One_nat_def)
  moreover have "f32_le (Finite False 0) (rounded round_f64 False m)" if "0 \<le> m" for m
    using rounded_nonneg [OF that] by (auto simp: f32_le_def signed_def)
  moreover have "f32_le (Finite False 0) (Finite False 0)" "f32_le (Finite False 0) (Infinite False)"
    by (simp_all add: f32_le_def)
  ultimately show ?thesis by (auto simp: float_sub_def Let_def signed_def)
qed

theorem detected_offset_bounded_witness:
  "\<exists>r. vad_detect_sync_offset (demo_listening
       \<lparr>track_id = 1, track_rate = Some 16000, track_channels = Some 1, track_base = None\<rparr>
       \<lparr>packet_track = 1, packet_ts = 0, packet_samples = Inr [0]\<rparr>) demo_engine (path_of ''a.mkv'') demo_cues = Returns (Inr r)
     \<and> \<not> f32_less (Finite False 60) (float_abs (sr_offset r))"
proof -
  let ?t = "\<lparr>track_id = 1, track_rate = Some 16000, track_channels = Some 1, track_base = None\<rparr>"
  let ?p = "\<lparr>packet_track = 1, packet_ts = 0, packet_samples = Inr [0]\<rparr>"
  let ?env = "demo_listening ?t ?p"
  have "min_speech_seconds (vad demo_limit) = Finite False 0"
    by (simp add: min_speech_seconds_def demo_limit_def f64_of_nat_def rounded_def round_f64_small round_f64_zero)
  then have segments: "detect_speech_segments (vad demo_limit) (\<lambda>_ _ _. [True]) 512 samples 16000
      = [segment_between (chunk_time 512 16000) (0, 1)]" for samples
    using demo_chunk label_loop_runs [of "chunk_time 512 16000" "Finite False 0" "[True]" 0 None "[]"]
    by (simp add: detect_speech_segments_def long_enough_def segment_between_def)
  obtain r where r: "vad_detect_sync_offset ?env demo_engine (path_of ''a.mkv'') demo_cues = Returns (Inr r)"
    using demo_loads [of ?t 16000 ?p "[0]"] segments
    by (simp add: vad_detect_sync_offset_def vad_sync_offset_def get_first_subtitle_entry_def demo_entries demo_engine_def
        load_and_prepare_audio_direct_def channel_count_def crop_audio_def detect_speech_from_data_def at_vad_rate_def
        calculate_chunk_size_def analyze_vad_result_def find_first_significant_speech_def bind_res_def Let_def
        demo_listening_def split: option.splits)
  have "representable 60" by (simp add: representable_def small_rounded)
  then show ?thesis using detected_offset_bounded [OF r demo_limit_60] r by blast
qed

end
