(* ===== verification/Sync_Pairing.thy ===== *)
theory Sync_Pairing
  imports Input_Files Encoding
begin

text \<open>
  Which files a synchronization is about (\<open>resolve_sync_pairing\<close> and \<open>create_default_output_path\<close> of
  \<open>src/core/sync/mod.rs\<close>): a batch, a pair that is named, or a lone file with its sibling on disk.
\<close>

section \<open>Requests\<close>

definition SYNC_VIDEO_EXTENSIONS :: "str list" where
  "SYNC_VIDEO_EXTENSIONS = [''mp4'', ''mkv'', ''avi'', ''mov'']"

definition SYNC_SUBTITLE_EXTENSIONS :: "str list" where
  "SYNC_SUBTITLE_EXTENSIONS = [''srt'', ''ass'', ''vtt'', ''sub'']"

datatype BatchRequest = Batch_Off | Batch_Auto | Batch_Directory path

record SyncPairingRequest =
  positional_paths :: "path list"
  input_paths :: "path list"
  named_video :: "path option"
  named_subtitle :: "path option"
  batch_request :: BatchRequest
  rq_recursive :: bool
  rq_no_extract :: bool
  manual :: bool

datatype SyncMode = Single path path | Batch InputPathHandler

section \<open>Resolution\<close>

definition wants_batch :: "SyncPairingRequest \<Rightarrow> bool" where
  "wants_batch rq \<longleftrightarrow> batch_request rq \<noteq> Batch_Off \<or> input_paths rq \<noteq> []
     \<or> list_ex (\<lambda>p. extension p = None) (positional_paths rq)"

definition batch_paths :: "SyncPairingRequest \<Rightarrow> path list" where
  "batch_paths rq =
     (let ps = (case batch_request rq of Batch_Directory d \<Rightarrow> [d] | _ \<Rightarrow> []) @ input_paths rq @ positional_paths rq
      in if ps = [] then [path_of ''.''] else ps)"

definition resolve_batch :: "surroundings \<Rightarrow> SyncPairingRequest \<Rightarrow> SyncMode res" where
  "resolve_batch env rq =
     bind_res (from_args env (batch_paths rq) (rq_recursive rq)) (\<lambda>h.
       Inr (Batch (with_no_extract (rq_no_extract rq)
         (with_extensions env (SYNC_VIDEO_EXTENSIONS @ SYNC_SUBTITLE_EXTENSIONS) h))))"

definition os_text :: "str option \<Rightarrow> str option" where
  "os_text s = (case s of Some t \<Rightarrow> if valid_utf8 t then Some t else None | None \<Rightarrow> None)"

definition lower_extension :: "surroundings \<Rightarrow> path \<Rightarrow> str option" where
  "lower_extension env p = map_option (to_lowercase env) (os_text (extension p))"

text \<open>The first of the extensions with which a file of the same stem exists.\<close>

definition probe_sibling :: "surroundings \<Rightarrow> path \<Rightarrow> str list \<Rightarrow> path option" where
  "probe_sibling env p exts =
     (case os_text (file_stem p) of
        None \<Rightarrow> None
      | Some stem \<Rightarrow>
          (let dir = (case parent p of Some d \<Rightarrow> d | None \<Rightarrow> path_of ''.'') in
           List.find (\<lambda>cand. leads_to env cand \<noteq> None) (map (\<lambda>e. join_name dir (stem @ ''.'' @ e)) exts)))"

definition pair_of_lone :: "surroundings \<Rightarrow> path \<Rightarrow> path option \<times> path option" where
  "pair_of_lone env p =
     (let ext = (case os_text (extension p) of Some e \<Rightarrow> to_lowercase env e | None \<Rightarrow> to_lowercase env []) in
      if ext \<in> set SYNC_VIDEO_EXTENSIONS then (Some p, probe_sibling env p SYNC_SUBTITLE_EXTENSIONS)
      else if ext \<in> set SYNC_SUBTITLE_EXTENSIONS then (probe_sibling env p SYNC_VIDEO_EXTENSIONS, Some p)
      else (None, None))"

definition pair_of_two :: "surroundings \<Rightarrow> path list \<Rightarrow> path option \<times> path option" where
  "pair_of_two env ps = fold (\<lambda>p (video, subtitle).
     (case lower_extension env p of
        None \<Rightarrow> (video, subtitle)
      | Some ext \<Rightarrow> (if ext \<in> set SYNC_VIDEO_EXTENSIONS then Some p else video,
          if ext \<in> set SYNC_SUBTITLE_EXTENSIONS then Some p else subtitle))) ps (None, None)"

definition single_pair :: "path option \<times> path option \<Rightarrow> SyncMode res" where
  "single_pair vs =
     (case vs of (Some v, Some s) \<Rightarrow> Inr (Single v s) | _ \<Rightarrow> Inl InvalidSyncConfiguration)"

definition no_video :: path where
  "no_video = path_of []"

definition resolve_named :: "SyncPairingRequest \<Rightarrow> SyncMode res" where
  "resolve_named rq =
     (case (named_video rq, named_subtitle rq) of
        (Some v, Some s) \<Rightarrow> Inr (Single v s)
      | (_, Some s) \<Rightarrow> if manual rq then Inr (Single no_video s) else Inl InvalidSyncConfiguration
      | _ \<Rightarrow> Inl InvalidSyncConfiguration)"

definition resolve_sync_pairing :: "surroundings \<Rightarrow> SyncPairingRequest \<Rightarrow> SyncMode res" where
  "resolve_sync_pairing env rq =
     (if wants_batch rq then resolve_batch env rq
      else case positional_paths rq of
        [p] \<Rightarrow> (case snd (pair_of_lone env p) of
                  Some s \<Rightarrow> if manual rq then Inr (Single no_video s) else single_pair (pair_of_lone env p)
                | None \<Rightarrow> single_pair (pair_of_lone env p))
      | [p, q] \<Rightarrow> single_pair (pair_of_two env [p, q])
      | _ \<Rightarrow> resolve_named rq)"

definition create_default_output_path :: "path \<Rightarrow> path" where
  "create_default_output_path input =
     (case (os_text (file_stem input), os_text (extension input)) of
        (Some stem, Some ext) \<Rightarrow> with_file_name input (stem @ ''_synced.'' @ ext)
      | _ \<Rightarrow> input)"

section \<open>Siblings\<close>

text \<open>The file of the same directory and stem with another extension.\<close>

definition sibling :: "path \<Rightarrow> str \<Rightarrow> path \<Rightarrow> bool" where
  "sibling p e q \<longleftrightarrow> absolute q = absolute p \<and> parent q = parent p \<and> file_stem q = file_stem p \<and> extension q = Some e"

definition plain_extension :: "str \<Rightarrow> bool" where
  "plain_extension e \<longleftrightarrow> e \<noteq> [] \<and> CHR ''.'' \<notin> set e \<and> CHR ''/'' \<notin> set e"

lemma declared_extensions:
  "list_all plain_extension SYNC_VIDEO_EXTENSIONS" "list_all plain_extension SYNC_SUBTITLE_EXTENSIONS"
  by code_simp+

lemma declared_apart: "set SYNC_VIDEO_EXTENSIONS \<inter> set SYNC_SUBTITLE_EXTENSIONS = {}"
  by code_simp

lemma split_name_dot: "CHR ''.'' \<notin> set e \<Longrightarrow> stem \<noteq> [] \<Longrightarrow> split_name (stem @ ''.'' @ e) = (stem, Some e)"
  using rfind_append [of "CHR ''.''" e stem] by (simp add: split_name_def)

lemma split_name_back:
  assumes "split_name n = (stem, Some e)"
  shows "n = stem @ ''.'' @ e \<and> stem \<noteq> [] \<and> CHR ''.'' \<notin> set e"
proof -
  obtain i where i: "rfind_char (CHR ''.'') n = Some i" "i \<noteq> 0" "stem = take i n" "e = drop (Suc i) n"
    using assms by (auto simp: split_name_def split: option.splits if_splits)
  have "CHR ''.'' \<in> set n" using i(1) find_char_None [of "CHR ''.''" "rev n"] by (auto simp: rfind_char_def)
  then obtain a b where ab: "n = a @ CHR ''.'' # b" "CHR ''.'' \<notin> set b" by (metis split_list_last)
  then have "i = length a" using rfind_append [of "CHR ''.''" b a] i(1) by simp
  then show ?thesis using i ab by simp
qed

lemma plain_with_extension:
  "plain_name (stem @ ''.'' @ e) \<Longrightarrow> plain_extension e' \<Longrightarrow> stem \<noteq> [] \<Longrightarrow> plain_name (stem @ ''.'' @ e')"
  by (cases e') (auto simp: plain_name_def plain_extension_def append_eq_Cons_conv)

text \<open>What is joined to the directory is the sibling, and the only one.\<close>

lemma sibling_unique:
  assumes "file_name p = Some n" "plain_name n" "extension p = Some e0" "plain_extension e"
  shows "sibling p e q \<longleftrightarrow> q = join_name (the (parent p)) (the (file_stem p) @ ''.'' @ e)"
proof -
  obtain stem where split: "split_name n = (stem, Some e0)" and stem: "file_stem p = Some stem"
    using assms(1,3) by (cases "split_name n") (auto simp: extension_def file_stem_def)
  note parts = split_name_back [OF split]
  have plain: "plain_name (stem @ ''.'' @ e)" using plain_with_extension assms(2,4) parts by metis
  have comps: "comps p \<noteq> []" using assms(1) by (auto simp: file_name_def)
  have dots: "stem @ ''.'' @ e \<noteq> dotdot" using plain by (simp add: plain_name_def)
  have name: "split_name (stem @ ''.'' @ e) = (stem, Some e)"
    using parts assms(4) by (intro split_name_dot) (simp_all add: plain_extension_def)
  have joined: "join_name (the (parent p)) (stem @ ''.'' @ e) = p\<lparr>comps := butlast (comps p) @ [stem @ ''.'' @ e]\<rparr>"
    using comps plain by (simp add: join_name_def parent_def path_join_def)
  show ?thesis
  proof
    assume q: "sibling p e q"
    then have "file_stem q = Some stem" "extension q = Some e" by (simp_all add: sibling_def stem)
    then obtain m where "file_name q = Some m" "fst (split_name m) = stem" "snd (split_name m) = Some e"
      by (auto simp: extension_def file_stem_def bind_eq_Some_conv)
    then have m: "file_name q = Some m" "split_name m = (stem, Some e)" by (simp_all add: prod_eq_iff)
    then have "m = stem @ ''.'' @ e" using split_name_back by blast
    moreover have "comps q \<noteq> []" "last (comps q) = m" using m(1) by (auto simp: file_name_def split: if_splits)
    ultimately have "comps q = butlast (comps q) @ [stem @ ''.'' @ e]" by (metis append_butlast_last_id)
    moreover have "butlast (comps q) = butlast (comps p)" "absolute q = absolute p"
      using q comps \<open>comps q \<noteq> []\<close> by (cases p; cases q; simp add: sibling_def parent_def)+
    ultimately show "q = join_name (the (parent p)) (the (file_stem p) @ ''.'' @ e)"
      unfolding stem option.sel joined by (cases p; cases q) simp
  next
    assume "q = join_name (the (parent p)) (the (file_stem p) @ ''.'' @ e)"
    then have q: "q = p\<lparr>comps := butlast (comps p) @ [stem @ ''.'' @ e]\<rparr>" unfolding stem option.sel joined .
    then show "sibling p e q"
      using comps dots name split assms(1) by (auto simp: sibling_def parent_def file_stem_def extension_def file_name_def split: if_splits)
  qed
qed

text \<open>The sibling of the first extension for which there is one.\<close>

definition first_sibling :: "surroundings \<Rightarrow> path \<Rightarrow> str list \<Rightarrow> path \<Rightarrow> bool" where
  "first_sibling env p exts q \<longleftrightarrow>
     (\<exists>i < length exts. sibling p (exts ! i) q \<and> leads_to env q \<noteq> None
        \<and> (\<forall>j < i. \<forall>q'. sibling p (exts ! j) q' \<longrightarrow> leads_to env q' = None))"

lemma probe_sibling_first:
  assumes "file_name p = Some n" "plain_name n" "extension p = Some e0" "os_text (file_stem p) \<noteq> None"
    and "list_all plain_extension exts"
  shows "probe_sibling env p exts = Some q \<longleftrightarrow> first_sibling env p exts q"
proof -
  obtain stem where stem: "file_stem p = Some stem" "os_text (Some stem) = Some stem"
    using assms(4) by (auto simp: os_text_def split: option.splits if_splits)
  have "comps p \<noteq> []" using assms(1) by (auto simp: file_name_def)
  then obtain dir where dir: "parent p = Some dir" by (simp add: parent_def)
  have only: "sibling p (exts ! i) q' \<longleftrightarrow> q' = join_name dir (stem @ ''.'' @ exts ! i)" if "i < length exts" for i q'
    using sibling_unique [OF assms(1-3), of "exts ! i" q'] that assms(5) stem dir by (simp add: list_all_length)
  have "probe_sibling env p exts = Some q \<longleftrightarrow> (\<exists>i < length exts. leads_to env (join_name dir (stem @ ''.'' @ exts ! i)) \<noteq> None
      \<and> q = join_name dir (stem @ ''.'' @ exts ! i) \<and> (\<forall>j < i. leads_to env (join_name dir (stem @ ''.'' @ exts ! j)) = None))"
    by (auto simp: probe_sibling_def stem dir find_Some_iff)
  also have "\<dots> \<longleftrightarrow> first_sibling env p exts q"
  proof -
    have "(leads_to env (join_name dir (stem @ ''.'' @ exts ! i)) \<noteq> None \<and> q = join_name dir (stem @ ''.'' @ exts ! i)
          \<and> (\<forall>j < i. leads_to env (join_name dir (stem @ ''.'' @ exts ! j)) = None))
        \<longleftrightarrow> (sibling p (exts ! i) q \<and> leads_to env q \<noteq> None
          \<and> (\<forall>j < i. \<forall>q'. sibling p (exts ! j) q' \<longrightarrow> leads_to env q' = None))" if "i < length exts" for i
    proof -
      have "sibling p (exts ! j) q' \<longleftrightarrow> q' = join_name dir (stem @ ''.'' @ exts ! j)" if "j < i" for j q'
        using only that \<open>i < length exts\<close> by simp
      then show ?thesis using only [OF that] by auto
    qed
    then show ?thesis unfolding first_sibling_def by blast
  qed
  finally show ?thesis .
qed

section \<open>A lone file\<close>

definition is_video :: "surroundings \<Rightarrow> path \<Rightarrow> bool" where
  "is_video env p \<longleftrightarrow> (\<exists>e \<in> set SYNC_VIDEO_EXTENSIONS. lower_extension env p = Some e)"

definition is_subtitle :: "surroundings \<Rightarrow> path \<Rightarrow> bool" where
  "is_subtitle env p \<longleftrightarrow> (\<exists>e \<in> set SYNC_SUBTITLE_EXTENSIONS. lower_extension env p = Some e)"

text \<open>
   C24.  A lone video or subtitle is paired with the file of the same directory and stem whose extension comes
  first in the declared order, and with nothing else; without one, or for any other file, the request is refused.
\<close>

theorem lone_file_paired:
  assumes "positional_paths rq = [p]" "\<not> wants_batch rq" "\<not> manual rq"
    and "file_name p = Some n" "plain_name n" "extension p = Some e0" "valid_utf8 e0" "os_text (file_stem p) \<noteq> None"
  shows "case resolve_sync_pairing env rq of
      Inr (Single v s) \<Rightarrow> is_video env p \<and> v = p \<and> first_sibling env p SYNC_SUBTITLE_EXTENSIONS s
        \<or> is_subtitle env p \<and> s = p \<and> first_sibling env p SYNC_VIDEO_EXTENSIONS v
    | Inr (Batch _) \<Rightarrow> False
    | Inl e \<Rightarrow> e = InvalidSyncConfiguration
        \<and> (is_video env p \<longrightarrow> (\<nexists>s. first_sibling env p SYNC_SUBTITLE_EXTENSIONS s))
        \<and> (is_subtitle env p \<longrightarrow> (\<nexists>v. first_sibling env p SYNC_VIDEO_EXTENSIONS v))"
proof -
  note first = probe_sibling_first [OF assms(4-6,8) declared_extensions(1)]
    probe_sibling_first [OF assms(4-6,8) declared_extensions(2)]
  have ext: "os_text (extension p) = Some e0" using assms(6,7) by (simp add: os_text_def)
  have kinds: "is_video env p \<longleftrightarrow> to_lowercase env e0 \<in> set SYNC_VIDEO_EXTENSIONS"
    "is_subtitle env p \<longleftrightarrow> to_lowercase env e0 \<in> set SYNC_SUBTITLE_EXTENSIONS"
    by (auto simp: is_video_def is_subtitle_def lower_extension_def ext)
  have result: "resolve_sync_pairing env rq = single_pair (pair_of_lone env p)"
    using assms(1-3) by (simp add: resolve_sync_pairing_def split: option.split)
  consider "is_video env p" "\<not> is_subtitle env p" | "\<not> is_video env p" "is_subtitle env p"
    | "\<not> is_video env p" "\<not> is_subtitle env p"
    using kinds declared_apart by blast
  then show ?thesis
  proof cases
    case 1
    then have "pair_of_lone env p = (Some p, probe_sibling env p SYNC_SUBTITLE_EXTENSIONS)"
      by (simp add: pair_of_lone_def ext kinds)
    then show ?thesis using 1 first(2)
      by (cases "probe_sibling env p SYNC_SUBTITLE_EXTENSIONS") (simp_all add: result single_pair_def flip: first(2))
  next
    case 2
    then have "pair_of_lone env p = (probe_sibling env p SYNC_VIDEO_EXTENSIONS, Some p)"
      by (simp add: pair_of_lone_def ext kinds)
    then show ?thesis using 2 first(1)
      by (cases "probe_sibling env p SYNC_VIDEO_EXTENSIONS") (simp_all add: result single_pair_def flip: first(1))
  next
    case 3
    then show ?thesis by (simp add: result pair_of_lone_def ext kinds single_pair_def)
  qed
qed

text \<open>The output of a synchronization is another file of the same directory with the same extension.\<close>

lemma synced_output_differs:
  assumes "file_name p = Some n" "plain_name n" "extension p = Some e" "valid_utf8 e" "os_text (file_stem p) = Some stem"
  shows "create_default_output_path p \<noteq> p \<and> parent (create_default_output_path p) = parent p
    \<and> extension (create_default_output_path p) = Some e \<and> file_stem (create_default_output_path p) = Some (stem @ ''_synced'')"
proof -
  have stem: "file_stem p = Some stem" using assms(5) by (auto simp: os_text_def split: option.splits if_splits)
  then have "split_name n = (stem, Some e)" using assms(1,3) by (cases "split_name n") (auto simp: extension_def file_stem_def)
  note parts = split_name_back [OF this]
  have plain: "plain_name (stem @ ''_synced'' @ ''.'' @ e)"
    using assms(2) parts by (auto simp: plain_name_def append_eq_Cons_conv)
  have comps: "comps p \<noteq> []" "last (comps p) = n" using assms(1) by (auto simp: file_name_def split: if_splits)
  have out: "create_default_output_path p = p\<lparr>comps := butlast (comps p) @ [(stem @ ''_synced'') @ ''.'' @ e]\<rparr>"
    using assms(1,3,4,5) comps plain
    by (simp add: create_default_output_path_def os_text_def with_file_name_def join_name_def path_join_def)
  have "split_name ((stem @ ''_synced'') @ ''.'' @ e) = (stem @ ''_synced'', Some e)"
    using parts by (intro split_name_dot) simp_all
  moreover have "(stem @ ''_synced'') @ ''.'' @ e \<noteq> dotdot" using plain by (simp add: plain_name_def)
  moreover have "p \<noteq> p\<lparr>comps := butlast (comps p) @ [(stem @ ''_synced'') @ ''.'' @ e]\<rparr>"
  proof
    assume "p = p\<lparr>comps := butlast (comps p) @ [(stem @ ''_synced'') @ ''.'' @ e]\<rparr>"
    from arg_cong [OF this, of "\<lambda>p. last (comps p)"]
    have "last (comps p) = (stem @ ''_synced'') @ ''.'' @ e" by simp
    then show False using comps(2) parts by simp
  qed
  ultimately show ?thesis
    using comps unfolding out by (simp add: parent_def extension_def file_stem_def file_name_def)
qed

section \<open>An instance\<close>

definition demo_place :: surroundings where
  "demo_place = \<lparr>leads_to = (\<lambda>p. if p = path_of ''s/a.ass'' \<or> p = path_of ''s/a.vtt'' then Some At_File else None),
     in_os = calm_os, in_crates = tar_crates [], new_temp_dir = (\<lambda>_. Inr demo_dest), to_lowercase = ascii_lower\<rparr>"

definition demo_pairing :: SyncPairingRequest where
  "demo_pairing = \<lparr>positional_paths = [path_of ''s/a.mp4''], input_paths = [], named_video = None, named_subtitle = None,
     batch_request = Batch_Off, rq_recursive = False, rq_no_extract = False, manual = False\<rparr>"

lemma demo_lone_facts:
  "file_name (path_of ''s/a.mp4'') = Some ''a.mp4''" "plain_name ''a.mp4''" "extension (path_of ''s/a.mp4'') = Some ''mp4''"
  "valid_utf8 ''mp4''" "os_text (file_stem (path_of ''s/a.mp4'')) \<noteq> None"
  "\<not> wants_batch demo_pairing"
  by code_simp+

lemma demo_resolved: "resolve_sync_pairing demo_place demo_pairing = Inr (Single (path_of ''s/a.mp4'') (path_of ''s/a.ass''))"
  by (simp add: resolve_sync_pairing_def demo_pairing_def) code_simp

theorem lone_file_paired_witness:
  "first_sibling demo_place (path_of ''s/a.mp4'') SYNC_SUBTITLE_EXTENSIONS (path_of ''s/a.ass'')"
proof -
  have "\<not> is_subtitle demo_place (path_of ''s/a.mp4'')"
  proof -
    have "lower_extension demo_place (path_of ''s/a.mp4'') = Some ''mp4''" by (simp add: demo_place_def) code_simp
    moreover have "''mp4'' \<notin> set SYNC_SUBTITLE_EXTENSIONS" by code_simp
    ultimately show ?thesis by (auto simp: is_subtitle_def)
  qed
  then show ?thesis
    using lone_file_paired [OF _ demo_lone_facts(6) _ demo_lone_facts(1-5), of demo_place] demo_resolved
    by (simp add: demo_pairing_def)
qed

end
