(* ===== verification/Subx_Lock.thy ===== *)
theory Subx_Lock
  imports Match_Exec
begin

text \<open>
  The lock that serializes the commands that change the cache and the journal (\<open>src/core/lock.rs\<close>): processes
  that open one file and try to lock it until a deadline, as a step relation in which a clock runs.  That at most
  one holder has an exclusive lock is what the operating system promises; times are milliseconds.
\<close>

section \<open>Opening the file\<close>

definition open_lock_file :: "os \<Rightarrow> path \<Rightarrow> (SubXError, unit) io" where
  "open_lock_file os p =
     bind_io (case parent p of
         Some d \<Rightarrow> map_err_io Io (create_dir_all os d)
       | None \<Rightarrow> return_io ()) (\<lambda>_.
     map_err_io Io (sys os (CallOpen p) (\<lambda>fs. (Inr (), if fs p = None then fs(p \<mapsto> []) else fs))))"

definition lock_refusal :: "path \<Rightarrow> SubXError" where
  "lock_refusal p = Config (''Another SubX operation is in progress. Please wait for it to finish or terminate the other process. Lock file: ''
     @ path_display p)"

section \<open>Processes\<close>

text \<open>
  A process has made some tries since it started and is about to try again; it sleeps until a time; it holds the
  lock; its guard was dropped; it was refused; or its try failed.
\<close>

datatype locker =
  Trying nat nat
| Sleeping nat nat nat
| Holding
| Dropped
| Refused nat nat
| Failed io_error

definition lock_timeout :: nat where "lock_timeout = 2000"
definition lock_pause :: nat where "lock_pause = 100"

record lock_world =
  lw_clock :: nat
  lw_holder :: "nat option"
  lw_lockers :: "locker list"

text \<open>What comes of one try: \<open>try_lock\<close> may fail, find the lock free or find it taken.\<close>

definition try_once :: "io_error option \<Rightarrow> nat \<Rightarrow> lock_world \<Rightarrow> lock_world" where
  "try_once failure i w =
     (case lw_lockers w ! i of
        Trying k start \<Rightarrow>
          (case failure of
             Some e \<Rightarrow> w\<lparr>lw_lockers := (lw_lockers w)[i := Failed e]\<rparr>
           | None \<Rightarrow>
               if lw_holder w = None then w\<lparr>lw_lockers := (lw_lockers w)[i := Holding], lw_holder := Some i\<rparr>
               else if start + lock_timeout \<le> lw_clock w then w\<lparr>lw_lockers := (lw_lockers w)[i := Refused (Suc k) start]\<rparr>
               else w\<lparr>lw_lockers := (lw_lockers w)[i := Sleeping (Suc k) start (lw_clock w + lock_pause)]\<rparr>)
      | _ \<Rightarrow> w)"

inductive lock_step :: "lock_world \<Rightarrow> lock_world \<Rightarrow> bool" where
  arrive: "lock_step w (w\<lparr>lw_lockers := lw_lockers w @ [Trying 0 (lw_clock w)]\<rparr>)"
| attempt: "i < length (lw_lockers w) \<Longrightarrow> lw_lockers w ! i = Trying k start \<Longrightarrow> lock_step w (try_once failure i w)"
| wake: "i < length (lw_lockers w) \<Longrightarrow> lw_lockers w ! i = Sleeping k start until \<Longrightarrow> until \<le> lw_clock w \<Longrightarrow>
    lock_step w (w\<lparr>lw_lockers := (lw_lockers w)[i := Trying k start]\<rparr>)"
| drop: "i < length (lw_lockers w) \<Longrightarrow> lw_lockers w ! i = Holding \<Longrightarrow>
    lock_step w (w\<lparr>lw_lockers := (lw_lockers w)[i := Dropped], lw_holder := None\<rparr>)"
| tick: "lock_step w (w\<lparr>lw_clock := lw_clock w + ms\<rparr>)"

definition no_lockers :: lock_world where
  "no_lockers = \<lparr>lw_clock = 0, lw_holder = None, lw_lockers = []\<rparr>"

section \<open>Exclusion and patience\<close>

definition locker_ok :: "nat \<Rightarrow> locker \<Rightarrow> bool" where
  "locker_ok now l \<longleftrightarrow>
     (case l of
        Trying k start \<Rightarrow> start + lock_pause * k \<le> now \<and> k \<le> 20
      | Sleeping k start until \<Rightarrow> start + lock_pause * k \<le> until \<and> k \<le> 20 \<and> 0 < k
      | Refused k start \<Rightarrow> start + lock_timeout \<le> now \<and> k \<le> 21
      | _ \<Rightarrow> True)"

definition lock_inv :: "lock_world \<Rightarrow> bool" where
  "lock_inv w \<longleftrightarrow> list_all (locker_ok (lw_clock w)) (lw_lockers w)
     \<and> (\<forall>i < length (lw_lockers w). lw_lockers w ! i = Holding \<longleftrightarrow> lw_holder w = Some i)
     \<and> (\<forall>i. lw_holder w = Some i \<longrightarrow> i < length (lw_lockers w))"

inductive_cases lock_stepE: "lock_step w w'"

lemma locker_ok_later: "locker_ok now l \<Longrightarrow> now \<le> later \<Longrightarrow> locker_ok later l"
  by (cases l) (auto simp: locker_ok_def)

lemma lock_inv_update:
  assumes "lock_inv w" "i < length (lw_lockers w)" "lw_lockers w ! i \<noteq> Holding" "l \<noteq> Holding" "locker_ok (lw_clock w) l"
  shows "lock_inv (w\<lparr>lw_lockers := (lw_lockers w)[i := l]\<rparr>)"
proof -
  have "list_all (locker_ok (lw_clock w)) ((lw_lockers w)[i := l])"
    using assms(1,5) set_update_subset_insert [of "lw_lockers w" i l] by (auto simp: lock_inv_def list_all_iff)
  moreover have "lw_holder w \<noteq> Some i" using assms(1-3) by (auto simp: lock_inv_def)
  ultimately show ?thesis using assms(1,2,4) by (auto simp: lock_inv_def nth_list_update)
qed

lemma lock_inv_step: "lock_step w w' \<Longrightarrow> lock_inv w \<Longrightarrow> lock_inv w'"
proof (erule lock_stepE)
  assume inv: "lock_inv w" and "w' = w\<lparr>lw_lockers := lw_lockers w @ [Trying 0 (lw_clock w)]\<rparr>"
  then show "lock_inv w'" by (auto simp: lock_inv_def locker_ok_def nth_append less_Suc_eq)
next
  fix i k start failure
  assume inv: "lock_inv w" and i: "i < length (lw_lockers w)" "lw_lockers w ! i = Trying k start" and w': "w' = try_once failure i w"
  then have ok: "start + lock_pause * k \<le> lw_clock w" "k \<le> 20"
    by (auto simp: lock_inv_def list_all_length locker_ok_def dest!: spec [of _ i])
  show "lock_inv w'"
  proof (cases "failure = None \<and> lw_holder w = None")
    case True
    have "list_all (locker_ok (lw_clock w)) ((lw_lockers w)[i := Holding])"
      using inv set_update_subset_insert [of "lw_lockers w" i Holding] by (auto simp: lock_inv_def list_all_iff locker_ok_def)
    then show ?thesis using True inv i w' by (auto simp: try_once_def lock_inv_def nth_list_update)
  next
    case False
    have "k < 20" if "\<not> start + lock_timeout \<le> lw_clock w"
      using that ok by (simp add: lock_timeout_def lock_pause_def)
    then show ?thesis
      using False w' i ok lock_inv_update [OF inv i(1)]
      by (auto simp: try_once_def locker_ok_def lock_pause_def split: option.splits)
  qed
next
  fix i k start until
  assume inv: "lock_inv w" and i: "i < length (lw_lockers w)" "lw_lockers w ! i = Sleeping k start until"
    and later: "until \<le> lw_clock w" and w': "w' = w\<lparr>lw_lockers := (lw_lockers w)[i := Trying k start]\<rparr>"
  then have "locker_ok (lw_clock w) (Trying k start)"
    by (auto simp: lock_inv_def list_all_length locker_ok_def dest!: spec [of _ i])
  then show "lock_inv w'" using lock_inv_update [OF inv i(1)] i(2) w' by simp
next
  fix i
  assume inv: "lock_inv w" and i: "i < length (lw_lockers w)" "lw_lockers w ! i = Holding"
    and w': "w' = w\<lparr>lw_lockers := (lw_lockers w)[i := Dropped], lw_holder := None\<rparr>"
  then have "list_all (locker_ok (lw_clock w)) ((lw_lockers w)[i := Dropped])"
    using set_update_subset_insert [of "lw_lockers w" i Dropped] by (auto simp: lock_inv_def list_all_iff locker_ok_def)
  then show "lock_inv w'" using inv i w' by (auto simp: lock_inv_def nth_list_update)
next
  fix ms
  assume "lock_inv w" "w' = w\<lparr>lw_clock := lw_clock w + ms\<rparr>"
  then show "lock_inv w'" by (auto simp: lock_inv_def list_all_iff intro: locker_ok_later)
qed

lemma lock_reached: "lock_step\<^sup>*\<^sup>* no_lockers w \<Longrightarrow> lock_inv w"
proof (induction rule: rtranclp_induct)
  case base show ?case by (simp add: lock_inv_def no_lockers_def)
next
  case (step v w) then show ?case using lock_inv_step by blast
qed

text \<open>
   C23.  Whatever processes arrive and however their steps are mixed, at most one holds the lock, and no process is
  refused before two seconds have passed or after more than 21 tries.
\<close>

theorem lock_exclusive:
  assumes "lock_step\<^sup>*\<^sup>* no_lockers w" "i < length (lw_lockers w)"
  shows "case lw_lockers w ! i of
      Holding \<Rightarrow> \<forall>j < length (lw_lockers w). lw_lockers w ! j = Holding \<longrightarrow> j = i
    | Refused k start \<Rightarrow> k \<le> 21 \<and> start + 2000 \<le> lw_clock w
    | Trying k start \<Rightarrow> k \<le> 20
    | _ \<Rightarrow> True"
proof -
  have inv: "lock_inv w" using assms(1) by (rule lock_reached)
  then have "locker_ok (lw_clock w) (lw_lockers w ! i)" using assms(2) by (simp add: lock_inv_def list_all_length)
  then show ?thesis using inv assms(2) by (auto simp: locker_ok_def lock_timeout_def lock_inv_def split: locker.split)
qed

theorem lock_exclusive_witness:
  "lock_step\<^sup>*\<^sup>* no_lockers \<lparr>lw_clock = 0, lw_holder = Some 0, lw_lockers = [Holding, Trying 0 0]\<rparr>
   \<and> {j. j < 2 \<and> [Holding, Trying 0 0] ! j = Holding} = {0}"
proof -
  let ?one = "\<lparr>lw_clock = 0, lw_holder = None, lw_lockers = [Trying 0 0]\<rparr>"
    and ?two = "\<lparr>lw_clock = 0, lw_holder = None, lw_lockers = [Trying 0 0, Trying 0 0]\<rparr>"
    and ?held = "\<lparr>lw_clock = 0, lw_holder = Some 0, lw_lockers = [Holding, Trying 0 0]\<rparr>"
  have "lock_step no_lockers ?one" using arrive [of no_lockers] by (simp add: no_lockers_def)
  moreover have "lock_step ?one ?two" using arrive [of ?one] by simp
  moreover have "lock_step ?two ?held" using attempt [of 0 ?two 0 0 None] by (simp add: try_once_def)
  ultimately have run: "lock_step\<^sup>*\<^sup>* no_lockers ?held"
    by (meson converse_rtranclp_into_rtranclp rtranclp.rtrancl_refl)
  have "\<forall>j < length (lw_lockers ?held). lw_lockers ?held ! j = Holding \<longrightarrow> j = 0"
    using lock_exclusive [OF run, of 0] by simp
  then have "{j. j < 2 \<and> [Holding, Trying 0 0] ! j = Holding} = {0}" by (auto simp: numeral_2_eq_2)
  with run show ?thesis by blast
qed

end
