(* ===== verification/Answer_Cache.thy ===== *)
theory Answer_Cache
  imports Match_Prompts
begin

text \<open>
  The cache of AI answers (\<open>src/services/ai/cache.rs\<close>): a map from keys to answers with the time they were stored.
  Times are nanoseconds of the system clock, which may go back; the hasher is a parameter.
\<close>

record CacheEntry =
  ce_data :: MatchResult
  ce_created_at :: nat

record AICache =
  ac_entries :: "(str, CacheEntry) map"
  ac_ttl :: nat

definition cache_new :: "nat \<Rightarrow> AICache" where
  "cache_new ttl = \<lparr>ac_entries = Map.empty, ac_ttl = ttl\<rparr>"

text \<open>\<open>elapsed\<close> is an error when the clock went back; then the age counts as the largest duration.\<close>

definition entry_age :: "nat \<Rightarrow> CacheEntry \<Rightarrow> nat" where
  "entry_age now e = (if ce_created_at e \<le> now then now - ce_created_at e else (2 ^ 64 - 1) * 10 ^ 9 + 999999999)"

definition cache_get :: "nat \<Rightarrow> AICache \<Rightarrow> str \<Rightarrow> MatchResult option" where
  "cache_get now c key =
     (case ac_entries c key of
        Some e \<Rightarrow> if entry_age now e < ac_ttl c then Some (ce_data e) else None
      | None \<Rightarrow> None)"

definition cache_set :: "nat \<Rightarrow> AICache \<Rightarrow> str \<Rightarrow> MatchResult \<Rightarrow> AICache" where
  "cache_set now c key data = c\<lparr>ac_entries := (ac_entries c)(key \<mapsto> \<lparr>ce_data = data, ce_created_at = now\<rparr>)\<rparr>"

fun show_hex :: "nat \<Rightarrow> str" where
  "show_hex n =
     (let d = [''0123456789abcdef'' ! (n mod 16)] in if n < 16 then d else show_hex (n div 16) @ d)"

declare show_hex.simps [simp del]

definition generate_key :: "(str list \<Rightarrow> str list \<Rightarrow> nat) \<Rightarrow> AnalysisRequest \<Rightarrow> str" where
  "generate_key hasher request = show_hex (hasher (req_video_files request) (req_subtitle_files request))"

section \<open>What is read\<close>

text \<open>A key gives the answer last stored under it until that is as old as the time to live, and no other.\<close>

lemma get_after_set:
  "cache_get now (cache_set stored c key data) key = (if entry_age now \<lparr>ce_data = data, ce_created_at = stored\<rparr> < ac_ttl c then Some data else None)"
  "key' \<noteq> key \<Longrightarrow> cache_get now (cache_set stored c key data) key' = cache_get now c key'"
  "cache_get now (cache_new ttl) key = None"
  by (simp_all add: cache_get_def cache_set_def cache_new_def split: option.split)

text \<open>
  Requests that differ in their content samples only have one key: the answer to one of them is served for the
  other.
\<close>

lemma samples_share_key:
  assumes "req_video_files a = req_video_files b" "req_subtitle_files a = req_subtitle_files b"
    and "stored \<le> now" "now - stored < ac_ttl c"
  shows "cache_get now (cache_set stored c (generate_key hasher a) data) (generate_key hasher b) = Some data"
  using assms by (simp add: generate_key_def get_after_set entry_age_def)

end
