(* ===== verification/File_Info.thy ===== *)
theory File_Info
  imports Language_Detect Subtitle_Types Encoding_Properties
begin

text \<open>
  What the matcher knows of a file from its path (\<open>FileInfo\<close> of \<open>src/core/matcher/mod.rs\<close>): its place below the
  root of a scan, its language, and a name to compare with others.
\<close>

section \<open>Files\<close>

record FileInfo =
  fi_name :: str
  fi_relative_path :: str
  fi_full_path :: path
  fi_directory :: str
  fi_depth :: nat
  fi_language :: "LanguageInfo option"

definition text_or_empty :: "str option \<Rightarrow> str" where
  "text_or_empty s = (case s of Some t \<Rightarrow> if valid_utf8 t then t else [] | None \<Rightarrow> [])"

definition path_below :: "path \<Rightarrow> path \<Rightarrow> path option" where
  "path_below p base =
     (if path_starts_with p base then Some \<lparr>absolute = False, comps = drop (length (comps base)) (comps p)\<rparr> else None)"

definition slashes :: "str \<Rightarrow> nat" where
  "slashes s = length (filter (\<lambda>c. c = CHR ''/'') s)"

definition file_info :: "(str \<Rightarrow> str) \<Rightarrow> regex_crate \<Rightarrow> path \<Rightarrow> path \<Rightarrow> FileInfo res" where
  "file_info lower eng full_path root_path =
     (case path_below full_path root_path of
        None \<Rightarrow> Inl (Other ''prefix not found'')
      | Some rel \<Rightarrow>
          (let relative_path = replace_str [backslash] ''/'' (from_utf8_lossy (path_display rel)) in
           Inr \<lparr>fi_name = text_or_empty (file_name full_path), fi_relative_path = relative_path, fi_full_path = full_path,
             fi_directory = text_or_empty (Option.bind (parent full_path) file_name), fi_depth = slashes relative_path,
             fi_language = detect_from_path lower eng full_path\<rparr>))"

definition info_extension :: "(str \<Rightarrow> str) \<Rightarrow> FileInfo \<Rightarrow> str" where
  "info_extension lower f = lower (text_or_empty (extension (fi_full_path f)))"

definition stem :: "FileInfo \<Rightarrow> str" where
  "stem f = text_or_empty (file_stem (fi_full_path f))"

definition is_in_root :: "FileInfo \<Rightarrow> bool" where
  "is_in_root f \<longleftrightarrow> fi_depth f = 0"

definition has_language :: "FileInfo \<Rightarrow> bool" where
  "has_language f \<longleftrightarrow> fi_language f \<noteq> None"

definition language_code :: "FileInfo \<Rightarrow> str option" where
  "language_code f = map_option lang_code (fi_language f)"

section \<open>Names to compare\<close>

definition quality_patterns :: "str list" where
  "quality_patterns = [''1080p'', ''720p'', ''480p'', ''4k'', ''2160p'', ''bluray'', ''webrip'', ''hdtv'', ''dvdrip'',
     ''x264'', ''x265'', ''h264'', ''h265'']"

text \<open>
  \<open>\[.*?\]|\(.*?\)\<close>: what \<open>.*?\<close> matches before the first closing bracket is a run of characters that are neither
  that bracket nor a newline.
\<close>

definition bracket_alt :: "char \<Rightarrow> char \<Rightarrow> rx_alt" where
  "bracket_alt opening closing = (NoAnchor, [lit opening,
     \<lparr>group = 0, rep_min = 0, rep_max = None, cls = CNot [closing, CHR 0x0A]\<rparr>, lit closing])"

definition release_group_rx :: rx where
  "release_group_rx = [bracket_alt (CHR ''['') (CHR '']''), bracket_alt (CHR ''('') (CHR '')'')]"

definition without_separators :: "str \<Rightarrow> str" where
  "without_separators s = map (\<lambda>c. if c \<in> {CHR ''.'', CHR ''_'', CHR ''-''} then CHR '' '' else c) s"

definition normalized_name :: "(str \<Rightarrow> str) \<Rightarrow> regex_crate \<Rightarrow> FileInfo \<Rightarrow> str" where
  "normalized_name lower eng f =
     (let name = without_separators (lower (stem f));
          name = fold (\<lambda>pattern s. replace_str pattern [] s) quality_patterns name
      in join '' '' (split_whitespace (replace_all eng release_group_rx (\<lambda>_. []) name)))"

section \<open>Depths\<close>

lemma slashes_append [simp]: "slashes (a @ b) = slashes a + slashes b"
  by (simp add: slashes_def)

definition backslashes :: "str \<Rightarrow> nat" where
  "backslashes s = length (filter (\<lambda>c. c = backslash) s)"

lemma slashes_replaced: "slashes (replace_str [backslash] ''/'' s) = slashes s + backslashes s"
proof (induction s)
  case Nil then show ?case by (simp add: slashes_def backslashes_def)
next
  case (Cons c s)
  have "backslash \<noteq> CHR ''/''" by code_simp
  with Cons show ?case by (auto simp: slashes_def backslashes_def)
qed

lemma slashes_joined:
  "list_all plain_name cs \<Longrightarrow> slashes (join ''/'' cs) = length cs - 1"
proof (induction cs)
  case Nil then show ?case by (simp add: slashes_def)
next
  case (Cons c cs)
  then have "slashes c = 0" by (auto simp: slashes_def plain_name_def filter_empty_conv)
  then show ?case using Cons by (cases cs) (simp_all add: slashes_def)
qed

text \<open>
  The depth of a file is the number of directories between it and the root, and one more for every backslash in
  the part of its path below the root.
\<close>

lemma file_depth:
  assumes "file_info lower eng p base = Inr f" "list_all plain_name (comps p)"
    and "valid_utf8 (join ''/'' (drop (length (comps base)) (comps p)))"
  shows "fi_depth f = length (comps p) - length (comps base) - 1 + backslashes (join ''/'' (drop (length (comps base)) (comps p)))"
proof -
  let ?rel = "drop (length (comps base)) (comps p)"
  have "list_all plain_name ?rel" using assms(2) by (auto simp: list_all_iff dest: in_set_dropD)
  then show ?thesis
    using assms(1,3) slashes_joined [of ?rel]
    by (auto simp: file_info_def path_below_def path_display_def lossy_valid slashes_replaced Let_def
        split: option.splits if_splits)
qed

end
